(* ===== verification/KG_Prelude.thy ===== *)
theory KG_Prelude
  imports Main "HOL-Library.Word" "HOL-Library.Char_ord" "HOL-Library.List_Lexorder"
begin

text \<open>
  What every component of the Keygate model shares: Go's 64-bit integers and
  \<^verbatim>\<open>time.Time\<close>/\<^verbatim>\<open>time.Duration\<close> arithmetic, the ASCII part of the string functions the
  sources call (\<^verbatim>\<open>strings.ToLower\<close>, \<^verbatim>\<open>strings.ToUpper\<close>, \<^verbatim>\<open>strings.TrimSpace\<close>,
  \<^verbatim>\<open>strings.Split\<close>, \<^verbatim>\<open>strings.Join\<close>), and database tables as lists of rows with the four
  SQL statements the store uses on them (select one, count, update where, delete where).

  A \<^verbatim>\<open>time.Time\<close> is a number of nanoseconds since the Unix epoch, a \<^verbatim>\<open>time.Duration\<close> a
  number of nanoseconds; \<^verbatim>\<open>*time.Time\<close> is an option. A nullable text column that Go reads
  as the empty string (\<^verbatim>\<open>bun:",nullzero"\<close>) is a string that is empty when the column is NULL.
\<close>

named_theorems time_simps "unfolding of Go time and duration arithmetic"
named_theorems tbl_simps "rewrite rules for the table operations"

text \<open>A value of a Go \<^verbatim>\<open>map[string]any\<close> built for a log line, an error or an event.\<close>

datatype detail = DInt int | DStr string | DBool bool

section \<open>Go's int64\<close>

definition MaxInt64 :: int where
  "MaxInt64 = 2 ^ 63 - 1"

definition wrap64 :: "int \<Rightarrow> int" where
  "wrap64 n = (n + 2 ^ 63) mod 2 ^ 64 - 2 ^ 63"

lemma wrap64_id [simp]: "- (2 ^ 63) \<le> n \<Longrightarrow> n < 2 ^ 63 \<Longrightarrow> wrap64 n = n"
  by (simp add: wrap64_def)

lemma wrap64_range: "- (2 ^ 63) \<le> wrap64 n \<and> wrap64 n \<le> MaxInt64"
proof -
  have "0 \<le> (n + 2 ^ 63) mod 2 ^ 64" "(n + 2 ^ 63) mod 2 ^ 64 < 2 ^ 64"
    by simp_all
  then show ?thesis by (simp add: wrap64_def MaxInt64_def)
qed

section \<open>Time\<close>

type_synonym time = int
type_synonym duration = int

definition Nanosecond :: duration where "Nanosecond = 1"
definition Second :: duration where "Second = 1000000000"
definition Minute :: duration where "Minute = 60 * Second"
definition Hour :: duration where "Hour = 60 * Minute"

lemmas duration_defs [time_simps] = Nanosecond_def Second_def Minute_def Hour_def

text \<open>
  \<^verbatim>\<open>t.Sub(u)\<close> saturates at the ends of the int64 range (an unset \<^verbatim>\<open>time.Time\<close> is the
  year 1, whose distance to now does not fit); \<^verbatim>\<open>t.Add(d)\<close> is exact.
\<close>

definition time_zero :: time where
  "time_zero = - 62135596800 * Second"

definition time_sub :: "time \<Rightarrow> time \<Rightarrow> duration" where
  "time_sub t u = max (- (2 ^ 63)) (min MaxInt64 (t - u))"

definition time_add :: "time \<Rightarrow> duration \<Rightarrow> time" where
  [time_simps]: "time_add t d = t + d"

text \<open>\<^verbatim>\<open>time.Duration(n) * 24 * time.Hour\<close>, wrapping as Go's multiplication does.\<close>

definition days_dur :: "int \<Rightarrow> duration" where
  "days_dur n = wrap64 (n * 24 * Hour)"

definition unix_seconds :: "time \<Rightarrow> int" where
  "unix_seconds t = t div Second"

lemma days_dur_exact: "0 \<le> n \<Longrightarrow> n \<le> 106751 \<Longrightarrow> days_dur n = n * 24 * Hour"
  by (simp add: days_dur_def duration_defs)

lemma days_dur_0 [simp]: "days_dur 0 = 0"
  by (simp add: days_dur_def)

lemma days_dur_nonneg: "0 \<le> n \<Longrightarrow> n \<le> 106751 \<Longrightarrow> 0 \<le> days_dur n"
  by (simp add: days_dur_exact duration_defs)

lemma unix_seconds_mono: "t \<le> u \<Longrightarrow> unix_seconds t \<le> unix_seconds u"
  by (simp add: unix_seconds_def Second_def zdiv_mono1)

section \<open>Strings\<close>

text \<open>
  The case mappings and the white space are those of ASCII: license keys, identifiers and
  e-mail addresses are ASCII in every path modelled here, and a byte of 128 or more is left
  alone.
\<close>

definition char_code :: "char \<Rightarrow> nat" where
  "char_code c = of_char c"

definition lower_char :: "char \<Rightarrow> char" where
  "lower_char c = (if 65 \<le> char_code c \<and> char_code c \<le> 90 then char_of (char_code c + 32) else c)"

definition upper_char :: "char \<Rightarrow> char" where
  "upper_char c = (if 97 \<le> char_code c \<and> char_code c \<le> 122 then char_of (char_code c - 32) else c)"

definition to_lower :: "string \<Rightarrow> string" where
  "to_lower s = map lower_char s"

definition to_upper :: "string \<Rightarrow> string" where
  "to_upper s = map upper_char s"

definition is_space :: "char \<Rightarrow> bool" where
  "is_space c \<longleftrightarrow> char_code c = 32 \<or> (9 \<le> char_code c \<and> char_code c \<le> 13)"

definition trim_space :: "string \<Rightarrow> string" where
  "trim_space s = rev (dropWhile is_space (rev (dropWhile is_space s)))"

definition equal_fold :: "string \<Rightarrow> string \<Rightarrow> bool" where
  "equal_fold s t \<longleftrightarrow> to_lower s = to_lower t"

lemma char_code_of [simp]: "n < 256 \<Longrightarrow> char_code (char_of n) = n"
  by (simp add: char_code_def)

lemma char_code_less [simp]: "char_code c < 256"
  by (simp add: char_code_def of_char_eq_iff)

lemma lower_char_idem [simp]: "lower_char (lower_char c) = lower_char c"
  by (simp add: lower_char_def)

lemma upper_char_idem [simp]: "upper_char (upper_char c) = upper_char c"
proof (cases "97 \<le> char_code c \<and> char_code c \<le> 122")
  case True
  then have "char_code c - 32 < 256" by linarith
  then have "char_code (char_of (char_code c - 32)) = char_code c - 32" by (rule char_code_of)
  with True show ?thesis by (auto simp: upper_char_def)
next
  case False
  then show ?thesis by (auto simp: upper_char_def)
qed

lemma to_lower_idem [simp]: "to_lower (to_lower s) = to_lower s"
  by (simp add: to_lower_def)

lemma to_upper_idem [simp]: "to_upper (to_upper s) = to_upper s"
  by (simp add: to_upper_def)

lemma is_space_upper [simp]: "is_space (upper_char c) = is_space c"
  by (auto simp: is_space_def upper_char_def)

lemma upper_lower_char [simp]: "upper_char (lower_char c) = upper_char c"
  by (auto simp: upper_char_def lower_char_def char_code_def)

lemma dropWhile_map_upper:
  "dropWhile is_space (map upper_char s) = map upper_char (dropWhile is_space s)"
  by (induction s) auto

lemma trim_space_upper: "trim_space (to_upper s) = to_upper (trim_space s)"
  by (simp add: trim_space_def to_upper_def dropWhile_map_upper rev_map)

lemma dropWhile_idem [simp]: "dropWhile P (dropWhile P xs) = dropWhile P xs"
  by (induction xs) auto

text \<open>\<^verbatim>\<open>strings.Split(s, sep)\<close> for a one-byte separator and \<^verbatim>\<open>strings.Join\<close>.\<close>

fun split_on :: "char \<Rightarrow> string \<Rightarrow> string list" where
  "split_on c [] = [[]]"
| "split_on c (x # xs) =
     (if x = c then [] # split_on c xs
      else (case split_on c xs of [] \<Rightarrow> [[x]] | seg # segs \<Rightarrow> (x # seg) # segs))"

fun join_with :: "string \<Rightarrow> string list \<Rightarrow> string" where
  "join_with sep [] = []"
| "join_with sep [s] = s"
| "join_with sep (s # t # ts) = s @ sep @ join_with sep (t # ts)"

lemma split_on_nonempty [simp]: "split_on c s \<noteq> []"
  by (induction s) (auto split: list.splits)

lemma split_on_append:
  "c \<notin> set s \<Longrightarrow> split_on c (s @ c # t) = s # split_on c t"
  by (induction s) auto

lemma split_on_plain: "c \<notin> set s \<Longrightarrow> split_on c s = [s]"
  by (induction s) auto

lemma split_on_join:
  assumes "ss \<noteq> []" and "\<forall>s \<in> set ss. c \<notin> set s"
  shows "split_on c (join_with [c] ss) = ss"
  using assms
proof (induction "[c]" ss rule: join_with.induct)
  case (3 s t ts)
  then show ?case by (simp add: split_on_append)
qed (simp_all add: split_on_plain)

section \<open>Tables\<close>

text \<open>
  A table is the list of its rows in the order they were inserted. \<open>select_one\<close> is a
  \<^verbatim>\<open>SELECT ... LIMIT 1\<close> (or one on a unique column), \<open>first_by\<close> one with an
  \<^verbatim>\<open>ORDER BY\<close>, \<open>count_where\<close> a \<^verbatim>\<open>SELECT COUNT(*)\<close>, \<open>update_where\<close> and
  \<open>delete_where\<close> the two writes.
\<close>

definition select_one :: "('a \<Rightarrow> bool) \<Rightarrow> 'a list \<Rightarrow> 'a option" where
  "select_one P rows = List.find P rows"

definition first_by :: "('a \<Rightarrow> 'k::linorder) \<Rightarrow> 'a list \<Rightarrow> 'a option" where
  "first_by k rows = (case sort_key k rows of [] \<Rightarrow> None | r # _ \<Rightarrow> Some r)"

definition count_where :: "('a \<Rightarrow> bool) \<Rightarrow> 'a list \<Rightarrow> int" where
  "count_where P rows = int (length (filter P rows))"

definition update_where :: "('a \<Rightarrow> bool) \<Rightarrow> ('a \<Rightarrow> 'a) \<Rightarrow> 'a list \<Rightarrow> 'a list" where
  "update_where P f rows = map (\<lambda>r. if P r then f r else r) rows"

definition delete_where :: "('a \<Rightarrow> bool) \<Rightarrow> 'a list \<Rightarrow> 'a list" where
  "delete_where P rows = filter (\<lambda>r. \<not> P r) rows"

definition exists_where :: "('a \<Rightarrow> bool) \<Rightarrow> 'a list \<Rightarrow> bool" where
  "exists_where P rows = list_ex P rows"

lemma select_one_SomeD:
  "select_one P rows = Some r \<Longrightarrow> r \<in> set rows \<and> P r"
  by (auto simp: select_one_def find_Some_iff)

lemma select_one_None_iff: "select_one P rows = None \<longleftrightarrow> (\<forall>r \<in> set rows. \<not> P r)"
  by (auto simp: select_one_def find_None_iff)

lemma select_one_cong_set:
  "(\<And>r. r \<in> set rows \<Longrightarrow> P r = Q r) \<Longrightarrow> select_one P rows = select_one Q rows"
  by (simp add: select_one_def cong: find_cong)

lemma first_by_SomeD: "first_by k rows = Some r \<Longrightarrow> r \<in> set rows"
proof -
  assume "first_by k rows = Some r"
  then obtain rs where "sort_key k rows = r # rs"
    by (auto simp: first_by_def split: list.splits)
  then have "r \<in> set (sort_key k rows)" by simp
  then show ?thesis by simp
qed

lemma first_by_None_iff [simp]: "first_by k rows = None \<longleftrightarrow> rows = []"
proof -
  have "sort_key k rows = [] \<longleftrightarrow> rows = []"
    by (metis length_0_conv length_sort)
  then show ?thesis by (auto simp: first_by_def split: list.splits)
qed

lemma first_by_Nil [simp]: "first_by k [] = None"
  by simp

lemma count_where_nonneg [simp]: "0 \<le> count_where P rows"
  by (simp add: count_where_def)

lemma count_where_Nil [tbl_simps, simp]: "count_where P [] = 0"
  by (simp add: count_where_def)

lemma count_where_Cons [tbl_simps]:
  "count_where P (r # rows) = (if P r then 1 else 0) + count_where P rows"
  by (simp add: count_where_def)

lemma count_where_append [tbl_simps]:
  "count_where P (xs @ ys) = count_where P xs + count_where P ys"
  by (simp add: count_where_def)

lemma count_where_zero_iff: "count_where P rows = 0 \<longleftrightarrow> (\<forall>r \<in> set rows. \<not> P r)"
  by (simp add: count_where_def filter_empty_conv)

lemma count_where_mono:
  "(\<And>r. r \<in> set rows \<Longrightarrow> P r \<Longrightarrow> Q r) \<Longrightarrow> count_where P rows \<le> count_where Q rows"
  by (induction rows) (auto simp: count_where_Cons)

lemma count_where_cong:
  "(\<And>r. r \<in> set rows \<Longrightarrow> P r = Q r) \<Longrightarrow> count_where P rows = count_where Q rows"
  by (simp add: count_where_def cong: filter_cong)

lemma count_where_update:
  "(\<And>r. r \<in> set rows \<Longrightarrow> Q r \<Longrightarrow> P (f r) = P r) \<Longrightarrow>
   count_where P (update_where Q f rows) = count_where P rows"
  by (induction rows) (auto simp: count_where_Cons update_where_def)

lemma count_where_update_mono:
  "(\<And>r. r \<in> set rows \<Longrightarrow> P r \<Longrightarrow> Q r \<Longrightarrow> P (f r)) \<Longrightarrow> count_where P rows \<le> count_where P (update_where Q f rows)"
  by (induction rows) (auto simp: count_where_Cons update_where_def)

lemma count_where_one_key:
  "distinct (map k rows) \<Longrightarrow> \<forall>r \<in> set rows. P r \<longrightarrow> k r = v \<Longrightarrow> count_where P rows \<le> 1"
proof (induction rows)
  case (Cons r rows)
  have "count_where P rows = 0" if "P r"
    unfolding count_where_zero_iff using Cons.prems that by (auto simp: rev_image_eqI)
  with Cons show ?case by (auto simp: count_where_Cons)
qed simp

lemma count_where_delete_le: "count_where P (delete_where Q rows) \<le> count_where P rows"
  by (induction rows) (auto simp: count_where_Cons delete_where_def)

lemma set_delete_where [simp]: "set (delete_where P rows) = {r \<in> set rows. \<not> P r}"
  by (auto simp: delete_where_def)

lemma update_where_Nil [simp]: "update_where P f [] = []"
  and update_where_Cons: "update_where P f (r # rows) = (if P r then f r else r) # update_where P f rows"
  by (simp_all add: update_where_def)

lemma set_update_where: "set (update_where P f rows) = (\<lambda>r. if P r then f r else r) ` set rows"
  by (simp add: update_where_def)

lemma updated_row_of: "x \<in> set (update_where P f rows) \<Longrightarrow> \<exists>r \<in> set rows. x = (if P r then f r else r)"
  by (auto simp: update_where_def)

lemma ball_update_where:
  "(\<forall>r \<in> set (update_where P f rows). Q r) \<longleftrightarrow> (\<forall>r \<in> set rows. (P r \<longrightarrow> Q (f r)) \<and> (\<not> P r \<longrightarrow> Q r))"
  by (induction rows) (auto simp: update_where_def)

lemma filter_update_other:
  "(\<And>r. P r \<Longrightarrow> \<not> Q r) \<Longrightarrow> (\<And>r. P r \<Longrightarrow> \<not> Q (f r)) \<Longrightarrow> filter Q (update_where P f rows) = filter Q rows"
  by (induction rows) (auto simp: update_where_def)

lemma update_where_none: "(\<forall>r \<in> set rows. \<not> P r) \<Longrightarrow> update_where P f rows = rows"
  by (induction rows) (auto simp: update_where_def)

lemma exists_where_iff [simp]: "exists_where P rows \<longleftrightarrow> (\<exists>r \<in> set rows. P r)"
  by (simp add: exists_where_def list_ex_iff)

lemma map_update_where:
  "(\<And>r. r \<in> set rows \<Longrightarrow> P r \<Longrightarrow> k (f r) = k r) \<Longrightarrow> map k (update_where P f rows) = map k rows"
  by (simp add: update_where_def)

text \<open>A unique column stays unique when the one row an update hits gets a value no row had.\<close>

lemma distinct_map_update:
  assumes "distinct (map k rows)"
    and "\<And>r r'. r \<in> set rows \<Longrightarrow> r' \<in> set rows \<Longrightarrow> P r \<Longrightarrow> P r' \<Longrightarrow> r = r'"
    and "\<And>r r'. r \<in> set rows \<Longrightarrow> r' \<in> set rows \<Longrightarrow> P r \<Longrightarrow> k r' \<noteq> k (f r)"
  shows "distinct (map k (update_where P f rows))"
  using assms
proof (induction rows)
  case (Cons r rows)
  have "distinct (map k (update_where P f rows))" using Cons by (intro Cons.IH) auto
  moreover have "k (if P r then f r else r) \<noteq> k (if P x then f x else x)" if "x \<in> set rows" for x
  proof (cases "P r")
    case True
    then have "P x \<Longrightarrow> r = x" using Cons.prems(2) [of r x] that by simp
    moreover have "k x \<noteq> k r" using Cons.prems(1) that by (auto simp: rev_image_eqI)
    moreover have "k x \<noteq> k (f r)" using Cons.prems(3) [of r x] that True by simp
    ultimately show ?thesis using True by auto
  next
    case False
    moreover have "k x \<noteq> k r" using Cons.prems(1) that by (auto simp: rev_image_eqI)
    moreover have "P x \<Longrightarrow> k r \<noteq> k (f x)" using Cons.prems(3) [of x r] that by simp
    ultimately show ?thesis by auto
  qed
  then have "k (if P r then f r else r) \<notin> (\<lambda>x. k (if P x then f x else x)) ` set rows" by blast
  then have "k (if P r then f r else r) \<notin> set (map k (update_where P f rows))" unfolding update_where_def set_map image_image .
  ultimately show ?case by (simp add: update_where_def)
qed (simp add: update_where_def)

lemma distinct_map_delete_where:
  "distinct (map k rows) \<Longrightarrow> distinct (map k (delete_where P rows))"
  by (simp add: delete_where_def distinct_map_filter)

text \<open>A row selected by a column that is unique in the table is the only one that matches.\<close>

lemma unique_column:
  "distinct (map k rows) \<Longrightarrow> r \<in> set rows \<Longrightarrow> r' \<in> set rows \<Longrightarrow> k r = k r' \<Longrightarrow> r = r'"
  by (auto simp: distinct_map inj_on_def)

lemma select_one_unique:
  "distinct (map k rows) \<Longrightarrow> r \<in> set rows \<Longrightarrow> k r = v \<Longrightarrow> select_one (\<lambda>r. k r = v) rows = Some r"
  by (induction rows) (auto simp: select_one_def)

lemma select_one_by_key:
  assumes "distinct (map k rows)" "r \<in> set rows" "Q r" "\<And>x. Q x \<Longrightarrow> k x = k r"
  shows "select_one Q rows = Some r"
proof -
  have "r' = r" if "select_one Q rows = Some r'" for r'
    using select_one_SomeD [OF that] assms(4) unique_column [OF assms(1) _ assms(2)] by blast
  moreover have "select_one Q rows \<noteq> None" using assms(2,3) by (auto simp: select_one_None_iff)
  ultimately show ?thesis by auto
qed

lemma join_split_on: "join_with [c] (split_on c s) = s"
proof (induction s)
  case (Cons x xs)
  obtain seg segs where seg: "split_on c xs = seg # segs" by (meson neq_Nil_conv split_on_nonempty)
  with Cons.IH have "join_with [c] (seg # segs) = xs" by simp
  with seg show ?case by (cases segs) auto
qed simp

end
