(* ===== verification/KG_Errors.thy ===== *)
theory KG_Errors
  imports KG_Prelude
begin

text \<open>
  Errors as values. \<open>error\<close> has one constructor per sentinel the store answers with, with
  \<open>ErrNoRows\<close> for \<^verbatim>\<open>sql.ErrNoRows\<close> and \<open>ErrDB\<close> for a failure of the database or its
  driver (a refused constraint included). \<open>AppError\<close> is \<^verbatim>\<open>pkg/apperr/errors.go\<close>, what the
  services answer with and the handlers turn into a status and an envelope.
\<close>

datatype error =
    ErrNoRows
  | ErrDB
  | ErrKeyRevoked
  | ErrSeatNotJoined
  | ErrAlreadyActivated
  | ErrDeviceMoved
  | ErrDeviceHeld
  | ErrActivationLimit
  | ErrFloatingLimitReached
  | ErrSessionHeld
  | ErrSeatLimitReached
  | ErrUpgradeCheckoutOpen
  | ErrUpgradeSeatLimit
  | ErrSeatInviteInvalid
  | ErrRenewalIneligible
  | ErrUsageQuantityTooLarge
  | ErrEncrypt
  | ErrAddonInactive
  | ErrRefreshTokenReused
  | ErrRefreshUserNotFound
  | ErrNotificationClaimLost
  | ErrIdempotencyBodyMismatch
  | ErrLastOwner
  | ErrNotOwner
  | ErrUserNotFound
  | ErrSubscriptionUnlinked
  | ErrLicenseRestricted
  | ErrStaleSubscriptionRead
  | ErrTermsHeld
  | ErrCheckoutSessionConflict
  | ErrStripe string
  | ErrWebhookInactive
  | ErrWebhookDeliveryNotResendable
  | ErrPrivateTarget
  | ErrUnresolvableTarget
  | ErrRenewalSessionConflict
  | ErrUpdatePeriodNotEnforceable
  | ErrPlanChanged
  | ErrSelfSignupClosed
  | ErrSelfSignupExists
  | ErrSelfSignupConflict
  | ErrSignupCapReached
  | ErrSecretEncryptionUnavailable
  | ErrTrialFallbackGone
  | ErrReleaseNotFound
  | ErrReleaseAlreadyExists
  | ErrProductNoReleases
  | ErrRefused string

text \<open>\<^verbatim>\<open>errors.Is\<close>: the one sentinel that wraps another is \<open>ErrDeviceMoved\<close>.\<close>

definition errors_is :: "error \<Rightarrow> error \<Rightarrow> bool" where
  "errors_is e target \<longleftrightarrow> e = target \<or> (e = ErrDeviceMoved \<and> target = ErrAlreadyActivated)"

type_synonym 'a result = "error + 'a"

record AppError =
  ae_Code :: string
  ae_Message :: string
  ae_Status :: int
  ae_Details :: "(string \<times> detail) list"
  ae_Cause :: "error option"

type_synonym 'a app_result = "AppError + 'a"

definition app_New :: "int \<Rightarrow> string \<Rightarrow> string \<Rightarrow> AppError" where
  "app_New status code message =
     \<lparr>ae_Code = code, ae_Message = message, ae_Status = status, ae_Details = [], ae_Cause = None\<rparr>"

definition app_Wrap :: "int \<Rightarrow> string \<Rightarrow> string \<Rightarrow> error \<Rightarrow> AppError" where
  "app_Wrap status code message cause =
     \<lparr>ae_Code = code, ae_Message = message, ae_Status = status, ae_Details = [], ae_Cause = Some cause\<rparr>"

definition app_WithDetails :: "AppError \<Rightarrow> (string \<times> detail) list \<Rightarrow> AppError" where
  "app_WithDetails e details = e\<lparr>ae_Details := details\<rparr>"

definition app_NotFound :: "string \<Rightarrow> string \<Rightarrow> AppError" where
  "app_NotFound entity id' =
     app_New 404 (entity @ ''_NOT_FOUND'') (entity @ '' '' @ [char_of (39 :: nat)] @ id' @ [char_of (39 :: nat)] @ '' not found'')"

definition app_BadRequest :: "string \<Rightarrow> AppError" where
  "app_BadRequest message = app_New 400 ''BAD_REQUEST'' message"

definition app_Unauthorized :: "string \<Rightarrow> AppError" where
  "app_Unauthorized message = app_New 401 ''UNAUTHORIZED'' message"

definition app_Forbidden :: "string \<Rightarrow> AppError" where
  "app_Forbidden message = app_New 403 ''FORBIDDEN'' message"

definition app_Conflict :: "string \<Rightarrow> string \<Rightarrow> AppError" where
  "app_Conflict code message = app_New 409 code message"

definition app_Internal :: "error \<Rightarrow> AppError" where
  "app_Internal cause = app_Wrap 500 ''INTERNAL_ERROR'' ''an internal error occurred'' cause"

lemmas app_error_defs =
  app_New_def app_Wrap_def app_WithDetails_def app_NotFound_def app_BadRequest_def
  app_Unauthorized_def app_Forbidden_def app_Conflict_def app_Internal_def

end
