(* ===== verification/KG_BruteForce.thy ===== *)
theory KG_BruteForce
  imports KG_Errors
begin

text \<open>
  Brute-force protection, \<^verbatim>\<open>internal/middleware/bruteforce.go\<close>: the per-address failure
  record, its lockouts with exponential backoff and the sweep that forgets quiet addresses.
  Every method runs under the tracker's mutex, so each is one step on the state; \<open>now\<close> is
  the \<^verbatim>\<open>time.Now()\<close> it reads. The Go interface \<^verbatim>\<open>FailureTracker\<close> of
  \<^verbatim>\<open>internal/service/license.go\<close>, which the licence service is written against, is the
  locale \<open>failure_tracker\<close>; \<open>BruteForceProtection\<close> interprets it.
\<close>

section \<open>State and operations\<close>

record attemptRecord =
  ar_failures :: int
  ar_firstFailure :: time
  ar_lockedUntil :: time
  ar_lockoutCount :: int

record BruteForceProtection =
  bf_attempts :: "string \<rightharpoonup> attemptRecord"
  bf_maxFails :: int
  bf_lockout :: duration
  bf_maxLockout :: duration
  bf_window :: duration

definition NewBruteForceProtection ::
  "int \<Rightarrow> duration \<Rightarrow> duration \<Rightarrow> duration \<Rightarrow> BruteForceProtection" where
  "NewBruteForceProtection maxFails lockout maxLockout window =
     \<lparr>bf_attempts = Map.empty, bf_maxFails = maxFails, bf_lockout = lockout,
      bf_maxLockout = maxLockout, bf_window = window\<rparr>"

definition zero_record :: attemptRecord where
  "zero_record = \<lparr>ar_failures = 0, ar_firstFailure = time_zero, ar_lockedUntil = time_zero,
                  ar_lockoutCount = 0\<rparr>"

text \<open>The doubling loop of a lockout; \<^verbatim>\<open>duration*2\<close> is an int64 product.\<close>

function backoff_loop :: "int \<Rightarrow> int \<Rightarrow> duration \<Rightarrow> duration \<Rightarrow> duration" where
  "backoff_loop i lockoutCount d maxLockout =
     (if i < lockoutCount \<and> d > 0 \<and> d < maxLockout
      then backoff_loop (i + 1) lockoutCount (min (wrap64 (d * 2)) maxLockout) maxLockout
      else d)"
  by pat_completeness auto
termination
  by (relation "measure (\<lambda>(i, n, d, m). nat (n - i))") auto

declare backoff_loop.simps [simp del]

definition fail_record :: "BruteForceProtection \<Rightarrow> time \<Rightarrow> attemptRecord \<Rightarrow> attemptRecord" where
  "fail_record bf now r0 =
     (if ar_lockedUntil r0 > now then r0
      else
        let r1 = (if time_sub now (ar_firstFailure r0) > bf_window bf
                  then let r = r0\<lparr>ar_failures := 0, ar_firstFailure := now\<rparr>
                       in if time_sub now (ar_lockedUntil r) > bf_maxLockout bf
                          then r\<lparr>ar_lockoutCount := 0\<rparr> else r
                  else r0);
            r2 = r1\<lparr>ar_failures := ar_failures r1 + 1\<rparr>
        in if ar_failures r2 \<ge> bf_maxFails bf
           then let d = backoff_loop 0 (ar_lockoutCount r2)
                          (min (bf_lockout bf) (bf_maxLockout bf)) (bf_maxLockout bf)
                in r2\<lparr>ar_lockedUntil := time_add now d,
                      ar_lockoutCount := ar_lockoutCount r2 + 1,
                      ar_failures := 0, ar_firstFailure := now\<rparr>
           else r2)"

definition RecordFailure :: "time \<Rightarrow> string \<Rightarrow> BruteForceProtection \<Rightarrow> BruteForceProtection" where
  "RecordFailure now key bf =
     (let r = (case bf_attempts bf key of None \<Rightarrow> zero_record | Some r \<Rightarrow> r)
      in bf\<lparr>bf_attempts := (bf_attempts bf)(key \<mapsto> fail_record bf now r)\<rparr>)"

definition RecordSuccess :: "string \<Rightarrow> BruteForceProtection \<Rightarrow> BruteForceProtection" where
  "RecordSuccess key bf = bf\<lparr>bf_attempts := (bf_attempts bf)(key := None)\<rparr>"

definition IsBlocked :: "time \<Rightarrow> string \<Rightarrow> BruteForceProtection \<Rightarrow> bool \<times> duration" where
  "IsBlocked now key bf =
     (case bf_attempts bf key of
        None \<Rightarrow> (False, 0)
      | Some r \<Rightarrow> if ar_lockedUntil r > now then (True, time_sub (ar_lockedUntil r) now)
                  else (False, 0))"

definition sweep_keeps :: "BruteForceProtection \<Rightarrow> time \<Rightarrow> attemptRecord \<Rightarrow> bool" where
  "sweep_keeps bf now r \<longleftrightarrow>
     ar_lockedUntil r > now \<or>
     (ar_lockoutCount r > 0 \<and> time_sub now (ar_lockedUntil r) \<le> bf_maxLockout bf) \<or>
     \<not> time_sub now (ar_firstFailure r) > wrap64 (bf_window bf * 4)"

definition sweep :: "time \<Rightarrow> BruteForceProtection \<Rightarrow> BruteForceProtection" where
  "sweep now bf = bf\<lparr>bf_attempts := (\<lambda>k. case bf_attempts bf k of
     None \<Rightarrow> None | Some r \<Rightarrow> if sweep_keeps bf now r then Some r else None)\<rparr>"

text \<open>
  \<^verbatim>\<open>max(int(math.Ceil(retryAfter.Seconds())), 1)\<close>; the floating-point seconds are exact for
  a duration of less than about fifty days, so the ceiling is the integer one.
\<close>

definition RetryAfterSeconds :: "duration \<Rightarrow> int" where
  "RetryAfterSeconds retryAfter = max (- ((- retryAfter) div Second)) 1"

definition FailureKeyIP :: "string \<Rightarrow> string" where
  "FailureKeyIP ip = ''ip:'' @ ip"

text \<open>The middleware answers 429 while the caller's address is locked out, else lets the request on.\<close>

definition LicenseBruteForceGuard ::
  "time \<Rightarrow> string \<Rightarrow> BruteForceProtection \<Rightarrow> unit app_result" where
  "LicenseBruteForceGuard now clientIP bf =
     (let (blocked, retryAfter) = IsBlocked now (FailureKeyIP clientIP) bf
      in if blocked
         then Inl (app_WithDetails (app_New 429 ''LOCKED_OUT'' ''too many failed attempts, please try again later'')
                     [(''retry_after'', DInt (RetryAfterSeconds retryAfter))])
         else Inr ())"

section \<open>The backoff\<close>

lemma backoff_loop_closed:
  assumes "0 \<le> i" "i \<le> n" "0 < d" "d \<le> m" "m \<le> 2 ^ 62"
  shows "backoff_loop i n d m = min (d * 2 ^ nat (n - i)) m"
  using assms
proof (induction i n d m rule: backoff_loop.induct)
  case (1 i n d m)
  show ?case
  proof (cases "i < n \<and> d < m")
    case True
    then have w: "wrap64 (d * 2) = d * 2" using "1.prems" by simp
    have n: "nat (n - i) = Suc (nat (n - (i + 1)))" using True by linarith
    have "backoff_loop i n d m = backoff_loop (i + 1) n (min (wrap64 (d * 2)) m) m"
      using True "1.prems" by (simp add: backoff_loop.simps [of i n d m])
    also have "\<dots> = min (min (d * 2) m * 2 ^ nat (n - (i + 1))) m"
      using True "1.prems" w by (subst "1.IH") auto
    also have "\<dots> = min (d * 2 * 2 ^ nat (n - (i + 1))) m"
    proof (cases "d * 2 \<le> m")
      case False
      have "m * 1 \<le> m * 2 ^ nat (n - (i + 1))" using "1.prems" by (intro mult_mono) auto
      moreover have "m * 1 \<le> d * 2 * 2 ^ nat (n - (i + 1))"
        using "1.prems" False by (intro mult_mono) auto
      ultimately show ?thesis using False by simp
    qed simp
    finally show ?thesis using n by (simp add: mult.assoc)
  next
    case False
    then show ?thesis
    proof (cases "i < n")
      case True
      with False "1.prems" have "d = m" by simp
      moreover have "m * 1 \<le> m * 2 ^ nat (n - i)" using "1.prems" by (intro mult_mono) auto
      ultimately show ?thesis by (simp add: backoff_loop.simps [of i n m m])
    next
      case nlt: False
      with "1.prems" have "n - i = 0" by simp
      with nlt "1.prems" show ?thesis by (simp add: backoff_loop.simps [of i i d m])
    qed
  qed
qed

lemma fail_record_locks:
  assumes "ar_lockedUntil r \<le> now" "time_sub now (ar_firstFailure r) \<le> bf_window bf"
    and "bf_maxFails bf \<le> ar_failures r + 1" "0 \<le> ar_lockoutCount r"
    and "0 < bf_lockout bf" "0 < bf_maxLockout bf" "bf_maxLockout bf \<le> 2 ^ 62"
  shows "ar_lockedUntil (fail_record bf now r) =
           now + min (bf_lockout bf * 2 ^ nat (ar_lockoutCount r)) (bf_maxLockout bf)"
proof -
  have "min (min (bf_lockout bf) (bf_maxLockout bf) * 2 ^ nat (ar_lockoutCount r)) (bf_maxLockout bf) =
        min (bf_lockout bf * 2 ^ nat (ar_lockoutCount r)) (bf_maxLockout bf)"
  proof (cases "bf_lockout bf \<le> bf_maxLockout bf")
    case False
    have "bf_maxLockout bf * 1 \<le> bf_maxLockout bf * 2 ^ nat (ar_lockoutCount r)"
      using assms by (intro mult_mono) auto
    moreover have "bf_maxLockout bf * 1 \<le> bf_lockout bf * 2 ^ nat (ar_lockoutCount r)"
      using assms False by (intro mult_mono) auto
    ultimately show ?thesis using False by simp
  qed simp
  with assms show ?thesis
    by (simp add: fail_record_def Let_def backoff_loop_closed time_add_def)
qed

section \<open>The failure tracker interface\<close>

text \<open>
  What the licence service may rely on, whichever tracker it is given. \<open>is_blocked\<close> returns
  whether the key is locked out and for how long.
\<close>

locale failure_tracker =
  fixes record_failure :: "time \<Rightarrow> string \<Rightarrow> 's \<Rightarrow> 's"
    and record_success :: "string \<Rightarrow> 's \<Rightarrow> 's"
    and is_blocked :: "time \<Rightarrow> string \<Rightarrow> 's \<Rightarrow> bool \<times> duration"
  assumes success_clears: "is_blocked now k (record_success k s) = (False, 0)"
    and failure_other: "k \<noteq> k' \<Longrightarrow> is_blocked now k (record_failure t k' s) = is_blocked now k s"
    and success_other: "k \<noteq> k' \<Longrightarrow> is_blocked now k (record_success k' s) = is_blocked now k s"
    and blocked_absorbs:
      "fst (is_blocked t k s) \<Longrightarrow> is_blocked now k (record_failure t k s) = is_blocked now k s"
    and blocked_wait: "fst (is_blocked now k s) \<longleftrightarrow> 0 < snd (is_blocked now k s)"
begin

text \<open>Failures of other addresses, in any number, never change what an address is told.\<close>

lemma failures_of_others:
  "\<forall>(t, k') \<in> set evs. k' \<noteq> k \<Longrightarrow>
   is_blocked now k (fold (\<lambda>(t, k') s. record_failure t k' s) evs s) = is_blocked now k s"
  by (induction evs arbitrary: s) (auto simp: failure_other)

text \<open>Nor do failures of the address itself while it is locked out: the lockout is not extended.\<close>

lemma failures_while_blocked:
  "\<forall>t \<in> set ts. fst (is_blocked t k s) \<Longrightarrow>
   is_blocked now k (fold (\<lambda>t s. record_failure t k s) ts s) = is_blocked now k s"
  by (induction ts arbitrary: s) (auto simp: blocked_absorbs)

end

lemma fail_record_blocked: "ar_lockedUntil r > now \<Longrightarrow> fail_record bf now r = r"
  by (simp add: fail_record_def)

lemma time_sub_pos: "0 < time_sub t u \<longleftrightarrow> u < t"
  by (auto simp: time_sub_def MaxInt64_def)

lemma time_sub_mono: "t \<le> t' \<Longrightarrow> time_sub t u \<le> time_sub t' u"
  by (auto simp: time_sub_def)

interpretation bf: failure_tracker RecordFailure RecordSuccess IsBlocked
  by unfold_locales
    (auto simp: RecordFailure_def RecordSuccess_def IsBlocked_def Let_def fail_record_blocked
      time_sub_pos split: option.splits if_splits)

section \<open>The sweep is unobservable\<close>

datatype bf_event = EvFailure string | EvSuccess string | EvSweep

fun bf_step :: "time \<times> bf_event \<Rightarrow> BruteForceProtection \<Rightarrow> BruteForceProtection" where
  "bf_step (now, EvFailure k) bf = RecordFailure now k bf"
| "bf_step (now, EvSuccess k) bf = RecordSuccess k bf"
| "bf_step (now, EvSweep) bf = sweep now bf"

definition bf_run :: "(time \<times> bf_event) list \<Rightarrow> BruteForceProtection \<Rightarrow> BruteForceProtection" where
  "bf_run evs bf = fold bf_step evs bf"

definition bf_config :: "BruteForceProtection \<Rightarrow> int \<times> duration \<times> duration \<times> duration" where
  "bf_config bf = (bf_maxFails bf, bf_lockout bf, bf_maxLockout bf, bf_window bf)"

lemma fail_record_config: "bf_config bf = bf_config bf' \<Longrightarrow> fail_record bf = fail_record bf'"
  by (intro ext) (simp add: bf_config_def fail_record_def Let_def)

lemma sweep_keeps_config: "bf_config bf = bf_config bf' \<Longrightarrow> sweep_keeps bf = sweep_keeps bf'"
  by (auto simp: bf_config_def sweep_keeps_def fun_eq_iff)

text \<open>
  A record is stale when a failure would start it afresh, and two records agree when they are
  equal or differ only in when an expired lockout that no longer counts had ended.
\<close>

definition stale :: "BruteForceProtection \<Rightarrow> time \<Rightarrow> attemptRecord \<Rightarrow> bool" where
  "stale bf now r \<longleftrightarrow> ar_lockedUntil r \<le> now \<and>
     (ar_lockoutCount r = 0 \<or> time_sub now (ar_lockedUntil r) > bf_maxLockout bf) \<and>
     time_sub now (ar_firstFailure r) > bf_window bf"

definition agree :: "time \<Rightarrow> attemptRecord \<Rightarrow> attemptRecord \<Rightarrow> bool" where
  "agree now r r' \<longleftrightarrow> r = r' \<or>
     (ar_failures r = ar_failures r' \<and> ar_firstFailure r = ar_firstFailure r' \<and>
      ar_lockoutCount r = 0 \<and> ar_lockoutCount r' = 0 \<and>
      ar_lockedUntil r \<le> now \<and> ar_lockedUntil r' \<le> now)"

fun related :: "BruteForceProtection \<Rightarrow> time \<Rightarrow> attemptRecord option \<Rightarrow> attemptRecord option \<Rightarrow> bool" where
  "related bf now None None = True"
| "related bf now (Some r) None = (stale bf now r \<and> 0 \<le> ar_lockoutCount r)"
| "related bf now (Some r) (Some r') = (agree now r r' \<and> 0 \<le> ar_lockoutCount r)"
| "related bf now None (Some r') = False"

lemma stale_mono: "now \<le> now' \<Longrightarrow> stale bf now r \<Longrightarrow> stale bf now' r"
  using time_sub_mono [of now now' "ar_lockedUntil r"] time_sub_mono [of now now' "ar_firstFailure r"]
  by (auto simp: stale_def)

lemma related_mono: "now \<le> now' \<Longrightarrow> related bf now x y \<Longrightarrow> related bf now' x y"
  by (cases x; cases y) (auto simp: agree_def intro: stale_mono)

lemma fail_record_nonneg: "0 \<le> ar_lockoutCount r \<Longrightarrow> 0 \<le> ar_lockoutCount (fail_record bf now r)"
  by (simp add: fail_record_def Let_def)

lemma fail_record_stale:
  assumes "stale bf now r" and "0 \<le> now" and "bf_window bf < MaxInt64"
  shows "agree now (fail_record bf now r) (fail_record bf now zero_record)"
proof -
  have z: "time_zero \<le> now" using assms(2) by (simp add: time_zero_def Second_def)
  have "time_sub now time_zero = MaxInt64"
    using assms(2) by (simp add: time_sub_def time_zero_def Second_def MaxInt64_def)
  with assms z show ?thesis
    by (auto simp: fail_record_def Let_def stale_def agree_def zero_record_def)
qed

lemma fail_record_agree:
  assumes "agree now r r'"
  shows "agree now (fail_record bf now r) (fail_record bf now r')"
proof (cases "r = r'")
  case False
  with assms show ?thesis by (auto simp: fail_record_def Let_def agree_def)
qed (simp add: agree_def)

lemma sweep_keeps_agree: "agree now r r' \<Longrightarrow> sweep_keeps bf now r = sweep_keeps bf now r'"
  by (auto simp: agree_def sweep_keeps_def)

lemma sweep_drops_stale:
  assumes "\<not> sweep_keeps bf now r" "0 \<le> ar_lockoutCount r" "0 \<le> bf_window bf" "bf_window bf * 4 \<le> MaxInt64"
  shows "stale bf now r"
proof -
  have "wrap64 (bf_window bf * 4) = bf_window bf * 4" using assms by (simp add: MaxInt64_def)
  with assms show ?thesis by (auto simp: sweep_keeps_def stale_def)
qed

definition bf_sim :: "time \<Rightarrow> BruteForceProtection \<Rightarrow> BruteForceProtection \<Rightarrow> bool" where
  "bf_sim now bf bf' \<longleftrightarrow> bf_config bf = bf_config bf' \<and>
     (\<forall>k. related bf now (bf_attempts bf k) (bf_attempts bf' k))"

lemma stale_config: "bf_config bf = bf_config bf' \<Longrightarrow> stale bf = stale bf'"
  by (auto simp: bf_config_def stale_def fun_eq_iff)

lemma related_config: "bf_config bf = bf_config bf' \<Longrightarrow> related bf now x y = related bf' now x y"
  by (cases x; cases y) (auto dest: stale_config)

lemma bf_sim_sweep:
  assumes "bf_sim now bf bf'" "0 \<le> bf_window bf" "bf_window bf * 4 \<le> MaxInt64"
  shows "bf_sim now bf (sweep now bf')"
proof -
  have c: "bf_config (sweep now bf') = bf_config bf'" by (simp add: sweep_def bf_config_def)
  have "related bf now (bf_attempts bf k) (bf_attempts (sweep now bf') k)" for k
  proof -
    have rel: "related bf now (bf_attempts bf k) (bf_attempts bf' k)" and
      keeps: "sweep_keeps bf' = sweep_keeps bf"
      using assms(1) by (auto simp: bf_sim_def dest: sweep_keeps_config)
    show ?thesis
    proof (cases "bf_attempts bf' k")
      case (Some r')
      with rel obtain r where r: "bf_attempts bf k = Some r" "agree now r r'" "0 \<le> ar_lockoutCount r"
        by (cases "bf_attempts bf k") auto
      with Some show ?thesis
        using sweep_keeps_agree [OF r(2), of bf] sweep_drops_stale [OF _ r(3) assms(2,3)]
        by (auto simp: sweep_def keeps)
    qed (use rel in \<open>auto simp: sweep_def\<close>)
  qed
  with assms(1) c show ?thesis by (simp add: bf_sim_def)
qed

lemma bf_sim_failure:
  assumes "bf_sim now bf bf'" "0 \<le> now" "bf_window bf < MaxInt64"
  shows "bf_sim now (RecordFailure now key bf) (RecordFailure now key bf')"
proof -
  let ?s = "RecordFailure now key bf" and ?s' = "RecordFailure now key bf'"
  have cfg: "bf_config bf' = bf_config bf" using assms(1) by (simp add: bf_sim_def)
  have c: "bf_config ?s = bf_config bf" "bf_config ?s' = bf_config bf'"
    by (simp_all add: RecordFailure_def bf_config_def Let_def)
  note fr = fail_record_config [OF cfg]
  have "related bf now (bf_attempts ?s k) (bf_attempts ?s' k)" for k
  proof -
    have rel: "related bf now (bf_attempts bf k) (bf_attempts bf' k)"
      using assms(1) by (simp add: bf_sim_def)
    have z: "0 \<le> ar_lockoutCount (fail_record bf now zero_record)"
      by (rule fail_record_nonneg) (simp add: zero_record_def)
    show ?thesis
    proof (cases "k = key")
      case True
      with rel z show ?thesis
        using fail_record_stale [OF _ assms(2,3)]
        by (cases "bf_attempts bf key"; cases "bf_attempts bf' key")
          (auto simp: RecordFailure_def Let_def fr fail_record_nonneg fail_record_agree agree_def [of now x x for x])
    qed (use rel in \<open>simp add: RecordFailure_def Let_def\<close>)
  qed
  with assms(1) c related_config [of ?s bf] show ?thesis by (simp add: bf_sim_def)
qed

lemma bf_sim_success:
  assumes "bf_sim now bf bf'"
  shows "bf_sim now (RecordSuccess key bf) (RecordSuccess key bf')"
proof -
  have c: "bf_config (RecordSuccess key bf) = bf_config bf" "bf_config (RecordSuccess key bf') = bf_config bf'"
    by (simp_all add: RecordSuccess_def bf_config_def)
  show ?thesis
    using assms related_config [OF c(1)] c by (auto simp: bf_sim_def RecordSuccess_def)
qed

lemma bf_sim_IsBlocked: "bf_sim now bf bf' \<Longrightarrow> IsBlocked now k bf = IsBlocked now k bf'"
proof -
  assume "bf_sim now bf bf'"
  then have "related bf now (bf_attempts bf k) (bf_attempts bf' k)" by (simp add: bf_sim_def)
  then show ?thesis
    by (cases "bf_attempts bf k"; cases "bf_attempts bf' k")
      (auto simp: IsBlocked_def stale_def agree_def)
qed

lemma bf_step_config: "bf_config (bf_step ev bf) = bf_config bf"
  by (cases ev; cases "snd ev") (auto simp: RecordFailure_def RecordSuccess_def sweep_def bf_config_def Let_def)

lemma bf_sim_mono: "now \<le> now' \<Longrightarrow> bf_sim now bf bf' \<Longrightarrow> bf_sim now' bf bf'"
  by (auto simp: bf_sim_def intro: related_mono)

lemma bf_run_sim:
  assumes "bf_sim t0 bf bf'" "0 \<le> t0" "0 \<le> bf_window bf" "bf_window bf * 4 \<le> MaxInt64"
    and "sorted (t0 # map fst evs @ [now])"
  shows "bf_sim now (bf_run (filter (\<lambda>ev. snd ev \<noteq> EvSweep) evs) bf) (bf_run evs bf')"
  using assms
proof (induction evs arbitrary: t0 bf bf')
  case Nil
  then show ?case by (auto simp: bf_run_def intro: bf_sim_mono)
next
  case (Cons ev evs)
  obtain t e where ev: "ev = (t, e)" by (cases ev)
  with Cons.prems have t: "t0 \<le> t" "0 \<le> t" "sorted (t # map fst evs @ [now])" "bf_window bf < MaxInt64"
    by (auto simp: MaxInt64_def)
  have sim: "bf_sim t bf bf'" using Cons.prems(1) t(1) by (rule bf_sim_mono [rotated])
  show ?case
  proof (cases "e = EvSweep")
    case True
    have "bf_sim t bf (sweep t bf')" using sim Cons.prems by (intro bf_sim_sweep)
    from Cons.IH [OF this t(2) _ _ t(3)] Cons.prems True ev show ?thesis by (simp add: bf_run_def)
  next
    case False
    have "bf_sim t (bf_step ev bf) (bf_step ev bf')"
      using sim t False ev by (cases e) (auto intro: bf_sim_failure bf_sim_success)
    moreover have "bf_window (bf_step ev bf) = bf_window bf"
      using bf_step_config [of ev bf] by (simp add: bf_config_def)
    ultimately show ?thesis
      using Cons.IH [of t "bf_step ev bf" "bf_step ev bf'"] Cons.prems t False ev
      by (simp add: bf_run_def)
  qed
qed

section \<open>Properties\<close>

text \<open>
  C23: the sweep forgets only what no longer matters. Take any sequence of failures, successes
  and sweeps with a clock that does not run backwards, on a fresh tracker: every address is
  told the same, locked out or not and for how long, as on a tracker that is never swept.
\<close>

theorem sweep_unobservable:
  assumes "0 \<le> t0" and "0 \<le> window" and "window * 4 \<le> MaxInt64"
    and "sorted (t0 # map fst evs @ [now])"
  shows "IsBlocked now k (bf_run evs (NewBruteForceProtection maxFails lockout maxLockout window)) =
         IsBlocked now k (bf_run (filter (\<lambda>ev. snd ev \<noteq> EvSweep) evs)
                            (NewBruteForceProtection maxFails lockout maxLockout window))"
proof -
  let ?bf = "NewBruteForceProtection maxFails lockout maxLockout window"
  have "bf_sim t0 ?bf ?bf" by (simp add: bf_sim_def NewBruteForceProtection_def)
  then have "bf_sim now (bf_run (filter (\<lambda>ev. snd ev \<noteq> EvSweep) evs) ?bf) (bf_run evs ?bf)"
    using assms by (intro bf_run_sim) (auto simp: NewBruteForceProtection_def)
  then show ?thesis by (simp add: bf_sim_IsBlocked)
qed

theorem sweep_unobservable_witness:
  "IsBlocked 11 ''a'' (bf_run [(1, EvFailure ''a''), (10, EvSweep)] (NewBruteForceProtection 2 5 8 2)) =
   IsBlocked 11 ''a'' (bf_run [(1, EvFailure ''a'')] (NewBruteForceProtection 2 5 8 2))"
  using sweep_unobservable [of 0 2 "[(1, EvFailure ''a''), (10, EvSweep)]" 11 "''a''" 2 5 8]
  by (simp add: MaxInt64_def)

text \<open>
  The failures of one address, all within one window of the first: the record counts them
  until the last allowed one, which locks the address out.
\<close>

lemma fail_record_counts:
  assumes "ar_lockedUntil r \<le> now" "time_sub now (ar_firstFailure r) \<le> bf_window bf"
    and "ar_failures r + 1 < bf_maxFails bf"
  shows "fail_record bf now r = r\<lparr>ar_failures := ar_failures r + 1\<rparr>"
  using assms by (simp add: fail_record_def Let_def)

lemma fail_records_count:
  assumes "\<forall>t \<in> set ts. ar_lockedUntil r \<le> t \<and> time_sub t (ar_firstFailure r) \<le> bf_window bf"
    and "ar_failures r + int (length ts) < bf_maxFails bf"
  shows "fold (fail_record bf) ts r = r\<lparr>ar_failures := ar_failures r + int (length ts)\<rparr>"
  using assms
proof (induction ts arbitrary: r)
  case (Cons t ts)
  then have "fail_record bf t r = r\<lparr>ar_failures := ar_failures r + 1\<rparr>"
    by (intro fail_record_counts) auto
  with Cons.prems Cons.IH [of "r\<lparr>ar_failures := ar_failures r + 1\<rparr>"] show ?case by simp
qed simp

lemma RecordFailure_fresh:
  "bf_attempts bf k = None \<Longrightarrow>
   bf_attempts (RecordFailure now k bf) k = Some (fail_record bf now zero_record)"
  by (simp add: RecordFailure_def Let_def)

lemma fail_record_new_config [simp]: "fail_record (bf\<lparr>bf_attempts := m\<rparr>) = fail_record bf"
  by (rule fail_record_config) (simp add: bf_config_def)

lemma RecordFailures_record:
  "bf_attempts bf k = Some r \<Longrightarrow>
   bf_attempts (fold (\<lambda>t. RecordFailure t k) ts bf) k = Some (fold (fail_record bf) ts r)"
  by (induction ts arbitrary: bf r) (simp_all add: RecordFailure_def Let_def)

lemma fail_record_first:
  assumes "0 \<le> t" "bf_window bf < MaxInt64" "1 < bf_maxFails bf"
  shows "fail_record bf t zero_record = \<lparr>ar_failures = 1, ar_firstFailure = t,
           ar_lockedUntil = time_zero, ar_lockoutCount = 0\<rparr>"
proof -
  have "time_sub t time_zero = MaxInt64" "time_zero \<le> t"
    using assms(1) by (auto simp: time_sub_def time_zero_def Second_def MaxInt64_def)
  with assms show ?thesis by (simp add: fail_record_def zero_record_def Let_def)
qed

text \<open>
  An address that fails \<open>n + 1\<close> times within one window, from a fresh tracker, is locked
  out at the time of its last failure exactly when \<open>n + 1\<close> reaches \<open>maxFails\<close> (for
  \<open>n + 1 \<le> maxFails\<close>), and the first lockout lasts \<open>min lockout maxLockout\<close>.
\<close>

theorem first_lockout:
  assumes "sorted (t # ts)" and "0 \<le> t" and "\<forall>u \<in> set ts. u - t \<le> window"
    and "int (length ts) + 1 \<le> maxFails" and "1 < maxFails"
    and "0 < lockout" "0 < maxLockout" "maxLockout \<le> 2 ^ 62" and "window < MaxInt64" "0 \<le> window"
  shows "IsBlocked (last (t # ts)) k
           (fold (\<lambda>u. RecordFailure u k) (t # ts) (NewBruteForceProtection maxFails lockout maxLockout window)) =
         (if int (length ts) + 1 = maxFails then (True, min lockout maxLockout) else (False, 0))"
proof -
  let ?bf = "NewBruteForceProtection maxFails lockout maxLockout window"
  let ?r = "\<lparr>ar_failures = 1, ar_firstFailure = t, ar_lockedUntil = time_zero, ar_lockoutCount = 0\<rparr>"
  note cfg = NewBruteForceProtection_def
  have z: "time_zero \<le> u" if "t \<le> u" for u
    using that assms(2) by (simp add: time_zero_def Second_def)
  have sub: "time_sub u t \<le> window" if "u \<in> set ts" for u
    using that assms(3,9,10) by (auto simp: time_sub_def MaxInt64_def)
  have "bf_attempts (RecordFailure t k ?bf) k = Some ?r"
    using fail_record_first [of t ?bf] assms
    by (simp add: cfg RecordFailure_fresh)
  moreover have "fail_record (RecordFailure t k ?bf) = fail_record ?bf"
    by (simp add: RecordFailure_def Let_def)
  ultimately have rec: "bf_attempts (fold (\<lambda>u. RecordFailure u k) (t # ts) ?bf) k =
      Some (fold (fail_record ?bf) ts ?r)"
    by (simp add: RecordFailures_record)
  show ?thesis
  proof (cases "int (length ts) + 1 = maxFails")
    case False
    then have "fold (fail_record ?bf) ts ?r = ?r\<lparr>ar_failures := 1 + int (length ts)\<rparr>"
      using assms z sub by (subst fail_records_count) (auto simp: cfg)
    moreover have "time_zero \<le> last (t # ts)" using assms(1) z by (cases ts rule: rev_cases) auto
    ultimately show ?thesis using rec False by (simp add: IsBlocked_def)
  next
    case True
    then obtain us u where ts: "ts = us @ [u]" using assms(5) by (cases ts rule: rev_cases) auto
    have "fold (fail_record ?bf) us ?r = ?r\<lparr>ar_failures := 1 + int (length us)\<rparr>"
      using assms z sub True ts by (subst fail_records_count) (auto simp: cfg)
    moreover have "ar_lockedUntil (fail_record ?bf u (?r\<lparr>ar_failures := 1 + int (length us)\<rparr>)) =
        u + min lockout maxLockout"
      using assms z sub True ts by (subst fail_record_locks) (auto simp: cfg)
    ultimately show ?thesis
      using rec True ts assms by (auto simp: IsBlocked_def time_sub_def MaxInt64_def)
  qed
qed

theorem first_lockout_witness:
  "IsBlocked 12 ''ip'' (fold (\<lambda>u. RecordFailure u ''ip'') [10, 11, 12]
      (NewBruteForceProtection 3 60 1800 600)) = (True, 60)"
  using first_lockout [of 10 "[11, 12]" 600 3 60 1800 "''ip''"] by (simp add: MaxInt64_def)



text \<open>The wait a client is told covers what is left of the lockout, by less than a second.\<close>

lemma RetryAfterSeconds_rounds_up:
  assumes "0 < d"
  shows "d \<le> RetryAfterSeconds d * Second" "(RetryAfterSeconds d - 1) * Second < d"
proof -
  have "- d = (- d) div Second * Second + (- d) mod Second" "0 \<le> (- d) mod Second" "(- d) mod Second < Second"
    by (simp_all add: Second_def)
  with assms show "d \<le> RetryAfterSeconds d * Second" "(RetryAfterSeconds d - 1) * Second < d"
    by (auto simp: RetryAfterSeconds_def Second_def max_def)
qed

end
