(* ===== verification/KG_Breaker.thy ===== *)
theory KG_Breaker
  imports KG_Prelude
begin

text \<open>
  The lock-free circuit breaker of \<^verbatim>\<open>internal/breaker/breaker.go\<close>. The methods are given
  twice: run alone (\<open>Allow\<close>, \<open>Success\<close>, \<open>Failure\<close>), and as a step relation in
  which every atomic load, store, add, compare-and-swap and clock read is a step of its own, so
  that the calls of any number of goroutines interleave. The failure count is an
  \<^verbatim>\<open>atomic.Int32\<close>, a 32-bit word read as signed; the deadline is an int64 of Unix
  nanoseconds.
\<close>

section \<open>The breaker\<close>

record Breaker =
  br_trip :: "32 word"
  br_cooldown :: duration
  br_fails :: "32 word"
  br_openUntil :: int

definition New :: "int \<Rightarrow> duration \<Rightarrow> Breaker" where
  "New trip cooldown = \<lparr>br_trip = word_of_int trip, br_cooldown = cooldown, br_fails = 0, br_openUntil = 0\<rparr>"

definition Allow :: "time \<Rightarrow> Breaker \<Rightarrow> bool \<times> Breaker" where
  "Allow now b =
     (let until = br_openUntil b
      in if until = 0 then (True, b)
         else if now < until then (False, b)
         else (True, b\<lparr>br_openUntil := wrap64 (now + br_cooldown b)\<rparr>))"

definition Success :: "Breaker \<Rightarrow> Breaker" where
  "Success b =
     (let b = (if br_fails b \<noteq> 0 then b\<lparr>br_fails := 0\<rparr> else b)
      in if br_openUntil b \<noteq> 0 then b\<lparr>br_openUntil := 0\<rparr> else b)"

definition Failure :: "time \<Rightarrow> Breaker \<Rightarrow> Breaker" where
  "Failure now b =
     (let b = b\<lparr>br_fails := br_fails b + 1\<rparr>
      in if sint (br_trip b) \<le> sint (br_fails b)
         then b\<lparr>br_fails := 0, br_openUntil := wrap64 (now + br_cooldown b)\<rparr>
         else b)"

section \<open>Interleaved calls\<close>

text \<open>
  Where a goroutine is: between calls, after the load of \<open>Allow\<close> (with the deadline it saw),
  after its clock read (deadline and time), between the stores of \<open>Success\<close> and of
  \<open>Failure\<close>.
\<close>

datatype pc =
    Idle
  | AllowLoaded int
  | AllowTimed int time
  | SuccessFailsSeen
  | SuccessOpenCheck
  | SuccessOpenSeen
  | FailureTripped
  | FailureReset
  | FailureTimed time

text \<open>
  \<open>bs_log\<close> is not state of the program: it records, latest first, every write of the deadline, with
  the clock reading it counts from: a caller of an open breaker that won the swap and is let through
  as its probe, a failure report that opened it, a success report that closed it. Nothing takes an
  entry off.
\<close>

datatype breaker_event = Probe time | Opened time | Closed

record breaker_state =
  bs_breaker :: Breaker
  bs_clock :: time
  bs_pc :: "nat \<Rightarrow> pc"
  bs_log :: "breaker_event list"

abbreviation goto :: "nat \<Rightarrow> pc \<Rightarrow> breaker_state \<Rightarrow> breaker_state" where
  "goto i p s \<equiv> s\<lparr>bs_pc := (bs_pc s)(i := p)\<rparr>"

inductive breaker_step :: "breaker_state \<Rightarrow> breaker_state \<Rightarrow> bool" where
  tick: "bs_clock s \<le> t \<Longrightarrow> breaker_step s (s\<lparr>bs_clock := t\<rparr>)"
| allow_load: "bs_pc s i = Idle \<Longrightarrow> br_openUntil (bs_breaker s) = u \<Longrightarrow> u \<noteq> 0 \<Longrightarrow>
    breaker_step s (goto i (AllowLoaded u) s)"
| allow_closed: "bs_pc s i = Idle \<Longrightarrow> br_openUntil (bs_breaker s) = 0 \<Longrightarrow> breaker_step s s"
| allow_refuse: "bs_pc s i = AllowLoaded u \<Longrightarrow> bs_clock s < u \<Longrightarrow> breaker_step s (goto i Idle s)"
| allow_time: "bs_pc s i = AllowLoaded u \<Longrightarrow> u \<le> bs_clock s \<Longrightarrow>
    breaker_step s (goto i (AllowTimed u (bs_clock s)) s)"
| allow_win: "bs_pc s i = AllowTimed u now \<Longrightarrow> br_openUntil (bs_breaker s) = u \<Longrightarrow>
    breaker_step s (goto i Idle (s\<lparr>bs_breaker := (bs_breaker s)
      \<lparr>br_openUntil := wrap64 (now + br_cooldown (bs_breaker s))\<rparr>, bs_log := Probe now # bs_log s\<rparr>))"
| allow_lose: "bs_pc s i = AllowTimed u now \<Longrightarrow> br_openUntil (bs_breaker s) \<noteq> u \<Longrightarrow>
    breaker_step s (goto i Idle s)"
| success_load: "bs_pc s i = Idle \<Longrightarrow>
    breaker_step s (goto i (if br_fails (bs_breaker s) \<noteq> 0 then SuccessFailsSeen else SuccessOpenCheck) s)"
| success_store_fails: "bs_pc s i = SuccessFailsSeen \<Longrightarrow>
    breaker_step s (goto i SuccessOpenCheck (s\<lparr>bs_breaker := (bs_breaker s)\<lparr>br_fails := 0\<rparr>\<rparr>))"
| success_check: "bs_pc s i = SuccessOpenCheck \<Longrightarrow>
    breaker_step s (goto i (if br_openUntil (bs_breaker s) \<noteq> 0 then SuccessOpenSeen else Idle) s)"
| success_close: "bs_pc s i = SuccessOpenSeen \<Longrightarrow>
    breaker_step s (goto i Idle (s\<lparr>bs_breaker := (bs_breaker s)\<lparr>br_openUntil := 0\<rparr>, bs_log := Closed # bs_log s\<rparr>))"
| failure_add: "bs_pc s i = Idle \<Longrightarrow> f = br_fails (bs_breaker s) + 1 \<Longrightarrow>
    breaker_step s (goto i (if sint (br_trip (bs_breaker s)) \<le> sint f then FailureTripped else Idle)
      (s\<lparr>bs_breaker := (bs_breaker s)\<lparr>br_fails := f\<rparr>\<rparr>))"
| failure_reset: "bs_pc s i = FailureTripped \<Longrightarrow>
    breaker_step s (goto i FailureReset (s\<lparr>bs_breaker := (bs_breaker s)\<lparr>br_fails := 0\<rparr>\<rparr>))"
| failure_time: "bs_pc s i = FailureReset \<Longrightarrow> breaker_step s (goto i (FailureTimed (bs_clock s)) s)"
| failure_open: "bs_pc s i = FailureTimed now \<Longrightarrow>
    breaker_step s (goto i Idle (s\<lparr>bs_breaker := (bs_breaker s)
      \<lparr>br_openUntil := wrap64 (now + br_cooldown (bs_breaker s))\<rparr>, bs_log := Opened now # bs_log s\<rparr>))"

definition breaker_init :: "int \<Rightarrow> duration \<Rightarrow> time \<Rightarrow> breaker_state" where
  "breaker_init trip cooldown t0 =
     \<lparr>bs_breaker = New trip cooldown, bs_clock = t0, bs_pc = (\<lambda>_. Idle), bs_log = []\<rparr>"

inductive breaker_reachable :: "int \<Rightarrow> duration \<Rightarrow> time \<Rightarrow> breaker_state \<Rightarrow> bool"
  for trip cooldown t0 where
  init: "breaker_reachable trip cooldown t0 (breaker_init trip cooldown t0)"
| step: "breaker_reachable trip cooldown t0 s \<Longrightarrow> breaker_step s s' \<Longrightarrow>
    breaker_reachable trip cooldown t0 s'"

section \<open>The invariant\<close>

text \<open>
  The deadline is what the last write left; a probe follows a write that opened the breaker or
  another probe, a cooldown later.
\<close>

fun counts_from :: "breaker_event list \<Rightarrow> time option" where
  "counts_from (Probe t # l) = Some t"
| "counts_from (Opened t # l) = Some t"
| "counts_from (Closed # l) = None"
| "counts_from [] = None"

fun log_ok :: "duration \<Rightarrow> breaker_event list \<Rightarrow> bool" where
  "log_ok c (Probe a # l) \<longleftrightarrow> (\<exists>t. counts_from l = Some t \<and> t + c \<le> a) \<and> log_ok c l"
| "log_ok c (Opened t # l) \<longleftrightarrow> log_ok c l"
| "log_ok c (Closed # l) \<longleftrightarrow> log_ok c l"
| "log_ok c [] \<longleftrightarrow> True"

definition breaker_inv :: "duration \<Rightarrow> breaker_state \<Rightarrow> bool" where
  "breaker_inv cooldown s \<longleftrightarrow>
     br_cooldown (bs_breaker s) = cooldown \<and> 0 \<le> bs_clock s \<and>
     br_openUntil (bs_breaker s) = (case counts_from (bs_log s) of None \<Rightarrow> 0 | Some t \<Rightarrow> t + cooldown) \<and>
     log_ok cooldown (bs_log s) \<and>
     (\<forall>i u. bs_pc s i = AllowLoaded u \<longrightarrow> u \<noteq> 0) \<and>
     (\<forall>i u now. bs_pc s i = AllowTimed u now \<longrightarrow> u \<noteq> 0 \<and> u \<le> now \<and> 0 \<le> now \<and> now \<le> bs_clock s) \<and>
     (\<forall>i now. bs_pc s i = FailureTimed now \<longrightarrow> 0 \<le> now \<and> now \<le> bs_clock s)"

lemma breaker_step_clock: "breaker_step s s' \<Longrightarrow> bs_clock s \<le> bs_clock s'"
  by (induction rule: breaker_step.induct) auto

lemma breaker_inv_step:
  assumes "breaker_step s s'" and "breaker_inv cooldown s"
    and "0 \<le> cooldown" and "bs_clock s' + cooldown \<le> MaxInt64"
  shows "breaker_inv cooldown s'"
  using assms
proof (induction rule: breaker_step.induct)
  case (tick s t)
  then show ?case by (auto simp: breaker_inv_def; meson order_trans)
next
  case (allow_win s i u now)
  let ?b = "bs_breaker s"
  from allow_win.prems allow_win.hyps have now: "u \<noteq> 0" "u \<le> now" "0 \<le> now" "now \<le> bs_clock s"
    and cd: "br_cooldown ?b = cooldown" by (auto simp: breaker_inv_def)
  then have w: "wrap64 (now + cooldown) = now + cooldown"
    using allow_win.prems by (intro wrap64_id) (auto simp: MaxInt64_def)
  obtain t where "counts_from (bs_log s) = Some t" "t + cooldown \<le> now"
    using allow_win.prems allow_win.hyps now by (cases "counts_from (bs_log s)") (auto simp: breaker_inv_def)
  with allow_win.prems now cd w show ?case by (auto simp: breaker_inv_def)
next
  case (failure_open s i now)
  then have "0 \<le> now" "now \<le> bs_clock s" by (auto simp: breaker_inv_def)
  then have "wrap64 (now + cooldown) = now + cooldown"
    using failure_open.prems by (intro wrap64_id) (auto simp: MaxInt64_def)
  with failure_open.prems show ?case by (auto simp: breaker_inv_def)
qed (auto simp: breaker_inv_def split: if_splits)

lemma breaker_reachable_inv:
  assumes "breaker_reachable trip cooldown t0 s" and "0 \<le> t0" "0 \<le> cooldown"
    and "bs_clock s + cooldown \<le> MaxInt64"
  shows "breaker_inv cooldown s"
  using assms
proof (induction rule: breaker_reachable.induct)
  case init
  then show ?case by (simp add: breaker_inv_def breaker_init_def New_def)
next
  case (step s s')
  then have "breaker_inv cooldown s" using breaker_step_clock [OF step.hyps(2)] by simp
  then show ?case using step.prems by (intro breaker_inv_step [OF step.hyps(2)])
qed

section \<open>Properties\<close>

text \<open>What the invariant says of a place in the log.\<close>

lemma log_ok_drop: "log_ok c l \<Longrightarrow> log_ok c (drop i l)"
proof (induction l arbitrary: i)
  case (Cons x l)
  then show ?case by (cases x; cases i) auto
qed simp

lemma counts_from_SomeD:
  "counts_from l = Some t \<Longrightarrow> 0 < length l \<and> (l ! 0 = Probe t \<or> l ! 0 = Opened t)"
  by (induction l rule: counts_from.induct) auto

lemma log_probe:
  assumes "log_ok c l" "i < length l" "l ! i = Probe a"
  shows "\<exists>t. i + 1 < length l \<and> (l ! (i + 1) = Probe t \<or> l ! (i + 1) = Opened t) \<and> t + c \<le> a"
proof -
  have "drop i l = Probe a # drop (i + 1) l" using Cons_nth_drop_Suc [OF assms(2)] assms(3) by simp
  with log_ok_drop [OF assms(1), of i] obtain t where t: "counts_from (drop (i + 1) l) = Some t" "t + c \<le> a" by auto
  with counts_from_SomeD [OF t(1)] show ?thesis by (auto simp: less_diff_conv)
qed

lemma log_probes:
  assumes "log_ok c l" "0 \<le> c"
  shows "i + n + 1 < length l \<Longrightarrow> l ! i = Probe a \<Longrightarrow> l ! (i + n + 1) = Probe b \<Longrightarrow>
    (\<forall>k. i < k \<and> k < i + n + 1 \<longrightarrow> (\<exists>x. l ! k = Probe x)) \<Longrightarrow> b + c \<le> a"
proof (induction n arbitrary: i a)
  case 0
  then show ?case using log_probe [OF assms(1), of i a] by auto
next
  case (Suc n)
  then obtain x where x: "l ! (i + 1) = Probe x" by force
  then have "x + c \<le> a" using log_probe [OF assms(1), of i a] Suc.prems by auto
  moreover have "b + c \<le> x" using Suc.IH [of "i + 1" x] Suc.prems x by (auto simp: add_ac)
  ultimately show ?case using assms(2) by simp
qed

text \<open>
  C26: one probe per cooldown. However the calls of any number of goroutines interleave, a caller let
  through an open breaker read a clock at least a cooldown after the one the deadline it found
  counts from: the reading of the probe before it, or of the failure report that opened the breaker.
  So probes with no report written between them, in any number, are a cooldown apart. (A report
  that read its clock before a probe and is stored after it moves the deadline back to a cooldown
  after its own reading: probes it comes between are not compared.)
\<close>

theorem breaker_probes_apart:
  assumes "breaker_reachable trip cooldown t0 s" and "0 \<le> t0" "0 \<le> cooldown"
    and "bs_clock s + cooldown \<le> MaxInt64" and "i < length (bs_log s)" "bs_log s ! i = Probe a"
  shows "(\<exists>t. i + 1 < length (bs_log s) \<and> (bs_log s ! (i + 1) = Probe t \<or> bs_log s ! (i + 1) = Opened t) \<and> t + cooldown \<le> a) \<and>
     (\<forall>j b. i < j \<and> j < length (bs_log s) \<and> bs_log s ! j = Probe b \<and>
        (\<forall>k. i < k \<and> k < j \<longrightarrow> (\<exists>x. bs_log s ! k = Probe x)) \<longrightarrow> b + cooldown \<le> a)"
proof -
  have ok: "log_ok cooldown (bs_log s)" using breaker_reachable_inv [OF assms(1-4)] by (simp add: breaker_inv_def)
  have "b + cooldown \<le> a" if "i < j" "j < length (bs_log s)" "bs_log s ! j = Probe b"
    "\<forall>k. i < k \<and> k < j \<longrightarrow> (\<exists>x. bs_log s ! k = Probe x)" for j b
  proof -
    have "j = i + (j - i - 1) + 1" using that(1) by simp
    then show ?thesis using log_probes [OF ok assms(3), of i "j - i - 1" a b] that assms(6) by metis
  qed
  then show ?thesis using log_probe [OF ok assms(5,6)] by blast
qed

text \<open>A breaker that fails, cools down and is probed twice; and one a late report shortens.\<close>

abbreviation open_state :: "int \<Rightarrow> time \<Rightarrow> breaker_event list \<Rightarrow> breaker_state" where
  "open_state u c l \<equiv> \<lparr>bs_breaker = \<lparr>br_trip = 1, br_cooldown = 10, br_fails = 0, br_openUntil = u\<rparr>,
    bs_clock = c, bs_pc = (\<lambda>_. Idle), bs_log = l\<rparr>"

lemma opened_reachable: "breaker_reachable 1 10 100 (open_state 110 100 [Opened 100])"
  using step [OF step [OF step [OF step [OF init [of 1 10 100] failure_add [of _ 0]] failure_reset [of _ 0]]
    failure_time [of _ 0]] failure_open [of _ 0]]
  by (simp add: breaker_init_def New_def fun_upd_idem)

lemma probed_reachable:
  assumes "breaker_reachable 1 10 100 (open_state u c l)" "c \<le> t" "u \<le> t" "u \<noteq> 0" "0 \<le> t" "t \<le> 200"
  shows "breaker_reachable 1 10 100 (open_state (t + 10) t (Probe t # l))"
  using step [OF step [OF step [OF step [OF assms(1) tick [of _ t]] allow_load [of _ 0 u]]
    allow_time [of _ 0 u]] allow_win [of _ 0 u t]] assms(2-)
  by (simp add: fun_upd_idem)

lemma two_probes_reachable:
  "\<exists>s. breaker_reachable 1 10 100 s \<and> bs_clock s = 130 \<and> bs_log s = [Probe 130, Probe 115, Opened 100]"
proof -
  have "breaker_reachable 1 10 100 (open_state 125 115 [Probe 115, Opened 100])"
    using probed_reachable [OF opened_reachable, of 115] by simp
  then have "breaker_reachable 1 10 100 (open_state 140 130 [Probe 130, Probe 115, Opened 100])"
    using probed_reachable [of 125 115 "[Probe 115, Opened 100]" 130] by simp
  then show ?thesis by (intro exI [of _ "open_state 140 130 [Probe 130, Probe 115, Opened 100]"]) simp
qed

theorem breaker_probes_apart_witness:
  "\<exists>s. breaker_reachable 1 10 100 s \<and> bs_log s = [Probe 130, Probe 115, Opened 100] \<and>
     (\<exists>t. (bs_log s ! 1 = Probe t \<or> bs_log s ! 1 = Opened t) \<and> t + 10 \<le> (130 :: int))"
proof -
  obtain s where s: "breaker_reachable 1 10 100 s" "bs_clock s = 130" "bs_log s = [Probe 130, Probe 115, Opened 100]"
    using two_probes_reachable by blast
  have "\<exists>t. (bs_log s ! (0 + 1) = Probe t \<or> bs_log s ! (0 + 1) = Opened t) \<and> t + 10 \<le> (130 :: int)"
    using breaker_probes_apart [OF s(1), of 0 130] s(2,3) by (auto simp: MaxInt64_def)
  then show ?thesis using s(1,3) by auto
qed

text \<open>The report that came late: it read its clock at 101 and is stored after the probe of 115, so the next probe needs no cooldown from that one.\<close>

lemma late_report_shortens:
  "\<exists>s. breaker_reachable 1 10 100 s \<and> bs_log s = [Probe 116, Opened 101, Probe 115, Opened 100]"
proof -
  let ?at = "\<lambda>f u c p l. \<lparr>bs_breaker = \<lparr>br_trip = 1, br_cooldown = 10, br_fails = f, br_openUntil = u\<rparr>,
    bs_clock = c, bs_pc = (\<lambda>_. Idle)(1 := p), bs_log = l\<rparr>"
  have swap: "((\<lambda>_ :: nat. Idle)(1 := p, 0 := q)) = ((\<lambda>_. Idle)(0 := q, 1 := p))" for p q :: pc
    by (rule fun_upd_twist) simp
  have timed: "breaker_reachable 1 10 100 (?at 0 110 101 (FailureTimed 101) [Opened 100])"
    using step [OF step [OF step [OF step [OF opened_reachable failure_add [of _ 1]] failure_reset [of _ 1]] tick [of _ 101]] failure_time [of _ 1]]
    by (simp add: fun_upd_idem)
  have probed: "breaker_reachable 1 10 100 (?at 0 125 115 (FailureTimed 101) [Probe 115, Opened 100])"
    using step [OF step [OF step [OF step [OF timed tick [of _ 115]] allow_load [of _ 0 110]] allow_time [of _ 0 110]] allow_win [of _ 0 110 115]]
    by (simp add: swap fun_upd_idem)
  have "breaker_reachable 1 10 100 (open_state 111 115 [Opened 101, Probe 115, Opened 100])"
    using step [OF probed failure_open [of _ 1 101]] by (simp add: fun_upd_idem)
  then show ?thesis using probed_reachable [of 111 115 "[Opened 101, Probe 115, Opened 100]" 116] by auto
qed

lemma sint_word_of_int: "0 \<le> n \<Longrightarrow> n < 2 ^ 31 \<Longrightarrow> sint (word_of_int n :: 32 word) = n"
  by (simp add: sint_sbintrunc' signed_take_bit_int_eq_self)

lemma failures_count:
  assumes "int n < trip" "trip < 2 ^ 31" "br_trip b = word_of_int trip" "br_fails b = 0" "length ts = n"
  shows "fold Failure ts b = b\<lparr>br_fails := word_of_int (int n)\<rparr>"
  using assms
proof (induction n arbitrary: ts)
  case (Suc n)
  then obtain us u where ts: "ts = us @ [u]" "length us = n" by (cases ts rule: rev_cases) auto
  have "sint (word_of_int trip :: 32 word) = trip" "sint (word_of_int (int n + 1) :: 32 word) = int n + 1"
    using Suc.prems by (intro sint_word_of_int; simp)+
  moreover have "word_of_int (int n) + 1 = (word_of_int (int n + 1) :: 32 word)"
    by (simp add: wi_hom_succ)
  ultimately show ?case
    using Suc ts by (simp add: Failure_def Let_def add.commute)
qed simp

text \<open>
  The breaker trips at the threshold. From a closed breaker with no failure counted,
  \<open>trip - 1\<close> failures in a row leave it closed, so every caller is let through; the next one
  opens it, and until the cooldown is over every caller is refused.
\<close>

theorem breaker_trips:
  assumes "0 < trip" "trip < 2 ^ 31" "0 \<le> t" "0 < cooldown" "t + cooldown \<le> MaxInt64"
    and "int (length ts) + 1 = trip" "t \<le> now" "now < t + cooldown"
  shows "Allow now (fold Failure ts (New trip cooldown)) = (True, fold Failure ts (New trip cooldown)) \<and>
         fst (Allow now (Failure t (fold Failure ts (New trip cooldown)))) = False"
proof
  have b: "fold Failure ts (New trip cooldown) = (New trip cooldown)\<lparr>br_fails := word_of_int (int (length ts))\<rparr>"
    using assms by (intro failures_count) (auto simp: New_def)
  then show "Allow now (fold Failure ts (New trip cooldown)) = (True, fold Failure ts (New trip cooldown))"
    by (simp add: Allow_def New_def)
  have "word_of_int (int (length ts)) + 1 = (word_of_int trip :: 32 word)"
    using assms(6) by (metis wi_hom_add word_1_wi)
  then show "fst (Allow now (Failure t (fold Failure ts (New trip cooldown)))) = False"
    using b assms by (simp add: Failure_def Allow_def New_def Let_def MaxInt64_def)
qed

theorem breaker_trips_witness:
  "fst (Allow 105 (fold Failure [90, 95] (New 3 10))) \<and>
   \<not> fst (Allow 105 (Failure 100 (fold Failure [90, 95] (New 3 10))))"
  using breaker_trips [of 3 100 10 "[90, 95]" 105] by (simp add: MaxInt64_def)

text \<open>A reported success closes the breaker whatever its state, and forgets the failures.\<close>

lemma Success_closes: "Allow now (Success b) = (True, Success b)" "br_fails (Success b) = 0"
  by (simp_all add: Success_def Allow_def Let_def)

end
