(* ===== verification/KG_Model.thy ===== *)
theory KG_Model
  imports KG_Prelude
begin

text \<open>
  The data model of \<^verbatim>\<open>internal/model/model.go\<close>: one record per persisted struct the other
  components read or write, and the struct methods as functions. A record field is named
  after the Go field with the table's prefix. Left out of the records are the bun table tag,
  the relation lists (\<^verbatim>\<open>License.Activations\<close>, \<^verbatim>\<open>Seats\<close>, \<^verbatim>\<open>Addons\<close>), which the model reads
  from the tables themselves, the back pointers to a parent row, and the scan-only counters
  of list responses. \<^verbatim>\<open>License.Product\<close> and \<^verbatim>\<open>License.Plan\<close> are options: \<open>None\<close> is a
  relation that was not loaded.
\<close>

section \<open>Products, users, API keys\<close>

record User =
  user_ID :: string
  user_Email :: string
  user_Name :: string
  user_AvatarURL :: string
  user_Role :: string
  user_CreatedAt :: time
  user_UpdatedAt :: time

definition IsAdmin :: "User \<Rightarrow> bool" where
  "IsAdmin u \<longleftrightarrow> user_Role u = ''owner'' \<or> user_Role u = ''admin''"

abbreviation ProductTypeDesktop :: string where "ProductTypeDesktop \<equiv> ''desktop''"
abbreviation ProductTypeSaaS :: string where "ProductTypeSaaS \<equiv> ''saas''"
abbreviation ProductTypeHybrid :: string where "ProductTypeHybrid \<equiv> ''hybrid''"

abbreviation CapActivations :: string where "CapActivations \<equiv> ''activations''"
abbreviation CapSeats :: string where "CapSeats \<equiv> ''seats''"
abbreviation CapReleases :: string where "CapReleases \<equiv> ''releases''"

definition IsValidProductType :: "string \<Rightarrow> bool" where
  "IsValidProductType t \<longleftrightarrow>
     t = ProductTypeDesktop \<or> t = ProductTypeSaaS \<or> t = ProductTypeHybrid"

definition ProductSupports :: "string \<Rightarrow> string \<Rightarrow> bool" where
  "ProductSupports t capability =
     (if t = ProductTypeDesktop then capability = CapActivations \<or> capability = CapReleases
      else if t = ProductTypeSaaS then capability = CapSeats
      else if t = ProductTypeHybrid then
        capability = CapActivations \<or> capability = CapSeats \<or> capability = CapReleases
      else False)"

definition ProductTypesSupporting :: "string \<Rightarrow> string list" where
  "ProductTypesSupporting capability =
     filter (\<lambda>t. ProductSupports t capability)
       [ProductTypeDesktop, ProductTypeSaaS, ProductTypeHybrid]"

record Product =
  prod_ID :: string
  prod_Name :: string
  prod_Slug :: string
  prod_Type :: string
  prod_LicensePrefix :: string
  prod_MinimumSupportedVersion :: string
  prod_MinimumSupportedMessage :: string
  prod_DownloadURL :: string
  prod_RequireSigning :: bool
  prod_FeedLicenseRequired :: bool
  prod_FeedGatedAt :: "time option"
  prod_CreatedAt :: time

record APIKey =
  apikey_ID :: string
  apikey_ProductID :: string
  apikey_Name :: string
  apikey_KeyHash :: string
  apikey_Prefix :: string
  apikey_Scopes :: "string list"
  apikey_LastUsed :: "time option"
  apikey_LastUsedIP :: string
  apikey_CreatedAt :: time

abbreviation ScopeAdmin :: string where "ScopeAdmin \<equiv> ''admin''"
abbreviation ScopeLicensesWrite :: string where "ScopeLicensesWrite \<equiv> ''licenses:write''"
abbreviation ScopeReleasesWrite :: string where "ScopeReleasesWrite \<equiv> ''releases:write''"

definition AllScopes :: "string list" where
  "AllScopes = [ScopeAdmin, ScopeLicensesWrite, ScopeReleasesWrite]"

definition IsValidScope :: "string \<Rightarrow> bool" where
  "IsValidScope s \<longleftrightarrow> s \<in> set AllScopes"

text \<open>The receiver is a pointer: \<open>None\<close> is the nil key.\<close>

fun has_scope_loop :: "string list \<Rightarrow> string \<Rightarrow> bool" where
  "has_scope_loop [] scope = False"
| "has_scope_loop (s # ss) scope = (if s = ScopeAdmin \<or> s = scope then True else has_scope_loop ss scope)"

definition HasScope :: "APIKey option \<Rightarrow> string \<Rightarrow> bool" where
  "HasScope a scope = (case a of None \<Rightarrow> False | Some k \<Rightarrow> has_scope_loop (apikey_Scopes k) scope)"

section \<open>Plans and entitlements\<close>

record Entitlement =
  ent_ID :: string
  ent_PlanID :: string
  ent_Feature :: string
  ent_ValueType :: string
  ent_Value :: string
  ent_QuotaPeriod :: string
  ent_QuotaUnit :: string
  ent_StripeMeterEventName :: string

record Plan =
  plan_ID :: string
  plan_ProductID :: string
  plan_Name :: string
  plan_Slug :: string
  plan_CheckoutID :: string
  plan_LicenseType :: string
  plan_BillingInterval :: string
  plan_MaxActivations :: int
  plan_TrialDays :: int
  plan_GraceDays :: int
  plan_StripePriceID :: string
  plan_UpdatesDays :: int
  plan_RenewalDays :: int
  plan_StripeRenewalPriceID :: string
  plan_LicenseModel :: string
  plan_FloatingTimeout :: int
  plan_TokenTTLDays :: int
  plan_SelfSignup :: bool
  plan_SignupDailyCap :: int
  plan_SignupConsentText :: string
  plan_MaxSeats :: int
  plan_PerSeat :: bool
  plan_MinQuantity :: int
  plan_MaxQuantity :: int
  plan_Active :: bool
  plan_SortOrder :: int
  plan_CreatedAt :: time
  plan_TrialFallbackPlanID :: string
  plan_Entitlements :: "Entitlement list"

definition MaxPlanQuantity :: int where
  "MaxPlanQuantity = 10000"

text \<open>
  The seats and the devices a licence on the plan holds for \<open>quantity\<close> paid seats. The
  product is Go's \<^verbatim>\<open>int\<close> multiplication.
\<close>

definition plan_limits :: "Plan \<Rightarrow> int \<Rightarrow> int \<times> int" where
  "plan_limits p quantity =
     (if \<not> plan_PerSeat p then (plan_MaxSeats p, plan_MaxActivations p)
      else let quantity = (if quantity < 1 then 1 else quantity)
           in (quantity, wrap64 (plan_MaxActivations p * quantity)))"

definition IsFree :: "Plan \<Rightarrow> bool" where
  "IsFree p \<longleftrightarrow> plan_StripePriceID p = '''' \<and> plan_UpdatesDays p = 0 \<and>
     plan_RenewalDays p = 0 \<and> plan_StripeRenewalPriceID p = ''''"

definition TrialFallbackRefusal :: "Plan \<Rightarrow> string \<Rightarrow> string" where
  "TrialFallbackRefusal p productID =
     (if plan_ProductID p \<noteq> productID then ''must be a plan of the same product''
      else if plan_LicenseType p = ''trial'' then ''cannot be a trial plan''
      else if plan_PerSeat p then ''cannot be a plan sold per seat''
      else if \<not> IsFree p then ''must be a free plan (no stripe_price_id, update period or renewals)''
      else '''')"

definition OffersRenewal :: "Plan \<Rightarrow> bool" where
  "OffersRenewal p \<longleftrightarrow> plan_Active p \<and> plan_LicenseType p = ''perpetual'' \<and>
     plan_RenewalDays p > 0 \<and> plan_StripeRenewalPriceID p \<noteq> ''''"

definition UpdatesUntilFor :: "string \<Rightarrow> int \<Rightarrow> time \<Rightarrow> time option" where
  "UpdatesUntilFor licenseType days now =
     (if licenseType \<noteq> ''perpetual'' \<or> days \<le> 0 then None
      else Some (time_add now (days_dur days)))"

definition InitialUpdatesUntil :: "Plan \<Rightarrow> time \<Rightarrow> time option" where
  "InitialUpdatesUntil p now = UpdatesUntilFor (plan_LicenseType p) (plan_UpdatesDays p) now"

section \<open>Seats\<close>

record Seat =
  seat_ID :: string
  seat_LicenseID :: string
  seat_UserID :: string
  seat_Email :: string
  seat_Role :: string
  seat_InvitedAt :: time
  seat_AcceptedAt :: "time option"
  seat_RemovedAt :: "time option"
  seat_InviteTokenHash :: string
  seat_InviteExpiresAt :: "time option"
  seat_Paused :: bool
  seat_MemberKey :: string
  seat_MemberKeyHash :: string
  seat_MemberKeyEncrypted :: "string option"
  seat_CreatedAt :: time

definition JoinedSeats :: "Seat list \<Rightarrow> Seat list" where
  "JoinedSeats seats = filter (\<lambda>s. seat_AcceptedAt s \<noteq> None \<and> seat_RemovedAt s = None) seats"

section \<open>Licences\<close>

abbreviation StatusActive :: string where "StatusActive \<equiv> ''active''"
abbreviation StatusTrialing :: string where "StatusTrialing \<equiv> ''trialing''"
abbreviation StatusPastDue :: string where "StatusPastDue \<equiv> ''past_due''"
abbreviation StatusCanceled :: string where "StatusCanceled \<equiv> ''canceled''"
abbreviation StatusExpired :: string where "StatusExpired \<equiv> ''expired''"
abbreviation StatusSuspended :: string where "StatusSuspended \<equiv> ''suspended''"
abbreviation StatusRevoked :: string where "StatusRevoked \<equiv> ''revoked''"

text \<open>
  The licence row. \<open>lic_TermsHeldUntil\<close> and \<open>lic_TermsCheckAfter\<close> are the two columns
  the store reads and writes in raw SQL only, beside the struct's own.
\<close>

record License =
  lic_ID :: string
  lic_ProductID :: string
  lic_PlanID :: string
  lic_UserID :: string
  lic_Email :: string
  lic_LicenseKey :: string
  lic_KeyHash :: string
  lic_LicenseKeyEncrypted :: "string option"
  lic_PaymentProvider :: string
  lic_StripeCustomerID :: string
  lic_StripeSubscriptionID :: string
  lic_StripeSyncedAt :: "time option"
  lic_StripePaymentIntentID :: string
  lic_StripeCheckoutSessionID :: string
  lic_Quantity :: int
  lic_StripePendingUpdateExpiresAt :: "time option"
  lic_Status :: string
  lic_ValidFrom :: time
  lic_ValidUntil :: "time option"
  lic_UpdatesUntil :: "time option"
  lic_UpdatesTermsSet :: bool
  lic_CanceledAt :: "time option"
  lic_SuspendedAt :: "time option"
  lic_SuspendedBy :: string
  lic_PastDueAt :: "time option"
  lic_Notes :: string
  lic_OrgName :: string
  lic_ExternalCustomerID :: string
  lic_ExternalWorkspaceID :: string
  lic_SignupSource :: string
  lic_MarketingConsent :: bool
  lic_MarketingConsentAt :: "time option"
  lic_SignupPlanID :: string
  lic_CreatedAt :: time
  lic_UpdatedAt :: time
  lic_Product :: "Product option"
  lic_Plan :: "Plan option"
  lic_SeatLimit :: "int option"
  lic_ActivationLimit :: "int option"
  lic_KeySeat :: "Seat option"
  lic_KeySeatPaused :: bool
  lic_TermsHeldUntil :: "time option"
  lic_TermsCheckAfter :: "time option"

definition license_grace_days :: "License \<Rightarrow> int" where
  "license_grace_days l =
     (case lic_Plan l of
        None \<Rightarrow> 7
      | Some p \<Rightarrow>
          if lic_Status l = StatusTrialing \<and> plan_TrialFallbackPlanID p \<noteq> '''' \<and>
             lic_StripeSubscriptionID l = ''''
          then max (plan_GraceDays p) 1
          else if lic_Status l = StatusTrialing \<and> lic_StripeSubscriptionID l = '''' then 0
          else plan_GraceDays p)"

definition license_limits :: "License \<Rightarrow> int \<times> int" where
  "license_limits l =
     (case lic_Plan l of None \<Rightarrow> (0, 3) | Some p \<Rightarrow> plan_limits p (lic_Quantity l))"

text \<open>A nil pointer in the argument list is \<open>None\<close>; it is passed over.\<close>

definition FillLimits :: "License option list \<Rightarrow> License option list" where
  "FillLimits ls = map (map_option (\<lambda>l.
     case lic_Plan l of
       None \<Rightarrow> l
     | Some p \<Rightarrow>
         let (seats, activations) = plan_limits p (lic_Quantity l)
         in l\<lparr>lic_SeatLimit := Some seats, lic_ActivationLimit := Some activations\<rparr>)) ls"

definition EffectiveUpdatesUntil :: "License \<Rightarrow> time option" where
  "EffectiveUpdatesUntil l =
     (case lic_Plan l of
        Some p \<Rightarrow> if plan_LicenseType p \<noteq> ''perpetual'' then None else lic_UpdatesUntil l
      | None \<Rightarrow> lic_UpdatesUntil l)"

section \<open>Devices, sessions, usage\<close>

record Activation =
  act_ID :: string
  act_LicenseID :: string
  act_Identifier :: string
  act_IdentifierType :: string
  act_Label :: string
  act_IPAddress :: string
  act_LastVerified :: time
  act_CreatedAt :: time
  act_SeatID :: string
  act_PredatesMemberKeys :: bool

record FloatingSession =
  fs_ID :: string
  fs_LicenseID :: string
  fs_Identifier :: string
  fs_Label :: string
  fs_IPAddress :: string
  fs_CheckedOut :: time
  fs_ExpiresAt :: time
  fs_Heartbeat :: time
  fs_SeatID :: string

record UsageEvent =
  ue_ID :: string
  ue_LicenseID :: string
  ue_Feature :: string
  ue_Quantity :: int
  ue_IPAddress :: string
  ue_RecordedAt :: time

record UsageCounter =
  uc_ID :: string
  uc_LicenseID :: string
  uc_Feature :: string
  uc_Period :: string
  uc_PeriodKey :: string
  uc_Used :: int
  uc_UpdatedAt :: time

record MeteredBilling =
  mb_ID :: string
  mb_LicenseID :: string
  mb_Feature :: string
  mb_Quantity :: int
  mb_PeriodKey :: string
  mb_Identifier :: string
  mb_Synced :: bool
  mb_SyncedAt :: "time option"
  mb_ExternalID :: string
  mb_Attempts :: int
  mb_LastError :: string
  mb_CreatedAt :: time

record Addon =
  addon_ID :: string
  addon_ProductID :: string
  addon_Name :: string
  addon_Slug :: string
  addon_Description :: string
  addon_Feature :: string
  addon_ValueType :: string
  addon_Value :: string
  addon_QuotaPeriod :: string
  addon_QuotaUnit :: string
  addon_Active :: bool
  addon_SortOrder :: int
  addon_CreatedAt :: time

text \<open>The relation \<^verbatim>\<open>LicenseAddon.Addon\<close> is an option, as it may be nil.\<close>

record LicenseAddon =
  la_ID :: string
  la_LicenseID :: string
  la_AddonID :: string
  la_Enabled :: bool
  la_CreatedAt :: time
  la_Addon :: "Addon option"

section \<open>Upgrades, renewals, subscriptions and the audit trail\<close>

abbreviation UpgradePending :: string where "UpgradePending \<equiv> ''pending''"
abbreviation UpgradeApplied :: string where "UpgradeApplied \<equiv> ''applied''"
abbreviation UpgradeReverted :: string where "UpgradeReverted \<equiv> ''reverted''"

record LicenseUpgrade =
  up_ID :: string
  up_LicenseID :: string
  up_ToPlanID :: string
  up_State :: string
  up_StripeCheckoutSessionID :: string
  up_StripePaymentIntentID :: string
  up_StripeSubscriptionID :: string
  up_FromPlanID :: string
  up_FromStatus :: string
  up_FromValidUntil :: "time option"
  up_FromUpdatesUntil :: "time option"
  up_FromUpdatesTermsSet :: bool
  up_FromPaymentProvider :: string
  up_FromStripeCustomerID :: string
  up_FromCanceledAt :: "time option"
  up_FromQuantity :: int
  up_EndReason :: string
  up_CreatedAt :: time
  up_AppliedAt :: "time option"
  up_EndedAt :: "time option"

record LicenseRenewal =
  ren_ID :: string
  ren_LicenseID :: string
  ren_StripeCheckoutSessionID :: string
  ren_StripePaymentIntentID :: string
  ren_Days :: int
  ren_PreviousUpdatesUntil :: "time option"
  ren_UpdatesUntil :: "time option"
  ren_RefundedAt :: "time option"
  ren_SupersededAt :: "time option"
  ren_CreatedAt :: time

record Subscription =
  sub_ID :: string
  sub_LicenseID :: string
  sub_UserID :: string
  sub_PlanID :: string
  sub_Status :: string
  sub_PaymentProvider :: string
  sub_ExternalID :: string
  sub_CurrentPeriodStart :: "time option"
  sub_CurrentPeriodEnd :: "time option"
  sub_CancelAtPeriodEnd :: bool
  sub_CanceledAt :: "time option"
  sub_TrialStart :: "time option"
  sub_TrialEnd :: "time option"
  sub_CancelStateSyncedAt :: "time option"
  sub_CreatedAt :: time
  sub_UpdatedAt :: time

text \<open>An audit line as it is handed over; its identifier and time, and the product when it is
  empty, are filled in by the writer.\<close>

record AuditLog =
  audit_Entity :: string
  audit_EntityID :: string
  audit_Action :: string
  audit_ActorID :: string
  audit_ActorType :: string
  audit_Changes :: "(string \<times> detail) list"
  audit_IPAddress :: string
  audit_ProductID :: string

section \<open>Sign-in, delivery and bookkeeping rows\<close>

record OTPCode =
  otp_ID :: string
  otp_Email :: string
  otp_CodeHash :: string
  otp_Attempts :: int
  otp_ExpiresAt :: time
  otp_Used :: bool
  otp_CreatedAt :: time

record RefreshToken =
  rt_ID :: string
  rt_UserID :: string
  rt_TokenHash :: string
  rt_ExpiresAt :: time
  rt_CreatedAt :: time
  rt_RevokedAt :: "time option"

record Webhook =
  wh_ID :: string
  wh_ProductID :: string
  wh_URL :: string
  wh_Secret :: string
  wh_Events :: "string list"
  wh_Active :: bool
  wh_CreatedAt :: time
  wh_UpdatedAt :: time

text \<open>The payload is the JSON object with the members \<^verbatim>\<open>event\<close>, \<^verbatim>\<open>timestamp\<close> and \<^verbatim>\<open>data\<close>.\<close>

type_synonym payload = "string \<times> string \<times> (string \<times> detail) list"

record WebhookDelivery =
  wd_ID :: string
  wd_WebhookID :: string
  wd_Event :: string
  wd_Payload :: payload
  wd_ResponseCode :: int
  wd_ResponseBody :: string
  wd_Attempts :: int
  wd_NextRetry :: "time option"
  wd_Status :: string
  wd_CreatedAt :: time
  wd_DeliveredAt :: "time option"
  wd_ClaimToken :: string

text \<open>A row of \<^verbatim>\<open>notifications\<close>, one per licence and tag: a reminder claimed or sent.\<close>

record Notification =
  nt_ID :: string
  nt_LicenseID :: string
  nt_Tag :: string
  nt_SentAt :: "time option"
  nt_ClaimedAt :: "time option"

record QueuedEmail =
  qe_ID :: string
  qe_ToAddr :: string
  qe_Subject :: string
  qe_Body :: string
  qe_Attempts :: int
  qe_MaxAttempts :: int
  qe_Status :: string
  qe_NextRetry :: "time option"
  qe_Error :: string
  qe_ClaimToken :: string
  qe_CreatedAt :: time
  qe_SentAt :: "time option"
  qe_NotificationID :: string

record IdempotencyKey =
  ik_Key :: string
  ik_Endpoint :: string
  ik_BodyHash :: string
  ik_ResponseStatus :: int
  ik_ResponseBody :: string
  ik_ResponseComplete :: bool
  ik_CreatedAt :: time
  ik_ExpiresAt :: time

record ProcessedEvent =
  pe_ID :: string
  pe_Provider :: string
  pe_EventID :: string
  pe_CreatedAt :: time

section \<open>Zero values\<close>

text \<open>The zero value of a Go struct, what \<^verbatim>\<open>new(model.T)\<close> points at.\<close>

definition zero_User :: User where
  "zero_User = \<lparr>
     user_ID = '''', user_Email = '''', user_Name = '''', user_AvatarURL = '''',
     user_Role = '''', user_CreatedAt = time_zero, user_UpdatedAt = time_zero\<rparr>"

definition zero_Product :: Product where
  "zero_Product = \<lparr>
     prod_ID = '''', prod_Name = '''', prod_Slug = '''', prod_Type = '''',
     prod_LicensePrefix = '''', prod_MinimumSupportedVersion = '''',
     prod_MinimumSupportedMessage = '''', prod_DownloadURL = '''',
     prod_RequireSigning = False, prod_FeedLicenseRequired = False, prod_FeedGatedAt = None,
     prod_CreatedAt = time_zero\<rparr>"

definition zero_APIKey :: APIKey where
  "zero_APIKey = \<lparr>
     apikey_ID = '''', apikey_ProductID = '''', apikey_Name = '''', apikey_KeyHash = '''',
     apikey_Prefix = '''', apikey_Scopes = [], apikey_LastUsed = None,
     apikey_LastUsedIP = '''', apikey_CreatedAt = time_zero\<rparr>"

definition zero_Entitlement :: Entitlement where
  "zero_Entitlement = \<lparr>
     ent_ID = '''', ent_PlanID = '''', ent_Feature = '''', ent_ValueType = '''',
     ent_Value = '''', ent_QuotaPeriod = '''', ent_QuotaUnit = '''',
     ent_StripeMeterEventName = ''''\<rparr>"

definition zero_Plan :: Plan where
  "zero_Plan = \<lparr>
     plan_ID = '''', plan_ProductID = '''', plan_Name = '''', plan_Slug = '''',
     plan_CheckoutID = '''', plan_LicenseType = '''', plan_BillingInterval = '''',
     plan_MaxActivations = 0, plan_TrialDays = 0, plan_GraceDays = 0,
     plan_StripePriceID = '''', plan_UpdatesDays = 0, plan_RenewalDays = 0,
     plan_StripeRenewalPriceID = '''', plan_LicenseModel = '''', plan_FloatingTimeout = 0,
     plan_TokenTTLDays = 0, plan_SelfSignup = False, plan_SignupDailyCap = 0,
     plan_SignupConsentText = '''', plan_MaxSeats = 0, plan_PerSeat = False,
     plan_MinQuantity = 0, plan_MaxQuantity = 0, plan_Active = False, plan_SortOrder = 0,
     plan_CreatedAt = time_zero, plan_TrialFallbackPlanID = '''', plan_Entitlements = []\<rparr>"

definition zero_Seat :: Seat where
  "zero_Seat = \<lparr>
     seat_ID = '''', seat_LicenseID = '''', seat_UserID = '''', seat_Email = '''',
     seat_Role = '''', seat_InvitedAt = time_zero, seat_AcceptedAt = None,
     seat_RemovedAt = None, seat_InviteTokenHash = '''', seat_InviteExpiresAt = None,
     seat_Paused = False, seat_MemberKey = '''', seat_MemberKeyHash = '''',
     seat_MemberKeyEncrypted = None, seat_CreatedAt = time_zero\<rparr>"

definition zero_License :: License where
  "zero_License = \<lparr>
     lic_ID = '''', lic_ProductID = '''', lic_PlanID = '''', lic_UserID = '''',
     lic_Email = '''', lic_LicenseKey = '''', lic_KeyHash = '''',
     lic_LicenseKeyEncrypted = None, lic_PaymentProvider = '''', lic_StripeCustomerID = '''',
     lic_StripeSubscriptionID = '''', lic_StripeSyncedAt = None,
     lic_StripePaymentIntentID = '''', lic_StripeCheckoutSessionID = '''', lic_Quantity = 0,
     lic_StripePendingUpdateExpiresAt = None, lic_Status = '''', lic_ValidFrom = time_zero,
     lic_ValidUntil = None, lic_UpdatesUntil = None, lic_UpdatesTermsSet = False,
     lic_CanceledAt = None, lic_SuspendedAt = None, lic_SuspendedBy = '''',
     lic_PastDueAt = None, lic_Notes = '''', lic_OrgName = '''',
     lic_ExternalCustomerID = '''', lic_ExternalWorkspaceID = '''', lic_SignupSource = '''',
     lic_MarketingConsent = False, lic_MarketingConsentAt = None, lic_SignupPlanID = '''',
     lic_CreatedAt = time_zero, lic_UpdatedAt = time_zero, lic_Product = None,
     lic_Plan = None, lic_SeatLimit = None, lic_ActivationLimit = None, lic_KeySeat = None,
     lic_KeySeatPaused = False, lic_TermsHeldUntil = None, lic_TermsCheckAfter = None\<rparr>"

definition zero_Activation :: Activation where
  "zero_Activation = \<lparr>
     act_ID = '''', act_LicenseID = '''', act_Identifier = '''', act_IdentifierType = '''',
     act_Label = '''', act_IPAddress = '''', act_LastVerified = time_zero,
     act_CreatedAt = time_zero, act_SeatID = '''', act_PredatesMemberKeys = False\<rparr>"

definition zero_FloatingSession :: FloatingSession where
  "zero_FloatingSession = \<lparr>
     fs_ID = '''', fs_LicenseID = '''', fs_Identifier = '''', fs_Label = '''',
     fs_IPAddress = '''', fs_CheckedOut = time_zero, fs_ExpiresAt = time_zero,
     fs_Heartbeat = time_zero, fs_SeatID = ''''\<rparr>"

definition zero_UsageEvent :: UsageEvent where
  "zero_UsageEvent = \<lparr>
     ue_ID = '''', ue_LicenseID = '''', ue_Feature = '''', ue_Quantity = 0,
     ue_IPAddress = '''', ue_RecordedAt = time_zero\<rparr>"

definition zero_UsageCounter :: UsageCounter where
  "zero_UsageCounter = \<lparr>
     uc_ID = '''', uc_LicenseID = '''', uc_Feature = '''', uc_Period = '''',
     uc_PeriodKey = '''', uc_Used = 0, uc_UpdatedAt = time_zero\<rparr>"

definition zero_MeteredBilling :: MeteredBilling where
  "zero_MeteredBilling = \<lparr>
     mb_ID = '''', mb_LicenseID = '''', mb_Feature = '''', mb_Quantity = 0,
     mb_PeriodKey = '''', mb_Identifier = '''', mb_Synced = False, mb_SyncedAt = None,
     mb_ExternalID = '''', mb_Attempts = 0, mb_LastError = '''', mb_CreatedAt = time_zero\<rparr>"

definition zero_Addon :: Addon where
  "zero_Addon = \<lparr>
     addon_ID = '''', addon_ProductID = '''', addon_Name = '''', addon_Slug = '''',
     addon_Description = '''', addon_Feature = '''', addon_ValueType = '''',
     addon_Value = '''', addon_QuotaPeriod = '''', addon_QuotaUnit = '''',
     addon_Active = False, addon_SortOrder = 0, addon_CreatedAt = time_zero\<rparr>"

definition zero_LicenseAddon :: LicenseAddon where
  "zero_LicenseAddon = \<lparr>
     la_ID = '''', la_LicenseID = '''', la_AddonID = '''', la_Enabled = False,
     la_CreatedAt = time_zero, la_Addon = None\<rparr>"

definition zero_LicenseUpgrade :: LicenseUpgrade where
  "zero_LicenseUpgrade = \<lparr>
     up_ID = '''', up_LicenseID = '''', up_ToPlanID = '''', up_State = '''',
     up_StripeCheckoutSessionID = '''', up_StripePaymentIntentID = '''',
     up_StripeSubscriptionID = '''', up_FromPlanID = '''', up_FromStatus = '''',
     up_FromValidUntil = None, up_FromUpdatesUntil = None, up_FromUpdatesTermsSet = False,
     up_FromPaymentProvider = '''', up_FromStripeCustomerID = '''', up_FromCanceledAt = None,
     up_FromQuantity = 0, up_EndReason = '''', up_CreatedAt = time_zero, up_AppliedAt = None,
     up_EndedAt = None\<rparr>"

definition zero_LicenseRenewal :: LicenseRenewal where
  "zero_LicenseRenewal = \<lparr>
     ren_ID = '''', ren_LicenseID = '''', ren_StripeCheckoutSessionID = '''',
     ren_StripePaymentIntentID = '''', ren_Days = 0, ren_PreviousUpdatesUntil = None,
     ren_UpdatesUntil = None, ren_RefundedAt = None, ren_SupersededAt = None,
     ren_CreatedAt = time_zero\<rparr>"

definition zero_Subscription :: Subscription where
  "zero_Subscription = \<lparr>
     sub_ID = '''', sub_LicenseID = '''', sub_UserID = '''', sub_PlanID = '''',
     sub_Status = '''', sub_PaymentProvider = '''', sub_ExternalID = '''',
     sub_CurrentPeriodStart = None, sub_CurrentPeriodEnd = None,
     sub_CancelAtPeriodEnd = False, sub_CanceledAt = None, sub_TrialStart = None,
     sub_TrialEnd = None, sub_CancelStateSyncedAt = None, sub_CreatedAt = time_zero, sub_UpdatedAt = time_zero\<rparr>"

lemmas zero_defs =
  zero_User_def
  zero_Product_def
  zero_APIKey_def
  zero_Entitlement_def
  zero_Plan_def
  zero_Seat_def
  zero_License_def
  zero_Activation_def
  zero_FloatingSession_def
  zero_UsageEvent_def
  zero_UsageCounter_def
  zero_MeteredBilling_def
  zero_Addon_def
  zero_LicenseAddon_def
  zero_LicenseUpgrade_def
  zero_LicenseRenewal_def
  zero_Subscription_def

section \<open>Releases and the history of a plan's terms\<close>

record Release =
  rel_ID :: string
  rel_ProductID :: string
  rel_Version :: string
  rel_Channel :: string
  rel_Name :: string
  rel_ReleaseNotes :: string
  rel_Status :: string
  rel_YankedReason :: string
  rel_PublishedAt :: "time option"
  rel_YankedAt :: "time option"
  rel_CreatedAt :: time
  rel_UpdatedAt :: time

record ReleaseArtifact =
  art_ID :: string
  art_ReleaseID :: string
  art_Platform :: string
  art_Filename :: string
  art_FileKey :: string
  art_FileSize :: int
  art_SHA256 :: string
  art_Ed25519Sig :: string
  art_ContentType :: string
  art_SigningKeyID :: string
  art_TauriSignature :: string
  art_CreatedAt :: time
  art_UpdatedAt :: time

definition IsUploaded :: "ReleaseArtifact option \<Rightarrow> bool" where
  "IsUploaded a = (case a of None \<Rightarrow> False | Some a \<Rightarrow> art_FileKey a \<noteq> '''' \<and> art_SHA256 a \<noteq> '''')"

record ReleaseSigningKey =
  sk_ID :: string
  sk_ProductID :: string
  sk_PublicKey :: string
  sk_PrivateKeyEncrypted :: string
  sk_Active :: bool
  sk_Note :: string
  sk_CreatedAt :: time
  sk_RotatedAt :: "time option"

abbreviation ReleaseStatusDraft :: string where "ReleaseStatusDraft \<equiv> ''draft''"
abbreviation ReleaseStatusPublished :: string where "ReleaseStatusPublished \<equiv> ''published''"
abbreviation ReleaseStatusYanked :: string where "ReleaseStatusYanked \<equiv> ''yanked''"

definition IsValidReleaseChannel :: "string \<Rightarrow> bool" where
  "IsValidReleaseChannel c \<longleftrightarrow> c = ''stable'' \<or> c = ''beta'' \<or> c = ''alpha'' \<or> c = ''dev''"

text \<open>A row of \<^verbatim>\<open>plan_update_terms\<close>, which a trigger writes when a plan's terms change.\<close>

record PlanTerms =
  pt_PlanID :: string
  pt_UpdatesDays :: int
  pt_LicenseType :: string
  pt_EffectiveFrom :: time
  pt_RecordedAt :: time

section \<open>Facts about the data model\<close>

lemma ProductTypesSupporting_iff:
  "t \<in> set (ProductTypesSupporting c) \<longleftrightarrow> ProductSupports t c"
  by (auto simp: ProductTypesSupporting_def ProductSupports_def)

lemma has_scope_loop_iff: "has_scope_loop ss scope \<longleftrightarrow> ScopeAdmin \<in> set ss \<or> scope \<in> set ss"
  by (induction ss) auto

lemma HasScope_iff:
  "HasScope a scope \<longleftrightarrow>
     (\<exists>k. a = Some k \<and> (ScopeAdmin \<in> set (apikey_Scopes k) \<or> scope \<in> set (apikey_Scopes k)))"
  by (auto simp: HasScope_def has_scope_loop_iff split: option.splits)

text \<open>
  \<open>max_activations\<close> and \<open>quantity\<close> are 32-bit INTEGER columns, so the product of a
  per-seat plan never wraps.
\<close>

lemma plan_limits_per_seat:
  assumes "plan_PerSeat p" and "0 \<le> plan_MaxActivations p" "plan_MaxActivations p < 2 ^ 31"
    and "q < 2 ^ 31"
  shows "plan_limits p q = (max 1 q, plan_MaxActivations p * max 1 q)"
proof -
  let ?q = "if q < 1 then 1 else q"
  have q: "?q = max 1 q" "1 \<le> ?q" "?q < 2 ^ 31" using assms(4) by auto
  have "plan_MaxActivations p * ?q \<le> 2 ^ 31 * 2 ^ 31"
    using assms(2,3) q by (intro mult_mono) auto
  moreover have "0 \<le> plan_MaxActivations p * ?q" using assms(2) q by auto
  ultimately have "wrap64 (plan_MaxActivations p * ?q) = plan_MaxActivations p * ?q" by simp
  with assms(1) q(1) show ?thesis by (simp add: plan_limits_def Let_def)
qed

lemma TrialFallbackRefusal_empty_iff:
  "TrialFallbackRefusal p pid = '''' \<longleftrightarrow>
     plan_ProductID p = pid \<and> plan_LicenseType p \<noteq> ''trial'' \<and> \<not> plan_PerSeat p \<and> IsFree p"
  by (simp add: TrialFallbackRefusal_def)

lemma IsFree_no_renewal: "IsFree p \<Longrightarrow> \<not> OffersRenewal p \<and> InitialUpdatesUntil p now = None"
  by (simp add: IsFree_def OffersRenewal_def InitialUpdatesUntil_def UpdatesUntilFor_def)

end
