(* ===== verification/KG_Store.thy ===== *)
theory KG_Store
  imports KG_Keys KG_Errors
begin

text \<open>
  The database and the parts of \<^verbatim>\<open>internal/store\<close> every other operation goes through: looking
  a licence up by a key, the check that the key still opens it, the licence row lock with the
  limits read under it, and which team members are paused.

  The database is a record of tables. A transaction that takes the licence row lock is one
  step on it, as the lock makes it; a statement outside a transaction is one step as well, and
  operations made of several such steps take an argument for what other requests do in
  between. \<open>db_fault\<close> is a database that cannot be reached: every operation then answers
  \<open>ErrDB\<close> and changes nothing. \<open>env\<close> holds what an operation reads of its surroundings: the
  clocks (\<^verbatim>\<open>time.Now()\<close>, and the database's \<^verbatim>\<open>now()\<close> and \<^verbatim>\<open>clock_timestamp()\<close>), new
  identifiers, random bytes, SHA-256 and the optional cipher keys are stored under.
\<close>

section \<open>Database and environment\<close>

record db =
  db_fault :: bool
  db_products :: "Product list"
  db_plans :: "Plan list"
  db_entitlements :: "Entitlement list"
  db_licenses :: "License list"
  db_activations :: "Activation list"
  db_seats :: "Seat list"
  db_floating :: "FloatingSession list"
  db_usage_events :: "UsageEvent list"
  db_usage_counters :: "UsageCounter list"
  db_metered :: "MeteredBilling list"
  db_addons :: "Addon list"
  db_license_addons :: "LicenseAddon list"
  db_renewals :: "LicenseRenewal list"
  db_upgrades :: "LicenseUpgrade list"
  db_subscriptions :: "Subscription list"
  db_users :: "User list"
  db_audit :: "AuditLog list"
  db_webhooks :: "(string \<times> string \<times> (string \<times> detail) list) list"
  db_mail :: "(string \<times> string \<times> (string \<times> detail) list) list"
  db_otp_codes :: "OTPCode list"
  db_refresh_tokens :: "RefreshToken list"
  db_notifications :: "Notification list"
  db_email_queue :: "QueuedEmail list"
  db_idempotency_keys :: "IdempotencyKey list"
  db_processed_events :: "ProcessedEvent list"
  db_settings :: "(string \<times> string) list"
  db_endpoints :: "Webhook list"
  db_deliveries :: "WebhookDelivery list"
  db_plan_terms :: "PlanTerms list"
  db_releases :: "Release list"
  db_artifacts :: "ReleaseArtifact list"
  db_signing_keys :: "ReleaseSigningKey list"

definition empty_db :: db where
  "empty_db = \<lparr>db_fault = False, db_products = [], db_plans = [], db_entitlements = [],
     db_licenses = [], db_activations = [], db_seats = [], db_floating = [],
     db_usage_events = [], db_usage_counters = [], db_metered = [], db_addons = [],
     db_license_addons = [], db_renewals = [], db_upgrades = [], db_subscriptions = [],
     db_users = [], db_audit = [], db_webhooks = [], db_mail = [],
     db_otp_codes = [], db_refresh_tokens = [], db_notifications = [], db_email_queue = [],
     db_idempotency_keys = [], db_processed_events = [], db_settings = [], db_endpoints = [], db_deliveries = [],
     db_plan_terms = [], db_releases = [], db_artifacts = [], db_signing_keys = []\<rparr>"

record AEAD =
  aead_Encrypt :: "string \<Rightarrow> string \<Rightarrow> string option"
  aead_Decrypt :: "string \<Rightarrow> string \<Rightarrow> string option"

record env =
  env_now :: time
  env_dbnow :: time
  env_clock :: time
  env_newID :: "nat \<Rightarrow> string"
  env_rand :: random_source
  env_sha256 :: "string \<Rightarrow> string"
  env_aead :: "AEAD option"

section \<open>Licences by key\<close>

definition stoppedStatuses :: "string list" where
  "stoppedStatuses = [StatusSuspended, StatusExpired, StatusRevoked]"

text \<open>A licence row with its \<^verbatim>\<open>Product\<close>, \<^verbatim>\<open>Plan\<close> and \<^verbatim>\<open>Plan.Entitlements\<close> relations loaded.\<close>

definition plan_of :: "db \<Rightarrow> License \<Rightarrow> Plan option" where
  "plan_of d l = select_one (\<lambda>p. plan_ID p = lic_PlanID l) (db_plans d)"

definition product_of :: "db \<Rightarrow> License \<Rightarrow> Product option" where
  "product_of d l = select_one (\<lambda>p. prod_ID p = lic_ProductID l) (db_products d)"

definition load_license :: "db \<Rightarrow> License \<Rightarrow> License" where
  "load_license d l = l\<lparr>lic_Product := product_of d l,
     lic_Plan := map_option (\<lambda>p. p\<lparr>plan_Entitlements :=
       filter (\<lambda>e. ent_PlanID e = plan_ID p) (db_entitlements d)\<rparr>) (plan_of d l),
     lic_KeySeat := None, lic_KeySeatPaused := False\<rparr>"

definition findLicenseWhere :: "(License \<Rightarrow> bool) \<Rightarrow> db \<Rightarrow> License result" where
  "findLicenseWhere P d =
     (if db_fault d then Inl ErrDB
      else case select_one P (db_licenses d) of
        None \<Rightarrow> Inl ErrNoRows
      | Some l \<Rightarrow> Inr (load_license d l))"

definition license_row :: "db \<Rightarrow> string \<Rightarrow> License option" where
  "license_row d lid = select_one (\<lambda>l. lic_ID l = lid) (db_licenses d)"

section \<open>Seats beyond the limit\<close>

definition seatLimitSQL :: "License \<Rightarrow> Plan \<Rightarrow> int" where
  "seatLimitSQL l pl = (if plan_PerSeat pl then max (lic_Quantity l) 1 else plan_MaxSeats pl)"

text \<open>
  The join order \<^verbatim>\<open>(accepted_at, id)\<close>: by time, ties by identifier. Identifiers are UUIDs in
  lower case, on which the database's text order is the order of the bytes.
\<close>

datatype join_key = JoinKey (jk_at: time) (jk_id: string)

instantiation join_key :: linorder
begin

definition less_eq_join_key :: "join_key \<Rightarrow> join_key \<Rightarrow> bool" where
  "less_eq_join_key a b \<longleftrightarrow> jk_at a < jk_at b \<or> (jk_at a = jk_at b \<and> jk_id a \<le> jk_id b)"

definition less_join_key :: "join_key \<Rightarrow> join_key \<Rightarrow> bool" where
  "less_join_key a b \<longleftrightarrow> jk_at a < jk_at b \<or> (jk_at a = jk_at b \<and> jk_id a < jk_id b)"

instance
proof
  fix a b c :: join_key
  show "a < b \<longleftrightarrow> a \<le> b \<and> \<not> b \<le> a"
    by (auto simp: less_eq_join_key_def less_join_key_def)
  show "a \<le> a" by (simp add: less_eq_join_key_def)
  show "a \<le> b \<Longrightarrow> b \<le> c \<Longrightarrow> a \<le> c" by (auto simp: less_eq_join_key_def)
  show "a \<le> b \<Longrightarrow> b \<le> a \<Longrightarrow> a = b"
    by (cases a; cases b) (auto simp: less_eq_join_key_def)
  show "a \<le> b \<or> b \<le> a" by (auto simp: less_eq_join_key_def)
qed

end

definition join_order :: "Seat \<Rightarrow> join_key" where
  "join_order s = JoinKey (case seat_AcceptedAt s of None \<Rightarrow> 0 | Some t \<Rightarrow> t) (seat_ID s)"

definition is_joined :: "Seat \<Rightarrow> bool" where
  "is_joined s \<longleftrightarrow> seat_RemovedAt s = None \<and> seat_AcceptedAt s \<noteq> None"

text \<open>A joined seat of the licence at another address than the owner's.\<close>

definition joined_member :: "License \<Rightarrow> Seat \<Rightarrow> bool" where
  "joined_member l s \<longleftrightarrow> seat_LicenseID s = lic_ID l \<and> is_joined s \<and>
     to_lower (seat_Email s) \<noteq> to_lower (lic_Email l)"

definition seatPausedSQL :: "db \<Rightarrow> License \<Rightarrow> Plan \<Rightarrow> Seat \<Rightarrow> bool" where
  "seatPausedSQL d l pl s \<longleftrightarrow>
     seatLimitSQL l pl > 0 \<and> to_lower (seat_Email s) \<noteq> to_lower (lic_Email l) \<and>
     count_where (\<lambda>o'. seat_LicenseID o' = seat_LicenseID s \<and> seat_RemovedAt o' = None \<and>
         seat_AcceptedAt o' \<noteq> None \<and> to_lower (seat_Email o') \<noteq> to_lower (lic_Email l) \<and>
         join_order o' < join_order s) (db_seats d)
       \<ge> seatLimitSQL l pl - 1"

definition SeatPaused :: "string \<Rightarrow> db \<Rightarrow> bool result" where
  "SeatPaused seatID d =
     (if db_fault d then Inl ErrDB
      else case select_one (\<lambda>s. seat_ID s = seatID \<and> seat_RemovedAt s = None \<and> seat_AcceptedAt s \<noteq> None) (db_seats d) of
        None \<Rightarrow> Inr False
      | Some s \<Rightarrow>
          (case license_row d (seat_LicenseID s) of
             None \<Rightarrow> Inr False
           | Some l \<Rightarrow> (case plan_of d l of None \<Rightarrow> Inr False | Some pl \<Rightarrow> Inr (seatPausedSQL d l pl s))))"

definition FindLicenseByKey :: "env \<Rightarrow> string \<Rightarrow> db \<Rightarrow> License result" where
  "FindLicenseByKey e key d =
     (let keyHash = HashKey (env_sha256 e) key in
      case findLicenseWhere (\<lambda>l. lic_KeyHash l \<noteq> '''' \<and> lic_KeyHash l = keyHash) d of
        Inr l \<Rightarrow> Inr l
      | Inl err \<Rightarrow>
          if err \<noteq> ErrNoRows then Inl err
          else
            (case select_one (\<lambda>s. seat_MemberKeyHash s \<noteq> '''' \<and> seat_MemberKeyHash s = keyHash \<and>
                   seat_RemovedAt s = None \<and> seat_AcceptedAt s \<noteq> None) (db_seats d) of
               Some seat \<Rightarrow>
                 (case findLicenseWhere (\<lambda>l. lic_ID l = seat_LicenseID seat) d of
                    Inl err \<Rightarrow> Inl err
                  | Inr l \<Rightarrow>
                      if (case lic_Product l of None \<Rightarrow> True | Some p \<Rightarrow> \<not> ProductSupports (prod_Type p) CapSeats)
                      then Inl ErrNoRows
                      else (case SeatPaused (seat_ID seat) d of
                              Inl err \<Rightarrow> Inl err
                            | Inr paused \<Rightarrow> Inr (l\<lparr>lic_KeySeatPaused := paused, lic_KeySeat := Some seat\<rparr>)))
             | None \<Rightarrow> findLicenseWhere (\<lambda>l. lic_LicenseKey l = key) d))"

section \<open>The key under the licence lock\<close>

definition canceledEndedSQL :: "time \<Rightarrow> License \<Rightarrow> bool" where
  "canceledEndedSQL dbnow l \<longleftrightarrow> lic_Status l = StatusCanceled \<and>
     (case lic_ValidUntil l of None \<Rightarrow> True | Some t \<Rightarrow> t \<le> dbnow)"

definition keyHeldIn :: "env \<Rightarrow> string \<Rightarrow> string \<Rightarrow> string \<Rightarrow> db \<Rightarrow> bool" where
  "keyHeldIn e licenseID seatID key d =
     (let h = HashKey (env_sha256 e) key in
      if seatID \<noteq> '''' then
        exists_where (\<lambda>s.
          seat_ID s = seatID \<and> seat_LicenseID s = licenseID \<and>
          seat_MemberKeyHash s \<noteq> '''' \<and> seat_MemberKeyHash s = h \<and>
          seat_RemovedAt s = None \<and> seat_AcceptedAt s \<noteq> None \<and>
          exists_where (\<lambda>l.
            lic_ID l = seat_LicenseID s \<and>
            exists_where (\<lambda>p. prod_ID p = lic_ProductID l \<and>
              prod_Type p \<in> set (ProductTypesSupporting CapSeats)) (db_products d) \<and>
            lic_Status l \<notin> set stoppedStatuses \<and>
            \<not> canceledEndedSQL (env_dbnow e) l \<and>
            exists_where (\<lambda>pl. plan_ID pl = lic_PlanID l \<and> \<not> seatPausedSQL d l pl s) (db_plans d))
            (db_licenses d)) (db_seats d)
      else
        exists_where (\<lambda>l. lic_ID l = licenseID \<and>
          ((lic_KeyHash l \<noteq> '''' \<and> lic_KeyHash l = h) \<or> lic_LicenseKey l = key) \<and>
          lic_Status l \<notin> set stoppedStatuses \<and>
          \<not> canceledEndedSQL (env_dbnow e) l) (db_licenses d))"

text \<open>
  The limits read under the licence row lock; \<open>None\<close> is Go's \<^verbatim>\<open>known = false\<close>, a licence or a
  plan that is not there to read.
\<close>

definition lockLicenseLimitsIn :: "string \<Rightarrow> db \<Rightarrow> (int \<times> int) option" where
  "lockLicenseLimitsIn licenseID d =
     (case license_row d licenseID of
        None \<Rightarrow> None
      | Some l \<Rightarrow> (case plan_of d l of None \<Rightarrow> None | Some p \<Rightarrow> Some (plan_limits p (lic_Quantity l))))"

definition stricterSeatLimit :: "int \<Rightarrow> int \<Rightarrow> int" where
  "stricterSeatLimit a b = (if a \<le> 0 then b else if b \<le> 0 then a else min a b)"

definition memberSeatsSQL :: "string \<Rightarrow> db \<Rightarrow> int" where
  "memberSeatsSQL licenseID d =
     (case license_row d licenseID of
        None \<Rightarrow> 0
      | Some l \<Rightarrow> count_where (\<lambda>s. seat_LicenseID s = licenseID \<and> seat_RemovedAt s = None \<and>
          to_lower (seat_Email s) \<noteq> to_lower (lic_Email l)) (db_seats d))"

text \<open>
  The primary keys and unique indexes of \<^verbatim>\<open>db/migrations\<close> on the tables slots are taken in.
\<close>

definition db_wf :: "db \<Rightarrow> bool" where
  "db_wf d \<longleftrightarrow>
     distinct (map lic_ID (db_licenses d)) \<and> distinct (map plan_ID (db_plans d)) \<and>
     distinct (map prod_ID (db_products d)) \<and> distinct (map seat_ID (db_seats d)) \<and>
     distinct (map act_ID (db_activations d)) \<and>
     distinct (map (\<lambda>a. (act_LicenseID a, act_Identifier a)) (db_activations d)) \<and>
     distinct (map fs_ID (db_floating d)) \<and>
     distinct (map (\<lambda>f. (fs_LicenseID f, fs_Identifier f)) (db_floating d))"

section \<open>What the lookup and the locked check agree on\<close>

lemma not_stopped_iff:
  "st \<notin> set stoppedStatuses \<longleftrightarrow> st \<noteq> StatusSuspended \<and> st \<noteq> StatusExpired \<and> st \<noteq> StatusRevoked"
  by (auto simp: stoppedStatuses_def)

lemma license_row_unique:
  "db_wf d \<Longrightarrow> l \<in> set (db_licenses d) \<Longrightarrow> license_row d (lic_ID l) = Some l"
  by (simp add: db_wf_def license_row_def select_one_unique)

lemma license_row_SomeD: "license_row d lid = Some l \<Longrightarrow> l \<in> set (db_licenses d) \<and> lic_ID l = lid"
  by (auto simp: license_row_def dest: select_one_SomeD)

lemma plan_of_SomeD: "plan_of d l = Some p \<Longrightarrow> p \<in> set (db_plans d) \<and> plan_ID p = lic_PlanID l"
  by (auto simp: plan_of_def dest: select_one_SomeD)

lemma plan_of_unique:
  "db_wf d \<Longrightarrow> p \<in> set (db_plans d) \<Longrightarrow> plan_ID p = lic_PlanID l \<Longrightarrow> plan_of d l = Some p"
  by (auto simp: db_wf_def plan_of_def select_one_unique)

lemma product_of_SomeD: "product_of d l = Some p \<Longrightarrow> p \<in> set (db_products d) \<and> prod_ID p = lic_ProductID l"
  by (auto simp: product_of_def dest: select_one_SomeD)

lemma stricterSeatLimit_le:
  "0 < a \<Longrightarrow> stricterSeatLimit a b \<le> a" "0 < b \<Longrightarrow> stricterSeatLimit a b \<le> b"
  "0 < a \<or> 0 < b \<longleftrightarrow> 0 < stricterSeatLimit a b"
  by (auto simp: stricterSeatLimit_def)

text \<open>What a lookup that answers a licence says of the rows.\<close>

lemma findLicenseWhere_InrD:
  "findLicenseWhere P d = Inr l \<Longrightarrow>
   \<exists>r \<in> set (db_licenses d). P r \<and> l = load_license d r \<and> \<not> db_fault d"
  by (auto simp: findLicenseWhere_def dest: select_one_SomeD split: if_splits option.splits)

lemma load_license_simps [simp]:
  "lic_ID (load_license d l) = lic_ID l" "lic_Status (load_license d l) = lic_Status l"
  "lic_KeySeat (load_license d l) = None" "lic_KeySeatPaused (load_license d l) = False"
  "lic_Product (load_license d l) = product_of d l"
  "lic_ValidUntil (load_license d l) = lic_ValidUntil l"
  "lic_Email (load_license d l) = lic_Email l" "lic_Quantity (load_license d l) = lic_Quantity l"
  "lic_ProductID (load_license d l) = lic_ProductID l" "lic_PlanID (load_license d l) = lic_PlanID l"
  by (simp_all add: load_license_def)

lemma FindLicenseByKey_cases:
  assumes "FindLicenseByKey e key d = Inr l"
  obtains (own) r where "r \<in> set (db_licenses d)" "l = load_license d r"
      "(lic_KeyHash r \<noteq> '''' \<and> lic_KeyHash r = HashKey (env_sha256 e) key) \<or> lic_LicenseKey r = key"
    | (member) r s p where "r \<in> set (db_licenses d)" "s \<in> set (db_seats d)" "lic_ID r = seat_LicenseID s"
      "seat_MemberKeyHash s \<noteq> ''''" "seat_MemberKeyHash s = HashKey (env_sha256 e) key"
      "seat_RemovedAt s = None" "seat_AcceptedAt s \<noteq> None"
      "product_of d r = Some p" "ProductSupports (prod_Type p) CapSeats"
      "SeatPaused (seat_ID s) d = Inr (lic_KeySeatPaused l)"
      "l = (load_license d r)\<lparr>lic_KeySeatPaused := lic_KeySeatPaused l, lic_KeySeat := Some s\<rparr>"
proof (cases "findLicenseWhere (\<lambda>l. lic_KeyHash l \<noteq> '''' \<and> lic_KeyHash l = HashKey (env_sha256 e) key) d")
  case (Inr l')
  with assms have "l' = l" by (simp add: FindLicenseByKey_def Let_def)
  with Inr show ?thesis using own by (auto dest: findLicenseWhere_InrD)
next
  case (Inl err)
  with assms have err: "err = ErrNoRows" by (auto simp: FindLicenseByKey_def Let_def split: if_splits)
  let ?P = "\<lambda>s. seat_MemberKeyHash s \<noteq> '''' \<and> seat_MemberKeyHash s = HashKey (env_sha256 e) key \<and>
    seat_RemovedAt s = None \<and> seat_AcceptedAt s \<noteq> None"
  show ?thesis
  proof (cases "select_one ?P (db_seats d)")
    case None
    with assms Inl err have "findLicenseWhere (\<lambda>l. lic_LicenseKey l = key) d = Inr l"
      by (simp add: FindLicenseByKey_def Let_def)
    then show ?thesis using own by (auto dest: findLicenseWhere_InrD)
  next
    case (Some s)
    from assms Inl err Some obtain l' paused where
      l': "findLicenseWhere (\<lambda>l. lic_ID l = seat_LicenseID s) d = Inr l'" and
      p: "\<exists>p. lic_Product l' = Some p \<and> ProductSupports (prod_Type p) CapSeats" and
      paused: "SeatPaused (seat_ID s) d = Inr paused" and
      l: "l = l'\<lparr>lic_KeySeatPaused := paused, lic_KeySeat := Some s\<rparr>"
      by (auto simp: FindLicenseByKey_def Let_def split: sum.splits if_splits option.splits)
    from findLicenseWhere_InrD [OF l'] obtain r where
      "r \<in> set (db_licenses d)" "lic_ID r = seat_LicenseID s" "l' = load_license d r" by blast
    with p paused l select_one_SomeD [OF Some] show ?thesis using member by auto
  qed
qed

lemma keyHeldIn_memberI:
  assumes "seatID \<noteq> ''''" "s \<in> set (db_seats d)" "seat_ID s = seatID" "seat_LicenseID s = licenseID"
    "seat_MemberKeyHash s \<noteq> ''''" "seat_MemberKeyHash s = HashKey (env_sha256 e) key"
    "seat_RemovedAt s = None" "seat_AcceptedAt s \<noteq> None"
    "l \<in> set (db_licenses d)" "lic_ID l = licenseID"
    "p \<in> set (db_products d)" "prod_ID p = lic_ProductID l"
    "prod_Type p \<in> set (ProductTypesSupporting CapSeats)"
    "lic_Status l \<notin> set stoppedStatuses" "\<not> canceledEndedSQL (env_dbnow e) l"
    "pl \<in> set (db_plans d)" "plan_ID pl = lic_PlanID l" "\<not> seatPausedSQL d l pl s"
  shows "keyHeldIn e licenseID seatID key d"
  unfolding keyHeldIn_def Let_def exists_where_iff if_P [OF assms(1)]
  using assms by blast

lemma keyHeldIn_memberE:
  assumes "keyHeldIn e licenseID seatID key d" "seatID \<noteq> ''''"
  obtains s l p pl where "s \<in> set (db_seats d)" "seat_ID s = seatID" "seat_LicenseID s = licenseID"
    "seat_MemberKeyHash s \<noteq> ''''" "seat_MemberKeyHash s = HashKey (env_sha256 e) key" "is_joined s"
    "l \<in> set (db_licenses d)" "lic_ID l = licenseID"
    "p \<in> set (db_products d)" "prod_ID p = lic_ProductID l" "ProductSupports (prod_Type p) CapSeats"
    "lic_Status l \<notin> set stoppedStatuses" "\<not> canceledEndedSQL (env_dbnow e) l"
    "pl \<in> set (db_plans d)" "plan_ID pl = lic_PlanID l" "\<not> seatPausedSQL d l pl s"
  using assms
  unfolding keyHeldIn_def Let_def exists_where_iff if_P [OF assms(2)] ProductTypesSupporting_iff is_joined_def
  by blast

text \<open>
  A key that finds a licence, of which nothing is stopped, ended or paused, is held under the
  lock when nothing changed in between.
\<close>

lemma FindLicenseByKey_held:
  assumes wf: "db_wf d" and found: "FindLicenseByKey e key d = Inr l"
    and "lic_Status l \<notin> set stoppedStatuses" "\<not> canceledEndedSQL (env_dbnow e) l"
    and "\<not> lic_KeySeatPaused l" and plan: "lic_Plan l \<noteq> None"
    and sid: "seatID = (case lic_KeySeat l of None \<Rightarrow> '''' | Some s \<Rightarrow> seat_ID s)"
    and "\<forall>s \<in> set (db_seats d). seat_ID s \<noteq> ''''"
  shows "keyHeldIn e (lic_ID l) seatID key d"
  using found
proof (cases rule: FindLicenseByKey_cases)
  case (own r)
  with assms show ?thesis
    by (auto simp: keyHeldIn_def Let_def canceledEndedSQL_def)
next
  case (member r s p)
  have l: "lic_Status l = lic_Status r" "lic_ValidUntil l = lic_ValidUntil r" "lic_ID l = lic_ID r"
    "lic_KeySeat l = Some s" "lic_Plan l = lic_Plan (load_license d r)"
    by (subst member(11), simp)+
  obtain pl where pl: "plan_of d r = Some pl" using plan l(5) by (auto simp: load_license_def)
  have row: "license_row d (seat_LicenseID s) = Some r"
    using license_row_unique [OF wf member(1)] member(3) by simp
  have "select_one (\<lambda>s'. seat_ID s' = seat_ID s \<and> seat_RemovedAt s' = None \<and> seat_AcceptedAt s' \<noteq> None)
          (db_seats d) = Some s"
    using wf member(6,7) by (intro select_one_by_key [OF _ member(2), of seat_ID]) (auto simp: db_wf_def)
  with member(10) row pl assms(5) have np: "\<not> seatPausedSQL d r pl s"
    by (auto simp: SeatPaused_def split: if_splits)
  have "seatID = seat_ID s" "seatID \<noteq> ''''" using sid l(4) member(2) assms(8) by auto
  moreover have "prod_Type p \<in> set (ProductTypesSupporting CapSeats)"
    using member(9) by (simp add: ProductTypesSupporting_iff)
  ultimately show ?thesis
    using member assms(3,4) l np plan_of_SomeD [OF pl] product_of_SomeD [OF member(8)]
    by (intro keyHeldIn_memberI [where s = s and l = r and p = p and pl = pl]) (auto simp: canceledEndedSQL_def)
qed

section \<open>Count, then take a slot\<close>

text \<open>
  What every limited resource of a licence promises (devices, floating sessions, usage, seats):
  a step either does not raise what is in use or leaves it within the limit, and steps other
  than a change of terms keep the limit. \<open>inv\<close> is what the steps keep besides.
\<close>

locale bounded_resource =
  fixes inv :: "'s \<Rightarrow> bool"
    and in_use :: "'s \<Rightarrow> int"
    and limit :: "'s \<Rightarrow> int"
    and step :: "'s \<Rightarrow> 's \<Rightarrow> bool"
  assumes step_inv: "inv s \<Longrightarrow> step s s' \<Longrightarrow> inv s'"
    and step_limit: "inv s \<Longrightarrow> step s s' \<Longrightarrow> limit s' = limit s"
    and step_bound: "inv s \<Longrightarrow> step s s' \<Longrightarrow> in_use s' \<le> in_use s \<or> in_use s' \<le> limit s'"
begin

lemma run_bound:
  assumes "step\<^sup>*\<^sup>* s s'" and "inv s"
  shows "inv s' \<and> limit s' = limit s \<and> in_use s' \<le> max (in_use s) (limit s)"
  using assms
proof (induction rule: rtranclp_induct)
  case (step y z)
  then show ?case using step_inv [of y z] step_limit [of y z] step_bound [of y z] by auto
qed simp

lemma never_exceeded:
  assumes "step\<^sup>*\<^sup>* s s'" and "inv s" and "in_use s \<le> limit s"
  shows "in_use s' \<le> limit s'"
  using run_bound [OF assms(1,2)] assms(3) by auto

end

section \<open>Frame rules\<close>

text \<open>What a read depends on: equal tables, equal answers.\<close>

lemma license_row_frame: "db_licenses d' = db_licenses d \<Longrightarrow> license_row d' = license_row d"
  by (simp add: fun_eq_iff license_row_def)

lemma plan_of_frame: "db_plans d' = db_plans d \<Longrightarrow> plan_of d' = plan_of d"
  by (simp add: fun_eq_iff plan_of_def)

lemma product_of_frame: "db_products d' = db_products d \<Longrightarrow> product_of d' = product_of d"
  by (simp add: fun_eq_iff product_of_def)

lemma lockLicenseLimitsIn_frame:
  "db_licenses d' = db_licenses d \<Longrightarrow> db_plans d' = db_plans d \<Longrightarrow>
   lockLicenseLimitsIn lid d' = lockLicenseLimitsIn lid d"
  by (simp only: lockLicenseLimitsIn_def license_row_frame [of d' d] plan_of_frame [of d' d])

lemma seatPausedSQL_frame: "db_seats d' = db_seats d \<Longrightarrow> seatPausedSQL d' = seatPausedSQL d"
  by (simp add: fun_eq_iff seatPausedSQL_def)

lemma keyHeldIn_frame:
  "db_licenses d' = db_licenses d \<Longrightarrow> db_plans d' = db_plans d \<Longrightarrow> db_products d' = db_products d \<Longrightarrow>
   db_seats d' = db_seats d \<Longrightarrow> keyHeldIn e lid sid key d' = keyHeldIn e lid sid key d"
  by (simp only: keyHeldIn_def seatPausedSQL_frame [of d' d])

lemma memberSeatsSQL_frame:
  "db_licenses d' = db_licenses d \<Longrightarrow> db_seats d' = db_seats d \<Longrightarrow> memberSeatsSQL lid d' = memberSeatsSQL lid d"
  by (simp only: memberSeatsSQL_def license_row_frame [of d' d])

lemma load_license_frame:
  "db_products d' = db_products d \<Longrightarrow> db_plans d' = db_plans d \<Longrightarrow> db_entitlements d' = db_entitlements d \<Longrightarrow>
   load_license d' = load_license d"
  by (simp only: fun_eq_iff load_license_def product_of_frame [of d' d] plan_of_frame [of d' d]) simp

lemma FindLicenseByKey_frame:
  assumes "db_fault d' = db_fault d" "db_products d' = db_products d" "db_plans d' = db_plans d"
    "db_entitlements d' = db_entitlements d" "db_licenses d' = db_licenses d" "db_seats d' = db_seats d"
  shows "FindLicenseByKey e key d' = FindLicenseByKey e key d"
proof -
  have wh: "findLicenseWhere P d' = findLicenseWhere P d" for P
    using assms by (simp only: findLicenseWhere_def load_license_frame [OF assms(2-4)])
  have paused: "SeatPaused s d' = SeatPaused s d" for s
    by (simp only: SeatPaused_def assms license_row_frame [OF assms(5)] plan_of_frame [OF assms(3)] seatPausedSQL_frame [OF assms(6)])
  show ?thesis by (simp only: FindLicenseByKey_def wh paused assms)
qed

section \<open>A small installation\<close>

text \<open>
  A database with one licence of a hybrid product, on a plan with two devices and three people,
  and one member who has joined; the concrete state the later theories evaluate their
  statements on. The digest of the environment is a tagged copy of its argument.
\<close>

definition demo_env :: env where
  "demo_env = \<lparr>env_now = 1000, env_dbnow = 1000, env_clock = 1000,
     env_newID = (\<lambda>n. if n = 0 then ''id0'' else ''id1''), env_rand = (\<lambda>_. 0),
     env_sha256 = (\<lambda>s. ''h'' @ s), env_aead = None\<rparr>"

definition demo_product :: Product where
  "demo_product = zero_Product\<lparr>prod_ID := ''P'', prod_Type := ProductTypeHybrid, prod_LicensePrefix := ''KG''\<rparr>"

definition demo_plan :: Plan where
  "demo_plan = zero_Plan\<lparr>plan_ID := ''PL'', plan_ProductID := ''P'', plan_LicenseType := ''perpetual'',
     plan_MaxActivations := 2, plan_MaxSeats := 3, plan_LicenseModel := ''standard'', plan_Active := True\<rparr>"

definition demo_license :: License where
  "demo_license = zero_License\<lparr>lic_ID := ''L'', lic_ProductID := ''P'', lic_PlanID := ''PL'',
     lic_Email := ''o@x'', lic_LicenseKey := ''KEY'', lic_KeyHash := ''hKEY'', lic_Status := StatusActive,
     lic_Quantity := 1\<rparr>"

definition demo_seat :: Seat where
  "demo_seat = zero_Seat\<lparr>seat_ID := ''S'', seat_LicenseID := ''L'', seat_Email := ''m@x'', seat_Role := ''member'',
     seat_AcceptedAt := Some 500, seat_MemberKey := ''MK'', seat_MemberKeyHash := ''hMK''\<rparr>"

definition demo_db :: db where
  "demo_db = empty_db\<lparr>db_products := [demo_product], db_plans := [demo_plan],
     db_licenses := [demo_license], db_seats := [demo_seat]\<rparr>"

lemmas demo_defs = demo_env_def demo_product_def demo_plan_def demo_license_def demo_seat_def demo_db_def
  empty_db_def zero_Product_def zero_Plan_def zero_License_def zero_Seat_def

lemma demo_db_tables [simp]:
  "db_fault demo_db = False" "db_licenses demo_db = [demo_license]" "db_plans demo_db = [demo_plan]"
  "db_products demo_db = [demo_product]" "db_seats demo_db = [demo_seat]" "db_activations demo_db = []"
  "db_floating demo_db = []" "db_usage_counters demo_db = []" "db_upgrades demo_db = []"
  "db_users demo_db = []" "db_renewals demo_db = []" "db_subscriptions demo_db = []"
  "db_entitlements demo_db = []" "db_license_addons demo_db = []" "db_metered demo_db = []"
  "db_usage_events demo_db = []" "db_audit demo_db = []" "db_webhooks demo_db = []" "db_mail demo_db = []"
  by (simp_all add: demo_db_def empty_db_def)

lemma demo_rows [simp]:
  "lic_ID demo_license = ''L''" "lic_ProductID demo_license = ''P''" "lic_PlanID demo_license = ''PL''"
  "lic_Quantity demo_license = 1" "lic_Status demo_license = StatusActive" "lic_Email demo_license = ''o@x''"
  "lic_KeyHash demo_license = ''hKEY''" "lic_LicenseKey demo_license = ''KEY''"
  "plan_ID demo_plan = ''PL''" "prod_ID demo_product = ''P''" "prod_Type demo_product = ProductTypeHybrid"
  "seat_ID demo_seat = ''S''" "seat_LicenseID demo_seat = ''L''" "seat_Email demo_seat = ''m@x''"
  "seat_AcceptedAt demo_seat = Some 500" "seat_RemovedAt demo_seat = None" "seat_MemberKeyHash demo_seat = ''hMK''"
  by (simp_all add: demo_license_def demo_plan_def demo_product_def demo_seat_def zero_License_def
      zero_Plan_def zero_Product_def zero_Seat_def)

lemmas row_read_defs = select_one_def count_where_def exists_where_def update_where_def delete_where_def
  license_row_def plan_of_def product_of_def

lemma hash_demo [simp]:
  "HashKey (env_sha256 demo_env) ''KEY'' = ''hKEY''" "HashKey (env_sha256 demo_env) ''MK'' = ''hMK''"
  by (simp_all add: demo_env_def HashKey_def normalizeKey_def trim_space_def to_upper_def upper_char_def is_space_def
      char_code_def)

lemma lockLicenseLimitsIn_demo: "lockLicenseLimitsIn ''L'' demo_db = Some (3, 2)"
  by (simp add: lockLicenseLimitsIn_def row_read_defs) (simp add: demo_defs plan_limits_def)

lemma keyHeldIn_demo: "keyHeldIn demo_env ''L'' '''' ''KEY'' demo_db"
  by (simp add: keyHeldIn_def Let_def) (simp add: demo_defs stoppedStatuses_def canceledEndedSQL_def)

lemma license_row_demo: "license_row demo_db ''L'' = Some demo_license"
  by (simp add: row_read_defs)

lemma plan_of_demo: "plan_of demo_db demo_license = Some demo_plan"
  by (simp add: row_read_defs)

lemma db_wf_demo: "db_wf demo_db"
  by (simp add: db_wf_def demo_defs)

end
