(* ===== verification/KG_Plan_Trigger.thy ===== *)
theory KG_Plan_Trigger
  imports KG_Store
begin

text \<open>
  What the database does when a statement writes a licence's plan
  (\<^verbatim>\<open>db/migrations/20260908_maintenance_period.up.sql\<close>): the trigger \<^verbatim>\<open>licenses_init_updates_until\<close>
  decides the update period again when a licence enters or leaves perpetual plans and closes the
  renewals bought into the old period, and \<^verbatim>\<open>licenses_require_gated_feed\<close>, which runs after it,
  refuses a new end of updates on a product whose feeds are public. Both run before each row is
  written, for a statement that names the plan; the rows are the ones the statement found.
\<close>

section \<open>The triggers\<close>

definition perpetual :: "Plan option \<Rightarrow> bool" where
  "perpetual p \<longleftrightarrow> (case p of None \<Rightarrow> False | Some p \<Rightarrow> plan_LicenseType p = ''perpetual'')"

text \<open>The period a plan gives from the time of the transaction; without days, updates for life.\<close>

definition period_from_now :: "env \<Rightarrow> Plan option \<Rightarrow> time option" where
  "period_from_now e p =
     (case p of
        None \<Rightarrow> None
      | Some p \<Rightarrow>
          if plan_LicenseType p = ''perpetual'' \<and> plan_UpdatesDays p > 0
          then Some (env_dbnow e + plan_UpdatesDays p * 24 * Hour) else None)"

text \<open>A plan change that does not stay among perpetual plans.\<close>

definition crosses_perpetual :: "db \<Rightarrow> License \<Rightarrow> License \<Rightarrow> bool" where
  "crosses_perpetual d old new \<longleftrightarrow>
     lic_PlanID old \<noteq> lic_PlanID new \<and> \<not> (perpetual (plan_of d old) \<and> perpetual (plan_of d new))"

definition licenses_init_updates_until :: "env \<Rightarrow> db \<Rightarrow> License \<Rightarrow> License \<Rightarrow> License" where
  "licenses_init_updates_until e d old new =
     (if lic_PlanID old \<noteq> lic_PlanID new then
        if \<not> perpetual (plan_of d new) then new\<lparr>lic_UpdatesUntil := None, lic_UpdatesTermsSet := True\<rparr>
        else if \<not> perpetual (plan_of d old)
          then new\<lparr>lic_UpdatesUntil := period_from_now e (plan_of d new), lic_UpdatesTermsSet := True\<rparr>
        else new
      else if lic_UpdatesUntil new \<noteq> None \<or> lic_UpdatesTermsSet new then new
      else new\<lparr>lic_UpdatesUntil := period_from_now e (plan_of d new)\<rparr>)"

definition feed_gating_required :: "string \<Rightarrow> db \<Rightarrow> bool" where
  "feed_gating_required pid d \<longleftrightarrow>
     (case select_one (\<lambda>p. prod_ID p = pid) (db_products d) of
        None \<Rightarrow> False
      | Some p \<Rightarrow> (prod_Type p = ''desktop'' \<or> prod_Type p = ''hybrid'') \<and> \<not> prod_FeedLicenseRequired p)"

text \<open>Whether the row is refused.\<close>

definition licenses_require_gated_feed :: "db \<Rightarrow> License \<Rightarrow> License \<Rightarrow> bool" where
  "licenses_require_gated_feed d old new \<longleftrightarrow>
     lic_UpdatesUntil new \<noteq> None \<and>
     (lic_UpdatesUntil old \<noteq> lic_UpdatesUntil new \<or> lic_ProductID old \<noteq> lic_ProductID new) \<and>
     feed_gating_required (lic_ProductID new) d"

section \<open>An update that names the plan\<close>

text \<open>\<open>None\<close>: a trigger refused a row, and the statement with it.\<close>

definition close_renewals :: "env \<Rightarrow> (string \<Rightarrow> bool) \<Rightarrow> LicenseRenewal list \<Rightarrow> LicenseRenewal list" where
  "close_renewals e of_license = update_where (\<lambda>x. of_license (ren_LicenseID x) \<and> ren_SupersededAt x = None)
     (\<lambda>x. x\<lparr>ren_SupersededAt := Some (env_dbnow e)\<rparr>)"

definition update_plan_rows :: "env \<Rightarrow> (License \<Rightarrow> bool) \<Rightarrow> (License \<Rightarrow> License) \<Rightarrow> db \<Rightarrow> db option" where
  "update_plan_rows e P f d =
     (let w = (\<lambda>r. licenses_init_updates_until e d r (f r)) in
      if exists_where (\<lambda>r. P r \<and> licenses_require_gated_feed d r (w r)) (db_licenses d) then None
      else Some (d\<lparr>db_licenses := update_where P w (db_licenses d),
        db_renewals := close_renewals e
          (\<lambda>lid. exists_where (\<lambda>r. P r \<and> lic_ID r = lid \<and> crosses_perpetual d r (f r)) (db_licenses d)) (db_renewals d)\<rparr>))"

section \<open>What the triggers leave of a row\<close>

text \<open>Only the update terms are the trigger's.\<close>

lemma trigger_terms:
  "\<exists>u b. licenses_init_updates_until e d old new = new\<lparr>lic_UpdatesUntil := u, lic_UpdatesTermsSet := b\<rparr>"
  by (intro exI [of _ "lic_UpdatesUntil (licenses_init_updates_until e d old new)"]
        exI [of _ "lic_UpdatesTermsSet (licenses_init_updates_until e d old new)"])
     (simp add: licenses_init_updates_until_def)

lemma trigger_keeps [simp]:
  "lic_ID (licenses_init_updates_until e d old new) = lic_ID new"
  "lic_PlanID (licenses_init_updates_until e d old new) = lic_PlanID new"
  "lic_ProductID (licenses_init_updates_until e d old new) = lic_ProductID new"
  "lic_Status (licenses_init_updates_until e d old new) = lic_Status new"
  "lic_Quantity (licenses_init_updates_until e d old new) = lic_Quantity new"
  "lic_SuspendedBy (licenses_init_updates_until e d old new) = lic_SuspendedBy new"
  "lic_KeyHash (licenses_init_updates_until e d old new) = lic_KeyHash new"
  "lic_StripeSyncedAt (licenses_init_updates_until e d old new) = lic_StripeSyncedAt new"
  "lic_StripeSubscriptionID (licenses_init_updates_until e d old new) = lic_StripeSubscriptionID new"
  "lic_TermsHeldUntil (licenses_init_updates_until e d old new) = lic_TermsHeldUntil new"
  "lic_ValidUntil (licenses_init_updates_until e d old new) = lic_ValidUntil new"
  "lic_PastDueAt (licenses_init_updates_until e d old new) = lic_PastDueAt new"
  by (simp_all add: licenses_init_updates_until_def)

lemma trigger_other:
  "lic_CanceledAt (licenses_init_updates_until e d old new) = lic_CanceledAt new"
  "lic_PaymentProvider (licenses_init_updates_until e d old new) = lic_PaymentProvider new"
  "lic_StripeCustomerID (licenses_init_updates_until e d old new) = lic_StripeCustomerID new"
  "lic_StripePaymentIntentID (licenses_init_updates_until e d old new) = lic_StripePaymentIntentID new"
  "lic_StripeCheckoutSessionID (licenses_init_updates_until e d old new) = lic_StripeCheckoutSessionID new"
  "lic_LicenseKey (licenses_init_updates_until e d old new) = lic_LicenseKey new"
  by (simp_all add: licenses_init_updates_until_def)

text \<open>
  The rule the trigger follows, whatever the statement asked for: outside perpetual plans a plan
  change leaves no period, entering them gives the plan's own, and between them the statement decides.
\<close>

lemma trigger_left:
  "lic_PlanID old \<noteq> lic_PlanID new \<Longrightarrow> \<not> perpetual (plan_of d new) \<Longrightarrow>
   licenses_init_updates_until e d old new = new\<lparr>lic_UpdatesUntil := None, lic_UpdatesTermsSet := True\<rparr>"
  by (simp add: licenses_init_updates_until_def)

lemma trigger_entered:
  "\<not> perpetual (plan_of d old) \<Longrightarrow> lic_PlanID old \<noteq> lic_PlanID new \<Longrightarrow> perpetual (plan_of d new) \<Longrightarrow>
   licenses_init_updates_until e d old new =
     new\<lparr>lic_UpdatesUntil := period_from_now e (plan_of d new), lic_UpdatesTermsSet := True\<rparr>"
  by (simp add: licenses_init_updates_until_def)

lemma trigger_among:
  "\<not> crosses_perpetual d old new \<Longrightarrow> lic_UpdatesUntil new \<noteq> None \<or> lic_UpdatesTermsSet new \<Longrightarrow>
   licenses_init_updates_until e d old new = new"
  by (auto simp: licenses_init_updates_until_def crosses_perpetual_def)

text \<open>A row with its plan and a period kept goes through as it is.\<close>

lemma trigger_same_plan:
  "lic_PlanID old = lic_PlanID new \<Longrightarrow> lic_UpdatesUntil new \<noteq> None \<or> lic_UpdatesTermsSet new \<Longrightarrow>
   licenses_init_updates_until e d old new = new"
  by (simp add: licenses_init_updates_until_def)

lemma update_plan_rows_licenses:
  "update_plan_rows e P f d = Some d' \<Longrightarrow>
   db_licenses d' = update_where P (\<lambda>r. licenses_init_updates_until e d r (f r)) (db_licenses d)"
  by (auto simp: update_plan_rows_def Let_def split: if_splits)

lemma update_plan_rows_keeps:
  assumes "update_plan_rows e P f d = Some d'"
  shows "db_plans d' = db_plans d" "db_activations d' = db_activations d" "db_fault d' = db_fault d" "db_upgrades d' = db_upgrades d"
  using assms by (auto simp: update_plan_rows_def Let_def split: if_splits)

lemma update_plan_rows_frame:
  assumes "update_plan_rows e P f d = Some d'"
  shows "d' = d\<lparr>db_licenses := db_licenses d', db_renewals := db_renewals d'\<rparr>"
  using assms by (auto simp: update_plan_rows_def Let_def split: if_splits)

text \<open>One licence's row after an update of licences.\<close>

lemma license_row_map:
  assumes "\<And>r. lic_ID (f r) = lic_ID r"
  shows "license_row (d\<lparr>db_licenses := update_where P f (db_licenses d)\<rparr>) lid =
     map_option (\<lambda>r. if P r then f r else r) (license_row d lid)"
proof -
  have "select_one (\<lambda>l. lic_ID l = lid) (update_where P f rows) =
        map_option (\<lambda>r. if P r then f r else r) (select_one (\<lambda>l. lic_ID l = lid) rows)" for rows
    using assms by (induction rows) (auto simp: select_one_def update_where_def)
  then show ?thesis by (simp add: license_row_def)
qed

lemma update_plan_row:
  assumes "update_plan_rows e P f d = Some d'" and "\<And>r. lic_ID (f r) = lic_ID r"
  shows "license_row d' lid = map_option (\<lambda>r. if P r then licenses_init_updates_until e d r (f r) else r) (license_row d lid)"
proof -
  let ?w = "\<lambda>r. licenses_init_updates_until e d r (f r)"
  have "license_row d' = license_row (d\<lparr>db_licenses := update_where P ?w (db_licenses d)\<rparr>)"
    using update_plan_rows_licenses [OF assms(1)] by (intro license_row_frame) simp
  then show ?thesis using license_row_map [where f = ?w and P = P and d = d and lid = lid] assms(2) by simp
qed

end
