(* ===== verification/KG_Activation.thy ===== *)
theory KG_Activation
  imports KG_Store KG_Plan_Trigger
begin

text \<open>
  Devices: the activation operations of \<^verbatim>\<open>internal/store/store.go\<close>, and the lowering and
  restoring of a licence's terms, which are decided under the same licence row lock.
  \<open>activateWithinLimit\<close> takes its \<^verbatim>\<open>act\<close> argument by pointer: the model returns it with the
  error, if any, and the database.
\<close>

section \<open>Operations\<close>

definition FindActivation :: "string \<Rightarrow> string \<Rightarrow> db \<Rightarrow> Activation result" where
  "FindActivation licenseID identifier d =
     (if db_fault d then Inl ErrDB
      else case select_one (\<lambda>a. act_LicenseID a = licenseID \<and> act_Identifier a = identifier) (db_activations d) of
        None \<Rightarrow> Inl ErrNoRows | Some a \<Rightarrow> Inr a)"

definition TouchActivation :: "env \<Rightarrow> string \<Rightarrow> db \<Rightarrow> unit result \<times> db" where
  "TouchActivation e aid d =
     (if db_fault d then (Inl ErrDB, d)
      else (Inr (), d\<lparr>db_activations :=
        update_where (\<lambda>a. act_ID a = aid) (\<lambda>a. a\<lparr>act_LastVerified := env_dbnow e\<rparr>) (db_activations d)\<rparr>))"

text \<open>\<^verbatim>\<open>deletedOne\<close>: no row deleted is \<^verbatim>\<open>sql.ErrNoRows\<close>.\<close>

definition deletedOne :: "int \<Rightarrow> unit result" where
  "deletedOne n = (if n = 0 then Inl ErrNoRows else Inr ())"

definition DeleteActivation :: "string \<Rightarrow> db \<Rightarrow> unit result \<times> db" where
  "DeleteActivation aid d =
     (if db_fault d then (Inl ErrDB, d)
      else (deletedOne (count_where (\<lambda>a. act_ID a = aid) (db_activations d)),
            d\<lparr>db_activations := delete_where (\<lambda>a. act_ID a = aid) (db_activations d)\<rparr>))"

definition CountActivations :: "string \<Rightarrow> db \<Rightarrow> int result" where
  "CountActivations licenseID d =
     (if db_fault d then Inl ErrDB
      else Inr (count_where (\<lambda>a. act_LicenseID a = licenseID) (db_activations d)))"

text \<open>
  The insert: an unset \<^verbatim>\<open>last_verified\<close> or \<^verbatim>\<open>created_at\<close> takes the column's default
  \<^verbatim>\<open>now()\<close>, and a row that breaks a key of the table (primary key, unique index, licence or
  seat that is not there) is refused.
\<close>

definition activation_row :: "env \<Rightarrow> Activation \<Rightarrow> Activation" where
  "activation_row e act = act
     \<lparr>act_LastVerified := (if act_LastVerified act = time_zero then env_dbnow e else act_LastVerified act),
      act_CreatedAt := (if act_CreatedAt act = time_zero then env_dbnow e else act_CreatedAt act)\<rparr>"

definition insert_activation :: "env \<Rightarrow> Activation \<Rightarrow> db \<Rightarrow> db result" where
  "insert_activation e act d =
     (if exists_where (\<lambda>a. act_ID a = act_ID act) (db_activations d) \<or>
         exists_where (\<lambda>a. act_LicenseID a = act_LicenseID act \<and> act_Identifier a = act_Identifier act) (db_activations d) \<or>
         license_row d (act_LicenseID act) = None \<or>
         (act_SeatID act \<noteq> '''' \<and> \<not> exists_where (\<lambda>s. seat_ID s = act_SeatID act) (db_seats d))
      then Inl ErrDB
      else Inr (d\<lparr>db_activations := db_activations d @ [activation_row e act]\<rparr>))"

definition CreateActivation :: "env \<Rightarrow> Activation \<Rightarrow> db \<Rightarrow> unit result \<times> db" where
  "CreateActivation e act d =
     (let act = (if act_ID act = '''' then act\<lparr>act_ID := env_newID e 0\<rparr> else act) in
      if db_fault d then (Inl ErrDB, d)
      else case insert_activation e act d of Inl err \<Rightarrow> (Inl err, d) | Inr d' \<Rightarrow> (Inr (), d'))"

definition activateWithinLimit ::
  "env \<Rightarrow> Activation \<Rightarrow> int \<Rightarrow> string \<Rightarrow> db \<Rightarrow> error option \<times> Activation \<times> db" where
  "activateWithinLimit e act maxActivations key d =
     (let act = (if act_ID act = '''' then act\<lparr>act_ID := env_newID e 0\<rparr> else act) in
      if db_fault d then (Some ErrDB, act, d)
      else
        let maxActivations = (case lockLicenseLimitsIn (act_LicenseID act) d of
              None \<Rightarrow> maxActivations | Some (_, held) \<Rightarrow> min maxActivations held) in
        if key \<noteq> '''' \<and> \<not> keyHeldIn e (act_LicenseID act) (act_SeatID act) key d
        then (Some ErrKeyRevoked, act, d)
        else case select_one (\<lambda>a. act_LicenseID a = act_LicenseID act \<and> act_Identifier a = act_Identifier act)
                   (db_activations d) of
          Some existing \<Rightarrow>
            let act = act\<lparr>act_ID := act_ID existing\<rparr> in
            if key = '''' \<or> act_SeatID act = '''' \<or> act_SeatID existing = act_SeatID act
            then (Some ErrAlreadyActivated, act, d)
            else if act_SeatID existing \<noteq> '''' \<or> \<not> act_PredatesMemberKeys existing
            then (Some ErrDeviceHeld, act, d)
            else
              let unmoved = (\<lambda>a. act_ID a = act_ID act \<and> act_SeatID a = '''' \<and> act_PredatesMemberKeys a);
                  moved = count_where unmoved (db_activations d);
                  d' = d\<lparr>db_activations := update_where unmoved
                         (\<lambda>a. a\<lparr>act_SeatID := act_SeatID act, act_PredatesMemberKeys := False\<rparr>) (db_activations d)\<rparr>
              in if moved \<noteq> 1 then (Some ErrAlreadyActivated, act, d') else (Some ErrDeviceMoved, act, d')
        | None \<Rightarrow>
            let count = count_where (\<lambda>a. act_LicenseID a = act_LicenseID act) (db_activations d) in
            if count \<ge> maxActivations then (Some ErrActivationLimit, act, d)
            else case insert_activation e act d of
              Inl err \<Rightarrow> (Some err, act, d)
            | Inr d' \<Rightarrow> (None, act, d'))"

definition ActivateWithinLimit ::
  "env \<Rightarrow> Activation \<Rightarrow> int \<Rightarrow> db \<Rightarrow> error option \<times> Activation \<times> db" where
  "ActivateWithinLimit e act maxActivations d = activateWithinLimit e act maxActivations '''' d"

definition ActivateForKey ::
  "env \<Rightarrow> Activation \<Rightarrow> int \<Rightarrow> string \<Rightarrow> db \<Rightarrow> error option \<times> Activation \<times> db" where
  "ActivateForKey e act maxActivations key d = activateWithinLimit e act maxActivations key d"

section \<open>Lower terms\<close>

record InUse =
  iu_People :: int
  iu_Activations :: int
  iu_Sessions :: int

record LicenseTerms =
  lt_PlanID :: string
  lt_Quantity :: int

definition countInUse :: "env \<Rightarrow> string \<Rightarrow> db \<Rightarrow> InUse" where
  "countInUse e licenseID d =
     \<lparr>iu_People = memberSeatsSQL licenseID d + 1,
      iu_Activations = count_where (\<lambda>a. act_LicenseID a = licenseID) (db_activations d),
      iu_Sessions = count_where (\<lambda>f. fs_LicenseID f = licenseID \<and> fs_ExpiresAt f > env_dbnow e) (db_floating d)\<rparr>"

definition CountInUse :: "env \<Rightarrow> string \<Rightarrow> db \<Rightarrow> InUse result" where
  "CountInUse e licenseID d = (if db_fault d then Inl ErrDB else Inr (countInUse e licenseID d))"

definition syncSubscriptionPlanIn :: "env \<Rightarrow> string \<Rightarrow> string \<Rightarrow> db \<Rightarrow> db" where
  "syncSubscriptionPlanIn e licenseID planID d =
     d\<lparr>db_subscriptions := update_where (\<lambda>s. sub_LicenseID s = licenseID \<and> sub_PlanID s \<noteq> planID)
        (\<lambda>s. s\<lparr>sub_PlanID := planID, sub_UpdatedAt := env_dbnow e\<rparr>) (db_subscriptions d)\<rparr>"

text \<open>\<open>check\<close> is the caller's closure: an error refuses the change.\<close>

definition LowerLicenseTerms ::
  "env \<Rightarrow> string \<Rightarrow> LicenseTerms \<Rightarrow> duration \<Rightarrow> (InUse \<Rightarrow> error option) \<Rightarrow> db \<Rightarrow> LicenseTerms result \<times> db" where
  "LowerLicenseTerms e licenseID to hold check d =
     (if db_fault d then (Inl ErrDB, d)
      else case license_row d licenseID of
        None \<Rightarrow> (Inl ErrNoRows, d)
      | Some l \<Rightarrow>
          (case check (countInUse e licenseID d) of
             Some err \<Rightarrow> (Inl err, d)
           | None \<Rightarrow>
               (case update_plan_rows e (\<lambda>l. lic_ID l = licenseID)
                       (\<lambda>l. l\<lparr>lic_PlanID := lt_PlanID to, lic_Quantity := lt_Quantity to,
                              lic_StripeSyncedAt := Some (env_clock e),
                              lic_TermsHeldUntil := Some (env_clock e + hold), lic_TermsCheckAfter := None,
                              lic_UpdatedAt := env_dbnow e\<rparr>) d of
                  None \<Rightarrow> (Inl ErrDB, d)
                | Some d1 \<Rightarrow>
                    (Inr \<lparr>lt_PlanID = lic_PlanID l, lt_Quantity = lic_Quantity l\<rparr>,
                     syncSubscriptionPlanIn e licenseID (lt_PlanID to) d1))))"

definition MarkLicenseRead :: "env \<Rightarrow> string \<Rightarrow> db \<Rightarrow> unit result \<times> db" where
  "MarkLicenseRead e licenseID d =
     (if db_fault d then (Inl ErrDB, d)
      else (Inr (), d\<lparr>db_licenses := update_where (\<lambda>l. lic_ID l = licenseID)
        (\<lambda>l. l\<lparr>lic_StripeSyncedAt := Some (case lic_StripeSyncedAt l of None \<Rightarrow> env_clock e
                                          | Some t \<Rightarrow> max t (env_clock e))\<rparr>) (db_licenses d)\<rparr>))"

definition RestoreLicenseTerms ::
  "env \<Rightarrow> string \<Rightarrow> LicenseTerms \<Rightarrow> LicenseTerms \<Rightarrow> db \<Rightarrow> unit result \<times> db" where
  "RestoreLicenseTerms e licenseID lowered prev d =
     (let unmoved = (\<lambda>l. lic_ID l = licenseID \<and> lic_PlanID l = lt_PlanID lowered \<and> lic_Quantity l = lt_Quantity lowered) in
      if db_fault d then (Inl ErrDB, d)
      else if count_where unmoved (db_licenses d) = 0 then (Inr (), d)
      else case update_plan_rows e unmoved
             (\<lambda>l. l\<lparr>lic_PlanID := lt_PlanID prev, lic_Quantity := lt_Quantity prev,
                    lic_StripeSyncedAt := Some (env_clock e), lic_TermsHeldUntil := None,
                    lic_TermsCheckAfter := None, lic_UpdatedAt := env_dbnow e\<rparr>) d of
        None \<Rightarrow> (Inl ErrDB, d)
      | Some d1 \<Rightarrow> (Inr (), syncSubscriptionPlanIn e licenseID (lt_PlanID prev) d1))"

section \<open>Behaviour of an activation\<close>

abbreviation devices :: "string \<Rightarrow> db \<Rightarrow> int" where
  "devices lid d \<equiv> count_where (\<lambda>a. act_LicenseID a = lid) (db_activations d)"

definition activation_limit :: "string \<Rightarrow> db \<Rightarrow> int" where
  "activation_limit lid d = (case lockLicenseLimitsIn lid d of None \<Rightarrow> 0 | Some (_, a) \<Rightarrow> a)"

lemma activation_row_simps [simp]:
  "act_ID (activation_row e act) = act_ID act" "act_LicenseID (activation_row e act) = act_LicenseID act"
  "act_Identifier (activation_row e act) = act_Identifier act" "act_SeatID (activation_row e act) = act_SeatID act"
  by (simp_all add: activation_row_def)

lemma insert_activation_InrD:
  assumes "insert_activation e act d = Inr d'"
  shows "d' = d\<lparr>db_activations := db_activations d @ [activation_row e act]\<rparr>"
    "act_ID act \<notin> act_ID ` set (db_activations d)"
    "(act_LicenseID act, act_Identifier act) \<notin> (\<lambda>a. (act_LicenseID a, act_Identifier a)) ` set (db_activations d)"
  using assms by (auto simp: insert_activation_def split: if_splits)

text \<open>The three ways an activation can leave the database.\<close>

lemma activateWithinLimit_cases:
  assumes "activateWithinLimit e act maxA key d = (r, act', d')"
  obtains (unchanged) "d' = d" "r \<noteq> None"
    | (moved) P where "d' = d\<lparr>db_activations := update_where P
        (\<lambda>a. a\<lparr>act_SeatID := act_SeatID act, act_PredatesMemberKeys := False\<rparr>) (db_activations d)\<rparr>"
        "r \<noteq> None" "key \<noteq> ''''" "act_SeatID act \<noteq> ''''"
        "keyHeldIn e (act_LicenseID act) (act_SeatID act) key d"
    | (taken) act1 where "r = None" "insert_activation e act1 d = Inr d'" "act_LicenseID act1 = act_LicenseID act"
        "act_SeatID act1 = act_SeatID act" "act_Identifier act1 = act_Identifier act"
        "devices (act_LicenseID act) d < maxA"
        "\<forall>s a. lockLicenseLimitsIn (act_LicenseID act) d = Some (s, a) \<longrightarrow> devices (act_LicenseID act) d < a"
        "key \<noteq> '''' \<longrightarrow> keyHeldIn e (act_LicenseID act) (act_SeatID act) key d" "\<not> db_fault d"
  using assms
  by (auto simp: activateWithinLimit_def Let_def
      split: if_splits option.splits sum.splits prod.splits)

lemma update_where_keeps_columns:
  assumes "\<And>a. k (f a) = k a"
  shows "map k (update_where P f rows) = map k rows"
  using assms by (simp add: map_update_where)

lemma lockLicenseLimitsIn_activations [simp]:
  "lockLicenseLimitsIn lid (d\<lparr>db_activations := xs\<rparr>) = lockLicenseLimitsIn lid d"
  by (rule lockLicenseLimitsIn_frame) simp_all

lemma keyHeldIn_activations [simp]:
  "keyHeldIn e lid sid key (d\<lparr>db_activations := xs\<rparr>) = keyHeldIn e lid sid key d"
  by (rule keyHeldIn_frame) simp_all

lemma db_wf_activations:
  "db_wf d \<Longrightarrow> distinct (map act_ID xs) \<Longrightarrow> distinct (map (\<lambda>a. (act_LicenseID a, act_Identifier a)) xs) \<Longrightarrow>
   db_wf (d\<lparr>db_activations := xs\<rparr>)"
  by (simp add: db_wf_def)

lemma activateWithinLimit_db:
  assumes "activateWithinLimit e act maxA key d = (r, act', d')"
  obtains xs where "d' = d\<lparr>db_activations := xs\<rparr>"
proof (cases rule: activateWithinLimit_cases [OF assms])
  case 1
  then show ?thesis using that [of "db_activations d"] by simp
next
  case (3 act1)
  then show ?thesis using that insert_activation_InrD(1) by blast
qed (use that in blast)

lemma activateWithinLimit_wf:
  assumes "activateWithinLimit e act maxA key d = (r, act', d')" and "db_wf d"
  shows "db_wf d'"
  using assms(1)
proof (cases rule: activateWithinLimit_cases)
  case (moved P)
  with assms(2) show ?thesis
    by (simp add: db_wf_activations update_where_keeps_columns db_wf_def)
next
  case (taken act1)
  with assms(2) insert_activation_InrD [OF taken(2)] show ?thesis by (auto simp: db_wf_def)
qed (use assms in simp)

lemma activateWithinLimit_count:
  assumes "activateWithinLimit e act maxA key d = (r, act', d')"
  shows "devices lid d' \<le> devices lid d \<or>
         (r = None \<and> lid = act_LicenseID act \<and> devices lid d' = devices lid d + 1 \<and> devices lid d < maxA \<and>
          (\<forall>s a. lockLicenseLimitsIn lid d = Some (s, a) \<longrightarrow> devices lid d < a))"
  using assms
proof (cases rule: activateWithinLimit_cases)
  case (moved P)
  then show ?thesis by (simp add: count_where_update)
next
  case (taken act1)
  with insert_activation_InrD(1) [OF taken(2)] show ?thesis by (cases "lid = act_LicenseID act") (simp_all add: tbl_simps)
qed simp

section \<open>Runs of device operations\<close>

text \<open>Every statement that touches the devices of a licence, for any caller and any claimed limit.\<close>

inductive device_step :: "db \<Rightarrow> db \<Rightarrow> bool" where
  activate: "activateWithinLimit e act maxA key d = (r, act', d') \<Longrightarrow> device_step d d'"
| touch: "TouchActivation e aid d = (r, d') \<Longrightarrow> device_step d d'"
| deactivate: "DeleteActivation aid d = (r, d') \<Longrightarrow> device_step d d'"

inductive_cases device_stepE: "device_step d d'"

lemma device_step_db: "device_step d d' \<Longrightarrow> \<exists>xs. d' = d\<lparr>db_activations := xs\<rparr>"
  by (elim device_stepE)
    (auto elim!: activateWithinLimit_db simp: TouchActivation_def DeleteActivation_def split: if_splits
      intro: exI [of _ "db_activations d"])

lemma device_step_limit: "device_step d d' \<Longrightarrow> lockLicenseLimitsIn lid d' = lockLicenseLimitsIn lid d"
  using device_step_db by fastforce

lemma device_step_count:
  assumes "device_step d d'" and "lockLicenseLimitsIn lid d \<noteq> None"
  shows "devices lid d' \<le> devices lid d \<or> devices lid d' \<le> activation_limit lid d'"
  using assms(1)
proof (cases rule: device_step.cases)
  case (activate e act maxA key r act')
  with activateWithinLimit_count [OF activate, of lid] device_step_limit [OF assms(1), of lid] assms(2)
  show ?thesis by (auto simp: activation_limit_def)
qed (auto simp: TouchActivation_def DeleteActivation_def count_where_update count_where_delete_le
      split: if_splits)

interpretation devices: bounded_resource
  "\<lambda>d. lockLicenseLimitsIn lid d \<noteq> None" "\<lambda>d. devices lid d" "activation_limit lid" device_step
  for lid
proof unfold_locales
  fix s s' assume inv: "lockLicenseLimitsIn lid s \<noteq> None" and step: "device_step s s'"
  show "lockLicenseLimitsIn lid s' \<noteq> None" using inv device_step_limit [OF step] by simp
  show "activation_limit lid s' = activation_limit lid s"
    by (simp add: activation_limit_def device_step_limit [OF step])
  show "devices lid s' \<le> devices lid s \<or> devices lid s' \<le> activation_limit lid s'"
    by (rule device_step_count [OF step inv])
qed

section \<open>Properties\<close>

definition demo_device :: "string \<Rightarrow> Activation" where
  "demo_device m = zero_Activation\<lparr>act_ID := m, act_LicenseID := ''L'', act_Identifier := m, act_IdentifierType := ''device''\<rparr>"

text \<open>The owner's key takes the first slot of the demo licence.\<close>

lemma activate_demo:
  "activateWithinLimit demo_env (demo_device ''m1'') 5 ''KEY'' demo_db =
     (None, demo_device ''m1'', demo_db\<lparr>db_activations := [activation_row demo_env (demo_device ''m1'')]\<rparr>)"
proof -
  show ?thesis
    using keyHeldIn_demo lockLicenseLimitsIn_demo license_row_demo
    by (simp add: activateWithinLimit_def Let_def insert_activation_def select_one_def exists_where_def
        demo_device_def zero_Activation_def)
qed

text \<open>
  C1: the device limit is never exceeded. Through any sequence of activations, check-ins and
  deactivations, by any callers with any keys and whatever limit each read before it took the
  licence lock, a licence that is within the devices its plan allows stays within them.
\<close>

theorem device_limit_never_exceeded:
  assumes "device_step\<^sup>*\<^sup>* d d'" and "lockLicenseLimitsIn lid d = Some (seats, maxDevices)"
    and "devices lid d \<le> maxDevices"
  shows "devices lid d' \<le> maxDevices"
  using devices.never_exceeded [OF assms(1), of lid] devices.run_bound [OF assms(1), of lid] assms(2,3)
  by (simp add: activation_limit_def)

theorem device_limit_never_exceeded_witness:
  "devices ''L'' (demo_db\<lparr>db_activations := [activation_row demo_env (demo_device ''m1'')]\<rparr>) \<le> 2"
proof (rule device_limit_never_exceeded)
  show "device_step\<^sup>*\<^sup>* demo_db (demo_db\<lparr>db_activations := [activation_row demo_env (demo_device ''m1'')]\<rparr>)"
    using device_step.activate [OF activate_demo] by blast
  show "lockLicenseLimitsIn ''L'' demo_db = Some (3, 2)" by (rule lockLicenseLimitsIn_demo)
  show "devices ''L'' demo_db \<le> 2" by (simp add: demo_defs)
qed

text \<open>
  No device on a dead key. When an activation with a key takes a slot or moves a device to
  a member's key, the key still opens the licence in the database the activation leaves behind:
  whatever happened between the lookup of the key and the licence lock, a key that stopped
  working in between leaves nothing.
\<close>

theorem activation_only_on_held_key:
  assumes "ActivateForKey e act maxA key d = (r, act', d')" and "key \<noteq> ''''"
    and "r = None \<or> r = Some ErrDeviceMoved \<or> d' \<noteq> d"
  shows "keyHeldIn e (act_LicenseID act) (act_SeatID act) key d'"
proof -
  have *: "activateWithinLimit e act maxA key d = (r, act', d')"
    using assms(1) by (simp add: ActivateForKey_def)
  obtain xs where "d' = d\<lparr>db_activations := xs\<rparr>" using activateWithinLimit_db [OF *] .
  moreover have "keyHeldIn e (act_LicenseID act) (act_SeatID act) key d"
    using * assms(2,3)
    by (auto simp: activateWithinLimit_def Let_def split: if_splits option.splits sum.splits)
  ultimately show ?thesis by simp
qed

theorem activation_only_on_held_key_witness:
  "keyHeldIn demo_env ''L'' '''' ''KEY''
     (demo_db\<lparr>db_activations := [activation_row demo_env (demo_device ''m1'')]\<rparr>)"
  using activation_only_on_held_key [of demo_env "demo_device ''m1''" 5 "''KEY''" demo_db None]
    activate_demo
  by (simp add: ActivateForKey_def demo_device_def zero_Activation_def)

text \<open>
  Activating again is safe. Once a machine holds a slot, a second activation of it with a
  key that is still held, by the same member or with the licence's own key, answers
  \<open>ErrAlreadyActivated\<close> with the identifier of the existing device and changes nothing,
  however full the licence is: a client that retries is never told the licence is full.
\<close>

theorem repeat_activation:
  assumes "db_wf d" and "\<not> db_fault d"
    and "a \<in> set (db_activations d)" "act_LicenseID a = act_LicenseID act" "act_Identifier a = act_Identifier act"
    and "key = '''' \<or> keyHeldIn e (act_LicenseID act) (act_SeatID act) key d"
    and "act_SeatID act = '''' \<or> act_SeatID act = act_SeatID a"
  shows "ActivateForKey e act maxA key d = (Some ErrAlreadyActivated, act\<lparr>act_ID := act_ID a\<rparr>, d)"
proof -
  let ?k = "\<lambda>a. (act_LicenseID a, act_Identifier a)"
  have "distinct (map ?k (db_activations d))" using assms(1) by (simp add: db_wf_def)
  from select_one_unique [OF this assms(3), of "?k act"] assms(4,5)
  have "select_one (\<lambda>x. act_LicenseID x = act_LicenseID act \<and> act_Identifier x = act_Identifier act)
      (db_activations d) = Some a" by simp
  moreover have "act_LicenseID (if b then act\<lparr>act_ID := i\<rparr> else act) = act_LicenseID act"
    "act_Identifier (if b then act\<lparr>act_ID := i\<rparr> else act) = act_Identifier act"
    "act_SeatID (if b then act\<lparr>act_ID := i\<rparr> else act) = act_SeatID act"
    "(if b then act\<lparr>act_ID := i\<rparr> else act)\<lparr>act_ID := j\<rparr> = act\<lparr>act_ID := j\<rparr>" for b i j
    by simp_all
  ultimately show ?thesis
    using assms(2,6,7) by (auto simp: ActivateForKey_def activateWithinLimit_def Let_def)
qed

theorem repeat_activation_witness:
  "ActivateForKey demo_env (demo_device ''m1'') 1 ''KEY''
      (demo_db\<lparr>db_activations := [activation_row demo_env (demo_device ''m1'')]\<rparr>) =
   (Some ErrAlreadyActivated, demo_device ''m1'',
      demo_db\<lparr>db_activations := [activation_row demo_env (demo_device ''m1'')]\<rparr>)"
proof -
  let ?d = "demo_db\<lparr>db_activations := [activation_row demo_env (demo_device ''m1'')]\<rparr>"
  have "ActivateForKey demo_env (demo_device ''m1'') 1 ''KEY'' ?d =
    (Some ErrAlreadyActivated, (demo_device ''m1'')\<lparr>act_ID := act_ID (activation_row demo_env (demo_device ''m1''))\<rparr>, ?d)"
  proof (rule repeat_activation)
    show "db_wf ?d" using db_wf_demo by (simp add: db_wf_def)
    show "\<not> db_fault ?d" by (simp add: demo_defs)
    show "''KEY'' = '''' \<or> keyHeldIn demo_env (act_LicenseID (demo_device ''m1'')) (act_SeatID (demo_device ''m1'')) ''KEY'' ?d"
      using keyHeldIn_demo by (simp add: demo_device_def zero_Activation_def)
  qed (simp_all add: demo_device_def zero_Activation_def)
  then show ?thesis by (simp add: demo_device_def)
qed

text \<open>
  A member's device stays the member's. No activation, with whatever key, takes a device
  from the member who holds it; and a device of the licence's own key moves to a member only
  when it predates members' keys, and then it no longer does.
\<close>

theorem device_holder_kept:
  assumes "ActivateForKey e act maxA key d = (r, act', d')" and "a \<in> set (db_activations d)"
  shows "\<exists>a' \<in> set (db_activations d'). act_ID a' = act_ID a \<and>
           (act_SeatID a' = act_SeatID a \<or>
            (act_SeatID a = '''' \<and> act_PredatesMemberKeys a \<and> \<not> act_PredatesMemberKeys a' \<and>
             act_SeatID a' = act_SeatID act))"
proof -
  have *: "activateWithinLimit e act maxA key d = (r, act', d')"
    using assms(1) by (simp add: ActivateForKey_def)
  let ?f = "\<lambda>a. a\<lparr>act_SeatID := act_SeatID act, act_PredatesMemberKeys := False\<rparr>"
  consider "d' = d" | i where "d' = d\<lparr>db_activations := update_where
      (\<lambda>a. act_ID a = i \<and> act_SeatID a = '''' \<and> act_PredatesMemberKeys a) ?f (db_activations d)\<rparr>"
    | x where "d' = d\<lparr>db_activations := db_activations d @ [x]\<rparr>"
    using * by (auto simp: activateWithinLimit_def Let_def insert_activation_def
        split: if_splits option.splits sum.splits)
  then show ?thesis
  proof cases
    case (2 i)
    let ?P = "\<lambda>a. act_ID a = i \<and> act_SeatID a = '''' \<and> act_PredatesMemberKeys a"
    have "(if ?P a then ?f a else a) \<in> set (db_activations d')"
      using assms(2) 2 by (auto simp: set_update_where)
    then show ?thesis by (rule bexI [rotated]) auto
  qed (use assms(2) in auto)
qed

theorem device_holder_kept_witness:
  "\<exists>a' \<in> set (db_activations (demo_db\<lparr>db_activations := [activation_row demo_env (demo_device ''m1'')]\<rparr>)).
     act_ID a' = ''m1''"
proof -
  let ?d = "demo_db\<lparr>db_activations := [activation_row demo_env (demo_device ''m1'')]\<rparr>"
  have "ActivateForKey demo_env (demo_device ''m1'') 1 '''' ?d = (Some ErrAlreadyActivated, demo_device ''m1'', ?d)"
    by (simp add: ActivateForKey_def activateWithinLimit_def Let_def select_one_def demo_device_def
        zero_Activation_def demo_defs)
  from device_holder_kept [OF this, of "activation_row demo_env (demo_device ''m1'')"]
  show ?thesis by (auto simp: demo_device_def)
qed

lemma license_row_sync [simp]: "license_row (syncSubscriptionPlanIn e lid pid d) = license_row d"
  by (rule license_row_frame) (simp add: syncSubscriptionPlanIn_def)

lemma plan_of_sync [simp]: "plan_of (syncSubscriptionPlanIn e lid pid d) = plan_of d"
  by (rule plan_of_frame) (simp add: syncSubscriptionPlanIn_def)

text \<open>A lowering that went through, and the row it asks for.\<close>

definition lowered_row :: "env \<Rightarrow> LicenseTerms \<Rightarrow> duration \<Rightarrow> License \<Rightarrow> License" where
  "lowered_row e to hold l = l\<lparr>lic_PlanID := lt_PlanID to, lic_Quantity := lt_Quantity to,
    lic_StripeSyncedAt := Some (env_clock e), lic_TermsHeldUntil := Some (env_clock e + hold),
    lic_TermsCheckAfter := None, lic_UpdatedAt := env_dbnow e\<rparr>"

lemma lowered_row_simps [simp]:
  "lic_ID (lowered_row e to hold l) = lic_ID l" "lic_PlanID (lowered_row e to hold l) = lt_PlanID to"
  "lic_Quantity (lowered_row e to hold l) = lt_Quantity to"
  "lic_TermsHeldUntil (lowered_row e to hold l) = Some (env_clock e + hold)"
  by (simp_all add: lowered_row_def)

lemma lowered_run:
  assumes "LowerLicenseTerms e lid to hold check d = (Inr prev, d')"
  obtains l d1 where "license_row d lid = Some l" "\<not> db_fault d" "check (countInUse e lid d) = None"
    "prev = \<lparr>lt_PlanID = lic_PlanID l, lt_Quantity = lic_Quantity l\<rparr>"
    "update_plan_rows e (\<lambda>l. lic_ID l = lid) (lowered_row e to hold) d = Some d1"
    "d' = syncSubscriptionPlanIn e lid (lt_PlanID to) d1"
proof -
  have f: "(\<lambda>l. l\<lparr>lic_PlanID := lt_PlanID to, lic_Quantity := lt_Quantity to,
      lic_StripeSyncedAt := Some (env_clock e), lic_TermsHeldUntil := Some (env_clock e + hold),
      lic_TermsCheckAfter := None, lic_UpdatedAt := env_dbnow e\<rparr>) = lowered_row e to hold"
    by (simp add: fun_eq_iff lowered_row_def)
  show thesis
    using assms [unfolded LowerLicenseTerms_def f] that by (simp split: if_splits option.splits)
qed

text \<open>
  Lowering a licence's terms leaves it within them. When the caller's check refuses more
  devices than the new plan and quantity hold, a licence whose terms were lowered uses no more
  devices than its limit read from then on; no activation can slip in between the count and
  the write.
\<close>

theorem lowered_terms_hold_devices:
  assumes "LowerLicenseTerms e lid to hold check d = (Inr prev, d')"
    and "select_one (\<lambda>p. plan_ID p = lt_PlanID to) (db_plans d) = Some p"
    and "\<forall>u. check u = None \<longrightarrow> iu_Activations u \<le> snd (plan_limits p (lt_Quantity to))"
  shows "lockLicenseLimitsIn lid d' = Some (plan_limits p (lt_Quantity to)) \<and>
         devices lid d' \<le> snd (plan_limits p (lt_Quantity to))"
proof -
  obtain l d1 where l: "license_row d lid = Some l" and c: "check (countInUse e lid d) = None"
    and d1: "update_plan_rows e (\<lambda>l. lic_ID l = lid) (lowered_row e to hold) d = Some d1"
    and d': "d' = syncSubscriptionPlanIn e lid (lt_PlanID to) d1"
    by (rule lowered_run [OF assms(1)])
  let ?l = "licenses_init_updates_until e d l (lowered_row e to hold l)"
  have "license_row d' lid = Some ?l"
    using update_plan_row [OF d1, of lid] l license_row_SomeD [OF l] by (simp add: d')
  moreover have "db_plans d1 = db_plans d" "db_activations d1 = db_activations d" using update_plan_rows_keeps [OF d1] by simp_all
  then have "plan_of d' ?l = Some p" "devices lid d' = devices lid d"
    using assms(2) by (simp_all add: d' plan_of_def syncSubscriptionPlanIn_def)
  moreover have "iu_Activations (countInUse e lid d) \<le> snd (plan_limits p (lt_Quantity to))"
    using assms(3) c by blast
  ultimately show ?thesis by (simp add: lockLicenseLimitsIn_def countInUse_def)
qed

theorem lowered_terms_hold_devices_witness:
  "\<exists>d'. LowerLicenseTerms demo_env ''L'' \<lparr>lt_PlanID = ''PL'', lt_Quantity = 1\<rparr> 60
          (\<lambda>u. if iu_Activations u \<le> 2 then None else Some (ErrRefused ''over'')) demo_db =
        (Inr \<lparr>lt_PlanID = ''PL'', lt_Quantity = 1\<rparr>, d') \<and> devices ''L'' d' \<le> 2"
proof -
  let ?check = "\<lambda>u. if iu_Activations u \<le> 2 then None else Some (ErrRefused ''over'')"
  let ?to = "\<lparr>lt_PlanID = ''PL'', lt_Quantity = 1\<rparr>"
  have pl: "plan_limits demo_plan 1 = (3, 2)" by (simp add: plan_limits_def demo_defs)
  have "case LowerLicenseTerms demo_env ''L'' ?to 60 ?check demo_db of (Inr prev, _) \<Rightarrow> prev = ?to | (Inl _, _) \<Rightarrow> False"
    by code_simp
  then obtain d' where r: "LowerLicenseTerms demo_env ''L'' ?to 60 ?check demo_db = (Inr ?to, d')"
    by (auto split: prod.split_asm sum.split_asm)
  have "select_one (\<lambda>p. plan_ID p = lt_PlanID ?to) (db_plans demo_db) = Some demo_plan"
    by (simp add: select_one_def)
  from lowered_terms_hold_devices [OF r this] r show ?thesis by (auto simp: pl)
qed

text \<open>
  Lowering and restoring is the identity on the terms. When nothing moved the licence in
  between, \<open>RestoreLicenseTerms\<close> with what \<open>LowerLicenseTerms\<close> returned, once it goes through,
  gives every licence the plan and quantity it had.
\<close>

theorem restore_lowered_terms:
  assumes "LowerLicenseTerms e lid to hold check d = (Inr prev, d')" and "db_wf d"
    and "RestoreLicenseTerms e' lid to prev d' = (Inr (), d'')"
  shows "map (\<lambda>l. (lic_ID l, lic_PlanID l, lic_Quantity l)) (db_licenses d'') =
         map (\<lambda>l. (lic_ID l, lic_PlanID l, lic_Quantity l)) (db_licenses d)"
proof -
  obtain l d1 where l: "license_row d lid = Some l" and nf: "\<not> db_fault d"
    and prev: "prev = \<lparr>lt_PlanID = lic_PlanID l, lt_Quantity = lic_Quantity l\<rparr>"
    and d1: "update_plan_rows e (\<lambda>l. lic_ID l = lid) (lowered_row e to hold) d = Some d1"
    and d': "d' = syncSubscriptionPlanIn e lid (lt_PlanID to) d1"
    by (rule lowered_run [OF assms(1)])
  have rows: "db_licenses d' = update_where (\<lambda>l. lic_ID l = lid)
      (\<lambda>r. licenses_init_updates_until e d r (lowered_row e to hold r)) (db_licenses d)"
    using update_plan_rows_licenses [OF d1] by (simp add: d' syncSubscriptionPlanIn_def)
  have uniq: "x = l" if "x \<in> set (db_licenses d)" "lic_ID x = lid" for x
    using license_row_unique [OF assms(2) that(1)] l that(2) by simp
  have lic: "l \<in> set (db_licenses d)" "lic_ID l = lid" using license_row_SomeD [OF l] by auto
  let ?unmoved = "\<lambda>l. lic_ID l = lid \<and> lic_PlanID l = lt_PlanID to \<and> lic_Quantity l = lt_Quantity to"
  let ?f = "\<lambda>l. l\<lparr>lic_PlanID := lt_PlanID prev, lic_Quantity := lt_Quantity prev, lic_StripeSyncedAt := Some (env_clock e'),
    lic_TermsHeldUntil := None, lic_TermsCheckAfter := None, lic_UpdatedAt := env_dbnow e'\<rparr>"
  let ?r = "licenses_init_updates_until e d l (lowered_row e to hold l)"
  have "?r \<in> set (db_licenses d')" using lic by (auto simp: rows set_update_where image_iff intro!: bexI [of _ l])
  then have "count_where ?unmoved (db_licenses d') \<noteq> 0" using lic by (auto simp: count_where_zero_iff intro!: bexI [of _ ?r])
  then obtain d2 where d2: "update_plan_rows e' ?unmoved ?f d' = Some d2" "d'' = syncSubscriptionPlanIn e' lid (lt_PlanID prev) d2"
    using assms(3) by (auto simp: RestoreLicenseTerms_def Let_def split: if_splits option.splits)
  have "db_licenses d'' = update_where ?unmoved (\<lambda>r. licenses_init_updates_until e' d' r (?f r)) (db_licenses d')"
    using update_plan_rows_licenses [OF d2(1)] by (simp add: d2(2) syncSubscriptionPlanIn_def)
  then show ?thesis unfolding rows using uniq by (auto simp: update_where_def prev)
qed

lemma demo_lowered:
  "case LowerLicenseTerms demo_env ''L'' \<lparr>lt_PlanID = ''PX'', lt_Quantity = 7\<rparr> 60 (\<lambda>u. None) demo_db of
     (Inr prev, d') \<Rightarrow>
       (case RestoreLicenseTerms demo_env ''L'' \<lparr>lt_PlanID = ''PX'', lt_Quantity = 7\<rparr> prev d' of
          (Inr _, _) \<Rightarrow> True | (Inl _, _) \<Rightarrow> False)
   | (Inl _, _) \<Rightarrow> False"
  by code_simp

theorem restore_lowered_terms_witness:
  "\<exists>prev d' d''. LowerLicenseTerms demo_env ''L'' \<lparr>lt_PlanID = ''PX'', lt_Quantity = 7\<rparr> 60 (\<lambda>u. None) demo_db = (Inr prev, d') \<and>
     RestoreLicenseTerms demo_env ''L'' \<lparr>lt_PlanID = ''PX'', lt_Quantity = 7\<rparr> prev d' = (Inr (), d'') \<and>
     map (\<lambda>l. (lic_ID l, lic_PlanID l, lic_Quantity l)) (db_licenses d'') = [(''L'', ''PL'', 1)]"
proof -
  let ?to = "\<lparr>lt_PlanID = ''PX'', lt_Quantity = 7\<rparr>"
  obtain res d' where run: "LowerLicenseTerms demo_env ''L'' ?to 60 (\<lambda>u. None) demo_db = (res, d')" by fastforce
  note fits = demo_lowered [unfolded run prod.case]
  then obtain prev where "res = Inr prev" by (cases res) simp_all
  note low = run [unfolded this] and fits = fits [unfolded this sum.case]
  obtain d'' where "RestoreLicenseTerms demo_env ''L'' ?to prev d' = (Inr (), d'')"
    using fits by (cases "RestoreLicenseTerms demo_env ''L'' ?to prev d'") (auto split: sum.split_asm)
  note r = low this
  from restore_lowered_terms [OF r(1) db_wf_demo r(2)] r show ?thesis by auto
qed

end
