(* ===== verification/KG_Seats.thy ===== *)
theory KG_Seats
  imports KG_Activation
begin

text \<open>
  Team seats: \<^verbatim>\<open>internal/store/seats.go\<close> and \<^verbatim>\<open>internal/store/member_keys.go\<close>. An invite
  makes a pending seat, accepting its token makes a joined one with a user, a joined member gets
  a key of their own, and removing the member clears the key with the devices and floating
  sessions it took. Each operation that takes the licence row lock is one step.
\<close>

section \<open>Invites\<close>

definition SeatInviteTTL :: duration where
  "SeatInviteTTL = 7 * 24 * Hour"

definition UpgradeCheckoutTTL :: duration where
  "UpgradeCheckoutTTL = Hour"

definition upgradeCheckoutOpenFor :: duration where
  "upgradeCheckoutOpenFor = UpgradeCheckoutTTL + 5 * Minute"

definition HashSeatInviteToken :: "env \<Rightarrow> string \<Rightarrow> string" where
  "HashSeatInviteToken e plain = env_sha256 e plain"

definition normalizeEmail :: "string \<Rightarrow> string" where
  "normalizeEmail m = to_lower (trim_space m)"

datatype SeatAddOutcome = SeatCreated | SeatRestored | SeatExisted | SeatResent

text \<open>
  The live seat of an address: \<^verbatim>\<open>ORDER BY accepted_at IS NULL, created_at ASC, id ASC LIMIT 1\<close>,
  so an accepted seat comes before a pending one.
\<close>

definition seat_age :: "Seat \<Rightarrow> join_key" where
  "seat_age s = JoinKey (seat_CreatedAt s) (seat_ID s)"

definition live_seat :: "string \<Rightarrow> string \<Rightarrow> db \<Rightarrow> Seat option" where
  "live_seat licenseID email d =
     (let live = filter (\<lambda>s. seat_LicenseID s = licenseID \<and> to_lower (seat_Email s) = normalizeEmail email \<and>
                   seat_RemovedAt s = None) (db_seats d)
      in case first_by seat_age (filter (\<lambda>s. seat_AcceptedAt s \<noteq> None) live) of
           Some s \<Rightarrow> Some s
         | None \<Rightarrow> first_by seat_age live)"

definition FindSeatByID :: "string \<Rightarrow> db \<Rightarrow> Seat result" where
  "FindSeatByID sid d =
     (if db_fault d then Inl ErrDB
      else case select_one (\<lambda>s. seat_ID s = sid) (db_seats d) of None \<Rightarrow> Inl ErrNoRows | Some s \<Rightarrow> Inr s)"

definition FindSeatByEmail :: "string \<Rightarrow> string \<Rightarrow> db \<Rightarrow> Seat result" where
  "FindSeatByEmail licenseID email d =
     (if db_fault d then Inl ErrDB
      else case live_seat licenseID email d of None \<Rightarrow> Inl ErrNoRows | Some s \<Rightarrow> Inr s)"

text \<open>The plans of the upgrade checkouts open on a licence.\<close>

definition open_upgrade_plans :: "env \<Rightarrow> string \<Rightarrow> db \<Rightarrow> Plan list" where
  "open_upgrade_plans e licenseID d =
     concat (map (\<lambda>u. filter (\<lambda>p. plan_ID p = up_ToPlanID u) (db_plans d))
       (filter (\<lambda>u. up_LicenseID u = licenseID \<and> up_State u = UpgradePending \<and>
                    up_CreatedAt u > env_dbnow e - upgradeCheckoutOpenFor) (db_upgrades d)))"

text \<open>\<^verbatim>\<open>min(NULLIF(p.max_seats, 0))\<close>, 0 when NULL.\<close>

definition upgrade_seat_limit :: "Plan list \<Rightarrow> int" where
  "upgrade_seat_limit ps =
     (let ms = filter (\<lambda>m. m \<noteq> 0) (map plan_MaxSeats ps) in if ms = [] then 0 else min_list ms)"

definition seat_row :: "env \<Rightarrow> Seat \<Rightarrow> Seat" where
  "seat_row e s = s
     \<lparr>seat_InvitedAt := (if seat_InvitedAt s = time_zero then env_dbnow e else seat_InvitedAt s),
      seat_CreatedAt := (if seat_CreatedAt s = time_zero then env_dbnow e else seat_CreatedAt s)\<rparr>"

text \<open>
  The insert is refused when it breaks a key: the primary key, the licence, or the unique
  indexes on invite tokens and on member keys (the one on the live seats' addresses cannot be
  broken where it is called: no live seat has the address).
\<close>

definition insert_seat :: "env \<Rightarrow> Seat \<Rightarrow> db \<Rightarrow> db result" where
  "insert_seat e s d =
     (if exists_where (\<lambda>o'. seat_ID o' = seat_ID s) (db_seats d) \<or> license_row d (seat_LicenseID s) = None \<or>
         exists_where (\<lambda>o'. seat_InviteTokenHash s \<noteq> '''' \<and> seat_InviteTokenHash o' = seat_InviteTokenHash s) (db_seats d) \<or>
         exists_where (\<lambda>o'. seat_MemberKeyHash s \<noteq> '''' \<and> seat_MemberKeyHash o' = seat_MemberKeyHash s) (db_seats d)
      then Inl ErrDB
      else Inr (d\<lparr>db_seats := db_seats d @ [seat_row e s]\<rparr>))"

definition set_seat :: "string \<Rightarrow> (Seat \<Rightarrow> Seat) \<Rightarrow> db \<Rightarrow> db" where
  "set_seat sid f d = d\<lparr>db_seats := update_where (\<lambda>s. seat_ID s = sid) f (db_seats d)\<rparr>"

definition clear_member_key :: "Seat \<Rightarrow> Seat" where
  "clear_member_key s = s\<lparr>seat_MemberKey := '''', seat_MemberKeyHash := '''', seat_MemberKeyEncrypted := None\<rparr>"

text \<open>\<^verbatim>\<open>WHERE seat_id = ?\<close> never matches a NULL column.\<close>

definition seat_devices :: "string \<Rightarrow> db \<Rightarrow> Activation list" where
  "seat_devices sid d = filter (\<lambda>a. act_SeatID a \<noteq> '''' \<and> act_SeatID a = sid) (db_activations d)"

definition drop_seat_slots :: "string \<Rightarrow> db \<Rightarrow> db" where
  "drop_seat_slots sid d =
     d\<lparr>db_activations := delete_where (\<lambda>a. act_SeatID a \<noteq> '''' \<and> act_SeatID a = sid) (db_activations d),
       db_floating := delete_where (\<lambda>f. fs_SeatID f \<noteq> '''' \<and> fs_SeatID f = sid) (db_floating d)\<rparr>"

text \<open>The rewrites of a row by an invite: the token and role of a pending one, or a removed one brought back.\<close>

definition reinvite_seat :: "env \<Rightarrow> Seat \<Rightarrow> Seat \<Rightarrow> Seat" where
  "reinvite_seat e seat s = s\<lparr>seat_Role := seat_Role seat, seat_InviteTokenHash := seat_InviteTokenHash seat,
     seat_InviteExpiresAt := seat_InviteExpiresAt seat, seat_InvitedAt := env_dbnow e\<rparr>"

definition restore_seat :: "env \<Rightarrow> Seat \<Rightarrow> Seat \<Rightarrow> Seat" where
  "restore_seat e seat s = (clear_member_key s)\<lparr>seat_RemovedAt := None, seat_UserID := '''', seat_AcceptedAt := None,
     seat_Role := seat_Role seat, seat_InviteTokenHash := seat_InviteTokenHash seat,
     seat_InviteExpiresAt := seat_InviteExpiresAt seat, seat_InvitedAt := env_dbnow e\<rparr>"

text \<open>\<^verbatim>\<open>... removed_at IS NOT NULL ORDER BY removed_at DESC LIMIT 1\<close>\<close>

definition removed_seat :: "string \<Rightarrow> string \<Rightarrow> db \<Rightarrow> Seat option" where
  "removed_seat licenseID email d =
     first_by (\<lambda>s. - (case seat_RemovedAt s of None \<Rightarrow> 0 | Some t \<Rightarrow> t))
       (filter (\<lambda>s. seat_LicenseID s = licenseID \<and> to_lower (seat_Email s) = normalizeEmail email \<and>
                 seat_RemovedAt s \<noteq> None) (db_seats d))"

definition AddSeatWithinLimit ::
  "env \<Rightarrow> Seat \<Rightarrow> int \<Rightarrow> db \<Rightarrow> (SeatAddOutcome \<times> Activation list) result \<times> Seat \<times> db" where
  "AddSeatWithinLimit e seat maxSeats d =
     (let seat = (if seat_ID seat = '''' then seat\<lparr>seat_ID := env_newID e 0\<rparr> else seat) in
      if db_fault d then (Inl ErrDB, seat, d)
      else
        let maxSeats = (case lockLicenseLimitsIn (seat_LicenseID seat) d of
              None \<Rightarrow> maxSeats | Some (held, _) \<Rightarrow> stricterSeatLimit maxSeats held) in
        case live_seat (seat_LicenseID seat) (seat_Email seat) d of
          Some existing \<Rightarrow>
            if seat_AcceptedAt existing \<noteq> None then (Inr (SeatExisted, []), existing, d)
            else (Inr (SeatResent, []), reinvite_seat e seat existing,
                  set_seat (seat_ID existing) (reinvite_seat e seat) d)
        | None \<Rightarrow>
            let plans = open_upgrade_plans e (seat_LicenseID seat) d;
                perSeat = list_ex plan_PerSeat plans;
                upgradeLimit = upgrade_seat_limit plans;
                count = memberSeatsSQL (seat_LicenseID seat) d in
            if perSeat then (Inl ErrUpgradeCheckoutOpen, seat, d)
            else if (maxSeats > 0 \<or> upgradeLimit > 0) \<and> maxSeats > 0 \<and> count + 1 \<ge> maxSeats
            then (Inl ErrSeatLimitReached, seat, d)
            else if (maxSeats > 0 \<or> upgradeLimit > 0) \<and> upgradeLimit > 0 \<and> count + 1 \<ge> upgradeLimit
            then (Inl ErrUpgradeSeatLimit, seat, d)
            else case removed_seat (seat_LicenseID seat) (seat_Email seat) d of
              Some removed \<Rightarrow>
                (Inr (SeatRestored, seat_devices (seat_ID removed) d), restore_seat e seat removed,
                 set_seat (seat_ID removed) (restore_seat e seat) (drop_seat_slots (seat_ID removed) d))
            | None \<Rightarrow>
                (case insert_seat e seat d of
                   Inl err \<Rightarrow> (Inl err, seat, d)
                 | Inr d' \<Rightarrow> (Inr (SeatCreated, []), seat_row e seat, d')))"

section \<open>Accepting and leaving\<close>

definition joined_members :: "License \<Rightarrow> db \<Rightarrow> int" where
  "joined_members l d = count_where (joined_member l) (db_seats d)"

text \<open>The user of the seat's address, made when there is none.\<close>

definition claim_user :: "env \<Rightarrow> Seat \<Rightarrow> db \<Rightarrow> User \<times> db" where
  "claim_user e seat d =
     (case select_one (\<lambda>u. user_Email u = normalizeEmail (seat_Email seat)) (db_users d) of
        Some u \<Rightarrow> (u, d)
      | None \<Rightarrow>
          let u = zero_User\<lparr>user_ID := env_newID e 0, user_Email := normalizeEmail (seat_Email seat),
                    user_Role := ''user'', user_CreatedAt := env_dbnow e, user_UpdatedAt := env_dbnow e\<rparr>
          in (u, d\<lparr>db_users := db_users d @ [u]\<rparr>))"

definition accept_seat :: "env \<Rightarrow> User \<Rightarrow> Seat \<Rightarrow> Seat" where
  "accept_seat e user s = (clear_member_key s)\<lparr>seat_UserID := user_ID user, seat_AcceptedAt := Some (env_now e),
     seat_InviteTokenHash := '''', seat_InviteExpiresAt := None\<rparr>"

definition AcceptSeatInvite :: "env \<Rightarrow> string \<Rightarrow> db \<Rightarrow> (User \<times> Seat) result \<times> db" where
  "AcceptSeatInvite e plainToken d =
     (if plainToken = '''' then (Inl ErrSeatInviteInvalid, d)
      else
        let hash = HashSeatInviteToken e plainToken in
        if db_fault d then (Inl ErrDB, d)
        else case select_one (\<lambda>s. seat_InviteTokenHash s \<noteq> '''' \<and> seat_InviteTokenHash s = hash) (db_seats d) of
          None \<Rightarrow> (Inl ErrSeatInviteInvalid, d)
        | Some row \<Rightarrow>
            let licenseID = seat_LicenseID row in
            case select_one (\<lambda>s. seat_InviteTokenHash s \<noteq> '''' \<and> seat_InviteTokenHash s = hash \<and>
                   seat_LicenseID s = licenseID) (db_seats d) of
              None \<Rightarrow> (Inl ErrSeatInviteInvalid, d)
            | Some seat \<Rightarrow>
                if seat_InviteTokenHash seat \<noteq> hash then (Inl ErrSeatInviteInvalid, d)
                else if seat_RemovedAt seat \<noteq> None \<or> seat_AcceptedAt seat \<noteq> None then (Inl ErrSeatInviteInvalid, d)
                else if (case seat_InviteExpiresAt seat of None \<Rightarrow> True | Some t \<Rightarrow> t < env_now e)
                then (Inl ErrSeatInviteInvalid, d)
                else case license_row d licenseID of
                  None \<Rightarrow> (Inl ErrNoRows, d)
                | Some l \<Rightarrow>
                    (case plan_of d l of
                       None \<Rightarrow> (Inl ErrNoRows, d)
                     | Some pl \<Rightarrow>
                         if seatLimitSQL l pl > 0 \<and> to_lower (seat_Email seat) \<noteq> to_lower (lic_Email l) \<and>
                            joined_members l d + 1 \<ge> seatLimitSQL l pl
                         then (Inl ErrSeatLimitReached, d)
                         else let (user, d1) = claim_user e seat d
                              in (Inr (user, accept_seat e user seat), set_seat (seat_ID seat) (accept_seat e user) d1)))"

definition RollbackSeatAccept :: "string \<Rightarrow> db \<Rightarrow> Activation list result \<times> db" where
  "RollbackSeatAccept seatID d =
     (if db_fault d then (Inl ErrDB, d)
      else case select_one (\<lambda>s. seat_ID s = seatID) (db_seats d) of
        None \<Rightarrow> (Inl ErrNoRows, d)
      | Some _ \<Rightarrow>
          (Inr (seat_devices seatID d),
           drop_seat_slots seatID (set_seat seatID
             (\<lambda>s. (clear_member_key s)\<lparr>seat_UserID := '''', seat_AcceptedAt := None\<rparr>) d)))"

definition RemoveSeat :: "env \<Rightarrow> string \<Rightarrow> db \<Rightarrow> (Activation list \<times> bool) result \<times> db" where
  "RemoveSeat e sid d =
     (if db_fault d then (Inl ErrDB, d)
      else case select_one (\<lambda>s. seat_ID s = sid) (db_seats d) of
        None \<Rightarrow> (Inl ErrNoRows, d)
      | Some _ \<Rightarrow>
          let n = count_where (\<lambda>s. seat_ID s = sid \<and> seat_RemovedAt s = None) (db_seats d);
              d1 = d\<lparr>db_seats := update_where (\<lambda>s. seat_ID s = sid \<and> seat_RemovedAt s = None)
                                  (\<lambda>s. s\<lparr>seat_RemovedAt := Some (env_now e)\<rparr>) (db_seats d)\<rparr>;
              d2 = set_seat sid clear_member_key d1
          in (Inr (seat_devices sid d2, n = 1), drop_seat_slots sid d2))"

definition CountActiveSeats :: "string \<Rightarrow> db \<Rightarrow> int result" where
  "CountActiveSeats licenseID d = (if db_fault d then Inl ErrDB else Inr (memberSeatsSQL licenseID d))"

definition CountLicensesOverSeatLimit :: "string \<Rightarrow> int \<Rightarrow> db \<Rightarrow> int result" where
  "CountLicensesOverSeatLimit planID maxSeats d =
     (if maxSeats \<le> 0 then Inr 0
      else if db_fault d then Inl ErrDB
      else Inr (count_where (\<lambda>l. lic_PlanID l = planID \<and> 1 + joined_members l d > maxSeats) (db_licenses d)))"

section \<open>Member keys\<close>

definition memberKeyAAD :: "string \<Rightarrow> string" where
  "memberKeyAAD seatID = ''seat:'' @ seatID"

text \<open>The ciphertext of a new key: none without a cipher, an error when encryption fails.\<close>

definition encrypt_key :: "env \<Rightarrow> string \<Rightarrow> string \<Rightarrow> string option result" where
  "encrypt_key e key aad =
     (case env_aead e of
        None \<Rightarrow> Inr None
      | Some c \<Rightarrow> (case aead_Encrypt c key aad of None \<Rightarrow> Inl ErrEncrypt | Some ct \<Rightarrow> Inr (Some ct)))"

definition decryptMemberKey :: "env \<Rightarrow> Seat \<Rightarrow> string" where
  "decryptMemberKey e seat =
     (case (env_aead e, seat_MemberKeyEncrypted seat) of
        (Some c, Some ct) \<Rightarrow>
          if ct \<noteq> '''' then
            (case aead_Decrypt c ct (memberKeyAAD (seat_ID seat)) of Some pt \<Rightarrow> pt | None \<Rightarrow> seat_MemberKey seat)
          else seat_MemberKey seat
      | _ \<Rightarrow> seat_MemberKey seat)"

definition DecryptMemberKey :: "env \<Rightarrow> Seat \<Rightarrow> string" where
  "DecryptMemberKey e seat = (if seat_MemberKeyHash seat = '''' then '''' else decryptMemberKey e seat)"

text \<open>\<^verbatim>\<open>SELECT p.license_prefix FROM licenses l JOIN products p ...\<close>\<close>

definition license_prefix :: "string \<Rightarrow> db \<Rightarrow> string result" where
  "license_prefix licenseID d =
     (case license_row d licenseID of
        None \<Rightarrow> Inl ErrNoRows
      | Some l \<Rightarrow> (case product_of d l of None \<Rightarrow> Inl ErrNoRows | Some p \<Rightarrow> Inr (prod_LicensePrefix p)))"

definition set_member_key :: "env \<Rightarrow> string \<Rightarrow> string option \<Rightarrow> Seat \<Rightarrow> Seat" where
  "set_member_key e key ct s = s\<lparr>seat_MemberKey := key, seat_MemberKeyHash := HashKey (env_sha256 e) key,
                                seat_MemberKeyEncrypted := ct\<rparr>"

text \<open>
  \<open>MemberKey\<close> takes no lock: \<open>mid\<close> is what other requests do between its read of the
  prefix and its conditional update.
\<close>

definition MemberKey :: "env \<Rightarrow> (db \<Rightarrow> db) \<Rightarrow> Seat \<Rightarrow> db \<Rightarrow> string result \<times> Seat \<times> db" where
  "MemberKey e mid seat d =
     (if seat_MemberKeyHash seat \<noteq> '''' then (Inr (decryptMemberKey e seat), seat, d)
      else if seat_AcceptedAt seat = None \<or> seat_RemovedAt seat \<noteq> None then (Inr '''', seat, d)
      else if db_fault d then (Inl ErrDB, seat, d)
      else case license_prefix (seat_LicenseID seat) d of
        Inl err \<Rightarrow> (Inl err, seat, d)
      | Inr prefix \<Rightarrow>
          let key = GenerateKey (env_rand e) prefix in
          case encrypt_key e key (memberKeyAAD (seat_ID seat)) of
            Inl err \<Rightarrow> (Inl err, seat, d)
          | Inr ct \<Rightarrow>
              let d1 = mid d;
                  keyless = (\<lambda>s. seat_ID s = seat_ID seat \<and> seat_MemberKeyHash s = '''' \<and>
                              seat_RemovedAt s = None \<and> seat_AcceptedAt s \<noteq> None) in
              if db_fault d1 then (Inl ErrDB, seat, d1)
              else if count_where keyless (db_seats d1) = 1
              then (Inr key, set_member_key e key ct seat,
                    d1\<lparr>db_seats := update_where keyless (set_member_key e key ct) (db_seats d1)\<rparr>)
              else case select_one (\<lambda>s. seat_ID s = seat_ID seat) (db_seats d1) of
                None \<Rightarrow> (Inl ErrNoRows, seat, d1)
              | Some fresh \<Rightarrow>
                  if seat_MemberKeyHash fresh = '''' \<or> seat_RemovedAt fresh \<noteq> None then (Inr '''', seat, d1)
                  else (Inr (decryptMemberKey e fresh), fresh, d1))"

definition CountDevicesBySeat :: "string \<Rightarrow> db \<Rightarrow> (string \<rightharpoonup> int)" where
  "CountDevicesBySeat licenseID d sid =
     (let n = count_where (\<lambda>a. act_LicenseID a = licenseID \<and> act_SeatID a \<noteq> '''' \<and> act_SeatID a = sid) (db_activations d)
      in if n = 0 then None else Some n)"

definition RotateLicenseKey :: "env \<Rightarrow> string \<Rightarrow> db \<Rightarrow> (string \<times> Activation list) result \<times> db" where
  "RotateLicenseKey e licenseID d =
     (if db_fault d then (Inl ErrDB, d)
      else case license_prefix licenseID d of
        Inl err \<Rightarrow> (Inl err, d)
      | Inr prefix \<Rightarrow>
          let key = GenerateKey (env_rand e) prefix in
          case encrypt_key e key licenseID of
            Inl err \<Rightarrow> (Inl err, d)
          | Inr ct \<Rightarrow>
              (Inr (key, filter (\<lambda>a. act_LicenseID a = licenseID \<and> act_SeatID a = '''') (db_activations d)),
               d\<lparr>db_licenses := update_where (\<lambda>l. lic_ID l = licenseID)
                    (\<lambda>l. l\<lparr>lic_LicenseKey := key, lic_KeyHash := HashKey (env_sha256 e) key,
                           lic_LicenseKeyEncrypted := ct, lic_UpdatedAt := env_dbnow e\<rparr>) (db_licenses d),
                 db_activations := delete_where (\<lambda>a. act_LicenseID a = licenseID \<and> act_SeatID a = '''') (db_activations d),
                 db_floating := delete_where (\<lambda>f. fs_LicenseID f = licenseID \<and> fs_SeatID f = '''') (db_floating d)\<rparr>))"

definition RotateMemberKey :: "env \<Rightarrow> string \<Rightarrow> db \<Rightarrow> (string \<times> Activation list) result \<times> db" where
  "RotateMemberKey e seatID d =
     (if db_fault d then (Inl ErrDB, d)
      else case select_one (\<lambda>s. seat_ID s = seatID) (db_seats d) of
        None \<Rightarrow> (Inl ErrNoRows, d)
      | Some seat \<Rightarrow>
          (case license_prefix (seat_LicenseID seat) d of
             Inl err \<Rightarrow> (Inl err, d)
           | Inr prefix \<Rightarrow>
               if seat_AcceptedAt seat = None \<or> seat_RemovedAt seat \<noteq> None then (Inl ErrSeatNotJoined, d)
               else
                 let key = GenerateKey (env_rand e) prefix in
                 case encrypt_key e key (memberKeyAAD seatID) of
                   Inl err \<Rightarrow> (Inl err, d)
                 | Inr ct \<Rightarrow>
                     (Inr (key, seat_devices seatID d),
                      drop_seat_slots seatID (set_seat seatID (set_member_key e key ct) d))))"

record SeatLeftover =
  sl_ID :: string
  sl_LicenseID :: string
  sl_ProductID :: string
  sl_Email :: string

definition off_team :: "Seat \<Rightarrow> bool" where
  "off_team s \<longleftrightarrow> seat_RemovedAt s \<noteq> None \<or> seat_AcceptedAt s = None"

definition has_leftover :: "db \<Rightarrow> Seat \<Rightarrow> bool" where
  "has_leftover d s \<longleftrightarrow> off_team s \<and>
     (seat_MemberKeyHash s \<noteq> '''' \<or>
      exists_where (\<lambda>a. act_SeatID a \<noteq> '''' \<and> act_SeatID a = seat_ID s) (db_activations d) \<or>
      exists_where (\<lambda>f. fs_SeatID f \<noteq> '''' \<and> fs_SeatID f = seat_ID s) (db_floating d))"

definition FindSeatLeftovers :: "nat \<Rightarrow> db \<Rightarrow> SeatLeftover list result" where
  "FindSeatLeftovers limit d =
     (if db_fault d then Inl ErrDB
      else Inr (take limit (concat (map (\<lambda>s.
        case license_row d (seat_LicenseID s) of
          None \<Rightarrow> []
        | Some l \<Rightarrow> [\<lparr>sl_ID = seat_ID s, sl_LicenseID = seat_LicenseID s, sl_ProductID = lic_ProductID l,
                     sl_Email = seat_Email s\<rparr>])
        (sort_key seat_CreatedAt (filter (has_leftover d) (db_seats d)))))))"

definition ClearSeatLeftovers :: "string \<Rightarrow> db \<Rightarrow> (Activation list \<times> bool) result \<times> db" where
  "ClearSeatLeftovers seatID d =
     (if db_fault d then (Inl ErrDB, d)
      else case select_one (\<lambda>s. seat_ID s = seatID) (db_seats d) of
        None \<Rightarrow> (Inl ErrNoRows, d)
      | Some seat \<Rightarrow>
          if \<not> off_team seat then (Inr ([], False), d)
          else
            let devices = seat_devices seatID d;
                sessions = count_where (\<lambda>f. fs_SeatID f \<noteq> '''' \<and> fs_SeatID f = seatID) (db_floating d)
            in (Inr (devices, seat_MemberKeyHash seat \<noteq> '''' \<or> length devices > 0 \<or> sessions > 0),
                drop_seat_slots seatID (set_seat seatID clear_member_key d)))"

definition NormalizeSeatRoles :: "db \<Rightarrow> int result \<times> db" where
  "NormalizeSeatRoles d =
     (if db_fault d then (Inl ErrDB, d)
      else (Inr (count_where (\<lambda>s. seat_Role s \<noteq> ''member'') (db_seats d)),
            d\<lparr>db_seats := update_where (\<lambda>s. seat_Role s \<noteq> ''member'') (\<lambda>s. s\<lparr>seat_Role := ''member''\<rparr>) (db_seats d)\<rparr>))"

section \<open>Off the team, nothing left\<close>

lemma set_seat_seats: "db_seats (set_seat sid f d) = update_where (\<lambda>s. seat_ID s = sid) f (db_seats d)"
  by (simp add: set_seat_def)

lemma set_seat_tables [simp]:
  "db_licenses (set_seat sid f d) = db_licenses d" "db_plans (set_seat sid f d) = db_plans d"
  "db_products (set_seat sid f d) = db_products d" "db_activations (set_seat sid f d) = db_activations d"
  "db_floating (set_seat sid f d) = db_floating d" "db_fault (set_seat sid f d) = db_fault d"
  by (simp_all add: set_seat_def)

lemma drop_seat_slots_tables [simp]:
  "db_licenses (drop_seat_slots sid d) = db_licenses d" "db_plans (drop_seat_slots sid d) = db_plans d"
  "db_products (drop_seat_slots sid d) = db_products d" "db_seats (drop_seat_slots sid d) = db_seats d"
  "db_fault (drop_seat_slots sid d) = db_fault d"
  by (simp_all add: drop_seat_slots_def)

text \<open>A seat that holds nothing: no key, no device, no floating session.\<close>

definition holds_nothing :: "string \<Rightarrow> db \<Rightarrow> bool" where
  "holds_nothing sid d \<longleftrightarrow>
     (\<forall>s \<in> set (db_seats d). seat_ID s = sid \<longrightarrow> seat_MemberKeyHash s = '''') \<and>
     (\<forall>a \<in> set (db_activations d). act_SeatID a \<noteq> sid) \<and>
     (\<forall>f \<in> set (db_floating d). fs_SeatID f \<noteq> sid)"

lemma drop_clear_holds_nothing:
  assumes "sid \<noteq> ''''" and "\<forall>s \<in> set (db_seats d). seat_ID s = sid \<longrightarrow> seat_MemberKeyHash s = ''''"
  shows "holds_nothing sid (drop_seat_slots sid d)"
  using assms by (auto simp: holds_nothing_def drop_seat_slots_def)

lemma set_seat_clears:
  assumes "\<And>s. seat_MemberKeyHash (f s) = ''''" "\<And>s. seat_ID (f s) = seat_ID s"
  shows "\<forall>s \<in> set (db_seats (set_seat sid f d)). seat_ID s = sid \<longrightarrow> seat_MemberKeyHash s = ''''"
  using assms by (auto simp: set_seat_seats set_update_where)

lemma holds_nothing_no_key:
  "holds_nothing sid d \<Longrightarrow> sid \<noteq> '''' \<Longrightarrow> \<not> keyHeldIn e lid sid key d"
  by (auto simp: holds_nothing_def elim!: keyHeldIn_memberE)

text \<open>
  C17: removing a member takes everything away. After \<open>RemoveSeat\<close> the member's seat is
  removed, holds no key, no device and no floating session, and no key opens the licence
  through it; the devices that were removed are returned.
\<close>

theorem remove_seat_clears:
  assumes "RemoveSeat e sid d = (Inr (devs, now_removed), d')" and "sid \<noteq> ''''"
  shows "holds_nothing sid d' \<and> (\<forall>lid key e'. \<not> keyHeldIn e' lid sid key d') \<and>
         (\<forall>s \<in> set (db_seats d'). seat_ID s = sid \<longrightarrow> seat_RemovedAt s \<noteq> None) \<and>
         devs = filter (\<lambda>a. act_SeatID a = sid) (db_activations d)"
proof -
  let ?d1 = "d\<lparr>db_seats := update_where (\<lambda>s. seat_ID s = sid \<and> seat_RemovedAt s = None)
               (\<lambda>s. s\<lparr>seat_RemovedAt := Some (env_now e)\<rparr>) (db_seats d)\<rparr>"
  let ?d2 = "set_seat sid clear_member_key ?d1"
  from assms(1) have d': "d' = drop_seat_slots sid ?d2" and dev: "devs = seat_devices sid ?d2"
    by (auto simp: RemoveSeat_def Let_def split: if_splits option.splits)
  have none: "holds_nothing sid d'"
    unfolding d' by (intro drop_clear_holds_nothing set_seat_clears) (simp_all add: assms(2) clear_member_key_def)
  moreover have "\<forall>s \<in> set (db_seats d'). seat_ID s = sid \<longrightarrow> seat_RemovedAt s \<noteq> None"
    by (simp add: d' set_seat_seats ball_update_where clear_member_key_def)
  moreover have "devs = filter (\<lambda>a. act_SeatID a = sid) (db_activations d)"
    unfolding dev seat_devices_def by (rule filter_cong) (use assms(2) in auto)
  ultimately show ?thesis using holds_nothing_no_key [OF none assms(2)] by blast
qed

definition demo_member_device :: Activation where
  "demo_member_device = zero_Activation\<lparr>act_ID := ''A'', act_LicenseID := ''L'', act_Identifier := ''pc'', act_SeatID := ''S''\<rparr>"

theorem remove_seat_clears_witness:
  "\<exists>d'. RemoveSeat demo_env ''S'' (demo_db\<lparr>db_activations := [demo_member_device]\<rparr>) = (Inr ([demo_member_device], True), d') \<and>
        holds_nothing ''S'' d'"
proof -
  let ?d = "demo_db\<lparr>db_activations := [demo_member_device]\<rparr>"
  have "\<exists>d'. RemoveSeat demo_env ''S'' ?d = (Inr ([demo_member_device], True), d')"
    by (simp add: RemoveSeat_def Let_def select_one_def count_where_def seat_devices_def demo_member_device_def
        zero_Activation_def)
  then show ?thesis using remove_seat_clears [of demo_env "''S''" ?d "[demo_member_device]" True] by fastforce
qed

section \<open>The seat limit\<close>

text \<open>The people on a licence: the members, pending or joined, and the owner.\<close>

definition people :: "string \<Rightarrow> db \<Rightarrow> int" where
  "people lid d = memberSeatsSQL lid d + 1"

definition seat_limit :: "string \<Rightarrow> db \<Rightarrow> int" where
  "seat_limit lid d = (case lockLicenseLimitsIn lid d of None \<Rightarrow> 0 | Some (s, _) \<Rightarrow> s)"

text \<open>The people who have joined, the owner included.\<close>

definition joined_people :: "string \<Rightarrow> db \<Rightarrow> int" where
  "joined_people lid d = (case license_row d lid of None \<Rightarrow> 1 | Some l \<Rightarrow> joined_members l d + 1)"

inductive seat_step :: "db \<Rightarrow> db \<Rightarrow> bool" where
  invite: "AddSeatWithinLimit e seat maxSeats d = (r, seat', d') \<Longrightarrow> seat_AcceptedAt seat = None \<Longrightarrow> seat_step d d'"
| accept: "AcceptSeatInvite e token d = (r, d') \<Longrightarrow> seat_step d d'"
| rollback: "RollbackSeatAccept sid d = (r, d') \<Longrightarrow> seat_step d d'"
| remove: "RemoveSeat e sid d = (r, d') \<Longrightarrow> seat_step d d'"
| rotate: "RotateMemberKey e sid d = (r, d') \<Longrightarrow> seat_step d d'"
| clear_leftovers: "ClearSeatLeftovers sid d = (r, d') \<Longrightarrow> seat_step d d'"

text \<open>
  Every step rewrites at most one seat row, or adds one. \<open>keeps_person\<close> is a rewrite that
  leaves the licence and address of the row.
\<close>

definition keeps_person :: "(Seat \<Rightarrow> Seat) \<Rightarrow> bool" where
  "keeps_person f \<longleftrightarrow> (\<forall>s. seat_ID (f s) = seat_ID s \<and> seat_LicenseID (f s) = seat_LicenseID s \<and> seat_Email (f s) = seat_Email s)"

lemma keeps_person_clear [simp]: "keeps_person clear_member_key" "keeps_person (set_member_key e k ct)"
  by (simp_all add: keeps_person_def clear_member_key_def set_member_key_def)

lemma count_set_seat:
  assumes "distinct (map seat_ID rows)" "s \<in> set rows" "\<And>x. seat_ID (f x) = seat_ID x"
  shows "count_where P (update_where (\<lambda>x. seat_ID x = seat_ID s) f rows) =
         count_where P rows - (if P s then 1 else 0) + (if P (f s) then 1 else 0)"
  using assms(1,2)
proof (induction rows)
  case (Cons r rows)
  show ?case
  proof (cases "seat_ID r = seat_ID s")
    case True
    with Cons.prems have "r = s" by (auto simp: rev_image_eqI)
    moreover have "seat_ID s \<notin> seat_ID ` set rows" using Cons.prems True by simp
    then have "update_where (\<lambda>x. seat_ID x = seat_ID s) f rows = rows"
      by (intro update_where_none) (auto simp: rev_image_eqI)
    ultimately show ?thesis by (simp add: update_where_def count_where_Cons)
  next
    case False
    with Cons show ?thesis by (auto simp: update_where_def count_where_Cons)
  qed
qed simp

lemma db_wf_seats: "db_wf d \<Longrightarrow> distinct (map seat_ID xs) \<Longrightarrow> db_wf (d\<lparr>db_seats := xs\<rparr>)"
  by (simp add: db_wf_def)

lemma db_wf_set_seat: "db_wf d \<Longrightarrow> (\<And>s. seat_ID (f s) = seat_ID s) \<Longrightarrow> db_wf (set_seat sid f d)"
  by (auto simp: set_seat_def db_wf_def update_where_def comp_def if_distrib [of seat_ID] cong: if_cong)

lemma db_wf_drop: "db_wf d \<Longrightarrow> db_wf (drop_seat_slots sid d)"
  by (simp add: db_wf_def drop_seat_slots_def distinct_map_delete_where)

lemma people_frame:
  "db_licenses d' = db_licenses d \<Longrightarrow> db_seats d' = db_seats d \<Longrightarrow> people lid d' = people lid d"
  by (simp only: people_def memberSeatsSQL_frame [of d' d])

abbreviation member_of :: "License \<Rightarrow> Seat \<Rightarrow> bool" where
  "member_of l s \<equiv> seat_LicenseID s = lic_ID l \<and> seat_RemovedAt s = None \<and> to_lower (seat_Email s) \<noteq> to_lower (lic_Email l)"

lemma people_row: "license_row d lid = Some l \<Longrightarrow> people lid d = count_where (member_of l) (db_seats d) + 1"
  by (auto simp: people_def memberSeatsSQL_def dest: license_row_SomeD)

text \<open>
  What a step does to the seats, whichever it is: it rewrites rows without adding a person or
  a joined one, it adds one person within the limit read under the lock, or it makes one
  pending member a joined one within the limit.
\<close>

definition no_more :: "db \<Rightarrow> db \<Rightarrow> bool" where
  "no_more d d' \<longleftrightarrow> (\<forall>l. count_where (member_of l) (db_seats d') \<le> count_where (member_of l) (db_seats d) \<and>
     count_where (joined_member l) (db_seats d') \<le> count_where (joined_member l) (db_seats d))"

lemma no_more_refl: "no_more d d"
  by (simp add: no_more_def)

lemma no_more_rewrite:
  assumes "\<And>s. seat_ID (f s) = seat_ID s \<and> seat_LicenseID (f s) = seat_LicenseID s \<and> seat_Email (f s) = seat_Email s"
    and "\<And>s. s \<in> set (db_seats d) \<Longrightarrow> P s \<Longrightarrow> seat_RemovedAt (f s) = None \<Longrightarrow> seat_RemovedAt s = None"
    and "\<And>s. s \<in> set (db_seats d) \<Longrightarrow> P s \<Longrightarrow> is_joined (f s) \<Longrightarrow> is_joined s"
    and "db_seats d' = update_where P f (db_seats d)"
  shows "no_more d d'"
proof -
  have le: "count_where Q (update_where P f rows) \<le> count_where Q rows"
    if "\<And>s. s \<in> set rows \<Longrightarrow> P s \<Longrightarrow> Q (f s) \<Longrightarrow> Q s" for Q rows
    using that by (induction rows) (auto simp: update_where_def count_where_Cons)
  show ?thesis
    unfolding no_more_def assms(4)
    by (intro allI conjI le) (use assms(1-3) in \<open>auto simp: joined_member_def\<close>)
qed

lemma no_more_drop_set:
  assumes "keeps_person f" "\<And>s. seat_RemovedAt (f s) = None \<Longrightarrow> seat_RemovedAt s = None" "\<And>s. is_joined (f s) \<Longrightarrow> is_joined s"
  shows "no_more d (drop_seat_slots sid' (set_seat sid f d))"
  using assms by (intro no_more_rewrite [of f d "\<lambda>s. seat_ID s = sid"]) (auto simp: keeps_person_def set_seat_seats)

lemma live_seat_SomeD:
  "live_seat lid m d = Some s \<Longrightarrow> s \<in> set (db_seats d) \<and> seat_LicenseID s = lid \<and> seat_RemovedAt s = None"
  by (auto simp: live_seat_def Let_def dest!: first_by_SomeD split: option.splits)

lemma RemoveSeat_no_more: "RemoveSeat e sid d = (r, d') \<Longrightarrow> no_more d d'"
proof -
  assume r: "RemoveSeat e sid d = (r, d')"
  let ?P = "\<lambda>s. seat_ID s = sid \<and> seat_RemovedAt s = None" and ?f = "\<lambda>s. s\<lparr>seat_RemovedAt := Some (env_now e)\<rparr>"
  let ?d1 = "d\<lparr>db_seats := update_where ?P ?f (db_seats d)\<rparr>"
  from r consider "d' = d" | "d' = drop_seat_slots sid (set_seat sid clear_member_key ?d1)"
    by (auto simp: RemoveSeat_def Let_def split: if_splits option.splits)
  then show ?thesis
  proof cases
    case 2
    have "no_more d ?d1" by (rule no_more_rewrite [of ?f d ?P]) (auto simp: is_joined_def)
    moreover have "no_more ?d1 d'"
      unfolding 2 by (intro no_more_drop_set) (auto simp: is_joined_def clear_member_key_def)
    ultimately show ?thesis unfolding no_more_def by (meson order_trans)
  qed (simp add: no_more_refl)
qed

lemma RollbackSeatAccept_no_more:
  assumes "RollbackSeatAccept sid d = (r, d')"
  shows "no_more d d'"
proof -
  from assms consider "d' = d" | "d' = drop_seat_slots sid (set_seat sid
      (\<lambda>s. (clear_member_key s)\<lparr>seat_UserID := '''', seat_AcceptedAt := None\<rparr>) d)"
    by (auto simp: RollbackSeatAccept_def split: if_splits option.splits)
  then show ?thesis
  proof cases
    case 2
    show ?thesis unfolding 2 by (rule no_more_drop_set) (auto simp: is_joined_def clear_member_key_def keeps_person_def)
  qed (simp add: no_more_refl)
qed

lemma RotateMemberKey_no_more:
  assumes "RotateMemberKey e sid d = (r, d')"
  shows "no_more d d'"
proof -
  from assms consider "d' = d" | k ct where "d' = drop_seat_slots sid (set_seat sid (set_member_key e k ct) d)"
    by (auto simp: RotateMemberKey_def Let_def split: if_splits option.splits sum.splits)
  then show ?thesis
  proof cases
    case (2 k ct)
    show ?thesis unfolding 2 by (rule no_more_drop_set) (auto simp: is_joined_def set_member_key_def keeps_person_def)
  qed (simp add: no_more_refl)
qed

lemma ClearSeatLeftovers_no_more:
  assumes "ClearSeatLeftovers sid d = (r, d')"
  shows "no_more d d'"
proof -
  from assms consider "d' = d" | "d' = drop_seat_slots sid (set_seat sid clear_member_key d)"
    by (auto simp: ClearSeatLeftovers_def Let_def split: if_splits option.splits)
  then show ?thesis
  proof cases
    case 2
    show ?thesis unfolding 2 by (rule no_more_drop_set) (auto simp: is_joined_def clear_member_key_def keeps_person_def)
  qed (simp add: no_more_refl)
qed

lemma fst_plan_limits: "fst (plan_limits pl (lic_Quantity l)) = seatLimitSQL l pl"
  by (simp add: plan_limits_def seatLimitSQL_def Let_def)

lemma lockLicenseLimitsIn_SomeD:
  assumes "lockLicenseLimitsIn lid d = Some (s, a)"
  obtains l pl where "license_row d lid = Some l" "plan_of d l = Some pl" "s = seatLimitSQL l pl"
proof -
  from assms obtain l pl where "license_row d lid = Some l" "plan_of d l = Some pl"
    "plan_limits pl (lic_Quantity l) = (s, a)"
    by (auto simp: lockLicenseLimitsIn_def split: option.splits)
  then show ?thesis using that fst_plan_limits [of pl l] by simp
qed

text \<open>The two ways an invite adds a person: an old row comes back, or a new one is inserted.\<close>

lemma one_more_restored:
  assumes "db_wf d" "old \<in> set (db_seats d)" "keeps_person f" "\<And>s. seat_AcceptedAt (f s) = None"
    and "db_seats d' = db_seats (set_seat (seat_ID old) f d)"
  shows "count_where (member_of l) (db_seats d') \<le>
           count_where (member_of l) (db_seats d) + (if lic_ID l = seat_LicenseID old then 1 else 0)"
    and "count_where (joined_member l) (db_seats d') \<le> count_where (joined_member l) (db_seats d)"
proof -
  have dist: "distinct (map seat_ID (db_seats d))" using assms(1) by (simp add: db_wf_def)
  have id: "\<And>x. seat_ID (f x) = seat_ID x" using assms(3) by (simp add: keeps_person_def)
  note count = count_set_seat [OF dist assms(2) id]
  show "count_where (member_of l) (db_seats d') \<le>
      count_where (member_of l) (db_seats d) + (if lic_ID l = seat_LicenseID old then 1 else 0)"
    using assms(3) unfolding assms(5) set_seat_seats count by (simp add: keeps_person_def)
  show "count_where (joined_member l) (db_seats d') \<le> count_where (joined_member l) (db_seats d)"
    unfolding assms(5) set_seat_seats count by (simp add: joined_member_def is_joined_def assms(4))
qed

lemma one_more_created:
  assumes "insert_seat e new d = Inr d'" "seat_AcceptedAt new = None"
  shows "count_where (member_of l) (db_seats d') \<le>
           count_where (member_of l) (db_seats d) + (if lic_ID l = seat_LicenseID new then 1 else 0)"
    and "count_where (joined_member l) (db_seats d') \<le> count_where (joined_member l) (db_seats d)"
proof -
  have "db_seats d' = db_seats d @ [seat_row e new]"
    using assms(1) by (auto simp: insert_seat_def split: if_splits)
  then show "count_where (member_of l) (db_seats d') \<le>
      count_where (member_of l) (db_seats d) + (if lic_ID l = seat_LicenseID new then 1 else 0)"
    "count_where (joined_member l) (db_seats d') \<le> count_where (joined_member l) (db_seats d)"
    using assms(2) by (simp_all add: tbl_simps seat_row_def joined_member_def is_joined_def)
qed

definition one_more :: "string \<Rightarrow> db \<Rightarrow> db \<Rightarrow> bool" where
  "one_more lid d d' \<longleftrightarrow> (\<forall>l. count_where (member_of l) (db_seats d') \<le>
       count_where (member_of l) (db_seats d) + (if lic_ID l = lid then 1 else 0) \<and>
     count_where (joined_member l) (db_seats d') \<le> count_where (joined_member l) (db_seats d))"

lemma removed_seat_SomeD:
  "removed_seat lid m d = Some s \<Longrightarrow> s \<in> set (db_seats d) \<and> seat_LicenseID s = lid \<and> seat_RemovedAt s \<noteq> None"
  by (auto simp: removed_seat_def dest!: first_by_SomeD)

text \<open>The outcomes of an invite; \<open>cap\<close> is the limit it was held to, 0 for none.\<close>

definition invite_cap :: "Seat \<Rightarrow> int \<Rightarrow> db \<Rightarrow> int" where
  "invite_cap seat maxSeats d = (case lockLicenseLimitsIn (seat_LicenseID seat) d of
     None \<Rightarrow> maxSeats | Some (held, _) \<Rightarrow> stricterSeatLimit maxSeats held)"

lemma AddSeat_cases:
  assumes "AddSeatWithinLimit e seat maxSeats d = (r, seat', d')"
  obtains (unchanged) "d' = d"
    | (resent) existing where "live_seat (seat_LicenseID seat) (seat_Email seat) d = Some existing"
        "seat_AcceptedAt existing = None" "d' = set_seat (seat_ID existing) (reinvite_seat e seat) d"
    | (restored) old where "removed_seat (seat_LicenseID seat) (seat_Email seat) d = Some old"
        "d' = set_seat (seat_ID old) (restore_seat e seat) (drop_seat_slots (seat_ID old) d)"
        "invite_cap seat maxSeats d > 0 \<Longrightarrow> memberSeatsSQL (seat_LicenseID seat) d + 1 < invite_cap seat maxSeats d"
    | (created) new where "insert_seat e new d = Inr d'" "seat_LicenseID new = seat_LicenseID seat"
        "seat_AcceptedAt new = seat_AcceptedAt seat"
        "invite_cap seat maxSeats d > 0 \<Longrightarrow> memberSeatsSQL (seat_LicenseID seat) d + 1 < invite_cap seat maxSeats d"
proof (cases "d' = d")
  case False
  let ?lid = "seat_LicenseID seat" and ?m = "seat_Email seat"
  let ?new = "if seat_ID seat = '''' then seat\<lparr>seat_ID := env_newID e 0\<rparr> else seat"
  have new: "seat_LicenseID ?new = ?lid" "seat_Email ?new = ?m" "seat_AcceptedAt ?new = seat_AcceptedAt seat"
    "reinvite_seat e ?new = reinvite_seat e seat" "restore_seat e ?new = restore_seat e seat"
    by (auto simp: fun_eq_iff reinvite_seat_def restore_seat_def)
  note A = assms [unfolded AddSeatWithinLimit_def Let_def new]
  show ?thesis
  proof (cases "live_seat ?lid ?m d")
    case (Some existing)
    with A False show ?thesis by (auto split: if_splits intro: resent)
  next
    case None
    with A False have cap: "invite_cap seat maxSeats d > 0 \<Longrightarrow> memberSeatsSQL ?lid d + 1 < invite_cap seat maxSeats d"
      by (auto simp: invite_cap_def split: if_splits)
    show ?thesis
    proof (cases "removed_seat ?lid ?m d")
      case (Some old)
      with A None False cap show ?thesis by (intro restored [of old]) (auto split: if_splits)
    next
      case no_old: None
      with A None False have "insert_seat e ?new d = Inr d'" by (auto split: if_splits sum.splits)
      then show ?thesis using created [of ?new] new cap by auto
    qed
  qed
qed (use unchanged in blast)

lemma AddSeat_effect:
  assumes "AddSeatWithinLimit e seat maxSeats d = (r, seat', d')" and "db_wf d"
    and "lockLicenseLimitsIn (seat_LicenseID seat) d = Some (s, a)" and "0 < s" and "seat_AcceptedAt seat = None"
  shows "no_more d d' \<or> (one_more (seat_LicenseID seat) d d' \<and> memberSeatsSQL (seat_LicenseID seat) d + 1 < s)"
proof -
  have cap: "0 < invite_cap seat maxSeats d" "invite_cap seat maxSeats d \<le> s"
    using stricterSeatLimit_le [of s maxSeats] stricterSeatLimit_le(3) [of maxSeats s] assms(3,4)
    by (auto simp: invite_cap_def)
  from assms(1) show ?thesis
  proof (cases rule: AddSeat_cases)
    case (resent existing)
    have "no_more d d'" unfolding resent
      by (rule no_more_rewrite [of "reinvite_seat e seat" d "\<lambda>s. seat_ID s = seat_ID existing"])
        (auto simp: set_seat_seats is_joined_def reinvite_seat_def)
    then show ?thesis ..
  next
    case (restored old)
    note old = removed_seat_SomeD [OF restored(1)]
    have "db_seats d' = db_seats (set_seat (seat_ID old) (restore_seat e seat) d)"
      by (simp add: restored(2) set_seat_seats)
    note more = one_more_restored [OF assms(2) _ _ _ this]
    have "one_more (seat_LicenseID seat) d d'"
      unfolding one_more_def using more old
      by (simp add: keeps_person_def restore_seat_def clear_member_key_def)
    with restored(3) cap show ?thesis by auto
  next
    case (created new)
    have "one_more (seat_LicenseID seat) d d'"
      unfolding one_more_def using one_more_created [OF created(1)] created(2,3) assms(5) by simp
    with created(4) cap show ?thesis by auto
  qed (simp add: no_more_refl)
qed

text \<open>Accepting adds no person, and one joined person at most, within the limit.\<close>

lemma claim_user_tables [simp]:
  "db_seats (snd (claim_user e seat d)) = db_seats d" "db_licenses (snd (claim_user e seat d)) = db_licenses d"
  "db_plans (snd (claim_user e seat d)) = db_plans d" "db_activations (snd (claim_user e seat d)) = db_activations d"
  "db_floating (snd (claim_user e seat d)) = db_floating d" "db_products (snd (claim_user e seat d)) = db_products d"
  by (simp_all add: claim_user_def Let_def split: option.splits)

lemma AcceptSeatInvite_cases:
  assumes "AcceptSeatInvite e token d = (r, d')"
  obtains (refused) err where "r = Inl err" "d' = d"
    | (accepted) seat l pl where "seat \<in> set (db_seats d)" "seat_InviteTokenHash seat = HashSeatInviteToken e token"
        "seat_RemovedAt seat = None" "seat_AcceptedAt seat = None"
        "license_row d (seat_LicenseID seat) = Some l" "plan_of d l = Some pl"
        "seatLimitSQL l pl > 0 \<and> to_lower (seat_Email seat) \<noteq> to_lower (lic_Email l) \<Longrightarrow> joined_members l d + 1 < seatLimitSQL l pl"
        "r = Inr (fst (claim_user e seat d), accept_seat e (fst (claim_user e seat d)) seat)"
        "d' = set_seat (seat_ID seat) (accept_seat e (fst (claim_user e seat d))) (snd (claim_user e seat d))"
        "\<exists>t. seat_InviteExpiresAt seat = Some t \<and> env_now e \<le> t" "token \<noteq> ''''" "\<not> db_fault d"
        "seat_InviteTokenHash seat \<noteq> ''''"
proof (cases "\<exists>err. r = Inl err \<and> d' = d")
  case False
  let ?hash = "HashSeatInviteToken e token"
  from False assms have nf: "token \<noteq> ''''" "\<not> db_fault d"
    by (auto simp: AcceptSeatInvite_def Let_def split: if_splits)
  with False assms obtain row where
    row: "select_one (\<lambda>s. seat_InviteTokenHash s \<noteq> '''' \<and> seat_InviteTokenHash s = ?hash) (db_seats d) = Some row"
    by (auto simp: AcceptSeatInvite_def Let_def split: option.splits)
  with False assms nf obtain seat where
    seat: "select_one (\<lambda>s. seat_InviteTokenHash s \<noteq> '''' \<and> seat_InviteTokenHash s = ?hash \<and>
             seat_LicenseID s = seat_LicenseID row) (db_seats d) = Some seat"
    by (auto simp: AcceptSeatInvite_def Let_def split: option.splits)
  note s = select_one_SomeD [OF seat]
  have pend: "seat_RemovedAt seat = None" "seat_AcceptedAt seat = None"
    "\<exists>t. seat_InviteExpiresAt seat = Some t \<and> env_now e \<le> t"
    using False assms nf row seat s by (auto simp: AcceptSeatInvite_def Let_def not_less split: if_splits option.splits)
  with False assms nf row seat s obtain l where l: "license_row d (seat_LicenseID row) = Some l"
    by (auto simp: AcceptSeatInvite_def Let_def not_less split: option.splits)
  with False assms nf row seat s pend obtain pl where pl: "plan_of d l = Some pl"
    by (auto simp: AcceptSeatInvite_def Let_def not_less split: option.splits)
  have room: "seatLimitSQL l pl > 0 \<and> to_lower (seat_Email seat) \<noteq> to_lower (lic_Email l) \<Longrightarrow> joined_members l d + 1 < seatLimitSQL l pl"
    using False assms nf row seat s pend l pl by (auto simp: AcceptSeatInvite_def Let_def split: if_splits)
  have "(r, d') = (Inr (fst (claim_user e seat d), accept_seat e (fst (claim_user e seat d)) seat),
      set_seat (seat_ID seat) (accept_seat e (fst (claim_user e seat d))) (snd (claim_user e seat d)))"
    using assms nf row seat s pend l pl room
    by (auto simp: AcceptSeatInvite_def Let_def split_beta split: if_splits)
  then show ?thesis using accepted [of seat l pl] s pend l pl room nf by auto
qed (use refused in blast)

lemma Accept_effect:
  assumes "AcceptSeatInvite e token d = (r, d')" and "db_wf d"
  shows "no_more d d' \<or>
         (\<exists>lid l0 pl. license_row d lid = Some l0 \<and> plan_of d l0 = Some pl \<and>
          (\<forall>l. count_where (member_of l) (db_seats d') \<le> count_where (member_of l) (db_seats d) \<and>
             (lic_ID l \<noteq> lid \<longrightarrow> count_where (joined_member l) (db_seats d') \<le> count_where (joined_member l) (db_seats d))) \<and>
          joined_members l0 d' \<le> joined_members l0 d + 1 \<and>
          (joined_members l0 d' = joined_members l0 d + 1 \<longrightarrow> seatLimitSQL l0 pl > 0 \<longrightarrow> joined_members l0 d + 1 < seatLimitSQL l0 pl))"
  using assms(1)
proof (cases rule: AcceptSeatInvite_cases)
  case (accepted seat l0 pl)
  let ?f = "accept_seat e (fst (claim_user e seat d))"
  have dist: "distinct (map seat_ID (db_seats d))" using assms(2) by (simp add: db_wf_def)
  have idf: "seat_ID (?f x) = seat_ID x" for x by (simp add: clear_member_key_def accept_seat_def)
  note count = count_set_seat [OF dist accepted(1), of ?f, OF idf]
  have d': "db_seats d' = update_where (\<lambda>s. seat_ID s = seat_ID seat) ?f (db_seats d)"
    by (simp add: accepted(9) set_seat_seats)
  have joined: "count_where (joined_member l) (db_seats d') = count_where (joined_member l) (db_seats d) +
      (if lic_ID l = seat_LicenseID seat \<and> to_lower (seat_Email seat) \<noteq> to_lower (lic_Email l) then 1 else 0)" for l
    unfolding d' count using accepted(3,4) by (auto simp: joined_member_def is_joined_def clear_member_key_def accept_seat_def)
  moreover have "count_where (member_of l) (db_seats d') = count_where (member_of l) (db_seats d)" for l
    unfolding d' count by (simp add: clear_member_key_def accept_seat_def)
  moreover have "joined_members l0 d' = joined_members l0 d + 1 \<longrightarrow> seatLimitSQL l0 pl > 0 \<longrightarrow>
      joined_members l0 d + 1 < seatLimitSQL l0 pl"
    using accepted(7) joined [of l0] by (auto simp: joined_members_def split: if_splits)
  moreover have "joined_members l0 d' \<le> joined_members l0 d + 1"
    using joined [of l0] by (simp add: joined_members_def)
  ultimately show ?thesis
    using accepted(5,6) by (intro disjI2 exI [of _ "seat_LicenseID seat"] exI [of _ l0] exI [of _ pl]) auto
qed (simp add: no_more_refl)

lemma insert_seat_tables:
  "insert_seat e new d = Inr d' \<Longrightarrow> db_licenses d' = db_licenses d \<and> db_plans d' = db_plans d"
  by (auto simp: insert_seat_def split: if_splits)

lemma AddSeat_tables:
  assumes "AddSeatWithinLimit e seat maxSeats d = (r, seat', d')"
  shows "db_licenses d' = db_licenses d \<and> db_plans d' = db_plans d"
  using assms by (cases rule: AddSeat_cases) (auto dest: insert_seat_tables)

lemma seat_step_tables: "seat_step d d' \<Longrightarrow> db_licenses d' = db_licenses d \<and> db_plans d' = db_plans d"
proof (induction rule: seat_step.induct)
  case (invite e seat maxSeats d r seat' d')
  from AddSeat_tables [OF this(1)] show ?case .
next
  case (accept e token d r d')
  then show ?case by (cases rule: AcceptSeatInvite_cases) simp_all
qed (auto simp: RollbackSeatAccept_def RemoveSeat_def RotateMemberKey_def ClearSeatLeftovers_def Let_def
      split: if_splits option.splits sum.splits)

lemma insert_seat_wf: "insert_seat e new d = Inr d' \<Longrightarrow> db_wf d \<Longrightarrow> db_wf d'"
proof -
  assume i: "insert_seat e new d = Inr d'" and wf: "db_wf d"
  from i have "d' = d\<lparr>db_seats := db_seats d @ [seat_row e new]\<rparr>" "seat_ID new \<notin> seat_ID ` set (db_seats d)"
    by (auto simp: insert_seat_def split: if_splits)
  moreover have "seat_ID (seat_row e new) = seat_ID new" by (simp add: seat_row_def)
  ultimately show ?thesis using wf by (auto intro!: db_wf_seats simp: db_wf_def)
qed

lemma AddSeat_wf:
  assumes "AddSeatWithinLimit e seat maxSeats d = (r, seat', d')" and "db_wf d"
  shows "db_wf d'"
  using assms(1)
proof (cases rule: AddSeat_cases)
  case (restored old)
  show ?thesis unfolding restored(2)
    by (intro db_wf_set_seat db_wf_drop assms(2)) (simp add: restore_seat_def clear_member_key_def)
next
  case (resent existing)
  show ?thesis unfolding resent(3) by (intro db_wf_set_seat assms(2)) (simp add: reinvite_seat_def)
qed (use assms(2) insert_seat_wf in auto)

lemma seat_step_wf: "seat_step d d' \<Longrightarrow> db_wf d \<Longrightarrow> db_wf d'"
proof (induction rule: seat_step.induct)
  case (invite e seat maxSeats d r seat' d')
  then show ?case by (blast intro: AddSeat_wf)
next
  case (accept e token d r d')
  have "db_wf (snd (claim_user e seat d))" for seat
    using accept.prems by (simp add: claim_user_def db_wf_def Let_def split: option.splits)
  with accept show ?case
    by (cases rule: AcceptSeatInvite_cases) (auto intro!: db_wf_set_seat simp: accept_seat_def clear_member_key_def)
next
  case (remove e sid d r d')
  have "db_wf (d\<lparr>db_seats := update_where P (\<lambda>s. s\<lparr>seat_RemovedAt := x\<rparr>) (db_seats d)\<rparr>)" for P x
    using remove.prems by (simp add: db_wf_def map_update_where)
  with remove show ?case
    by (auto simp: RemoveSeat_def Let_def clear_member_key_def split: if_splits option.splits intro!: db_wf_drop db_wf_set_seat)
qed (auto simp: RollbackSeatAccept_def RotateMemberKey_def ClearSeatLeftovers_def Let_def clear_member_key_def set_member_key_def
      split: if_splits option.splits sum.splits intro!: db_wf_drop db_wf_set_seat)

text \<open>A licence with a seat limit in force.\<close>

definition seats_limited :: "string \<Rightarrow> db \<Rightarrow> bool" where
  "seats_limited lid d \<longleftrightarrow> db_wf d \<and> 0 < seat_limit lid d"

lemma seat_limit_frame: "db_licenses d' = db_licenses d \<Longrightarrow> db_plans d' = db_plans d \<Longrightarrow> seat_limit lid d' = seat_limit lid d"
  by (simp only: seat_limit_def lockLicenseLimitsIn_frame [of d' d])

lemma seats_limitedE:
  assumes "seats_limited lid d"
  obtains l pl a where "license_row d lid = Some l" "plan_of d l = Some pl"
    "seat_limit lid d = seatLimitSQL l pl" "lockLicenseLimitsIn lid d = Some (seatLimitSQL l pl, a)"
proof -
  from assms obtain s a where lim: "lockLicenseLimitsIn lid d = Some (s, a)"
    by (auto simp: seats_limited_def seat_limit_def split: option.splits)
  from lockLicenseLimitsIn_SomeD [OF lim] lim that show ?thesis by (metis (no_types, lifting) case_prod_conv option.simps(5) seat_limit_def)
qed

lemma no_more_people:
  assumes "no_more d d'" "license_row d lid = Some l" "license_row d' lid = Some l"
  shows "people lid d' \<le> people lid d" "joined_people lid d' \<le> joined_people lid d"
  using assms by (auto simp: people_row joined_people_def joined_members_def no_more_def)

lemma seat_step_cases:
  assumes "seat_step d d'"
  obtains (no_more) "no_more d d'"
    | (invite) e seat maxSeats r seat' where "AddSeatWithinLimit e seat maxSeats d = (r, seat', d')" "seat_AcceptedAt seat = None"
    | (accept) e token r where "AcceptSeatInvite e token d = (r, d')"
  using assms
proof (cases rule: seat_step.cases)
qed (blast intro: that RollbackSeatAccept_no_more RemoveSeat_no_more RotateMemberKey_no_more ClearSeatLeftovers_no_more)+

lemma seat_step_people:
  assumes step: "seat_step d d'" and lim: "seats_limited lid d"
  shows "people lid d' \<le> people lid d \<or> people lid d' \<le> seat_limit lid d'"
proof -
  have t: "db_licenses d' = db_licenses d" "db_plans d' = db_plans d" using seat_step_tables [OF step] by auto
  from seats_limitedE [OF lim] obtain l pl a where l: "license_row d lid = Some l"
    and s: "seat_limit lid d = seatLimitSQL l pl" "lockLicenseLimitsIn lid d = Some (seatLimitSQL l pl, a)" .
  have l': "license_row d' lid = Some l" using l license_row_frame [OF t(1)] by simp
  have wf: "db_wf d" and pos: "0 < seatLimitSQL l pl" using lim s by (auto simp: seats_limited_def)
  have id: "lic_ID l = lid" using license_row_SomeD [OF l] by simp
  note rows = people_row [OF l] people_row [OF l']
  from step show ?thesis
  proof (cases rule: seat_step_cases)
    case no_more
    then show ?thesis using no_more_people l l' by blast
  next
    case (invite e seat maxSeats r seat')
    show ?thesis
    proof (cases "seat_LicenseID seat = lid")
      case True
      from AddSeat_effect [OF invite(1) wf _ pos invite(2)] s(2) True
      have "no_more d d' \<or> (one_more lid d d' \<and> memberSeatsSQL lid d + 1 < seatLimitSQL l pl)" by simp
      then show ?thesis
      proof
        assume more: "one_more lid d d' \<and> memberSeatsSQL lid d + 1 < seatLimitSQL l pl"
        then have "count_where (member_of l) (db_seats d') \<le> count_where (member_of l) (db_seats d) + 1"
          using id unfolding one_more_def by presburger
        with more have "people lid d' \<le> people lid d + 1" "people lid d < seatLimitSQL l pl"
          unfolding rows by (simp_all flip: rows(1) add: people_def)
        then show ?thesis using s seat_limit_frame [OF t] by auto
      qed (use no_more_people l l' in blast)
    next
      case False
      from invite(1) have "people lid d' \<le> people lid d"
      proof (cases rule: AddSeat_cases)
        case (restored old)
        have "db_seats d' = db_seats (set_seat (seat_ID old) (restore_seat e seat) d)"
          by (simp add: restored(2) set_seat_seats)
        from one_more_restored(1) [OF wf _ _ _ this, of l] removed_seat_SomeD [OF restored(1)] False rows id
        show ?thesis by (auto simp: keeps_person_def restore_seat_def clear_member_key_def)
      next
        case (created new)
        from one_more_created(1) [OF created(1), of l] created(2,3) invite(2) False rows id show ?thesis by auto
      next
        case (resent existing)
        have "no_more d d'" unfolding resent
          by (rule no_more_rewrite [of "reinvite_seat e seat" d "\<lambda>s. seat_ID s = seat_ID existing"])
            (auto simp: set_seat_seats is_joined_def reinvite_seat_def)
        then show ?thesis using no_more_people l l' by blast
      qed simp
      then show ?thesis ..
    qed
  next
    case (accept e token r)
    from Accept_effect [OF this wf] rows have "people lid d' \<le> people lid d" by (auto simp: no_more_def)
    then show ?thesis ..
  qed
qed

lemma seat_step_joined:
  assumes step: "seat_step d d'" and lim: "seats_limited lid d"
  shows "joined_people lid d' \<le> joined_people lid d \<or> joined_people lid d' \<le> seat_limit lid d'"
proof -
  have t: "db_licenses d' = db_licenses d" "db_plans d' = db_plans d" using seat_step_tables [OF step] by auto
  from seats_limitedE [OF lim] obtain l pl a where l: "license_row d lid = Some l" and pl: "plan_of d l = Some pl"
    and s: "seat_limit lid d = seatLimitSQL l pl" .
  have l': "license_row d' lid = Some l" using l license_row_frame [OF t(1)] by simp
  have wf: "db_wf d" and pos: "0 < seatLimitSQL l pl" using lim s by (auto simp: seats_limited_def)
  have rows: "joined_people lid d = joined_members l d + 1" "joined_people lid d' = joined_members l d' + 1"
    using l l' by (simp_all add: joined_people_def)
  have leD: "no_more d d' \<Longrightarrow> joined_people lid d' \<le> joined_people lid d" using no_more_people l l' by blast
  from step show ?thesis
  proof (cases rule: seat_step_cases)
    case (invite e seat maxSeats r seat')
    from invite(1) have "joined_people lid d' \<le> joined_people lid d"
    proof (cases rule: AddSeat_cases)
      case (restored old)
      have "db_seats d' = db_seats (set_seat (seat_ID old) (restore_seat e seat) d)"
        by (simp add: restored(2) set_seat_seats)
      from one_more_restored(2) [OF wf _ _ _ this, of l] removed_seat_SomeD [OF restored(1)]
      show ?thesis unfolding rows by (auto simp: keeps_person_def restore_seat_def clear_member_key_def joined_members_def)
    next
      case (created new)
      from one_more_created(2) [OF created(1), of l] created(3) invite(2) show ?thesis
        unfolding rows by (auto simp: joined_members_def)
    next
      case (resent existing)
      show ?thesis unfolding resent
        by (rule leD [unfolded resent], rule no_more_rewrite [of "reinvite_seat e seat" d "\<lambda>s. seat_ID s = seat_ID existing"])
          (auto simp: set_seat_seats is_joined_def reinvite_seat_def)
    qed simp
    then show ?thesis ..
  next
    case (accept e token r)
    from Accept_effect [OF this wf] show ?thesis
    proof (elim disjE exE conjE)
      fix lid0 l0 pl0
      assume row0: "license_row d lid0 = Some l0" "plan_of d l0 = Some pl0"
        and others: "\<forall>l. count_where (member_of l) (db_seats d') \<le> count_where (member_of l) (db_seats d) \<and>
             (lic_ID l \<noteq> lid0 \<longrightarrow> count_where (joined_member l) (db_seats d') \<le> count_where (joined_member l) (db_seats d))"
        and up: "joined_members l0 d' \<le> joined_members l0 d + 1"
        and room: "joined_members l0 d' = joined_members l0 d + 1 \<longrightarrow> 0 < seatLimitSQL l0 pl0 \<longrightarrow>
            joined_members l0 d + 1 < seatLimitSQL l0 pl0"
      show ?thesis
      proof (cases "lid0 = lid")
        case True
        then have "l0 = l" "pl0 = pl" using row0 l pl by auto
        then show ?thesis using up room pos s rows seat_limit_frame [OF t] by auto
      next
        case False
        then show ?thesis using others license_row_SomeD [OF l] rows by (auto simp: joined_members_def)
      qed
    qed (use leD in blast)
  qed (use leD in blast)
qed

interpretation seats: bounded_resource "seats_limited lid" "people lid" "seat_limit lid" seat_step for lid
proof unfold_locales
  fix s s' assume inv: "seats_limited lid s" and step: "seat_step s s'"
  have t: "db_licenses s' = db_licenses s" "db_plans s' = db_plans s" using seat_step_tables [OF step] by auto
  show "seat_limit lid s' = seat_limit lid s" by (rule seat_limit_frame [OF t])
  then show "seats_limited lid s'" using inv seat_step_wf [OF step] by (simp add: seats_limited_def)
  show "people lid s' \<le> people lid s \<or> people lid s' \<le> seat_limit lid s'"
    by (rule seat_step_people [OF step inv])
qed

interpretation joined: bounded_resource "seats_limited lid" "joined_people lid" "seat_limit lid" seat_step for lid
proof unfold_locales
  fix s s' assume inv: "seats_limited lid s" and step: "seat_step s s'"
  show "seats_limited lid s'" by (rule seats.step_inv [OF inv step])
  show "seat_limit lid s' = seat_limit lid s" by (rule seats.step_limit [OF inv step])
  show "joined_people lid s' \<le> joined_people lid s \<or> joined_people lid s' \<le> seat_limit lid s'"
    by (rule seat_step_joined [OF step inv])
qed

text \<open>
  C8: the seat limit is never exceeded. Through any sequence of invites, accepts, removals, key
  rotations and rollbacks, whatever limit each caller read before the lock, a licence whose
  people (the owner, pending and joined members) fit its seats stays within them, and so do
  the people who have joined.
\<close>

theorem seat_limit_never_exceeded:
  assumes "seat_step\<^sup>*\<^sup>* d d'" and "db_wf d" and "0 < seat_limit lid d" and "people lid d \<le> seat_limit lid d"
    and "joined_people lid d \<le> seat_limit lid d"
  shows "people lid d' \<le> seat_limit lid d' \<and> joined_people lid d' \<le> seat_limit lid d'"
  using seats.never_exceeded [OF assms(1)] joined.never_exceeded [OF assms(1)] assms(2-5)
  by (simp add: seats_limited_def)

definition demo_invite :: Seat where
  "demo_invite = zero_Seat\<lparr>seat_ID := ''S2'', seat_LicenseID := ''L'', seat_Email := ''n@x'', seat_Role := ''member'',
     seat_InviteTokenHash := ''ht'', seat_InviteExpiresAt := Some 5000\<rparr>"

lemma seat_limit_demo: "seat_limit ''L'' demo_db = 3"
  by (simp add: seat_limit_def lockLicenseLimitsIn_demo)

lemma people_demo: "people ''L'' demo_db = 2" "joined_people ''L'' demo_db = 2"
  by (simp_all add: people_def memberSeatsSQL_def license_row_demo joined_people_def joined_members_def count_where_def
      joined_member_def is_joined_def to_lower_def lower_char_def char_code_def)

theorem seat_limit_never_exceeded_witness:
  "people ''L'' (snd (snd (AddSeatWithinLimit demo_env demo_invite 9 demo_db))) \<le>
   seat_limit ''L'' (snd (snd (AddSeatWithinLimit demo_env demo_invite 9 demo_db)))"
proof -
  let ?r = "AddSeatWithinLimit demo_env demo_invite 9 demo_db"
  have "seat_step demo_db (snd (snd ?r))"
    by (rule seat_step.invite [of demo_env demo_invite 9 demo_db "fst ?r" "fst (snd ?r)"])
      (simp_all add: demo_invite_def zero_Seat_def)
  then have "seat_step\<^sup>*\<^sup>* demo_db (snd (snd ?r))" by blast
  from seat_limit_never_exceeded [OF this db_wf_demo, of "''L''"] show ?thesis
    by (simp add: seat_limit_demo people_demo)
qed

section \<open>Invites and keys\<close>

text \<open>The unique index on invite tokens.\<close>

definition invites_unique :: "db \<Rightarrow> bool" where
  "invites_unique d \<longleftrightarrow> (\<forall>s1 \<in> set (db_seats d). \<forall>s2 \<in> set (db_seats d).
     seat_InviteTokenHash s1 = seat_InviteTokenHash s2 \<longrightarrow> seat_InviteTokenHash s1 \<noteq> '''' \<longrightarrow> s1 = s2)"

text \<open>
  C22: an invite is used once, by the address it was sent to. Accepting a token joins its seat to
  the user of the seat's own address, never one a client names; the token is gone with it, so
  every later attempt with it is refused as invalid and changes nothing.
\<close>

theorem invite_single_use:
  assumes "AcceptSeatInvite e token d = (Inr (user, seat), d')" and "invites_unique d"
    and "env_sha256 e' = env_sha256 e"
  shows "user_Email user = normalizeEmail (seat_Email seat) \<and> seat_UserID seat = user_ID user \<and>
         is_joined seat \<and> seat \<in> set (db_seats d') \<and>
         AcceptSeatInvite e' token d' = (Inl ErrSeatInviteInvalid, d')"
  using assms(1)
proof (cases rule: AcceptSeatInvite_cases)
  case (accepted old l pl)
  let ?f = "accept_seat e (fst (claim_user e old d))"
  have seat: "seat = ?f old" "user = fst (claim_user e old d)" using accepted(8) by simp_all
  have rows: "db_seats d' = update_where (\<lambda>s. seat_ID s = seat_ID old) ?f (db_seats d)"
    by (simp add: accepted(9) set_seat_seats)
  have "\<forall>s \<in> set (db_seats d'). \<not> (seat_InviteTokenHash s \<noteq> '''' \<and> seat_InviteTokenHash s = HashSeatInviteToken e token)"
    unfolding rows ball_update_where
    using assms(2) accepted(1,2) by (auto simp: accept_seat_def invites_unique_def)
  then have "select_one (\<lambda>s. seat_InviteTokenHash s \<noteq> '''' \<and> seat_InviteTokenHash s = HashSeatInviteToken e token)
      (db_seats d') = None" by (simp add: select_one_None_iff)
  moreover have "HashSeatInviteToken e' token = HashSeatInviteToken e token"
    using assms(3) by (simp add: HashSeatInviteToken_def)
  moreover have "\<not> db_fault d'" using accepted(12) accepted(9) by (simp add: claim_user_def Let_def split: option.splits)
  ultimately have "AcceptSeatInvite e' token d' = (Inl ErrSeatInviteInvalid, d')"
    using accepted(11) by (simp add: AcceptSeatInvite_def Let_def)
  moreover have "seat \<in> set (db_seats d')" unfolding rows seat set_update_where using accepted(1) by force
  moreover have "user_Email user = normalizeEmail (seat_Email seat)"
    unfolding seat
    by (auto simp: claim_user_def Let_def accept_seat_def clear_member_key_def dest: select_one_SomeD split: option.splits)
  ultimately show ?thesis
    using accepted(3) seat by (simp add: accept_seat_def clear_member_key_def is_joined_def)
qed simp

lemma HashSeatInviteToken_demo: "HashSeatInviteToken demo_env ''t'' = ''ht''"
  by (simp add: HashSeatInviteToken_def demo_env_def)

lemma accept_demo:
  "\<exists>user seat d'. AcceptSeatInvite demo_env ''t'' (demo_db\<lparr>db_seats := [demo_seat, demo_invite]\<rparr>) = (Inr (user, seat), d')"
proof -
  let ?d = "demo_db\<lparr>db_seats := [demo_seat, demo_invite]\<rparr>"
  have i: "seat_InviteTokenHash demo_seat = ''''" "seat_InviteTokenHash demo_invite = ''ht''"
    "seat_LicenseID demo_invite = ''L''" "seat_RemovedAt demo_invite = None" "seat_AcceptedAt demo_invite = None"
    "seat_InviteExpiresAt demo_invite = Some 5000" "seat_Email demo_invite = ''n@x''" "env_now demo_env = 1000"
    by (simp_all add: demo_seat_def demo_invite_def zero_Seat_def demo_env_def)
  have l: "license_row ?d ''L'' = Some demo_license" "plan_of ?d demo_license = Some demo_plan"
    by (simp_all add: row_read_defs)
  have lim: "seatLimitSQL demo_license demo_plan = 3"
    by (simp add: seatLimitSQL_def demo_plan_def zero_Plan_def)
  have n: "joined_members demo_license ?d = 1"
    by (simp add: joined_members_def count_where_def joined_member_def is_joined_def i to_lower_def lower_char_def char_code_def)
  show ?thesis
    by (simp add: AcceptSeatInvite_def Let_def select_one_def HashSeatInviteToken_demo i l lim n split_beta)
qed

theorem invite_single_use_witness:
  "\<exists>user seat d'. AcceptSeatInvite demo_env ''t'' (demo_db\<lparr>db_seats := [demo_seat, demo_invite]\<rparr>) = (Inr (user, seat), d') \<and>
     AcceptSeatInvite demo_env ''t'' d' = (Inl ErrSeatInviteInvalid, d')"
proof -
  let ?d = "demo_db\<lparr>db_seats := [demo_seat, demo_invite]\<rparr>"
  obtain user seat d' where r: "AcceptSeatInvite demo_env ''t'' ?d = (Inr (user, seat), d')" using accept_demo by blast
  have "invites_unique ?d" by (auto simp: invites_unique_def demo_seat_def demo_invite_def zero_Seat_def)
  from invite_single_use [OF r this refl] r show ?thesis by blast
qed

text \<open>
  Rotating a member's key. The new key is the one stored, every key that hashes differently
  (the old one with it) no longer opens the licence through the seat, the devices and sessions
  of the old key are gone, and no other seat, device or session is touched.
\<close>

theorem rotate_member_key:
  assumes "RotateMemberKey e sid d = (Inr (key, devs), d')" and "sid \<noteq> ''''"
  shows "(\<forall>s \<in> set (db_seats d'). seat_ID s = sid \<longrightarrow> seat_MemberKeyHash s = HashKey (env_sha256 e) key) \<and>
         (\<forall>key' lid e'. HashKey (env_sha256 e') key' \<noteq> HashKey (env_sha256 e) key \<longrightarrow> \<not> keyHeldIn e' lid sid key' d') \<and>
         db_activations d' = filter (\<lambda>a. act_SeatID a \<noteq> sid) (db_activations d) \<and>
         db_floating d' = filter (\<lambda>f. fs_SeatID f \<noteq> sid) (db_floating d) \<and>
         filter (\<lambda>s. seat_ID s \<noteq> sid) (db_seats d') = filter (\<lambda>s. seat_ID s \<noteq> sid) (db_seats d)"
proof -
  from assms(1) obtain ct where d': "d' = drop_seat_slots sid (set_seat sid (set_member_key e key ct) d)"
    by (auto simp: RotateMemberKey_def Let_def split: if_splits option.splits sum.splits)
  have hash: "\<forall>s \<in> set (db_seats d'). seat_ID s = sid \<longrightarrow> seat_MemberKeyHash s = HashKey (env_sha256 e) key"
    by (simp add: d' set_seat_seats ball_update_where set_member_key_def)
  then have "\<not> keyHeldIn e' lid sid key' d'" if "HashKey (env_sha256 e') key' \<noteq> HashKey (env_sha256 e) key" for e' lid key'
    using that assms(2) by (auto elim!: keyHeldIn_memberE)
  moreover have "db_activations d' = filter (\<lambda>a. act_SeatID a \<noteq> sid) (db_activations d)"
    "db_floating d' = filter (\<lambda>f. fs_SeatID f \<noteq> sid) (db_floating d)"
    unfolding d' drop_seat_slots_def delete_where_def using assms(2) by (auto intro!: filter_cong)
  moreover have "filter (\<lambda>s. seat_ID s \<noteq> sid) (update_where (\<lambda>s. seat_ID s = sid) (set_member_key e key ct) rows) =
      filter (\<lambda>s. seat_ID s \<noteq> sid) rows" for rows
    by (induction rows) (auto simp: update_where_def set_member_key_def)
  then have "filter (\<lambda>s. seat_ID s \<noteq> sid) (db_seats d') = filter (\<lambda>s. seat_ID s \<noteq> sid) (db_seats d)"
    by (simp add: d' set_seat_seats)
  ultimately show ?thesis using hash by blast
qed

theorem rotate_member_key_witness:
  "\<exists>key d'. RotateMemberKey demo_env ''S'' (demo_db\<lparr>db_activations := [demo_member_device]\<rparr>) = (Inr (key, [demo_member_device]), d') \<and>
     db_activations d' = []"
proof -
  let ?d = "demo_db\<lparr>db_activations := [demo_member_device]\<rparr>"
  have "license_prefix ''L'' ?d = Inr ''KG''"
    by (simp add: license_prefix_def row_read_defs) (simp add: demo_product_def)
  then obtain key d' where r: "RotateMemberKey demo_env ''S'' ?d = (Inr (key, [demo_member_device]), d')"
    by (simp add: RotateMemberKey_def Let_def select_one_def encrypt_key_def demo_env_def seat_devices_def
        demo_member_device_def zero_Activation_def)
  from rotate_member_key [OF r] r show ?thesis by (auto simp: demo_member_device_def zero_Activation_def)
qed

end
