(* ===== verification/KG_Pause.thy ===== *)
theory KG_Pause
  imports KG_Seats "HOL-Library.Multiset"
begin

text \<open>
  Members beyond the seat limit, \<^verbatim>\<open>internal/store/member_keys.go\<close>: the list of paused seats
  of a licence, ranked in one pass, against the rule that counts the earlier members of each
  seat; and how many people may use the licence at a time.
\<close>

section \<open>Operations\<close>

text \<open>
  \<^verbatim>\<open>row_number() OVER (ORDER BY s.accepted_at, s.id)\<close> numbers the joined members from 1. The
  Go map from seat ID to true is the list of the IDs.
\<close>

definition ranked_members :: "License \<Rightarrow> db \<Rightarrow> Seat list" where
  "ranked_members l d = sort_key join_order (filter (joined_member l) (db_seats d))"

definition PausedSeats :: "string \<Rightarrow> db \<Rightarrow> string list result" where
  "PausedSeats licenseID d =
     (if db_fault d then Inl ErrDB
      else case license_row d licenseID of
        None \<Rightarrow> Inr []
      | Some l \<Rightarrow>
          (case plan_of d l of
             None \<Rightarrow> Inr []
           | Some pl \<Rightarrow>
               Inr (map (\<lambda>(n, s). seat_ID s)
                 (filter (\<lambda>(n, s). seatLimitSQL l pl > 0 \<and> int n \<ge> seatLimitSQL l pl)
                   (List.enumerate 1 (ranked_members l d))))))"

definition MarkPausedSeats :: "string \<Rightarrow> Seat list \<Rightarrow> db \<Rightarrow> Seat list result" where
  "MarkPausedSeats licenseID seats d =
     (if seats = [] then Inr []
      else case PausedSeats licenseID d of
        Inl err \<Rightarrow> Inl err
      | Inr paused \<Rightarrow> Inr (map (\<lambda>s. s\<lparr>seat_Paused := seat_ID s \<in> set paused\<rparr>) seats))"

section \<open>Ranks\<close>

text \<open>The position of an element in the sorted list is the number of smaller ones.\<close>

lemma count_where_sort: "count_where P (sort_key k xs) = count_where P xs"
proof -
  have "mset (filter P (sort_key k xs)) = mset (filter P xs)" by (simp add: mset_filter)
  then show ?thesis unfolding count_where_def by (metis size_mset)
qed

lemma strictly_sorted_keys:
  assumes "distinct (map k xs)"
  shows "sorted_wrt (<) (map k (sort_key k xs))"
proof -
  have "mset (map k (sort_key k xs)) = mset (map k xs)" by simp
  then have "distinct (map k (sort_key k xs))" using assms by (metis distinct_count_atmost_1 set_mset_mset)
  then show ?thesis by (simp add: strict_sorted_iff)
qed

lemma rank_is_count:
  assumes "distinct (map k xs)" "i < length xs"
  shows "count_where (\<lambda>x. k x < k (sort_key k xs ! i)) xs = int i"
proof -
  let ?ys = "sort_key k xs"
  have st: "sorted_wrt (<) (map k ?ys)" by (rule strictly_sorted_keys [OF assms(1)])
  have len: "length ?ys = length xs" by simp
  have less: "k (?ys ! j) < k (?ys ! i) \<longleftrightarrow> j < i" if "j < length xs" for j
  proof
    assume "j < i"
    then show "k (?ys ! j) < k (?ys ! i)" using st assms(2) len
      by (auto simp: sorted_wrt_iff_nth_less)
  next
    assume lt: "k (?ys ! j) < k (?ys ! i)"
    have "\<not> i < j"
    proof
      assume "i < j"
      then have "k (?ys ! i) < k (?ys ! j)" using st that len by (auto simp: sorted_wrt_iff_nth_less)
      with lt show False by simp
    qed
    moreover have "j \<noteq> i" using lt by auto
    ultimately show "j < i" by simp
  qed
  have "count_where (\<lambda>x. k x < k (?ys ! i)) xs = count_where (\<lambda>x. k x < k (?ys ! i)) ?ys"
    by (simp add: count_where_sort)
  also have "\<dots> = int (card {j. j < length xs \<and> k (?ys ! j) < k (?ys ! i)})"
    unfolding count_where_def length_filter_conv_card by simp
  also have "{j. j < length xs \<and> k (?ys ! j) < k (?ys ! i)} = {..<i}"
    using less assms(2) by auto
  finally show ?thesis by simp
qed

lemma distinct_join_order:
  "db_wf d \<Longrightarrow> distinct (map join_order (filter (joined_member l) (db_seats d)))"
proof -
  assume "db_wf d"
  then have d: "distinct (map seat_ID (filter (joined_member l) (db_seats d)))"
    by (simp add: db_wf_def distinct_map_filter)
  have "seat_ID = jk_id \<circ> join_order" by (simp add: fun_eq_iff join_order_def)
  with d have "distinct (map jk_id (map join_order (filter (joined_member l) (db_seats d))))" by simp
  then show ?thesis by (simp only: distinct_map [of jk_id])
qed

text \<open>For a joined member the rule of \<open>seatPausedSQL\<close> counts the joined members before them.\<close>

lemma seatPausedSQL_member:
  assumes "joined_member l s"
  shows "seatPausedSQL d l pl s \<longleftrightarrow> seatLimitSQL l pl > 0 \<and>
    count_where (\<lambda>o'. join_order o' < join_order s) (filter (joined_member l) (db_seats d)) \<ge> seatLimitSQL l pl - 1"
proof -
  have "count_where (\<lambda>o'. seat_LicenseID o' = seat_LicenseID s \<and> seat_RemovedAt o' = None \<and>
         seat_AcceptedAt o' \<noteq> None \<and> to_lower (seat_Email o') \<noteq> to_lower (lic_Email l) \<and>
         join_order o' < join_order s) rows =
      count_where (\<lambda>o'. join_order o' < join_order s) (filter (joined_member l) rows)" for rows
    using assms by (induction rows) (auto simp: count_where_Cons joined_member_def is_joined_def)
  then show ?thesis using assms by (simp add: seatPausedSQL_def joined_member_def)
qed

lemma paused_by_rank:
  assumes "db_wf d" "i < length (ranked_members l d)"
  shows "joined_member l (ranked_members l d ! i) \<and> ranked_members l d ! i \<in> set (db_seats d)"
    and "seatPausedSQL d l pl (ranked_members l d ! i) \<longleftrightarrow> seatLimitSQL l pl > 0 \<and> int i + 1 \<ge> seatLimitSQL l pl"
proof -
  let ?ms = "filter (joined_member l) (db_seats d)" and ?s = "ranked_members l d ! i"
  have "?s \<in> set (ranked_members l d)" using assms(2) by simp
  then show m: "joined_member l ?s \<and> ?s \<in> set (db_seats d)" by (simp add: ranked_members_def)
  have "count_where (\<lambda>o'. join_order o' < join_order ?s) ?ms = int i"
    using rank_is_count [OF distinct_join_order [OF assms(1), of l], of i] assms(2) by (simp add: ranked_members_def)
  with m show "seatPausedSQL d l pl ?s \<longleftrightarrow> seatLimitSQL l pl > 0 \<and> int i + 1 \<ge> seatLimitSQL l pl"
    by (auto simp: seatPausedSQL_member)
qed

lemma PausedSeats_ids:
  assumes "\<not> db_fault d" "license_row d lid = Some l" "plan_of d l = Some pl"
  shows "PausedSeats lid d = Inr ids \<longleftrightarrow>
    ids = map (\<lambda>i. seat_ID (ranked_members l d ! i))
      (filter (\<lambda>i. seatLimitSQL l pl > 0 \<and> int i + 1 \<ge> seatLimitSQL l pl) [0..<length (ranked_members l d)])"
proof -
  have "map (\<lambda>(n, s). seat_ID s) (filter (\<lambda>(n, s). P (int n)) (List.enumerate 1 xs)) =
        map (\<lambda>i. seat_ID (xs ! i)) (filter (\<lambda>i. P (int i + 1)) [0..<length xs])" for P xs
  proof (induction xs rule: rev_induct)
    case (snoc x xs)
    then show ?case by (auto simp: enumerate_append_eq nth_append add.commute)
  qed simp
  from this [of "\<lambda>n. seatLimitSQL l pl > 0 \<and> n \<ge> seatLimitSQL l pl" "ranked_members l d"] assms show ?thesis
    by (auto simp: PausedSeats_def)
qed

section \<open>Properties\<close>

text \<open>
  The two rules for a paused member agree. For every joined seat of a licence, the seat's ID
  is in the list \<open>PausedSeats\<close> ranks in one pass exactly when \<open>SeatPaused\<close>, which counts the
  members who joined before, answers true; the lock check \<open>keyHeldIn\<close> uses the same rule.
\<close>

theorem paused_list_agrees:
  assumes "db_wf d" "\<not> db_fault d" "license_row d lid = Some l" "plan_of d l = Some pl"
    and "PausedSeats lid d = Inr ids" and "s \<in> set (db_seats d)" "seat_LicenseID s = lid" "is_joined s"
  shows "SeatPaused (seat_ID s) d = Inr (seat_ID s \<in> set ids)"
proof -
  have lid: "lic_ID l = lid" using license_row_SomeD [OF assms(3)] by simp
  have dist: "distinct (map seat_ID (db_seats d))" using assms(1) by (simp add: db_wf_def)
  have "select_one (\<lambda>s'. seat_ID s' = seat_ID s \<and> seat_RemovedAt s' = None \<and> seat_AcceptedAt s' \<noteq> None) (db_seats d) = Some s"
    using assms(8) by (intro select_one_by_key [OF dist assms(6)]) (auto simp: is_joined_def)
  then have paused: "SeatPaused (seat_ID s) d = Inr (seatPausedSQL d l pl s)"
    using assms(2,3,4,7) by (simp add: SeatPaused_def)
  have ids: "ids = map (\<lambda>i. seat_ID (ranked_members l d ! i))
      (filter (\<lambda>i. seatLimitSQL l pl > 0 \<and> int i + 1 \<ge> seatLimitSQL l pl) [0..<length (ranked_members l d)])"
    using assms(5) PausedSeats_ids [OF assms(2-4)] by simp
  have "seat_ID s \<in> set ids \<longleftrightarrow> seatPausedSQL d l pl s"
  proof
    assume "seat_ID s \<in> set ids"
    then obtain i where i: "i < length (ranked_members l d)" "seat_ID s = seat_ID (ranked_members l d ! i)"
      "seatLimitSQL l pl > 0" "int i + 1 \<ge> seatLimitSQL l pl" unfolding ids by auto
    then have "s = ranked_members l d ! i"
      using unique_column [OF dist assms(6)] paused_by_rank(1) [OF assms(1) i(1)] by blast
    then show "seatPausedSQL d l pl s" using paused_by_rank(2) [OF assms(1) i(1)] i(3,4) by simp
  next
    assume p: "seatPausedSQL d l pl s"
    then have "joined_member l s" using assms(7,8) lid by (simp add: joined_member_def seatPausedSQL_def)
    then have "s \<in> set (ranked_members l d)" using assms(6) by (simp add: ranked_members_def)
    then obtain i where i: "i < length (ranked_members l d)" "s = ranked_members l d ! i" by (metis in_set_conv_nth)
    with p paused_by_rank(2) [OF assms(1) i(1)] have "seatLimitSQL l pl > 0 \<and> int i + 1 \<ge> seatLimitSQL l pl" by simp
    then show "seat_ID s \<in> set ids" unfolding ids using i by auto
  qed
  with paused show ?thesis by simp
qed

theorem paused_list_agrees_witness:
  "\<exists>ids. PausedSeats ''L'' demo_db = Inr ids \<and> SeatPaused ''S'' demo_db = Inr (''S'' \<in> set ids)"
proof -
  obtain ids where "PausedSeats ''L'' demo_db = Inr ids" by (simp add: PausedSeats_def license_row_demo plan_of_demo)
  with paused_list_agrees [OF db_wf_demo _ license_row_demo plan_of_demo this, of demo_seat] show ?thesis
    by (simp add: is_joined_def)
qed

lemma count_unpaused:
  assumes "db_wf d" "0 < seatLimitSQL l pl"
  shows "count_where (\<lambda>s. joined_member l s \<and> \<not> seatPausedSQL d l pl s) (db_seats d) =
         min (joined_members l d) (seatLimitSQL l pl - 1)"
proof -
  let ?ys = "ranked_members l d" and ?P = "\<lambda>s. \<not> seatPausedSQL d l pl s"
  have "count_where (\<lambda>s. joined_member l s \<and> ?P s) rows = count_where ?P (filter (joined_member l) rows)" for rows
    by (induction rows) (auto simp: count_where_Cons)
  then have "count_where (\<lambda>s. joined_member l s \<and> ?P s) (db_seats d) = count_where ?P ?ys"
    by (simp add: ranked_members_def count_where_sort)
  also have "\<dots> = int (card {i. i < length ?ys \<and> ?P (?ys ! i)})"
    by (simp add: count_where_def length_filter_conv_card)
  also have "{i. i < length ?ys \<and> ?P (?ys ! i)} = {..<min (length ?ys) (nat (seatLimitSQL l pl - 1))}"
    using paused_by_rank(2) [OF assms(1), of _ l pl] assms(2) by auto
  also have "int (card \<dots>) = min (int (length ?ys)) (seatLimitSQL l pl - 1)" using assms(2) by simp
  also have "int (length ?ys) = joined_members l d"
    by (simp add: ranked_members_def joined_members_def count_where_def)
  finally show ?thesis .
qed

text \<open>
  A seat limit is a limit. On a licence with a limit of \<open>n\<close> seats the members who may use
  it are exactly the first \<open>n - 1\<close> to have joined, or all when there are fewer; with the owner
  never more than \<open>n\<close> people, however the limit was lowered.
\<close>

theorem unpaused_within_limit:
  assumes "db_wf d" "lockLicenseLimitsIn lid d = Some (n, a)" "0 < n"
  shows "\<exists>l pl. license_row d lid = Some l \<and> plan_of d l = Some pl \<and>
         count_where (\<lambda>s. joined_member l s \<and> \<not> seatPausedSQL d l pl s) (db_seats d) = min (joined_members l d) (n - 1) \<and>
         (\<forall>s \<in> set (db_seats d). \<forall>s' \<in> set (db_seats d). joined_member l s \<longrightarrow> joined_member l s' \<longrightarrow>
            join_order s \<le> join_order s' \<longrightarrow> seatPausedSQL d l pl s \<longrightarrow> seatPausedSQL d l pl s')"
proof -
  from lockLicenseLimitsIn_SomeD [OF assms(2)] obtain l pl where
    l: "license_row d lid = Some l" "plan_of d l = Some pl" "n = seatLimitSQL l pl" .
  have "seatPausedSQL d l pl s'" if "joined_member l s" "joined_member l s'" "join_order s \<le> join_order s'" "seatPausedSQL d l pl s" for s s'
  proof -
    have "count_where (\<lambda>o'. join_order o' < join_order s) rows \<le> count_where (\<lambda>o'. join_order o' < join_order s') rows" for rows
      using that(3) by (intro count_where_mono) (auto intro: less_le_trans)
    with that show ?thesis by (auto simp: seatPausedSQL_member intro: order_trans)
  qed
  with l count_unpaused [OF assms(1), of l pl] assms(3) show ?thesis by blast
qed

theorem unpaused_within_limit_witness:
  "\<exists>l pl. license_row demo_db ''L'' = Some l \<and>
     count_where (\<lambda>s. joined_member l s \<and> \<not> seatPausedSQL demo_db l pl s) (db_seats demo_db) = min (joined_members l demo_db) 2"
  using unpaused_within_limit [OF db_wf_demo lockLicenseLimitsIn_demo] by auto

text \<open>
  Within the limit nobody is paused: no member of a licence whose joined people fit its
  seats waits for a place.
\<close>

theorem within_limit_nobody_paused:
  assumes "db_wf d" "\<not> db_fault d" "joined_people lid d \<le> seat_limit lid d"
  shows "PausedSeats lid d = Inr []"
proof (cases "license_row d lid")
  case None
  with assms show ?thesis by (simp add: PausedSeats_def)
next
  case (Some l)
  show ?thesis
  proof (cases "plan_of d l")
    case None
    with Some assms show ?thesis by (simp add: PausedSeats_def)
  next
    case pl: (Some pl)
    have "seat_limit lid d = seatLimitSQL l pl"
      using Some pl fst_plan_limits [of pl l] by (simp add: seat_limit_def lockLicenseLimitsIn_def split_beta)
    moreover have "joined_people lid d = int (length (ranked_members l d)) + 1"
      using Some by (simp add: joined_people_def joined_members_def count_where_def ranked_members_def)
    ultimately show ?thesis
      using assms(3) PausedSeats_ids [OF assms(2) Some pl, of "[]"] by (auto simp: filter_empty_conv)
  qed
qed

theorem within_limit_nobody_paused_witness: "PausedSeats ''L'' demo_db = Inr []"
  using within_limit_nobody_paused [OF db_wf_demo, of "''L''"] by (simp add: people_demo seat_limit_demo)

end
