(* ===== verification/KG_Floating.thy ===== *)
theory KG_Floating
  imports KG_Seats
begin

text \<open>
  Floating sessions, \<^verbatim>\<open>internal/store/floating.go\<close>: leases on a licence that run out unless
  renewed, at most as many at a time as the licence allows. The database's \<^verbatim>\<open>now()\<close> is
  \<open>env_dbnow\<close>; in Postgres it is the time the transaction began, which matters below.
\<close>

section \<open>Operations\<close>

definition endFloatingSessionsIfStoppedIn :: "string \<Rightarrow> string \<Rightarrow> db \<Rightarrow> unit result \<times> db" where
  "endFloatingSessionsIfStoppedIn licenseID status d =
     (if status \<notin> set stoppedStatuses then (Inr (), d)
      else if db_fault d then (Inl ErrDB, d)
      else (Inr (), d\<lparr>db_floating := delete_where (\<lambda>f. fs_LicenseID f = licenseID) (db_floating d)\<rparr>))"

definition session_row :: "env \<Rightarrow> FloatingSession \<Rightarrow> FloatingSession" where
  "session_row e f = f
     \<lparr>fs_CheckedOut := (if fs_CheckedOut f = time_zero then env_dbnow e else fs_CheckedOut f),
      fs_Heartbeat := (if fs_Heartbeat f = time_zero then env_dbnow e else fs_Heartbeat f)\<rparr>"

text \<open>
  The upsert on \<^verbatim>\<open>(license_id, identifier)\<close>: a row of the machine starts again as the new
  holder's, else a row is inserted, refused when its primary key, licence or seat is wrong. The
  row's ID is read back.
\<close>

definition upsert_session :: "env \<Rightarrow> FloatingSession \<Rightarrow> db \<Rightarrow> (string \<times> db) result" where
  "upsert_session e sess d =
     (case select_one (\<lambda>f. fs_LicenseID f = fs_LicenseID sess \<and> fs_Identifier f = fs_Identifier sess) (db_floating d) of
        Some row \<Rightarrow>
          Inr (fs_ID row, d\<lparr>db_floating := update_where
            (\<lambda>f. fs_LicenseID f = fs_LicenseID sess \<and> fs_Identifier f = fs_Identifier sess)
            (\<lambda>f. f\<lparr>fs_Heartbeat := env_dbnow e, fs_ExpiresAt := fs_ExpiresAt sess, fs_IPAddress := fs_IPAddress sess,
                   fs_Label := fs_Label sess, fs_SeatID := fs_SeatID sess\<rparr>) (db_floating d)\<rparr>)
      | None \<Rightarrow>
          if exists_where (\<lambda>f. fs_ID f = fs_ID sess) (db_floating d) \<or> license_row d (fs_LicenseID sess) = None \<or>
             (fs_SeatID sess \<noteq> '''' \<and> \<not> exists_where (\<lambda>s. seat_ID s = fs_SeatID sess) (db_seats d))
          then Inl ErrDB
          else Inr (fs_ID sess, d\<lparr>db_floating := db_floating d @ [session_row e sess]\<rparr>))"

definition checkOutFloating ::
  "env \<Rightarrow> FloatingSession \<Rightarrow> int \<Rightarrow> string \<Rightarrow> db \<Rightarrow> bool result \<times> FloatingSession \<times> db" where
  "checkOutFloating e sess maxSessions key d =
     (let sess = (if fs_ID sess = '''' then sess\<lparr>fs_ID := env_newID e 0\<rparr> else sess) in
      if db_fault d then (Inl ErrDB, sess, d)
      else
        let maxSessions = (case lockLicenseLimitsIn (fs_LicenseID sess) d of
              None \<Rightarrow> maxSessions | Some (_, held) \<Rightarrow> min maxSessions held) in
        if key \<noteq> '''' \<and> \<not> keyHeldIn e (fs_LicenseID sess) (fs_SeatID sess) key d
        then (Inl ErrKeyRevoked, sess, d)
        else case select_one (\<lambda>f. fs_LicenseID f = fs_LicenseID sess \<and> fs_Identifier f = fs_Identifier sess \<and>
                   fs_ExpiresAt f > env_dbnow e) (db_floating d) of
          Some existing \<Rightarrow>
            if key \<noteq> '''' \<and> fs_SeatID sess \<noteq> '''' \<and> fs_SeatID existing \<noteq> fs_SeatID sess
            then (Inl ErrSessionHeld, sess, d)
            else (Inr False, sess\<lparr>fs_SeatID := fs_SeatID existing, fs_ID := fs_ID existing\<rparr>,
                  d\<lparr>db_floating := update_where (\<lambda>f. fs_ID f = fs_ID existing)
                     (\<lambda>f. f\<lparr>fs_Heartbeat := env_dbnow e, fs_ExpiresAt := fs_ExpiresAt sess,
                            fs_IPAddress := fs_IPAddress sess, fs_Label := fs_Label sess\<rparr>) (db_floating d)\<rparr>)
        | None \<Rightarrow>
            if count_where (\<lambda>f. fs_LicenseID f = fs_LicenseID sess \<and> fs_ExpiresAt f > env_dbnow e) (db_floating d) \<ge> maxSessions
            then (Inl ErrFloatingLimitReached, sess, d)
            else case upsert_session e sess d of
              Inl err \<Rightarrow> (Inl err, sess, d)
            | Inr (sid, d') \<Rightarrow> (Inr True, sess\<lparr>fs_ID := sid\<rparr>, d'))"

definition CheckOutFloatingWithLimit ::
  "env \<Rightarrow> FloatingSession \<Rightarrow> int \<Rightarrow> db \<Rightarrow> bool result \<times> FloatingSession \<times> db" where
  "CheckOutFloatingWithLimit e sess maxSessions d = checkOutFloating e sess maxSessions '''' d"

definition CheckOutFloatingForKey ::
  "env \<Rightarrow> FloatingSession \<Rightarrow> int \<Rightarrow> string \<Rightarrow> db \<Rightarrow> bool result \<times> FloatingSession \<times> db" where
  "CheckOutFloatingForKey e sess maxSessions key d = checkOutFloating e sess maxSessions key d"

definition CheckInFloating :: "string \<Rightarrow> string \<Rightarrow> string \<Rightarrow> db \<Rightarrow> unit result \<times> db" where
  "CheckInFloating licenseID identifier seatID d =
     (if db_fault d then (Inl ErrDB, d)
      else (Inr (), d\<lparr>db_floating := delete_where
        (\<lambda>f. fs_LicenseID f = licenseID \<and> fs_Identifier f = identifier \<and> (seatID \<noteq> '''' \<longrightarrow> fs_SeatID f = seatID))
        (db_floating d)\<rparr>))"

definition HeartbeatFloating ::
  "env \<Rightarrow> string \<Rightarrow> string \<Rightarrow> string \<Rightarrow> time \<Rightarrow> db \<Rightarrow> bool result \<times> db" where
  "HeartbeatFloating e licenseID identifier seatID newExpiry d =
     (let running = (\<lambda>f. fs_LicenseID f = licenseID \<and> fs_Identifier f = identifier \<and>
                      fs_ExpiresAt f > env_dbnow e \<and> (seatID \<noteq> '''' \<longrightarrow> fs_SeatID f = seatID)) in
      if db_fault d then (Inl ErrDB, d)
      else (Inr (count_where running (db_floating d) > 0),
            d\<lparr>db_floating := update_where running
               (\<lambda>f. f\<lparr>fs_Heartbeat := env_dbnow e, fs_ExpiresAt := newExpiry\<rparr>) (db_floating d)\<rparr>))"

definition CountActiveFloating :: "env \<Rightarrow> string \<Rightarrow> db \<Rightarrow> int result" where
  "CountActiveFloating e licenseID d =
     (if db_fault d then Inl ErrDB
      else Inr (count_where (\<lambda>f. fs_LicenseID f = licenseID \<and> fs_ExpiresAt f > env_dbnow e) (db_floating d)))"

definition FindFloatingSession :: "env \<Rightarrow> string \<Rightarrow> string \<Rightarrow> db \<Rightarrow> FloatingSession result" where
  "FindFloatingSession e licenseID identifier d =
     (if db_fault d then Inl ErrDB
      else case select_one (\<lambda>f. fs_LicenseID f = licenseID \<and> fs_Identifier f = identifier \<and> fs_ExpiresAt f > env_dbnow e)
                  (db_floating d) of None \<Rightarrow> Inl ErrNoRows | Some f \<Rightarrow> Inr f)"

definition CleanExpiredFloating :: "env \<Rightarrow> db \<Rightarrow> int result \<times> db" where
  "CleanExpiredFloating e d =
     (let gone = (\<lambda>f. fs_ExpiresAt f \<le> env_dbnow e \<or>
           exists_where (\<lambda>l. lic_ID l = fs_LicenseID f \<and> lic_Status l \<in> set stoppedStatuses) (db_licenses d)) in
      if db_fault d then (Inl ErrDB, d)
      else (Inr (count_where gone (db_floating d)), d\<lparr>db_floating := delete_where gone (db_floating d)\<rparr>))"

section \<open>Sessions at a time\<close>

abbreviation sessions :: "string \<Rightarrow> time \<Rightarrow> db \<Rightarrow> int" where
  "sessions lid t d \<equiv> count_where (\<lambda>f. fs_LicenseID f = lid \<and> fs_ExpiresAt f > t) (db_floating d)"

lemma checkOutFloating_cases:
  assumes "checkOutFloating e sess maxS key d = (r, sess', d')"
  obtains (unchanged) "d' = d"
    | (renewed) existing where "r = Inr False" "existing \<in> set (db_floating d)" "fs_ExpiresAt existing > env_dbnow e"
        "fs_LicenseID existing = fs_LicenseID sess" "fs_Identifier existing = fs_Identifier sess"
        "d' = d\<lparr>db_floating := update_where (\<lambda>f. fs_ID f = fs_ID existing)
           (\<lambda>f. f\<lparr>fs_Heartbeat := env_dbnow e, fs_ExpiresAt := fs_ExpiresAt sess,
                  fs_IPAddress := fs_IPAddress sess, fs_Label := fs_Label sess\<rparr>) (db_floating d)\<rparr>"
        "key \<noteq> '''' \<and> fs_SeatID sess \<noteq> '''' \<longrightarrow> fs_SeatID existing = fs_SeatID sess"
        "key \<noteq> '''' \<longrightarrow> keyHeldIn e (fs_LicenseID sess) (fs_SeatID sess) key d"
    | (taken) sess1 sid where "r = Inr True" "upsert_session e sess1 d = Inr (sid, d')"
        "fs_LicenseID sess1 = fs_LicenseID sess" "fs_Identifier sess1 = fs_Identifier sess" "fs_SeatID sess1 = fs_SeatID sess"
        "fs_ExpiresAt sess1 = fs_ExpiresAt sess"
        "\<not> (\<exists>f \<in> set (db_floating d). fs_LicenseID f = fs_LicenseID sess \<and> fs_Identifier f = fs_Identifier sess \<and> fs_ExpiresAt f > env_dbnow e)"
        "sessions (fs_LicenseID sess) (env_dbnow e) d < maxS"
        "\<forall>s a. lockLicenseLimitsIn (fs_LicenseID sess) d = Some (s, a) \<longrightarrow> sessions (fs_LicenseID sess) (env_dbnow e) d < a"
        "key \<noteq> '''' \<longrightarrow> keyHeldIn e (fs_LicenseID sess) (fs_SeatID sess) key d"
proof (cases "d' = d")
  case False
  let ?sess = "if fs_ID sess = '''' then sess\<lparr>fs_ID := env_newID e 0\<rparr> else sess"
  have new: "fs_LicenseID ?sess = fs_LicenseID sess" "fs_Identifier ?sess = fs_Identifier sess"
    "fs_SeatID ?sess = fs_SeatID sess" "fs_ExpiresAt ?sess = fs_ExpiresAt sess"
    "fs_IPAddress ?sess = fs_IPAddress sess" "fs_Label ?sess = fs_Label sess" by auto
  note A = assms [unfolded checkOutFloating_def Let_def new]
  let ?live = "\<lambda>f. fs_LicenseID f = fs_LicenseID sess \<and> fs_Identifier f = fs_Identifier sess \<and> fs_ExpiresAt f > env_dbnow e"
  have held: "key \<noteq> '''' \<longrightarrow> keyHeldIn e (fs_LicenseID sess) (fs_SeatID sess) key d"
    using A False by (auto split: if_splits)
  show ?thesis
  proof (cases "select_one ?live (db_floating d)")
    case (Some existing)
    with A False held select_one_SomeD [OF Some] show ?thesis by (intro renewed [of existing]) (auto split: if_splits)
  next
    case None
    have none: "\<not> (\<exists>f \<in> set (db_floating d). ?live f)" using None by (auto simp: select_one_None_iff)
    from A None False held obtain sid where "upsert_session e ?sess d = Inr (sid, d')" "r = Inr True"
      by (auto split: if_splits sum.splits)
    moreover have "sessions (fs_LicenseID sess) (env_dbnow e) d < maxS"
      "\<forall>s a. lockLicenseLimitsIn (fs_LicenseID sess) d = Some (s, a) \<longrightarrow> sessions (fs_LicenseID sess) (env_dbnow e) d < a"
      using A None False held by (auto split: if_splits option.splits)
    ultimately show ?thesis using taken [of ?sess sid] new held none by auto
  qed
qed (use unchanged in blast)

lemma upsert_session_count:
  assumes "upsert_session e sess d = Inr (sid, d')" and "db_wf d"
    and "\<not> (\<exists>f \<in> set (db_floating d). fs_LicenseID f = fs_LicenseID sess \<and> fs_Identifier f = fs_Identifier sess \<and> fs_ExpiresAt f > t)"
  shows "sessions lid t d' \<le> sessions lid t d + (if lid = fs_LicenseID sess then 1 else 0)"
proof -
  let ?P = "\<lambda>f. fs_LicenseID f = fs_LicenseID sess \<and> fs_Identifier f = fs_Identifier sess"
  let ?f = "\<lambda>f. f\<lparr>fs_Heartbeat := env_dbnow e, fs_ExpiresAt := fs_ExpiresAt sess, fs_IPAddress := fs_IPAddress sess,
                   fs_Label := fs_Label sess, fs_SeatID := fs_SeatID sess\<rparr>"
  have dist: "distinct (map (\<lambda>f. (fs_LicenseID f, fs_Identifier f)) (db_floating d))"
    using assms(2) by (simp add: db_wf_def)
  have upd: "count_where (\<lambda>f. fs_LicenseID f = lid \<and> fs_ExpiresAt f > t) (update_where ?P ?f rows) \<le>
      count_where (\<lambda>f. fs_LicenseID f = lid \<and> fs_ExpiresAt f > t) rows + (if lid = fs_LicenseID sess then 1 else 0)"
    if "distinct (map (\<lambda>f. (fs_LicenseID f, fs_Identifier f)) rows)" for rows
    using that
  proof (induction rows)
    case (Cons r rows)
    show ?case
    proof (cases "?P r")
      case True
      with Cons.prems have "\<forall>x \<in> set rows. \<not> ?P x" by (auto simp: image_iff)
      then have "update_where ?P ?f rows = rows" by (rule update_where_none)
      with True show ?thesis by (auto simp: update_where_def count_where_Cons)
    next
      case False
      with Cons show ?thesis by (auto simp: update_where_def count_where_Cons)
    qed
  qed (simp add: update_where_def)
  from assms(1) consider "db_floating d' = update_where ?P ?f (db_floating d)"
    | "db_floating d' = db_floating d @ [session_row e sess]"
    by (auto simp: upsert_session_def split: option.splits if_splits)
  then show ?thesis
  proof cases
    case 1
    then show ?thesis using upd [OF dist] by simp
  qed (auto simp: tbl_simps session_row_def)
qed

lemma count_le_update:
  assumes "\<And>r. r \<in> set rows \<Longrightarrow> P r \<Longrightarrow> Q (f r) \<Longrightarrow> Q r"
  shows "count_where Q (update_where P f rows) \<le> count_where Q rows"
  using assms by (induction rows) (auto simp: update_where_def count_where_Cons)

lemma sessions_later: "t \<le> t' \<Longrightarrow> sessions lid t' d \<le> sessions lid t d"
  by (rule count_where_mono) auto

section \<open>Runs\<close>

text \<open>
  The statements on floating sessions in the order the database makes them, with a clock that
  does not run backwards: \<open>now()\<close> of each is the clock when it is made.
\<close>

inductive floating_step :: "time \<times> db \<Rightarrow> time \<times> db \<Rightarrow> bool" where
  tick: "t \<le> t' \<Longrightarrow> floating_step (t, d) (t', d)"
| checkout: "checkOutFloating e sess maxS key d = (r, sess', d') \<Longrightarrow> env_dbnow e = t \<Longrightarrow> floating_step (t, d) (t, d')"
| checkin: "CheckInFloating lid ident sid d = (r, d') \<Longrightarrow> floating_step (t, d) (t, d')"
| heartbeat: "HeartbeatFloating e lid ident sid expiry d = (r, d') \<Longrightarrow> env_dbnow e = t \<Longrightarrow> floating_step (t, d) (t, d')"
| clean: "CleanExpiredFloating e d = (r, d') \<Longrightarrow> env_dbnow e = t \<Longrightarrow> floating_step (t, d) (t, d')"
| stop: "endFloatingSessionsIfStoppedIn lid status d = (r, d') \<Longrightarrow> floating_step (t, d) (t, d')"

lemma db_wf_floating:
  "db_wf d \<Longrightarrow> distinct (map fs_ID xs) \<Longrightarrow> distinct (map (\<lambda>f. (fs_LicenseID f, fs_Identifier f)) xs) \<Longrightarrow>
   db_wf (d\<lparr>db_floating := xs\<rparr>)"
  by (simp add: db_wf_def)

lemma db_wf_floating_delete: "db_wf d \<Longrightarrow> db_wf (d\<lparr>db_floating := delete_where P (db_floating d)\<rparr>)"
  by (simp add: db_wf_def distinct_map_delete_where)

lemma db_wf_floating_update:
  assumes "db_wf d" "\<And>f. fs_ID (g f) = fs_ID f \<and> fs_LicenseID (g f) = fs_LicenseID f \<and> fs_Identifier (g f) = fs_Identifier f"
  shows "db_wf (d\<lparr>db_floating := update_where P g (db_floating d)\<rparr>)"
proof (rule db_wf_floating [OF assms(1)])
  show "distinct (map fs_ID (update_where P g (db_floating d)))"
    using assms by (simp add: map_update_where db_wf_def)
  show "distinct (map (\<lambda>f. (fs_LicenseID f, fs_Identifier f)) (update_where P g (db_floating d)))"
    using assms by (simp add: map_update_where db_wf_def)
qed

lemma upsert_session_wf:
  assumes "upsert_session e sess d = Inr (sid, d')" "db_wf d"
  shows "db_wf d'"
proof (cases "select_one (\<lambda>f. fs_LicenseID f = fs_LicenseID sess \<and> fs_Identifier f = fs_Identifier sess) (db_floating d)")
  case None
  with assms(1) have d': "d' = d\<lparr>db_floating := db_floating d @ [session_row e sess]\<rparr>"
    and new: "fs_ID sess \<notin> fs_ID ` set (db_floating d)"
    by (auto simp: upsert_session_def split: if_splits)
  have "fs_ID (session_row e sess) = fs_ID sess" "fs_LicenseID (session_row e sess) = fs_LicenseID sess"
    "fs_Identifier (session_row e sess) = fs_Identifier sess" by (simp_all add: session_row_def)
  with None new assms(2) show ?thesis
    unfolding d' by (auto intro!: db_wf_floating simp: db_wf_def select_one_None_iff)
next
  case (Some row)
  with assms(1) show ?thesis
    by (auto simp: upsert_session_def intro!: db_wf_floating_update assms(2))
qed

lemma upsert_session_db: "upsert_session e sess d = Inr (sid, d') \<Longrightarrow> \<exists>xs. d' = d\<lparr>db_floating := xs\<rparr>"
  by (auto simp: upsert_session_def split: option.splits if_splits)

lemma checkOutFloating_db:
  assumes "checkOutFloating e sess maxS key d = (r, sess', d')"
  shows "\<exists>xs. d' = d\<lparr>db_floating := xs\<rparr>"
  using assms
proof (cases rule: checkOutFloating_cases)
  case unchanged
  then show ?thesis by (intro exI [of _ "db_floating d"]) simp
qed (auto dest: upsert_session_db)

lemma lockLicenseLimitsIn_floating [simp]:
  "lockLicenseLimitsIn lid (d\<lparr>db_floating := xs\<rparr>) = lockLicenseLimitsIn lid d"
  by (rule lockLicenseLimitsIn_frame) simp_all

lemma keyHeldIn_floating [simp]:
  "keyHeldIn e lid sid key (d\<lparr>db_floating := xs\<rparr>) = keyHeldIn e lid sid key d"
  by (rule keyHeldIn_frame) simp_all

lemma floating_step_limit: "floating_step (t, d) (t', d') \<Longrightarrow> lockLicenseLimitsIn lid d' = lockLicenseLimitsIn lid d"
  by (cases rule: floating_step.cases)
    (auto dest!: checkOutFloating_db simp: CheckInFloating_def HeartbeatFloating_def CleanExpiredFloating_def
      endFloatingSessionsIfStoppedIn_def Let_def split: if_splits)

lemma floating_step_wf:
  assumes "floating_step (t, d) (t', d')" and wf: "db_wf d"
  shows "db_wf d'"
  using assms(1)
proof (cases rule: floating_step.cases)
  case (checkout e sess maxS key r sess')
  from checkout(2) show ?thesis
    by (cases rule: checkOutFloating_cases) (auto intro: db_wf_floating_update upsert_session_wf wf)
qed (use wf in \<open>auto simp: CheckInFloating_def HeartbeatFloating_def CleanExpiredFloating_def
      endFloatingSessionsIfStoppedIn_def Let_def split: if_splits intro: db_wf_floating_delete db_wf_floating_update\<close>)

lemma floating_step_sessions:
  assumes "floating_step (t, d) (t', d')" and "db_wf d" and "lockLicenseLimitsIn lid d = Some (s, a)"
  shows "sessions lid t' d' \<le> sessions lid t d \<or> sessions lid t' d' \<le> a"
  using assms(1)
proof (cases rule: floating_step.cases)
  case tick
  then show ?thesis by (simp add: sessions_later)
next
  case (checkout e sess maxS key r sess')
  from checkout(2) show ?thesis
  proof (cases rule: checkOutFloating_cases)
    case unchanged
    then show ?thesis using checkout by simp
  next
    case (renewed existing)
    have dist: "distinct (map fs_ID (db_floating d))" using assms(2) by (simp add: db_wf_def)
    have "sessions lid t d' \<le> sessions lid t d"
      unfolding renewed(6) using renewed(3) checkout unique_column [OF dist _ renewed(2)]
      by (auto intro!: count_le_update)
    then show ?thesis using checkout by simp
  next
    case (taken sess1 sid)
    have "sessions lid t d' \<le> sessions lid t d + (if lid = fs_LicenseID sess1 then 1 else 0)"
      using upsert_session_count [OF taken(2) assms(2)] taken(3,4,7) checkout by simp
    then show ?thesis using taken(3,9) checkout assms(3) by (auto split: if_splits)
  qed
next
  case (heartbeat e lid0 ident sid expiry r)
  then have "sessions lid t d' \<le> sessions lid t d"
    by (auto simp: HeartbeatFloating_def Let_def split: if_splits intro!: count_le_update)
  then show ?thesis using heartbeat by simp
qed (auto simp: CheckInFloating_def CleanExpiredFloating_def endFloatingSessionsIfStoppedIn_def Let_def count_where_delete_le
      split: if_splits)

interpretation floating: bounded_resource
  "\<lambda>(t, d). db_wf d \<and> lockLicenseLimitsIn lid d \<noteq> None" "\<lambda>(t, d). sessions lid t d"
  "\<lambda>(t, d). activation_limit lid d" floating_step for lid
proof (unfold_locales, goal_cases)
  case (1 s s')
  then show ?case using floating_step_limit floating_step_wf by (cases s; cases s') auto
next
  case (2 s s')
  then show ?case using floating_step_limit by (cases s; cases s') (auto simp: activation_limit_def)
next
  case (3 s s')
  obtain t d t' d' where s: "s = (t, d)" "s' = (t', d')" by (cases s; cases s')
  with 3 obtain m a where l: "lockLicenseLimitsIn lid d = Some (m, a)" by auto
  from 3 s floating_step_sessions [OF _ _ l] floating_step_limit [of t d t' d' lid] l
  show ?case by (auto simp: activation_limit_def)
qed

section \<open>Properties\<close>

text \<open>
  C9: the concurrency cap holds. Through any sequence of checkouts, heartbeats, check-ins, sweeps
  and stops on a clock that does not run backwards, a licence with no more running sessions than
  its limit never has more, whatever limit the callers read before the lock.
\<close>

theorem floating_cap_never_exceeded:
  assumes "floating_step\<^sup>*\<^sup>* (t, d) (t', d')" and "db_wf d" and "lockLicenseLimitsIn lid d = Some (s, maxSessions)"
    and "sessions lid t d \<le> maxSessions"
  shows "sessions lid t' d' \<le> maxSessions"
  using floating.run_bound [OF assms(1), of lid] assms(2-4) by (simp add: activation_limit_def)

definition demo_session :: "string \<Rightarrow> FloatingSession" where
  "demo_session m = zero_FloatingSession\<lparr>fs_ID := m, fs_LicenseID := ''L'', fs_Identifier := m, fs_ExpiresAt := 2000\<rparr>"

lemma checkout_demo:
  "checkOutFloating demo_env (demo_session ''m1'') 5 ''KEY'' demo_db =
     (Inr True, demo_session ''m1'', demo_db\<lparr>db_floating := [session_row demo_env (demo_session ''m1'')]\<rparr>)"
  using keyHeldIn_demo lockLicenseLimitsIn_demo license_row_demo
  by (simp add: checkOutFloating_def Let_def upsert_session_def select_one_def exists_where_def
      demo_session_def zero_FloatingSession_def)

theorem floating_cap_never_exceeded_witness:
  "sessions ''L'' 1000 (demo_db\<lparr>db_floating := [session_row demo_env (demo_session ''m1'')]\<rparr>) \<le> 2"
proof (rule floating_cap_never_exceeded [OF _ db_wf_demo lockLicenseLimitsIn_demo])
  have "env_dbnow demo_env = 1000" by (simp add: demo_env_def)
  from floating_step.checkout [OF checkout_demo this]
  show "floating_step\<^sup>*\<^sup>* (1000, demo_db) (1000, demo_db\<lparr>db_floating := [session_row demo_env (demo_session ''m1'')]\<rparr>)"
    by blast
  show "sessions ''L'' 1000 demo_db \<le> 2" by simp
qed

text \<open>
  A heartbeat revives nothing. It reports true exactly when the machine holds a running
  session the key may renew, a session whose lease ran out is left as it is, and the sessions
  running at any time up to now are no more than before.
\<close>

theorem heartbeat_revives_nothing:
  assumes "HeartbeatFloating e lid ident seatID expiry d = (Inr renewed, d')"
  shows "(renewed \<longleftrightarrow> (\<exists>f \<in> set (db_floating d). fs_LicenseID f = lid \<and> fs_Identifier f = ident \<and>
            fs_ExpiresAt f > env_dbnow e \<and> (seatID \<noteq> '''' \<longrightarrow> fs_SeatID f = seatID))) \<and>
         (\<forall>f \<in> set (db_floating d). fs_ExpiresAt f \<le> env_dbnow e \<longrightarrow> f \<in> set (db_floating d')) \<and>
         sessions lid' (env_dbnow e) d' \<le> sessions lid' (env_dbnow e) d"
proof -
  let ?P = "\<lambda>f. fs_LicenseID f = lid \<and> fs_Identifier f = ident \<and> fs_ExpiresAt f > env_dbnow e \<and>
    (seatID \<noteq> '''' \<longrightarrow> fs_SeatID f = seatID)"
  let ?g = "\<lambda>f. f\<lparr>fs_Heartbeat := env_dbnow e, fs_ExpiresAt := expiry\<rparr>"
  from assms have d': "d' = d\<lparr>db_floating := update_where ?P ?g (db_floating d)\<rparr>"
    and r: "renewed = (count_where ?P (db_floating d) > 0)"
    by (auto simp: HeartbeatFloating_def Let_def split: if_splits)
  have "f \<in> set (db_floating d')" if "f \<in> set (db_floating d)" "fs_ExpiresAt f \<le> env_dbnow e" for f
    using that unfolding d' by (auto simp: set_update_where image_iff intro!: bexI [of _ f])
  moreover have "sessions lid' (env_dbnow e) d' \<le> sessions lid' (env_dbnow e) d"
    unfolding d' by (auto intro!: count_le_update)
  moreover have "renewed \<longleftrightarrow> (\<exists>f \<in> set (db_floating d). ?P f)"
  proof -
    have "0 < count_where ?P (db_floating d) \<longleftrightarrow> count_where ?P (db_floating d) \<noteq> 0"
      using count_where_nonneg [of ?P "db_floating d"] by linarith
    then show ?thesis unfolding r count_where_zero_iff by blast
  qed
  ultimately show ?thesis by blast
qed

theorem heartbeat_revives_nothing_witness:
  "HeartbeatFloating demo_env ''L'' ''m9'' '''' 9000 demo_db = (Inr False, demo_db) \<and>
   sessions ''L'' (env_dbnow demo_env) demo_db \<le> 0"
proof -
  have "HeartbeatFloating demo_env ''L'' ''m9'' '''' 9000 demo_db = (Inr False, demo_db\<lparr>db_floating := []\<rparr>)"
    by (simp add: HeartbeatFloating_def Let_def update_where_def)
  moreover have "demo_db\<lparr>db_floating := []\<rparr> = demo_db" by (simp add: demo_db_def empty_db_def)
  ultimately have h: "HeartbeatFloating demo_env ''L'' ''m9'' '''' 9000 demo_db = (Inr False, demo_db)" by simp
  from heartbeat_revives_nothing [OF h, of "''L''"] h show ?thesis by simp
qed

lemma checkOutFloating_not_held:
  assumes "key \<noteq> ''''" "\<not> keyHeldIn e (fs_LicenseID sess) (fs_SeatID sess) key d"
  shows "\<exists>err. fst (checkOutFloating e sess maxS key d) = Inl err"
  by (cases "fs_ID sess = ''''"; cases "db_fault d") (simp_all add: checkOutFloating_def Let_def assms)

text \<open>
  No session on a dead key, and none taken from its holder. A checkout that succeeds with a
  key leaves a database in which the key is still held; a running session is renewed for the
  member who holds it or for the licence's own key, and refused to any other member.
\<close>

theorem checkout_on_held_key:
  assumes "CheckOutFloatingForKey e sess maxS key d = (Inr isNew, sess', d')" and "key \<noteq> ''''"
  shows "keyHeldIn e (fs_LicenseID sess) (fs_SeatID sess) key d' \<and>
         (\<forall>f \<in> set (db_floating d). fs_LicenseID f = fs_LicenseID sess \<and> fs_Identifier f = fs_Identifier sess \<and>
            fs_ExpiresAt f > env_dbnow e \<and> db_wf d \<longrightarrow>
            \<not> isNew \<and> fs_ID sess' = fs_ID f \<and> fs_SeatID sess' = fs_SeatID f \<and> (fs_SeatID sess \<noteq> '''' \<longrightarrow> fs_SeatID f = fs_SeatID sess))"
proof -
  have c: "checkOutFloating e sess maxS key d = (Inr isNew, sess', d')"
    using assms(1) by (simp add: CheckOutFloatingForKey_def)
  obtain xs where d': "d' = d\<lparr>db_floating := xs\<rparr>" using checkOutFloating_db [OF c] by blast
  have held: "keyHeldIn e (fs_LicenseID sess) (fs_SeatID sess) key d"
    using checkOutFloating_not_held [OF assms(2), of e sess d maxS] c by auto
  have "\<not> isNew \<and> fs_ID sess' = fs_ID f \<and> fs_SeatID sess' = fs_SeatID f \<and> (fs_SeatID sess \<noteq> '''' \<longrightarrow> fs_SeatID f = fs_SeatID sess)"
    if f: "f \<in> set (db_floating d)" "fs_LicenseID f = fs_LicenseID sess" "fs_Identifier f = fs_Identifier sess"
      "fs_ExpiresAt f > env_dbnow e" and wf: "db_wf d" for f
  proof -
    let ?k = "\<lambda>f. (fs_LicenseID f, fs_Identifier f)"
    have dist: "distinct (map ?k (db_floating d))" using wf by (simp add: db_wf_def)
    have live: "select_one (\<lambda>x. fs_LicenseID x = fs_LicenseID sess \<and> fs_Identifier x = fs_Identifier sess \<and> fs_ExpiresAt x > env_dbnow e)
        (db_floating d) = Some f"
      using f by (intro select_one_by_key [OF dist f(1)]) auto
    show ?thesis
      using c assms(2) live by (cases "fs_ID sess = ''''") (auto simp: checkOutFloating_def Let_def split: if_splits)
  qed
  then show ?thesis using d' held by auto
qed

theorem checkout_on_held_key_witness:
  "keyHeldIn demo_env ''L'' '''' ''KEY'' (demo_db\<lparr>db_floating := [session_row demo_env (demo_session ''m1'')]\<rparr>)"
  using checkout_on_held_key [of demo_env "demo_session ''m1''" 5 "''KEY''" demo_db True] checkout_demo
  by (simp add: CheckOutFloatingForKey_def demo_session_def zero_FloatingSession_def)

section \<open>A clock read before the lock\<close>

text \<open>
  The order of the steps above is the order in which checkouts get the licence lock, and the cap
  relies on each seeing a clock at least as late as the one before. In Postgres \<^verbatim>\<open>now()\<close> is the
  start of the transaction, so a checkout that began first and got the lock second reads an
  earlier clock. Then a lease that ran out in between, whose slot the other checkout has just
  taken, still looks running to it and is renewed: the licence is over its cap.
\<close>

definition one_session_plan :: Plan where
  "one_session_plan = demo_plan\<lparr>plan_MaxActivations := 1\<rparr>"

definition lapsing_db :: db where
  "lapsing_db = demo_db\<lparr>db_plans := [one_session_plan],
     db_floating := [session_row demo_env ((demo_session ''a'')\<lparr>fs_ExpiresAt := 1500\<rparr>)]\<rparr>"

text \<open>Machine \<open>b\<close> checks out at 1600, then \<open>a\<close>, whose transaction began at 1400 and whose lease ended at 1500.\<close>

definition after_b :: db where
  "after_b = snd (snd (checkOutFloating (demo_env\<lparr>env_dbnow := 1600\<rparr>) (demo_session ''b'') 1 '''' lapsing_db))"

definition after_a :: db where
  "after_a = snd (snd (checkOutFloating (demo_env\<lparr>env_dbnow := 1400\<rparr>) (demo_session ''a'') 1 '''' after_b))"

lemma lapsing_limit: "lockLicenseLimitsIn ''L'' lapsing_db = Some (3, 1)"
  by (simp add: lockLicenseLimitsIn_def row_read_defs lapsing_db_def one_session_plan_def)
    (simp add: demo_plan_def zero_Plan_def plan_limits_def)

lemma after_b_floating:
  "after_b = lapsing_db\<lparr>db_floating := db_floating lapsing_db @ [session_row (demo_env\<lparr>env_dbnow := 1600\<rparr>) (demo_session ''b'')]\<rparr>"
proof -
  have "license_row lapsing_db ''L'' = Some demo_license" by (simp add: row_read_defs lapsing_db_def)
  then show ?thesis
    using lapsing_limit
    by (simp add: after_b_def checkOutFloating_def Let_def upsert_session_def select_one_def exists_where_def count_where_def
        lapsing_db_def demo_session_def zero_FloatingSession_def session_row_def)
qed

lemma count_update_one:
  assumes "distinct (map k rows)" "r \<in> set rows" "\<not> Q r" "Q (f r)"
  shows "count_where Q (update_where (\<lambda>x. k x = k r) f rows) = count_where Q rows + 1"
  using assms
proof (induction rows)
  case (Cons x rows)
  show ?case
  proof (cases "k x = k r")
    case True
    then have "x = r" using Cons.prems by (auto simp: image_iff)
    moreover have "update_where (\<lambda>x. k x = k r) f rows = rows"
      using Cons.prems True by (intro update_where_none) (auto simp: image_iff)
    ultimately show ?thesis using Cons.prems by (simp add: update_where_Cons count_where_Cons)
  next
    case False
    then show ?thesis using Cons by (auto simp: update_where_Cons count_where_Cons)
  qed
qed simp

text \<open>
  C40: with the clock read before the lock the cap can be passed. Whenever a licence is full at \<open>t\<close>
  and a machine's lease lapsed by \<open>t\<close>, a checkout of that machine whose transaction began before the
  lease ended, and gets the lock at \<open>t\<close>, renews the lease: one session more than the limit runs at \<open>t\<close>,
  though the limit was read, and no more than it were running, under the lock.
\<close>

theorem floating_cap_stale_clock:
  assumes "db_wf d" "\<not> db_fault d" and "lockLicenseLimitsIn (fs_LicenseID sess) d = Some (s, a)" "sessions (fs_LicenseID sess) t d = a"
    and "lease \<in> set (db_floating d)" "fs_LicenseID lease = fs_LicenseID sess" "fs_Identifier lease = fs_Identifier sess"
    and "env_dbnow e < fs_ExpiresAt lease" "fs_ExpiresAt lease \<le> t" "t < fs_ExpiresAt sess"
    and "key = '''' \<or> keyHeldIn e (fs_LicenseID sess) (fs_SeatID sess) key d \<and> fs_SeatID lease = fs_SeatID sess"
    and "checkOutFloating e sess maxSessions key d = (r, sess', d')"
  shows "r = Inr False \<and> lockLicenseLimitsIn (fs_LicenseID sess) d' = Some (s, a) \<and> sessions (fs_LicenseID sess) t d' = a + 1"
proof -
  let ?sess = "if fs_ID sess = '''' then sess\<lparr>fs_ID := env_newID e 0\<rparr> else sess"
  have new: "fs_LicenseID ?sess = fs_LicenseID sess" "fs_Identifier ?sess = fs_Identifier sess"
    "fs_SeatID ?sess = fs_SeatID sess" "fs_ExpiresAt ?sess = fs_ExpiresAt sess"
    "fs_IPAddress ?sess = fs_IPAddress sess" "fs_Label ?sess = fs_Label sess" by auto
  have dist: "distinct (map (\<lambda>f. (fs_LicenseID f, fs_Identifier f)) (db_floating d))" "distinct (map fs_ID (db_floating d))"
    using assms(1) by (simp_all add: db_wf_def)
  let ?live = "\<lambda>f. fs_LicenseID f = fs_LicenseID sess \<and> fs_Identifier f = fs_Identifier sess \<and> fs_ExpiresAt f > env_dbnow e"
  have found: "select_one ?live (db_floating d) = Some lease"
  proof (cases "select_one ?live (db_floating d)")
    case None
    then show ?thesis using assms(5-8) by (auto simp: select_one_None_iff)
  next
    case (Some x)
    then have "x = lease" using select_one_SomeD [OF Some] unique_column [OF dist(1) _ assms(5), of x] assms(6,7) by simp
    then show ?thesis using Some by simp
  qed
  let ?f = "\<lambda>f. f\<lparr>fs_Heartbeat := env_dbnow e, fs_ExpiresAt := fs_ExpiresAt sess,
                 fs_IPAddress := fs_IPAddress sess, fs_Label := fs_Label sess\<rparr>"
  have held: "(key \<noteq> '''' \<and> \<not> keyHeldIn e (fs_LicenseID sess) (fs_SeatID sess) key d) = False"
    "(key \<noteq> '''' \<and> fs_SeatID sess \<noteq> '''' \<and> fs_SeatID lease \<noteq> fs_SeatID sess) = False" "db_fault d = False"
    using assms(2,11) by auto
  have run: "r = Inr False" "d' = d\<lparr>db_floating := update_where (\<lambda>f. fs_ID f = fs_ID lease) ?f (db_floating d)\<rparr>"
    using assms(12) [unfolded checkOutFloating_def Let_def new found held option.case if_False] by simp_all
  have "sessions (fs_LicenseID sess) t d' = sessions (fs_LicenseID sess) t d + 1"
    unfolding run(2) using count_update_one [OF dist(2) assms(5), of "\<lambda>f. fs_LicenseID f = fs_LicenseID sess \<and> fs_ExpiresAt f > t" ?f]
      assms(6,9,10) by simp
  then show ?thesis using run assms(3,4) by simp
qed

text \<open>Machine \<open>b\<close> took the slot at 1600; then \<open>a\<close> checks out, whose transaction began at 1400 and whose lease ended at 1500.\<close>

theorem floating_cap_stale_clock_witness:
  "sessions ''L'' 1600 lapsing_db = 0 \<and> sessions ''L'' 1600 after_b = 1 \<and> sessions ''L'' 1600 after_a = 2"
proof -
  have fl: "db_floating lapsing_db = [session_row demo_env ((demo_session ''a'')\<lparr>fs_ExpiresAt := 1500\<rparr>)]"
    by (simp add: lapsing_db_def)
  have b: "db_floating after_b = [session_row demo_env ((demo_session ''a'')\<lparr>fs_ExpiresAt := 1500\<rparr>),
      session_row (demo_env\<lparr>env_dbnow := 1600\<rparr>) (demo_session ''b'')]"
    by (simp add: after_b_floating fl)
  have counts: "sessions ''L'' 1600 lapsing_db = 0" "sessions ''L'' 1600 after_b = 1"
    by (simp_all add: fl b count_where_def demo_session_def zero_FloatingSession_def session_row_def)
  have ids: "fs_LicenseID (demo_session ''a'') = ''L''" "fs_ExpiresAt (demo_session ''a'') = 2000"
    by (simp_all add: demo_session_def zero_FloatingSession_def)
  have wf: "db_wf after_b" "\<not> db_fault after_b"
    by (simp_all add: after_b_floating db_wf_def lapsing_db_def session_row_def demo_session_def zero_FloatingSession_def)
  have lim: "lockLicenseLimitsIn (fs_LicenseID (demo_session ''a'')) after_b = Some (3, 1)"
    using lapsing_limit by (simp add: after_b_floating ids)
  obtain r sess' d' where co: "checkOutFloating (demo_env\<lparr>env_dbnow := 1400\<rparr>) (demo_session ''a'') 1 '''' after_b = (r, sess', d')"
    by (metis prod_cases3)
  have "sessions (fs_LicenseID (demo_session ''a'')) 1600 d' = 1 + 1"
    using floating_cap_stale_clock [OF wf lim _ _ _ _ _ _ _ _ co, of 1600 "session_row demo_env ((demo_session ''a'')\<lparr>fs_ExpiresAt := 1500\<rparr>)"]
      counts(2) b by (simp add: ids session_row_def)
  then show ?thesis using co counts by (simp add: after_a_def ids)
qed

end
