(* ===== verification/KG_Usage.thy ===== *)
theory KG_Usage
  imports KG_Store
begin

text \<open>
  Usage counters and metered billing: \<^verbatim>\<open>internal/store/usage.go\<close>, \<^verbatim>\<open>internal/store/metered.go\<close>
  and \<^verbatim>\<open>quotaRemaining\<close> of \<^verbatim>\<open>internal/service/usage.go\<close>. A counter is one row per licence,
  feature and period; \<open>used\<close> is a BIGINT. Also here are the parts of Go's standard library
  the quota code reads: \<^verbatim>\<open>strconv.ParseInt\<close> and the date formats of the period keys.
\<close>

section \<open>Numbers and dates as text\<close>

fun dec_digits :: "nat \<Rightarrow> string" where
  "dec_digits n = (if n < 10 then [char_of (48 + n)] else dec_digits (n div 10) @ [char_of (48 + n mod 10)])"

declare dec_digits.simps [simp del]

definition pad2 :: "int \<Rightarrow> string" where
  "pad2 n = (if n < 10 then ''0'' else '''') @ dec_digits (nat n)"

definition pad4 :: "int \<Rightarrow> string" where
  "pad4 n = replicate (4 - length (dec_digits (nat n))) (CHR ''0'') @ dec_digits (nat n)"

definition is_digit :: "char \<Rightarrow> bool" where
  "is_digit c \<longleftrightarrow> 48 \<le> char_code c \<and> char_code c \<le> 57"

definition digits_value :: "string \<Rightarrow> int" where
  "digits_value s = foldl (\<lambda>n c. n * 10 + (int (char_code c) - 48)) 0 s"

text \<open>
  The value \<^verbatim>\<open>strconv.ParseInt(s, 10, 64)\<close> returns with its error ignored: 0 for a string that
  is not a number, the nearest end of the range for one that is too large.
\<close>

definition parse_int64 :: "string \<Rightarrow> int" where
  "parse_int64 s =
     (let (neg, ds) = (case s of c # cs \<Rightarrow> if c = CHR ''-'' then (True, cs) else if c = CHR ''+'' then (False, cs) else (False, s)
                       | [] \<Rightarrow> (False, []))
      in if ds = [] \<or> \<not> list_all is_digit ds then 0
         else if neg then max (- digits_value ds) (- (2 ^ 63)) else min (digits_value ds) MaxInt64)"

text \<open>The UTC calendar date of a day number (day 0 is 1970-01-01), in the proleptic Gregorian calendar.\<close>

definition civil_from_days :: "int \<Rightarrow> int \<times> int \<times> int" where
  "civil_from_days z0 =
     (let z = z0 + 719468; era = z div 146097; doe = z mod 146097;
          yoe = (doe - doe div 1460 + doe div 36524 - doe div 146096) div 365;
          doy = doe - (365 * yoe + yoe div 4 - yoe div 100);
          mp = (5 * doy + 2) div 153;
          d = doy - (153 * mp + 2) div 5 + 1;
          m = (if mp < 10 then mp + 3 else mp - 9)
      in (yoe + era * 400 + (if m \<le> 2 then 1 else 0), m, d))"

definition CurrentPeriodKey :: "time \<Rightarrow> string \<Rightarrow> string" where
  "CurrentPeriodKey now period =
     (let secs = unix_seconds now; (y, m, d) = civil_from_days (secs div 86400); h = secs mod 86400 div 3600 in
      if period = ''hourly'' then pad4 y @ ''-'' @ pad2 m @ ''-'' @ pad2 d @ ''T'' @ pad2 h
      else if period = ''daily'' then pad4 y @ ''-'' @ pad2 m @ ''-'' @ pad2 d
      else if period = ''monthly'' then pad4 y @ ''-'' @ pad2 m
      else if period = ''yearly'' then dec_digits (nat y)
      else pad4 y @ ''-'' @ pad2 m)"

section \<open>Counters\<close>

definition RecordUsageEvent :: "env \<Rightarrow> UsageEvent \<Rightarrow> db \<Rightarrow> unit result \<times> db" where
  "RecordUsageEvent e ev d =
     (let ev = (if ue_ID ev = '''' then ev\<lparr>ue_ID := env_newID e 0\<rparr> else ev) in
      if db_fault d \<or> exists_where (\<lambda>x. ue_ID x = ue_ID ev) (db_usage_events d) then (Inl ErrDB, d)
      else (Inr (), d\<lparr>db_usage_events := db_usage_events d @
              [ev\<lparr>ue_RecordedAt := (if ue_RecordedAt ev = time_zero then env_dbnow e else ue_RecordedAt ev)\<rparr>]\<rparr>))"

definition counter_key :: "string \<Rightarrow> string \<Rightarrow> string \<Rightarrow> string \<Rightarrow> UsageCounter \<Rightarrow> bool" where
  "counter_key licenseID feature period periodKey c \<longleftrightarrow>
     uc_LicenseID c = licenseID \<and> uc_Feature c = feature \<and> uc_Period c = period \<and> uc_PeriodKey c = periodKey"

definition GetUsageCounter :: "string \<Rightarrow> string \<Rightarrow> string \<Rightarrow> string \<Rightarrow> db \<Rightarrow> UsageCounter result" where
  "GetUsageCounter licenseID feature period periodKey d =
     (if db_fault d then Inl ErrDB
      else case select_one (counter_key licenseID feature period periodKey) (db_usage_counters d) of
        None \<Rightarrow> Inl ErrNoRows | Some c \<Rightarrow> Inr c)"

text \<open>
  A sum that leaves BIGINT is an error of the database, which refuses the statement. \<open>e\<close> gives
  the new row its ID; an insert for a licence that is not there is refused.
\<close>

definition IncrementUsageCounter ::
  "env \<Rightarrow> string \<Rightarrow> string \<Rightarrow> string \<Rightarrow> string \<Rightarrow> int \<Rightarrow> db \<Rightarrow> UsageCounter result \<times> db" where
  "IncrementUsageCounter e licenseID feature period periodKey quantity d =
     (let key = counter_key licenseID feature period periodKey in
      if db_fault d then (Inl ErrDB, d)
      else case select_one key (db_usage_counters d) of
        Some c \<Rightarrow>
          if uc_Used c + quantity < - (2 ^ 63) \<or> uc_Used c + quantity > MaxInt64 then (Inl ErrDB, d)
          else let d' = d\<lparr>db_usage_counters := update_where key
                   (\<lambda>c. c\<lparr>uc_Used := uc_Used c + quantity, uc_UpdatedAt := env_dbnow e\<rparr>) (db_usage_counters d)\<rparr>
               in (GetUsageCounter licenseID feature period periodKey d', d')
      | None \<Rightarrow>
          if license_row d licenseID = None then (Inl ErrDB, d)
          else let c = \<lparr>uc_ID = env_newID e 0, uc_LicenseID = licenseID, uc_Feature = feature, uc_Period = period,
                        uc_PeriodKey = periodKey, uc_Used = quantity, uc_UpdatedAt = env_dbnow e\<rparr>;
                   d' = d\<lparr>db_usage_counters := db_usage_counters d @ [c]\<rparr>
               in (GetUsageCounter licenseID feature period periodKey d', d'))"

text \<open>The row the transaction of \<open>IncrementUsageCounterWithLimit\<close> makes sure of first.\<close>

definition ensure_counter :: "env \<Rightarrow> string \<Rightarrow> string \<Rightarrow> string \<Rightarrow> string \<Rightarrow> db \<Rightarrow> db result" where
  "ensure_counter e licenseID feature period periodKey d =
     (if exists_where (counter_key licenseID feature period periodKey) (db_usage_counters d) then Inr d
      else if license_row d licenseID = None then Inl ErrDB
      else Inr (d\<lparr>db_usage_counters := db_usage_counters d @
        [\<lparr>uc_ID = env_newID e 0, uc_LicenseID = licenseID, uc_Feature = feature, uc_Period = period,
          uc_PeriodKey = periodKey, uc_Used = 0, uc_UpdatedAt = env_dbnow e\<rparr>]\<rparr>))"

definition IncrementUsageCounterWithLimit ::
  "env \<Rightarrow> string \<Rightarrow> string \<Rightarrow> string \<Rightarrow> string \<Rightarrow> int \<Rightarrow> int \<Rightarrow> db \<Rightarrow> (UsageCounter \<times> bool) result \<times> db" where
  "IncrementUsageCounterWithLimit e licenseID feature period periodKey quantity limit d =
     (let key = counter_key licenseID feature period periodKey in
      if db_fault d then (Inl ErrDB, d)
      else case ensure_counter e licenseID feature period periodKey d of
        Inl err \<Rightarrow> (Inl err, d)
      | Inr d1 \<Rightarrow>
          (case select_one key (db_usage_counters d1) of
             None \<Rightarrow> (Inl ErrNoRows, d)
           | Some cur \<Rightarrow>
               let currentUsed = uc_Used cur in
               if quantity > wrap64 (MaxInt64 - currentUsed) then (Inl ErrUsageQuantityTooLarge, d)
               else if limit > 0 \<and> wrap64 (currentUsed + quantity) > limit
               then (Inr (\<lparr>uc_ID = '''', uc_LicenseID = licenseID, uc_Feature = feature, uc_Period = period,
                           uc_PeriodKey = periodKey, uc_Used = currentUsed, uc_UpdatedAt = time_zero\<rparr>, False), d1)
               else
                 let f = (\<lambda>c. c\<lparr>uc_Used := uc_Used c + quantity, uc_UpdatedAt := env_dbnow e\<rparr>) in
                 if currentUsed + quantity < - (2 ^ 63) \<or> currentUsed + quantity > MaxInt64 then (Inl ErrDB, d)
                 else (Inr (f cur, True),
                       d1\<lparr>db_usage_counters := update_where key f (db_usage_counters d1)\<rparr>)))"

definition ResetUsageCounter :: "env \<Rightarrow> string \<Rightarrow> string \<Rightarrow> string \<Rightarrow> string \<Rightarrow> db \<Rightarrow> unit result \<times> db" where
  "ResetUsageCounter e licenseID feature period periodKey d =
     (if db_fault d then (Inl ErrDB, d)
      else (Inr (), d\<lparr>db_usage_counters := update_where (counter_key licenseID feature period periodKey)
              (\<lambda>c. c\<lparr>uc_Used := 0, uc_UpdatedAt := env_dbnow e\<rparr>) (db_usage_counters d)\<rparr>))"

definition GetUsageSummary :: "string \<Rightarrow> db \<Rightarrow> UsageCounter list result" where
  "GetUsageSummary licenseID d =
     (if db_fault d then Inl ErrDB
      else Inr (sort_key uc_Feature (sort_key uc_Period (filter (\<lambda>c. uc_LicenseID c = licenseID) (db_usage_counters d)))))"

definition quotaRemaining :: "int \<Rightarrow> int \<Rightarrow> int" where
  "quotaRemaining limit used = (if limit = 0 then -1 else max (wrap64 (limit - used)) 0)"

section \<open>Metered billing\<close>

definition InsertMeteredEvent :: "env \<Rightarrow> string \<Rightarrow> string \<Rightarrow> string \<Rightarrow> int \<Rightarrow> db \<Rightarrow> unit result \<times> db" where
  "InsertMeteredEvent e licenseID feature periodKey quantity d =
     (let i = env_newID e 1 in
      if db_fault d \<or> exists_where (\<lambda>m. mb_ID m = i) (db_metered d) \<or> license_row d licenseID = None then (Inl ErrDB, d)
      else (Inr (), d\<lparr>db_metered := db_metered d @
        [zero_MeteredBilling\<lparr>mb_ID := i, mb_LicenseID := licenseID, mb_Feature := feature, mb_Quantity := quantity,
           mb_PeriodKey := periodKey, mb_Identifier := i, mb_CreatedAt := env_dbnow e\<rparr>]\<rparr>))"

definition ListUnsyncedMeteredAfter ::
  "MeteredBilling option \<Rightarrow> nat \<Rightarrow> int \<Rightarrow> db \<Rightarrow> MeteredBilling list result" where
  "ListUnsyncedMeteredAfter lastRow limit maxAttempts d =
     (let key = (\<lambda>m. JoinKey (mb_CreatedAt m) (mb_ID m)) in
      if db_fault d then Inl ErrDB
      else Inr (take limit (sort_key key (filter (\<lambda>m. \<not> mb_Synced m \<and> mb_Attempts m < maxAttempts \<and>
             (case lastRow of None \<Rightarrow> True | Some l \<Rightarrow> key l < key m)) (db_metered d)))))"

definition ListUnsyncedMetered :: "nat \<Rightarrow> int \<Rightarrow> db \<Rightarrow> MeteredBilling list result" where
  "ListUnsyncedMetered limit maxAttempts d = ListUnsyncedMeteredAfter None limit maxAttempts d"

definition MarkMeteredSynced :: "env \<Rightarrow> string \<Rightarrow> string \<Rightarrow> db \<Rightarrow> unit result \<times> db" where
  "MarkMeteredSynced e mid externalID d =
     (if db_fault d then (Inl ErrDB, d)
      else (Inr (), d\<lparr>db_metered := update_where (\<lambda>m. mb_ID m = mid)
        (\<lambda>m. m\<lparr>mb_Synced := True, mb_SyncedAt := Some (env_now e), mb_ExternalID := externalID, mb_LastError := ''''\<rparr>)
        (db_metered d)\<rparr>))"

definition RecordMeteredSyncFailure :: "string \<Rightarrow> string \<Rightarrow> db \<Rightarrow> unit result \<times> db" where
  "RecordMeteredSyncFailure mid reason d =
     (if db_fault d then (Inl ErrDB, d)
      else (Inr (), d\<lparr>db_metered := update_where (\<lambda>m. mb_ID m = mid)
        (\<lambda>m. m\<lparr>mb_Attempts := mb_Attempts m + 1, mb_LastError := take 512 reason\<rparr>) (db_metered d)\<rparr>))"

definition MarkMeteredAttempted :: "string \<Rightarrow> db \<Rightarrow> unit result \<times> db" where
  "MarkMeteredAttempted mid d =
     (if db_fault d then (Inl ErrDB, d)
      else (Inr (), d\<lparr>db_metered := update_where (\<lambda>m. mb_ID m = mid)
        (\<lambda>m. m\<lparr>mb_Attempts := mb_Attempts m + 1\<rparr>) (db_metered d)\<rparr>))"

section \<open>Accounting\<close>

text \<open>The unique index of the counters, and that none is negative or beyond BIGINT.\<close>

definition counters_wf :: "db \<Rightarrow> bool" where
  "counters_wf d \<longleftrightarrow>
     distinct (map (\<lambda>c. (uc_LicenseID c, uc_Feature c, uc_Period c, uc_PeriodKey c)) (db_usage_counters d)) \<and>
     (\<forall>c \<in> set (db_usage_counters d). 0 \<le> uc_Used c \<and> uc_Used c \<le> MaxInt64)"

definition used_of :: "(UsageCounter \<Rightarrow> bool) \<Rightarrow> db \<Rightarrow> int" where
  "used_of k d = (case select_one k (db_usage_counters d) of None \<Rightarrow> 0 | Some c \<Rightarrow> uc_Used c)"

definition was_accepted :: "(UsageCounter \<times> bool) result \<Rightarrow> bool" where
  "was_accepted r = (case r of Inr (_, True) \<Rightarrow> True | _ \<Rightarrow> False)"

lemma counter_key_unique:
  "counters_wf d \<Longrightarrow> c \<in> set (db_usage_counters d) \<Longrightarrow> c' \<in> set (db_usage_counters d) \<Longrightarrow>
   counter_key l f p pk c \<Longrightarrow> counter_key l f p pk c' \<Longrightarrow> c = c'"
  using unique_column [of "\<lambda>c. (uc_LicenseID c, uc_Feature c, uc_Period c, uc_PeriodKey c)" "db_usage_counters d" c c']
  by (simp add: counters_wf_def counter_key_def)

lemma select_one_update:
  assumes "\<And>x. k (f x) = k x"
  shows "select_one k (update_where k f rows) = map_option f (select_one k rows)"
  using assms by (induction rows) (auto simp: select_one_def update_where_def)

lemma select_one_update_other:
  assumes "\<And>x. k (f x) = k x" "\<And>x. k x \<Longrightarrow> \<not> k' x"
  shows "select_one k (update_where k' f rows) = select_one k rows"
  using assms by (induction rows) (auto simp: select_one_def update_where_def)

lemma ensure_counter_used:
  assumes "ensure_counter e lid f p pk d = Inr d1" and "counters_wf d"
  shows "counters_wf d1 \<and> used_of (counter_key l' f' p' pk') d1 = used_of (counter_key l' f' p' pk') d \<and>
         (\<exists>c. select_one (counter_key lid f p pk) (db_usage_counters d1) = Some c \<and> uc_Used c = used_of (counter_key lid f p pk) d)"
proof (cases "exists_where (counter_key lid f p pk) (db_usage_counters d)")
  case True
  with assms(1) have d1: "d1 = d" by (simp add: ensure_counter_def)
  from True have "select_one (counter_key lid f p pk) (db_usage_counters d) \<noteq> None" by (auto simp: select_one_None_iff)
  then show ?thesis using assms(2) by (auto simp: d1 used_of_def)
next
  case False
  let ?c = "\<lparr>uc_ID = env_newID e 0, uc_LicenseID = lid, uc_Feature = f, uc_Period = p, uc_PeriodKey = pk,
             uc_Used = 0, uc_UpdatedAt = env_dbnow e\<rparr>"
  from False assms(1) have d1: "d1 = d\<lparr>db_usage_counters := db_usage_counters d @ [?c]\<rparr>"
    by (auto simp: ensure_counter_def split: if_splits)
  have app: "select_one k (rows @ [?c]) = (case select_one k rows of Some c \<Rightarrow> Some c | None \<Rightarrow> if k ?c then Some ?c else None)" for k rows
    by (induction rows) (auto simp: select_one_def)
  have none: "select_one (counter_key lid f p pk) (db_usage_counters d) = None"
    using False by (auto simp: select_one_None_iff)
  have "counters_wf d1"
    using assms(2) False by (auto simp: d1 counters_wf_def counter_key_def MaxInt64_def image_iff)
  moreover have "used_of (counter_key l' f' p' pk') d1 = used_of (counter_key l' f' p' pk') d"
    by (auto simp: used_of_def d1 app split: option.splits)
  ultimately show ?thesis using none by (simp add: d1 app counter_key_def used_of_def)
qed

lemma counters_wf_update:
  assumes "counters_wf d" "\<forall>c \<in> set (db_usage_counters d). k c \<longrightarrow> 0 \<le> uc_Used (g c) \<and> uc_Used (g c) \<le> MaxInt64"
    and "\<And>c. uc_LicenseID (g c) = uc_LicenseID c \<and> uc_Feature (g c) = uc_Feature c \<and> uc_Period (g c) = uc_Period c \<and> uc_PeriodKey (g c) = uc_PeriodKey c"
  shows "counters_wf (d\<lparr>db_usage_counters := update_where k g (db_usage_counters d)\<rparr>)"
  using assms by (simp add: counters_wf_def map_update_where ball_update_where)

text \<open>One increment: what it does to its own counter and to every other.\<close>

lemma increment_effect:
  assumes "IncrementUsageCounterWithLimit e lid f p pk q limit d = (r, d')" and "counters_wf d" and "0 < q" "q \<le> MaxInt64"
  defines "k \<equiv> counter_key lid f p pk"
  shows "counters_wf d'"
    and "used_of k d' = used_of k d + (if was_accepted r then q else 0)"
    and "was_accepted r \<Longrightarrow> limit > 0 \<Longrightarrow> used_of k d' \<le> limit"
    and "used_of k d' \<le> MaxInt64"
    and "(l', f', p', pk') \<noteq> (lid, f, p, pk) \<Longrightarrow> used_of (counter_key l' f' p' pk') d' = used_of (counter_key l' f' p' pk') d"
proof -
  have bounds: "0 \<le> used_of k d \<and> used_of k d \<le> MaxInt64" if "counters_wf d" for k d
    using that by (auto simp: used_of_def counters_wf_def MaxInt64_def dest!: select_one_SomeD split: option.splits)
  have goal: "counters_wf d' \<and> used_of k d' = used_of k d + (if was_accepted r then q else 0) \<and>
      (was_accepted r \<longrightarrow> limit > 0 \<longrightarrow> used_of k d' \<le> limit) \<and> used_of k d' \<le> MaxInt64 \<and>
      ((l', f', p', pk') \<noteq> (lid, f, p, pk) \<longrightarrow> used_of (counter_key l' f' p' pk') d' = used_of (counter_key l' f' p' pk') d)"
  proof (cases "ensure_counter e lid f p pk d")
    case (Inl err)
    with assms(1) have "r = Inl err \<or> r = Inl ErrDB" "d' = d"
      by (auto simp: IncrementUsageCounterWithLimit_def Let_def split: if_splits)
    then show ?thesis using assms(2) bounds by (auto simp: was_accepted_def)
  next
    case (Inr d1)
    note ens = ensure_counter_used [OF Inr assms(2)]
    then obtain c where c: "select_one k (db_usage_counters d1) = Some c" "uc_Used c = used_of k d"
      and wf1: "counters_wf d1" unfolding k_def by blast
    have b: "0 \<le> uc_Used c" "uc_Used c \<le> MaxInt64" using bounds [OF assms(2)] c(2) by auto
    have w: "wrap64 (MaxInt64 - uc_Used c) = MaxInt64 - uc_Used c" using b by (simp add: MaxInt64_def)
    let ?g = "\<lambda>c. c\<lparr>uc_Used := uc_Used c + q, uc_UpdatedAt := env_dbnow e\<rparr>"
    let ?d2 = "d1\<lparr>db_usage_counters := update_where k ?g (db_usage_counters d1)\<rparr>"
    have kg: "counter_key a1 a2 a3 a4 (?g x) = counter_key a1 a2 a3 a4 x" for a1 a2 a3 a4 x by (simp add: counter_key_def)
    consider "d' = d" "\<not> was_accepted r" | "d' = d1" "\<not> was_accepted r"
      | "d' = ?d2" "r = Inr (?g c, True)" "q \<le> MaxInt64 - uc_Used c" "limit > 0 \<longrightarrow> wrap64 (uc_Used c + q) \<le> limit"
      using assms(1) Inr c(1) w
      by (auto simp: IncrementUsageCounterWithLimit_def Let_def k_def was_accepted_def not_less split: if_splits)
    then show ?thesis
    proof cases
      case 3
      have sum: "wrap64 (uc_Used c + q) = uc_Used c + q" using b 3(3) assms(3) by (simp add: MaxInt64_def)
      have all: "uc_Used x = uc_Used c" if "x \<in> set (db_usage_counters d1)" "k x" for x
        using counter_key_unique [OF wf1 that(1), of c lid f p pk] select_one_SomeD [OF c(1)] that(2) by (simp add: k_def)
      have "counters_wf ?d2"
        using wf1 all b 3(3) assms(3) by (intro counters_wf_update) auto
      moreover have "used_of k ?d2 = uc_Used c + q"
        using c(1) select_one_update [of k ?g "db_usage_counters d1"] kg by (simp add: used_of_def k_def)
      moreover have "used_of (counter_key l' f' p' pk') ?d2 = used_of (counter_key l' f' p' pk') d1"
        if "(l', f', p', pk') \<noteq> (lid, f, p, pk)"
        using that select_one_update_other [of "counter_key l' f' p' pk'" ?g k "db_usage_counters d1"] kg
        by (auto simp: used_of_def k_def counter_key_def)
      ultimately show ?thesis using 3 c(2) sum ens by (auto simp: was_accepted_def)
    qed (use assms(2) bounds ens in \<open>auto simp: k_def\<close>)
  qed
  show "counters_wf d'" "used_of k d' = used_of k d + (if was_accepted r then q else 0)" "used_of k d' \<le> MaxInt64"
    "was_accepted r \<Longrightarrow> limit > 0 \<Longrightarrow> used_of k d' \<le> limit"
    "(l', f', p', pk') \<noteq> (lid, f, p, pk) \<Longrightarrow> used_of (counter_key l' f' p' pk') d' = used_of (counter_key l' f' p' pk') d"
    using goal by blast+
qed

section \<open>Properties\<close>

text \<open>Requests against one counter: an increment with its quantity and the limit it was held to.\<close>

record usage_request =
  rq_env :: env
  rq_quantity :: int
  rq_limit :: int

fun run_usage :: "string \<Rightarrow> string \<Rightarrow> string \<Rightarrow> string \<Rightarrow> usage_request list \<Rightarrow> db \<Rightarrow> (UsageCounter \<times> bool) result list \<times> db" where
  "run_usage lid f p pk [] d = ([], d)"
| "run_usage lid f p pk (rq # rqs) d =
     (let (r, d1) = IncrementUsageCounterWithLimit (rq_env rq) lid f p pk (rq_quantity rq) (rq_limit rq) d;
          (rs, d2) = run_usage lid f p pk rqs d1
      in (r # rs, d2))"

definition accepted_total :: "usage_request list \<Rightarrow> (UsageCounter \<times> bool) result list \<Rightarrow> int" where
  "accepted_total rqs rs = sum_list (map (\<lambda>(rq, r). if was_accepted r then rq_quantity rq else 0) (zip rqs rs))"

text \<open>
  C10: usage is accounted exactly. Whatever requests come for a counter, it grows by the sum of the
  quantities that were accepted, refused and failed ones adding nothing; with every request held
  to a limit of at least one, a counter within the limit stays within it; and no quantity, however
  large, makes it wrap.
\<close>

theorem usage_accounting:
  assumes "run_usage lid f p pk rqs d = (rs, d')" and "counters_wf d"
    and "\<forall>rq \<in> set rqs. 0 < rq_quantity rq \<and> rq_quantity rq \<le> MaxInt64"
  shows "used_of (counter_key lid f p pk) d' = used_of (counter_key lid f p pk) d + accepted_total rqs rs \<and>
         (0 < limit \<and> (\<forall>rq \<in> set rqs. rq_limit rq = limit) \<and> used_of (counter_key lid f p pk) d \<le> limit \<longrightarrow>
            used_of (counter_key lid f p pk) d' \<le> limit) \<and>
         counters_wf d'"
  using assms
proof (induction rqs arbitrary: d rs)
  case Nil
  then show ?case by (simp add: accepted_total_def)
next
  case (Cons rq rqs)
  let ?k = "counter_key lid f p pk"
  obtain r d1 where r: "IncrementUsageCounterWithLimit (rq_env rq) lid f p pk (rq_quantity rq) (rq_limit rq) d = (r, d1)" by fastforce
  obtain rs' where rs': "run_usage lid f p pk rqs d1 = (rs', d')" "rs = r # rs'"
    using Cons.prems(1) r by (auto simp: Let_def split: prod.splits)
  have q: "0 < rq_quantity rq" "rq_quantity rq \<le> MaxInt64" using Cons.prems(3) by auto
  note eff = increment_effect [OF r Cons.prems(2) q]
  have IH: "used_of ?k d' = used_of ?k d1 + accepted_total rqs rs' \<and>
      (0 < limit \<and> (\<forall>rq \<in> set rqs. rq_limit rq = limit) \<and> used_of ?k d1 \<le> limit \<longrightarrow> used_of ?k d' \<le> limit) \<and> counters_wf d'"
    using Cons.prems(3) by (intro Cons.IH [OF rs'(1) eff(1)]) simp
  moreover have "accepted_total (rq # rqs) rs = (if was_accepted r then rq_quantity rq else 0) + accepted_total rqs rs'"
    by (simp add: accepted_total_def rs'(2))
  moreover have "0 < limit \<and> rq_limit rq = limit \<and> used_of ?k d \<le> limit \<longrightarrow> used_of ?k d1 \<le> limit"
    using eff(2,3) by auto
  ultimately show ?case using eff(2) by auto
qed

definition demo_request :: "int \<Rightarrow> usage_request" where
  "demo_request q = \<lparr>rq_env = demo_env, rq_quantity = q, rq_limit = 10\<rparr>"

theorem usage_accounting_witness:
  "used_of (counter_key ''L'' ''api'' ''daily'' ''d'') (snd (run_usage ''L'' ''api'' ''daily'' ''d'' [demo_request 7, demo_request 7] demo_db)) \<le> 10"
proof -
  let ?rqs = "[demo_request 7, demo_request 7]"
  obtain rs d' where r: "run_usage ''L'' ''api'' ''daily'' ''d'' ?rqs demo_db = (rs, d')" by fastforce
  have "counters_wf demo_db" by (simp add: counters_wf_def)
  from usage_accounting [OF r this, of 10] r show ?thesis
    by (simp add: demo_request_def MaxInt64_def used_of_def select_one_def)
qed

text \<open>
  A request is refused only over its limit. On a reachable database, for a licence that is
  there, an increment is accepted exactly when it does not overflow the counter and the limit is
  none or the sum stays within it.
\<close>

theorem usage_accepted_iff:
  assumes "counters_wf d" and "\<not> db_fault d" and "license_row d lid \<noteq> None" and "0 < q" "q \<le> MaxInt64"
  shows "was_accepted (fst (IncrementUsageCounterWithLimit e lid f p pk q limit d)) \<longleftrightarrow>
         used_of (counter_key lid f p pk) d + q \<le> MaxInt64 \<and>
         (limit \<le> 0 \<or> used_of (counter_key lid f p pk) d + q \<le> limit)"
proof -
  let ?k = "counter_key lid f p pk"
  obtain d1 where d1: "ensure_counter e lid f p pk d = Inr d1"
    using assms(3) by (cases "exists_where ?k (db_usage_counters d)") (auto simp: ensure_counter_def)
  from ensure_counter_used [OF d1 assms(1)] obtain c where
    c: "select_one ?k (db_usage_counters d1) = Some c" "uc_Used c = used_of ?k d" and wf: "counters_wf d1" by blast
  have b: "0 \<le> uc_Used c" "uc_Used c \<le> MaxInt64"
    using select_one_SomeD [OF c(1)] wf by (auto simp: counters_wf_def)
  have w: "wrap64 (MaxInt64 - uc_Used c) = MaxInt64 - uc_Used c" using b by (simp add: MaxInt64_def)
  have w2: "uc_Used c + q \<le> MaxInt64 \<Longrightarrow> wrap64 (uc_Used c + q) = uc_Used c + q" using b assms(4) by (simp add: MaxInt64_def)
  have m: "- (2 ^ 63) \<le> uc_Used c + q" using b assms(4) by simp
  show ?thesis
  proof (cases "uc_Used c + q \<le> MaxInt64")
    case True
    with w2 m show ?thesis
      using assms(2) d1 c w by (auto simp: IncrementUsageCounterWithLimit_def Let_def was_accepted_def)
  next
    case False
    then show ?thesis using assms(2) d1 c w by (auto simp: IncrementUsageCounterWithLimit_def Let_def was_accepted_def)
  qed
qed

theorem usage_accepted_iff_witness:
  "was_accepted (fst (IncrementUsageCounterWithLimit demo_env ''L'' ''api'' ''daily'' ''d'' 7 10 demo_db)) \<and>
   \<not> was_accepted (fst (IncrementUsageCounterWithLimit demo_env ''L'' ''api'' ''daily'' ''d'' 11 10 demo_db))"
proof -
  have wf: "counters_wf demo_db" by (simp add: counters_wf_def)
  have u: "used_of k demo_db = 0" for k by (simp add: used_of_def select_one_def)
  show ?thesis
    using usage_accepted_iff [OF wf, of "''L''" 7 demo_env "''api''" "''daily''" "''d''" 10]
      usage_accepted_iff [OF wf, of "''L''" 11 demo_env "''api''" "''daily''" "''d''" 10]
    by (simp add: u license_row_demo MaxInt64_def)
qed

text \<open>What is left of a quota: never negative, and -1 only when there is none.\<close>

lemma quotaRemaining_range:
  assumes "0 \<le> limit" "limit \<le> MaxInt64" "0 \<le> used" "used \<le> MaxInt64"
  shows "quotaRemaining limit used = -1 \<longleftrightarrow> limit = 0" "limit > 0 \<Longrightarrow> quotaRemaining limit used = max (limit - used) 0"
  using assms by (auto simp: quotaRemaining_def MaxInt64_def)

end
