(* ===== verification/KG_Features.thy ===== *)
theory KG_Features
  imports KG_Store
begin

text \<open>
  What a licence's plan and addons grant: \<^verbatim>\<open>internal/store/addons.go\<close> and
  \<^verbatim>\<open>internal/service/license_features.go\<close>. \<open>LicenseFeatures\<close> merges them with a list and an
  index by feature, as the code does; the reference it is shown to implement says, feature by
  feature, which value holds.
\<close>

section \<open>Addons of a licence\<close>

definition AddLicenseAddon :: "env \<Rightarrow> LicenseAddon \<Rightarrow> db \<Rightarrow> bool result \<times> LicenseAddon \<times> db" where
  "AddLicenseAddon e la d =
     (let la = (if la_ID la = '''' then la\<lparr>la_ID := env_newID e 0\<rparr> else la);
          same = (\<lambda>x. la_LicenseID x = la_LicenseID la \<and> la_AddonID x = la_AddonID la) in
      if db_fault d then (Inl ErrDB, la, d)
      else case select_one (\<lambda>a. addon_ID a = la_AddonID la) (db_addons d) of
        None \<Rightarrow> (Inl ErrNoRows, la, d)
      | Some a \<Rightarrow>
          if \<not> addon_Active a then
            (case select_one (\<lambda>x. same x \<and> la_Enabled x) (db_license_addons d) of
               None \<Rightarrow> (Inl ErrAddonInactive, la, d)
             | Some row \<Rightarrow> (Inr (la_ID row = la_ID la), row, d))
          else
            (case select_one same (db_license_addons d) of
               Some row \<Rightarrow>
                 (Inr (la_ID row = la_ID la), row\<lparr>la_Enabled := la_Enabled la\<rparr>,
                  d\<lparr>db_license_addons := update_where same (\<lambda>x. x\<lparr>la_Enabled := la_Enabled la\<rparr>) (db_license_addons d)\<rparr>)
             | None \<Rightarrow>
                 let row = la\<lparr>la_CreatedAt := (if la_CreatedAt la = time_zero then env_dbnow e else la_CreatedAt la)\<rparr> in
                 if exists_where (\<lambda>x. la_ID x = la_ID la) (db_license_addons d) \<or> license_row d (la_LicenseID la) = None
                 then (Inl ErrDB, la, d)
                 else (Inr True, row, d\<lparr>db_license_addons := db_license_addons d @ [row]\<rparr>)))"

definition RemoveLicenseAddon :: "string \<Rightarrow> string \<Rightarrow> db \<Rightarrow> unit result \<times> db" where
  "RemoveLicenseAddon licenseID addonID d =
     (let same = (\<lambda>x. la_LicenseID x = licenseID \<and> la_AddonID x = addonID) in
      if db_fault d then (Inl ErrDB, d)
      else (if count_where same (db_license_addons d) = 0 then Inl ErrNoRows else Inr (),
            d\<lparr>db_license_addons := delete_where same (db_license_addons d)\<rparr>))"

text \<open>
  The enabled addons in \<^verbatim>\<open>created_at, id\<close> order with the addon's row loaded, on the page
  \<^verbatim>\<open>store.All\<close>, which is all of them.
\<close>

definition ListLicenseAddons :: "string \<Rightarrow> db \<Rightarrow> LicenseAddon list result" where
  "ListLicenseAddons licenseID d =
     (if db_fault d then Inl ErrDB
      else Inr (map (\<lambda>x. x\<lparr>la_Addon := select_one (\<lambda>a. addon_ID a = la_AddonID x) (db_addons d)\<rparr>)
        (sort_key (\<lambda>x. JoinKey (la_CreatedAt x) (la_ID x))
          (filter (\<lambda>x. la_LicenseID x = licenseID \<and> la_Enabled x) (db_license_addons d)))))"

section \<open>The features a licence has\<close>

type_synonym feature_index = "(string \<rightharpoonup> nat) \<times> Entitlement list"

definition addon_entitlement :: "Addon \<Rightarrow> Entitlement" where
  "addon_entitlement a = zero_Entitlement\<lparr>ent_Feature := addon_Feature a, ent_ValueType := addon_ValueType a,
     ent_Value := addon_Value a, ent_QuotaPeriod := addon_QuotaPeriod a, ent_QuotaUnit := addon_QuotaUnit a\<rparr>"

definition index_plan_feature :: "Entitlement \<Rightarrow> feature_index \<Rightarrow> feature_index" where
  "index_plan_feature en = (\<lambda>(index, out). (index(ent_Feature en \<mapsto> length out), out @ [en]))"

text \<open>An addon over a feature the list already has keeps that entry's plan, meter and (unless it has its own) unit.\<close>

definition override_feature :: "Entitlement \<Rightarrow> Addon \<Rightarrow> Entitlement" where
  "override_feature cur a =
     (let en = addon_entitlement a
      in en\<lparr>ent_PlanID := ent_PlanID cur, ent_StripeMeterEventName := ent_StripeMeterEventName cur,
            ent_QuotaUnit := (if ent_QuotaUnit en = '''' then ent_QuotaUnit cur else ent_QuotaUnit en)\<rparr>)"

definition merge_addon :: "string \<Rightarrow> LicenseAddon \<Rightarrow> feature_index \<Rightarrow> feature_index" where
  "merge_addon productID la = (\<lambda>(index, out).
     case la_Addon la of
       None \<Rightarrow> (index, out)
     | Some a \<Rightarrow>
         if addon_ProductID a \<noteq> productID then (index, out)
         else case index (addon_Feature a) of
           Some i \<Rightarrow> (index, out[i := override_feature (out ! i) a])
         | None \<Rightarrow> (index(addon_Feature a \<mapsto> length out), out @ [addon_entitlement a]))"

text \<open>\<open>None\<close> for the store is the nil pointer: the plan's features alone.\<close>

definition LicenseFeatures :: "db option \<Rightarrow> License \<Rightarrow> Entitlement list result" where
  "LicenseFeatures st lic =
     (let plan = fold index_plan_feature (case lic_Plan lic of None \<Rightarrow> [] | Some p \<Rightarrow> plan_Entitlements p) (Map.empty, [])
      in case st of
           None \<Rightarrow> Inr (snd plan)
         | Some d \<Rightarrow>
             if lic_ID lic = '''' then Inr (snd plan)
             else case ListLicenseAddons (lic_ID lic) d of
               Inl err \<Rightarrow> Inl err
             | Inr addons \<Rightarrow> Inr (snd (fold (merge_addon (lic_ProductID lic)) addons plan)))"

datatype feature_value = FlagValue bool | TextValue string

definition featureEnabled :: "Entitlement \<Rightarrow> bool" where
  "featureEnabled en = (if ent_ValueType en = ''flag'' then ent_Value en \<noteq> ''false'' else ent_Value en = ''true'')"

definition featureValues :: "Entitlement list \<Rightarrow> (string \<rightharpoonup> feature_value)" where
  "featureValues ents = fold (\<lambda>en m.
     m(ent_Feature en \<mapsto> (if ent_ValueType en = ''bool'' \<or> ent_ValueType en = ''flag''
                           then FlagValue (featureEnabled en) else TextValue (ent_Value en)))) ents Map.empty"

section \<open>The reference\<close>

definition feature_of :: "string \<Rightarrow> Entitlement list \<Rightarrow> Entitlement option" where
  "feature_of f ents = List.find (\<lambda>en. ent_Feature en = f) ents"

text \<open>Feature by feature: the plan's entry, then each addon of the product for it, in order, over the one before.\<close>

definition granted :: "string \<Rightarrow> Entitlement option \<Rightarrow> LicenseAddon list \<Rightarrow> string \<Rightarrow> Entitlement option" where
  "granted productID plan_entry addons f =
     foldl (\<lambda>cur la. case la_Addon la of
        None \<Rightarrow> cur
      | Some a \<Rightarrow> if addon_ProductID a \<noteq> productID \<or> addon_Feature a \<noteq> f then cur
                  else Some (case cur of None \<Rightarrow> addon_entitlement a | Some c \<Rightarrow> override_feature c a))
       plan_entry addons"

definition index_ok :: "feature_index \<Rightarrow> bool" where
  "index_ok io \<longleftrightarrow> (case io of (index, out) \<Rightarrow>
     (\<forall>f i. index f = Some i \<longleftrightarrow> i < length out \<and> ent_Feature (out ! i) = f))"

lemma index_ok_distinct: "index_ok (index, out) \<Longrightarrow> distinct (map ent_Feature out)"
  by (auto simp: index_ok_def distinct_conv_nth) (metis option.inject)

lemma find_feature_iff:
  assumes "distinct (map ent_Feature out)"
  shows "feature_of f out = Some en \<longleftrightarrow> (\<exists>i < length out. out ! i = en \<and> ent_Feature en = f)"
proof
  assume "feature_of f out = Some en"
  then show "\<exists>i < length out. out ! i = en \<and> ent_Feature en = f" by (auto simp: feature_of_def find_Some_iff)
next
  assume "\<exists>i < length out. out ! i = en \<and> ent_Feature en = f"
  then have "en \<in> set out" "ent_Feature en = f" by auto
  then show "feature_of f out = Some en"
    using select_one_unique [OF assms, of en f] by (simp add: feature_of_def select_one_def)
qed

lemma index_ok_feature:
  assumes "index_ok (index, out)"
  shows "feature_of f out = map_option ((!) out) (index f)"
proof (cases "index f")
  case None
  with assms have "\<forall>i < length out. ent_Feature (out ! i) \<noteq> f" by (auto simp: index_ok_def) (metis option.distinct(1))
  then have "feature_of f out = None" by (auto simp: feature_of_def find_None_iff in_set_conv_nth)
  with None show ?thesis by simp
next
  case (Some i)
  with assms have "i < length out" "ent_Feature (out ! i) = f" by (auto simp: index_ok_def)
  with find_feature_iff [OF index_ok_distinct [OF assms]] Some show ?thesis by auto
qed

lemma override_feature_simps [simp]:
  "ent_Feature (override_feature c a) = addon_Feature a" "ent_Feature (addon_entitlement a) = addon_Feature a"
  "ent_StripeMeterEventName (override_feature c a) = ent_StripeMeterEventName c" "ent_PlanID (override_feature c a) = ent_PlanID c"
  by (simp_all add: override_feature_def addon_entitlement_def Let_def)

lemma merge_addon_ok:
  assumes "index_ok (index, out)" and "merge_addon pid la (index, out) = (index', out')"
  shows "index_ok (index', out') \<and> feature_of f out' = granted pid (feature_of f out) [la] f"
proof (cases "case la_Addon la of None \<Rightarrow> True | Some a \<Rightarrow> addon_ProductID a \<noteq> pid")
  case True
  with assms show ?thesis by (auto simp: merge_addon_def granted_def split: option.splits)
next
  case False
  then obtain a where a: "la_Addon la = Some a" "addon_ProductID a = pid" by (auto split: option.splits)
  show ?thesis
  proof (cases "index (addon_Feature a)")
    case None
    with assms(2) a have out': "index' = index(addon_Feature a \<mapsto> length out)" "out' = out @ [addon_entitlement a]"
      by (auto simp: merge_addon_def)
    have none: "feature_of (addon_Feature a) out = None" using index_ok_feature [OF assms(1), of "addon_Feature a"] None by simp
    have fresh: "ent_Feature (out ! i) \<noteq> addon_Feature a" if "i < length out" for i
      using assms(1) None that by (simp add: index_ok_def) (metis option.distinct(1))
    have "index_ok (index', out')"
      using assms(1) fresh unfolding out' index_ok_def by (auto simp: nth_append less_Suc_eq split: if_splits)
    moreover have "feature_of f (out @ [addon_entitlement a]) =
        (case feature_of f out of Some en \<Rightarrow> Some en | None \<Rightarrow> if addon_Feature a = f then Some (addon_entitlement a) else None)" for f
      unfolding feature_of_def by (induction out) auto
    ultimately show ?thesis using none a out' by (auto simp: granted_def split: option.splits)
  next
    case (Some i)
    with assms(2) a have out': "index' = index" "out' = out[i := override_feature (out ! i) a]"
      by (auto simp: merge_addon_def)
    have i: "i < length out" "ent_Feature (out ! i) = addon_Feature a" using assms(1) Some by (auto simp: index_ok_def)
    have ok: "index_ok (index', out')"
      using assms(1) i unfolding out' index_ok_def by (auto simp: nth_list_update)
    have "feature_of f out' = map_option ((!) out') (index f)" using index_ok_feature [OF ok [unfolded out'(1)]] .
    moreover have "feature_of f out = map_option ((!) out) (index f)" by (rule index_ok_feature [OF assms(1)])
    moreover have "index f = Some i \<longleftrightarrow> f = addon_Feature a" using assms(1) i Some by (auto simp: index_ok_def)
    ultimately show ?thesis
      using ok a i by (cases "index f") (auto simp: granted_def out'(2) nth_list_update)
  qed
qed

lemma granted_Cons: "granted pid cur (la # las) f = granted pid (granted pid cur [la] f) las f"
  by (simp add: granted_def)

lemma merge_addons_ok:
  assumes "index_ok (index, out)" and "fold (merge_addon pid) las (index, out) = (index', out')"
  shows "index_ok (index', out') \<and> feature_of f out' = granted pid (feature_of f out) las f"
  using assms
proof (induction las arbitrary: index out)
  case Nil
  then show ?case by (simp add: granted_def)
next
  case (Cons la las)
  obtain index1 out1 where m: "merge_addon pid la (index, out) = (index1, out1)" by fastforce
  with merge_addon_ok [OF Cons.prems(1) m] Cons.IH [of index1 out1] Cons.prems(2) granted_Cons [of pid _ la las f]
  show ?case by simp
qed

lemma index_plan_ok:
  assumes "distinct (map ent_Feature ents)"
  shows "index_ok (fold index_plan_feature ents (Map.empty, [])) \<and> snd (fold index_plan_feature ents (Map.empty, [])) = ents"
  using assms
proof (induction ents rule: rev_induct)
  case (snoc en ents)
  let ?io = "fold index_plan_feature ents (Map.empty, [])"
  obtain index where io: "?io = (index, ents)" using snoc by (cases ?io) auto
  with snoc have ok: "index_ok (index, ents)" and new: "ent_Feature en \<notin> ent_Feature ` set ents" by auto
  have "index_ok (index(ent_Feature en \<mapsto> length ents), ents @ [en])"
    using ok new unfolding index_ok_def
    by (auto simp: nth_append less_Suc_eq image_iff split: if_splits) (metis nth_mem)+
  moreover have "fold index_plan_feature (ents @ [en]) (Map.empty, []) = (index(ent_Feature en \<mapsto> length ents), ents @ [en])"
    by (simp add: io) (simp add: index_plan_feature_def)
  ultimately show ?case by (simp only: snd_conv simp_thms)
qed (simp add: index_ok_def)

section \<open>Properties\<close>

lemma granted_single:
  "\<exists>en1. granted pid (Some en) [la] f = Some en1 \<and> ent_StripeMeterEventName en1 = ent_StripeMeterEventName en"
  by (cases "la_Addon la"; cases "addon_ProductID (the (la_Addon la)) = pid \<and> addon_Feature (the (la_Addon la)) = f")
    (auto simp: granted_def)

lemma granted_meter:
  "granted pid (Some en) las f = Some en' \<Longrightarrow> ent_StripeMeterEventName en' = ent_StripeMeterEventName en"
proof (induction las arbitrary: en)
  case (Cons la las)
  obtain en1 where en1: "granted pid (Some en) [la] f = Some en1" "ent_StripeMeterEventName en1 = ent_StripeMeterEventName en"
    using granted_single by blast
  then show ?case using Cons.IH [of en1] Cons.prems granted_Cons [of pid "Some en" la las f] by simp
qed (simp add: granted_def)

lemma granted_Some: "\<exists>en'. granted pid (Some en) las f = Some en'"
proof (induction las arbitrary: en)
  case (Cons la las)
  obtain en1 where "granted pid (Some en) [la] f = Some en1" using granted_single by blast
  then show ?case using Cons.IH [of en1] granted_Cons [of pid "Some en" la las f] by simp
qed (simp add: granted_def)

text \<open>
  C18: the merged features are the reference. For a plan whose features are distinct, the list
  \<open>LicenseFeatures\<close> builds with its index has each feature once, and the entry of every feature
  is the plan's with the product's enabled addons laid over it in order; a feature of the plan is
  always there and keeps the plan's Stripe meter, whatever addons the licence has.
\<close>

theorem license_features_merge:
  assumes "LicenseFeatures (Some d) lic = Inr ents" and "lic_ID lic \<noteq> ''''"
    and "lic_Plan lic = Some p" and "distinct (map ent_Feature (plan_Entitlements p))"
  shows "\<exists>addons. ListLicenseAddons (lic_ID lic) d = Inr addons \<and> distinct (map ent_Feature ents) \<and>
           (\<forall>f. feature_of f ents = granted (lic_ProductID lic) (feature_of f (plan_Entitlements p)) addons f) \<and>
           (\<forall>en \<in> set (plan_Entitlements p). \<exists>en' \<in> set ents. ent_Feature en' = ent_Feature en \<and>
              ent_StripeMeterEventName en' = ent_StripeMeterEventName en)"
proof -
  let ?plan = "fold index_plan_feature (plan_Entitlements p) (Map.empty, [])"
  note ok = index_plan_ok [OF assms(4)]
  from assms(1,2,3) obtain addons where addons: "ListLicenseAddons (lic_ID lic) d = Inr addons"
    and ents: "ents = snd (fold (merge_addon (lic_ProductID lic)) addons ?plan)"
    by (auto simp: LicenseFeatures_def Let_def split: sum.splits)
  obtain index' where m: "fold (merge_addon (lic_ProductID lic)) addons (fst ?plan, plan_Entitlements p) = (index', ents)"
    using ents ok by (metis prod.collapse)
  have ok': "index_ok (fst ?plan, plan_Entitlements p)" using ok by (metis prod.collapse)
  note res = merge_addons_ok [OF ok' m]
  have "\<exists>en' \<in> set ents. ent_Feature en' = ent_Feature en \<and> ent_StripeMeterEventName en' = ent_StripeMeterEventName en"
    if en: "en \<in> set (plan_Entitlements p)" for en
  proof -
    have plan: "feature_of (ent_Feature en) (plan_Entitlements p) = Some en"
      using select_one_unique [OF assms(4) en refl] by (simp add: feature_of_def select_one_def)
    obtain en' where "granted (lic_ProductID lic) (Some en) addons (ent_Feature en) = Some en'" using granted_Some by blast
    then have "feature_of (ent_Feature en) ents = Some en'" "ent_StripeMeterEventName en' = ent_StripeMeterEventName en"
      using res plan granted_meter by auto
    then show ?thesis by (auto simp: feature_of_def find_Some_iff)
  qed
  with addons res index_ok_distinct show ?thesis by blast
qed

definition demo_feature :: Entitlement where
  "demo_feature = zero_Entitlement\<lparr>ent_Feature := ''api'', ent_ValueType := ''quota'', ent_Value := ''100'', ent_StripeMeterEventName := ''calls''\<rparr>"

definition demo_addon :: Addon where
  "demo_addon = zero_Addon\<lparr>addon_ID := ''AD'', addon_ProductID := ''P'', addon_Feature := ''api'', addon_ValueType := ''quota'', addon_Value := ''500''\<rparr>"

theorem license_features_merge_witness:
  "\<exists>ents. LicenseFeatures (Some (demo_db\<lparr>db_addons := [demo_addon],
       db_license_addons := [zero_LicenseAddon\<lparr>la_ID := ''x'', la_LicenseID := ''L'', la_AddonID := ''AD'', la_Enabled := True\<rparr>]\<rparr>))
     (demo_license\<lparr>lic_Plan := Some (demo_plan\<lparr>plan_Entitlements := [demo_feature]\<rparr>)\<rparr>) = Inr ents \<and>
     (\<exists>en' \<in> set ents. ent_StripeMeterEventName en' = ''calls'')"
proof -
  let ?d = "demo_db\<lparr>db_addons := [demo_addon],
       db_license_addons := [zero_LicenseAddon\<lparr>la_ID := ''x'', la_LicenseID := ''L'', la_AddonID := ''AD'', la_Enabled := True\<rparr>]\<rparr>"
  let ?lic = "demo_license\<lparr>lic_Plan := Some (demo_plan\<lparr>plan_Entitlements := [demo_feature]\<rparr>)\<rparr>"
  obtain ents where r: "LicenseFeatures (Some ?d) ?lic = Inr ents"
    by (simp add: LicenseFeatures_def ListLicenseAddons_def Let_def)
  from license_features_merge [OF r, of "demo_plan\<lparr>plan_Entitlements := [demo_feature]\<rparr>"] r show ?thesis
    by (auto simp: demo_feature_def)
qed

text \<open>A map filled from a list whose features are distinct.\<close>

lemma fold_feature_map:
  assumes "distinct (map ent_Feature ents)"
  shows "fold (\<lambda>en m. if P en then m(ent_Feature en \<mapsto> v en) else m) ents m f =
    (case List.find (\<lambda>en. ent_Feature en = f) ents of Some en \<Rightarrow> if P en then Some (v en) else m f | None \<Rightarrow> m f)"
  using assms
proof (induction ents arbitrary: m)
  case (Cons en ents)
  have "List.find (\<lambda>x. ent_Feature x = ent_Feature en) ents = None"
    using Cons.prems unfolding find_None_iff by (metis distinct.simps(2) image_eqI list.set_map list.simps(9))
  with Cons show ?case by (auto split: option.splits)
qed simp

text \<open>The value map of a token holds each feature's value once.\<close>

lemma featureValues_lookup:
  assumes "distinct (map ent_Feature ents)"
  shows "featureValues ents f = map_option (\<lambda>en. if ent_ValueType en = ''bool'' \<or> ent_ValueType en = ''flag''
           then FlagValue (featureEnabled en) else TextValue (ent_Value en)) (feature_of f ents)"
  unfolding featureValues_def feature_of_def
  by (cases "List.find (\<lambda>en. ent_Feature en = f) ents")
    (simp_all only: fold_feature_map [OF assms, of "\<lambda>_. True", unfolded if_True] option.case option.map)

end
