(* ===== verification/KG_Renewals.thy ===== *)
theory KG_Renewals
  imports KG_Store
begin

text \<open>
  The ledger of paid renewals of a perpetual licence's update period:
  \<^verbatim>\<open>ReplayRenewals\<close> and its helpers of \<^verbatim>\<open>internal/model/model.go\<close>, and the operations of
  \<^verbatim>\<open>internal/store/store.go\<close> that apply a renewal, record one refunded before it was applied,
  take a refunded one back out, and the admin's edit of the period. Every operation runs under
  the licence row lock and is one step; \<open>env_clock\<close> is the database clock read under that lock.
\<close>

section \<open>Replaying the ledger\<close>

definition RenewedUpdatesUntil :: "time option \<Rightarrow> time \<Rightarrow> int \<Rightarrow> time" where
  "RenewedUpdatesUntil current now days =
     time_add (case current of Some t \<Rightarrow> if t > now then t else now | None \<Rightarrow> now) (days_dur days)"

definition Counts :: "LicenseRenewal \<Rightarrow> bool" where
  "Counts r \<longleftrightarrow> ren_RefundedAt r = None \<and> ren_UpdatesUntil r \<noteq> None"

definition dur_abs :: "duration \<Rightarrow> duration" where
  "dur_abs x = (if x = - (2 ^ 63) then MaxInt64 else \<bar>x\<bar>)"

definition SameEnd :: "time option \<Rightarrow> time option \<Rightarrow> bool" where
  "SameEnd a b \<longleftrightarrow>
     (case (a, b) of
        (Some s, Some t) \<Rightarrow> dur_abs (time_sub s t) < Second
      | _ \<Rightarrow> a = None \<and> b = None)"

text \<open>What happened outside the ledger just before a row: a restart from its recorded end, or a shift.\<close>

record outside =
  out_restart :: bool
  out_shift :: duration

definition replay_row :: "(LicenseRenewal \<Rightarrow> bool) \<Rightarrow> time option \<Rightarrow> outside \<times> LicenseRenewal \<Rightarrow> time option" where
  "replay_row counts end' = (\<lambda>(o', r).
     (let end1 = (if out_restart o' then ren_PreviousUpdatesUntil r
                  else if out_shift o' \<noteq> 0 then map_option (\<lambda>t. time_add t (out_shift o')) end'
                  else end')
      in if ren_UpdatesUntil r \<noteq> None \<and> counts r
         then Some (RenewedUpdatesUntil end1 (ren_CreatedAt r) (ren_Days r)) else end1))"

definition replay_walk :: "outside list \<Rightarrow> LicenseRenewal list \<Rightarrow> nat \<Rightarrow> (LicenseRenewal \<Rightarrow> bool) \<Rightarrow> time option" where
  "replay_walk before renewals n counts = foldl (replay_row counts) None (zip (take n before) (take n renewals))"

definition in_effect_at :: "time \<Rightarrow> LicenseRenewal \<Rightarrow> bool" where
  "in_effect_at t p \<longleftrightarrow> (case ren_RefundedAt p of None \<Rightarrow> True | Some at \<Rightarrow> \<not> at < t)"

text \<open>The loop over the rows; the entries before the current row are the ones decided so far.\<close>

definition replay_before :: "LicenseRenewal list \<Rightarrow> outside list \<Rightarrow> LicenseRenewal \<Rightarrow> outside list" where
  "replay_before renewals before r =
     (let i = length before;
          predicted = replay_walk before renewals i (in_effect_at (ren_CreatedAt r)) in
      before @ [
        if i = 0 then \<lparr>out_restart = True, out_shift = 0\<rparr>
        else if SameEnd (ren_PreviousUpdatesUntil r) predicted then \<lparr>out_restart = False, out_shift = 0\<rparr>
        else case (ren_PreviousUpdatesUntil r, predicted) of
          (Some p, Some q) \<Rightarrow> \<lparr>out_restart = False, out_shift = time_sub p q\<rparr>
        | _ \<Rightarrow> \<lparr>out_restart = True, out_shift = 0\<rparr>])"

definition ReplayRenewals :: "LicenseRenewal list \<Rightarrow> time option" where
  "ReplayRenewals renewals =
     replay_walk (foldl (replay_before renewals) [] renewals) renewals (length renewals) (\<lambda>p. ren_RefundedAt p = None)"

section \<open>Operations on the ledger\<close>

definition set_updates_until :: "env \<Rightarrow> string \<Rightarrow> time option \<Rightarrow> License list \<Rightarrow> License list" where
  "set_updates_until e lid v = update_where (\<lambda>l. lic_ID l = lid) (\<lambda>l. l\<lparr>lic_UpdatesUntil := v, lic_UpdatedAt := env_dbnow e\<rparr>)"

text \<open>The primary key and the unique index on the checkout session refuse a second row.\<close>

definition renewal_conflicts :: "LicenseRenewal \<Rightarrow> db \<Rightarrow> bool" where
  "renewal_conflicts r d \<longleftrightarrow> exists_where (\<lambda>x. ren_ID x = ren_ID r \<or>
     (ren_StripeCheckoutSessionID r \<noteq> '''' \<and> ren_StripeCheckoutSessionID x = ren_StripeCheckoutSessionID r)) (db_renewals d)"

definition renewal_conflict :: "LicenseRenewal \<Rightarrow> db \<Rightarrow> error" where
  "renewal_conflict r d =
     (if exists_where (\<lambda>x. ren_ID x = ren_ID r) (db_renewals d) then ErrDB else ErrRenewalSessionConflict)"

definition ApplyLicenseRenewalIn :: "env \<Rightarrow> LicenseRenewal \<Rightarrow> db \<Rightarrow> unit result \<times> LicenseRenewal \<times> db" where
  "ApplyLicenseRenewalIn e r d =
     (let r = (if ren_ID r = '''' then r\<lparr>ren_ID := env_newID e 0\<rparr> else r) in
      if db_fault d then (Inl ErrDB, r, d)
      else case license_row d (ren_LicenseID r) of
        None \<Rightarrow> (Inl ErrNoRows, r, d)
      | Some lic \<Rightarrow>
          let now = env_clock e; r = r\<lparr>ren_CreatedAt := now\<rparr> in
          case plan_of d lic of
            None \<Rightarrow> (Inl ErrNoRows, r, d)
          | Some pl \<Rightarrow>
              if lic_UpdatesUntil lic = None \<or> plan_LicenseType pl \<noteq> ''perpetual'' \<or> lic_Status lic \<noteq> StatusActive
              then (Inl ErrRenewalIneligible, r, d)
              else
                let r = r\<lparr>ren_PreviousUpdatesUntil := lic_UpdatesUntil lic,
                          ren_UpdatesUntil := Some (RenewedUpdatesUntil (lic_UpdatesUntil lic) now (ren_Days r))\<rparr> in
                if renewal_conflicts r d then (Inl (renewal_conflict r d), r, d)
                else (Inr (), r, d\<lparr>db_renewals := db_renewals d @ [r],
                        db_licenses := set_updates_until e (ren_LicenseID r) (ren_UpdatesUntil r) (db_licenses d)\<rparr>))"

definition RecordRefundedRenewalIn :: "env \<Rightarrow> LicenseRenewal \<Rightarrow> db \<Rightarrow> unit result \<times> LicenseRenewal \<times> db" where
  "RecordRefundedRenewalIn e r d =
     (let r = (if ren_ID r = '''' then r\<lparr>ren_ID := env_newID e 0\<rparr> else r) in
      if db_fault d then (Inl ErrDB, r, d)
      else case license_row d (ren_LicenseID r) of
        None \<Rightarrow> (Inl ErrNoRows, r, d)
      | Some lic \<Rightarrow>
          let r = r\<lparr>ren_PreviousUpdatesUntil := lic_UpdatesUntil lic, ren_CreatedAt := env_clock e,
                    ren_RefundedAt := Some (env_clock e), ren_UpdatesUntil := None\<rparr> in
          if renewal_conflicts r d then (Inl (renewal_conflict r d), r, d)
          else (Inr (), r, d\<lparr>db_renewals := db_renewals d @ [r]\<rparr>))"

text \<open>The current period's rows of a licence, in the order \<^verbatim>\<open>created_at ASC, id ASC\<close>.\<close>

definition ledger_rows :: "string \<Rightarrow> db \<Rightarrow> LicenseRenewal list" where
  "ledger_rows lid d = filter (\<lambda>x. ren_LicenseID x = lid \<and> ren_SupersededAt x = None) (db_renewals d)"

definition ledger :: "string \<Rightarrow> db \<Rightarrow> LicenseRenewal list" where
  "ledger lid d = sort_key (\<lambda>x. JoinKey (ren_CreatedAt x) (ren_ID x)) (ledger_rows lid d)"

definition mark_refunded :: "string \<Rightarrow> time \<Rightarrow> LicenseRenewal list \<Rightarrow> LicenseRenewal list" where
  "mark_refunded rid now = update_where (\<lambda>x. ren_ID x = rid) (\<lambda>x. x\<lparr>ren_RefundedAt := Some now\<rparr>)"

definition reverted_end :: "time \<Rightarrow> LicenseRenewal \<Rightarrow> LicenseRenewal list \<Rightarrow> time \<Rightarrow> time" where
  "reverted_end now r rows current =
     (case (ReplayRenewals rows, ReplayRenewals (mark_refunded (ren_ID r) now rows)) of
        (Some predicted, Some without) \<Rightarrow> time_add without (time_sub current predicted)
      | _ \<Rightarrow> time_add current (days_dur (- ren_Days r)))"

definition RevertLicenseRenewalIn :: "env \<Rightarrow> LicenseRenewal \<Rightarrow> db \<Rightarrow> unit result \<times> LicenseRenewal \<times> db" where
  "RevertLicenseRenewalIn e r d =
     (if ren_RefundedAt r \<noteq> None then (Inr (), r, d)
      else if db_fault d then (Inl ErrDB, r, d)
      else case license_row d (ren_LicenseID r) of
        None \<Rightarrow> (Inl ErrNoRows, r, d)
      | Some lic \<Rightarrow>
          (case select_one (\<lambda>x. ren_ID x = ren_ID r) (db_renewals d) of
             None \<Rightarrow> (Inl ErrNoRows, r, d)
           | Some r \<Rightarrow>
               if ren_RefundedAt r \<noteq> None then (Inr (), r, d)
               else
                 let now = env_clock e;
                     rows = ledger (ren_LicenseID r) d;
                     licenses = (case lic_UpdatesUntil lic of
                        None \<Rightarrow> db_licenses d
                      | Some current \<Rightarrow>
                          if ren_UpdatesUntil r \<noteq> None \<and> ren_SupersededAt r = None
                          then set_updates_until e (ren_LicenseID r) (Some (reverted_end now r rows current)) (db_licenses d)
                          else db_licenses d)
                 in (Inr (), r\<lparr>ren_RefundedAt := Some now\<rparr>,
                     d\<lparr>db_licenses := licenses,
                       db_renewals := update_where (\<lambda>x. ren_ID x = ren_ID r \<and> ren_RefundedAt x = None)
                         (\<lambda>x. x\<lparr>ren_RefundedAt := Some now\<rparr>) (db_renewals d)\<rparr>)))"

definition supersede_renewals :: "env \<Rightarrow> string \<Rightarrow> LicenseRenewal list \<Rightarrow> LicenseRenewal list" where
  "supersede_renewals e lid = update_where (\<lambda>x. ren_LicenseID x = lid \<and> ren_SupersededAt x = None)
     (\<lambda>x. x\<lparr>ren_SupersededAt := Some (env_dbnow e)\<rparr>)"

definition SetLicenseUpdatesUntilIn ::
  "env \<Rightarrow> string \<Rightarrow> time option \<Rightarrow> time option \<Rightarrow> bool \<Rightarrow> db \<Rightarrow> bool result \<times> db" where
  "SetLicenseUpdatesUntilIn e licenseID expected next supersede d =
     (if db_fault d then (Inl ErrDB, d)
      else case license_row d licenseID of
        None \<Rightarrow> (Inl ErrNoRows, d)
      | Some lic \<Rightarrow>
          if \<not> SameEnd (lic_UpdatesUntil lic) expected then (Inr False, d)
          else (Inr True, d\<lparr>
            db_licenses := update_where (\<lambda>l. lic_ID l = licenseID)
              (\<lambda>l. l\<lparr>lic_UpdatesUntil := next, lic_UpdatesTermsSet := True, lic_UpdatedAt := env_dbnow e\<rparr>) (db_licenses d),
            db_renewals := (if supersede then supersede_renewals e licenseID (db_renewals d) else db_renewals d)\<rparr>))"

section \<open>What the ledger should come to\<close>

text \<open>
  The end of the period as if only the given renewals had ever been bought: each one, in order,
  on top of the end the ones before it left.
\<close>

definition bought :: "time \<Rightarrow> LicenseRenewal list \<Rightarrow> time" where
  "bought u rows = foldl (\<lambda>u r. RenewedUpdatesUntil (Some u) (ren_CreatedAt r) (ren_Days r)) u rows"

definition applied_rows :: "(LicenseRenewal \<Rightarrow> bool) \<Rightarrow> LicenseRenewal list \<Rightarrow> LicenseRenewal list" where
  "applied_rows counts rows = filter (\<lambda>r. ren_UpdatesUntil r \<noteq> None \<and> counts r) rows"

text \<open>A ledger nobody edited around: every row recorded the end the rows in effect then gave.\<close>

definition unedited :: "time \<Rightarrow> LicenseRenewal list \<Rightarrow> bool" where
  "unedited u rows \<longleftrightarrow> (\<forall>i < length rows.
     ren_PreviousUpdatesUntil (rows ! i) = Some (bought u (applied_rows (in_effect_at (ren_CreatedAt (rows ! i))) (take i rows))))"

lemma unedited_snoc:
  "unedited u (rows @ [r]) \<longleftrightarrow> unedited u rows \<and>
     ren_PreviousUpdatesUntil r = Some (bought u (applied_rows (in_effect_at (ren_CreatedAt r)) rows))"
  by (auto simp: unedited_def nth_append less_Suc_eq)

lemma SameEnd_refl [simp]: "SameEnd a a"
  by (cases a) (simp_all add: SameEnd_def time_sub_def dur_abs_def MaxInt64_def Second_def)

abbreviation plain_row :: outside where
  "plain_row \<equiv> \<lparr>out_restart = False, out_shift = 0\<rparr>"

abbreviation first_row :: outside where
  "first_row \<equiv> \<lparr>out_restart = True, out_shift = 0\<rparr>"

lemma walk_plain_rows:
  "foldl (replay_row counts) (Some u) (zip (replicate (length rows) plain_row) rows) = Some (bought u (applied_rows counts rows))"
  by (induction rows arbitrary: u) (simp_all add: bought_def applied_rows_def replay_row_def)

lemma replay_walk_unedited:
  assumes "unedited u (r # rows)"
  shows "replay_walk (first_row # replicate (length rows) plain_row) (r # rows @ later) (Suc (length rows)) counts
         = Some (bought u (applied_rows counts (r # rows)))"
proof -
  have "ren_PreviousUpdatesUntil r = Some u"
    using assms by (force simp: unedited_def bought_def applied_rows_def)
  then have first: "replay_row counts None (first_row, r) = Some (bought u (applied_rows counts [r]))"
    by (simp add: replay_row_def applied_rows_def bought_def)
  have "bought (bought u (applied_rows counts [r])) (applied_rows counts rows) = bought u (applied_rows counts (r # rows))"
    by (simp add: bought_def applied_rows_def)
  with first walk_plain_rows show ?thesis by (simp add: replay_walk_def)
qed

lemma replay_before_unedited:
  assumes "unedited u (r # rows)"
  shows "foldl (replay_before (r # rows @ later)) [] (r # rows) = first_row # replicate (length rows) plain_row"
  using assms
proof (induction rows arbitrary: later rule: rev_induct)
  case Nil
  show ?case by (simp add: replay_before_def Let_def)
next
  case (snoc x rows)
  from snoc.prems have un: "unedited u (r # rows)"
    and x: "ren_PreviousUpdatesUntil x = Some (bought u (applied_rows (in_effect_at (ren_CreatedAt x)) (r # rows)))"
    using unedited_snoc [of u "r # rows" x] by auto
  have "foldl (replay_before (r # rows @ x # later)) [] (r # rows @ [x]) =
        replay_before (r # rows @ x # later) (first_row # replicate (length rows) plain_row) x"
    using snoc.IH [OF un, of "x # later"] by simp
  also have "\<dots> = first_row # replicate (length rows) plain_row @ [plain_row]"
    using replay_walk_unedited [OF un, of "x # later" "in_effect_at (ren_CreatedAt x)"] x
    by (simp add: replay_before_def Let_def)
  finally show ?case by (simp add: replicate_append_same)
qed

text \<open>On an unedited ledger the replay is the walk of every row without the refunded ones.\<close>

lemma ReplayRenewals_unedited:
  assumes "unedited u rows" and "rows \<noteq> []"
  shows "ReplayRenewals rows = Some (bought u (filter Counts rows))"
proof -
  obtain r rest where rows: "rows = r # rest" using assms(2) by (cases rows) auto
  have "applied_rows (\<lambda>p. ren_RefundedAt p = None) rows = filter Counts rows"
    by (auto simp: applied_rows_def Counts_def intro: filter_cong)
  with replay_walk_unedited [of u r rest "[]"] replay_before_unedited [of u r rest "[]"] assms(1)
  show ?thesis by (simp add: ReplayRenewals_def rows)
qed

section \<open>The ledger through its operations\<close>

text \<open>
  Every row was stamped, and refunded, no later than \<open>t\<close>, in the order the rows are stored; the
  ledger is unedited and the licence has the end its rows come to.
\<close>

definition stamped :: "time \<Rightarrow> LicenseRenewal list \<Rightarrow> bool" where
  "stamped t rows \<longleftrightarrow> sorted_wrt (\<lambda>a b. ren_CreatedAt a < ren_CreatedAt b) rows \<and>
     (\<forall>r \<in> set rows. ren_CreatedAt r \<le> t \<and> (\<forall>at. ren_RefundedAt r = Some at \<longrightarrow> at \<le> t))"

definition ledger_inv :: "string \<Rightarrow> time \<Rightarrow> time \<times> db \<Rightarrow> bool" where
  "ledger_inv lid u s \<longleftrightarrow> (case s of (t, d) \<Rightarrow>
     distinct (map lic_ID (db_licenses d)) \<and> distinct (map ren_ID (db_renewals d)) \<and>
     stamped t (ledger_rows lid d) \<and> unedited u (ledger_rows lid d) \<and>
     (\<exists>l. license_row d lid = Some l \<and> lic_UpdatesUntil l = Some (bought u (filter Counts (ledger_rows lid d)))))"

lemma sorted_by_stamp: "stamped t (ledger_rows lid d) \<Longrightarrow> ledger lid d = ledger_rows lid d"
proof -
  assume "stamped t (ledger_rows lid d)"
  then have "sorted_wrt (\<lambda>a b. JoinKey (ren_CreatedAt a) (ren_ID a) \<le> JoinKey (ren_CreatedAt b) (ren_ID b)) (ledger_rows lid d)"
    unfolding stamped_def by (auto simp: less_eq_join_key_def elim: sorted_wrt_mono_rel [rotated])
  then show ?thesis by (simp add: ledger_def sort_key_id_if_sorted sorted_map)
qed

lemma stamped_mono: "stamped t rows \<Longrightarrow> t \<le> t' \<Longrightarrow> stamped t' rows"
  by (force simp: stamped_def)

lemma stamped_snoc:
  assumes "stamped t rows" "t < ren_CreatedAt r" "ren_RefundedAt r = None \<or> ren_RefundedAt r = Some (ren_CreatedAt r)"
  shows "stamped (ren_CreatedAt r) (rows @ [r])"
  using assms by (force simp: stamped_def sorted_wrt_append)

text \<open>Right after the last stamp, what is in effect is what counts.\<close>

lemma in_effect_now:
  "stamped t rows \<Longrightarrow> t < now \<Longrightarrow> applied_rows (in_effect_at now) rows = filter Counts rows"
  unfolding applied_rows_def stamped_def
  by (rule filter_cong) (auto simp: Counts_def in_effect_at_def split: option.splits)

text \<open>A refund stamped after every purchase leaves what each purchase saw.\<close>

lemma unedited_mark:
  assumes "unedited u rows" and "\<forall>r \<in> set rows. ren_CreatedAt r \<le> now"
    and "\<forall>r \<in> set rows. ren_ID r = rid \<longrightarrow> ren_RefundedAt r = None"
  shows "unedited u (mark_refunded rid now rows)"
  using assms
proof (induction rows rule: rev_induct)
  case (snoc r rows)
  have same: "in_effect_at (ren_CreatedAt r) (if ren_ID x = rid then x\<lparr>ren_RefundedAt := Some now\<rparr> else x)
      = in_effect_at (ren_CreatedAt r) x" if "x \<in> set rows" for x
    using snoc.prems(2,3) that by (auto simp: in_effect_at_def)
  have "bought v (applied_rows (in_effect_at (ren_CreatedAt r)) (mark_refunded rid now xs)) =
        bought v (applied_rows (in_effect_at (ren_CreatedAt r)) xs)" if "set xs \<subseteq> set rows" for v xs
    using that
  proof (induction xs arbitrary: v)
    case (Cons x xs)
    then show ?case using same [of x] by (auto simp: bought_def applied_rows_def mark_refunded_def update_where_def)
  qed (simp add: mark_refunded_def update_where_def)
  from this [of rows u] snoc show ?case
    by (auto simp: unedited_snoc mark_refunded_def update_where_def)
qed (simp add: unedited_def mark_refunded_def update_where_def)

text \<open>
  One step of the life of a licence's ledger, with the clock it leaves behind: a renewal paid for,
  one refunded before it was applied, a refund, each stamped after everything before it, and
  anything else that leaves the ledger and the licence's update period alone.
\<close>

inductive renewal_step :: "string \<Rightarrow> time \<times> db \<Rightarrow> time \<times> db \<Rightarrow> bool" for lid where
  apply_renewal: "t < env_clock e \<Longrightarrow> ren_RefundedAt r = None \<Longrightarrow> ren_SupersededAt r = None \<Longrightarrow>
    ApplyLicenseRenewalIn e r d = (res, r', d') \<Longrightarrow> renewal_step lid (t, d) (env_clock e, d')"
| record_refunded: "t < env_clock e \<Longrightarrow> ren_SupersededAt r = None \<Longrightarrow>
    RecordRefundedRenewalIn e r d = (res, r', d') \<Longrightarrow> renewal_step lid (t, d) (env_clock e, d')"
| revert: "t < env_clock e \<Longrightarrow> \<forall>x \<in> set (db_renewals d). ren_ID x = ren_ID r \<longrightarrow> ren_LicenseID x = ren_LicenseID r \<Longrightarrow>
    RevertLicenseRenewalIn e r d = (res, r', d') \<Longrightarrow> renewal_step lid (t, d) (env_clock e, d')"
| elsewhere: "db_renewals d' = db_renewals d \<Longrightarrow> distinct (map lic_ID (db_licenses d')) \<Longrightarrow> license_row d' lid = Some l' \<Longrightarrow>
    map_option lic_UpdatesUntil (license_row d lid) = Some (lic_UpdatesUntil l') \<Longrightarrow> t \<le> t' \<Longrightarrow> renewal_step lid (t, d) (t', d')"

lemma row_set_updates:
  "select_one (\<lambda>l. lic_ID l = lid) (set_updates_until e x v ls) =
     map_option (\<lambda>l. if lid = x then l\<lparr>lic_UpdatesUntil := v, lic_UpdatedAt := env_dbnow e\<rparr> else l)
       (select_one (\<lambda>l. lic_ID l = lid) ls)"
  unfolding set_updates_until_def select_one_def update_where_def by (induction ls) auto

lemma ids_set_updates [simp]: "map lic_ID (set_updates_until e x v ls) = map lic_ID ls"
  by (simp add: set_updates_until_def map_update_where)

lemma ledger_inv_append:
  assumes inv: "ledger_inv lid u (t, d)" and "t < ren_CreatedAt r" and "ren_ID r \<notin> ren_ID ` set (db_renewals d)"
    and "ren_SupersededAt r = None" and "ren_RefundedAt r = None \<or> ren_RefundedAt r = Some (ren_CreatedAt r)"
    and row: "license_row d (ren_LicenseID r) = Some l" and prev: "ren_PreviousUpdatesUntil r = lic_UpdatesUntil l"
    and now: "Counts r \<Longrightarrow> lic_UpdatesUntil l \<noteq> None \<and>
       ls = set_updates_until e (ren_LicenseID r) (Some (RenewedUpdatesUntil (lic_UpdatesUntil l) (ren_CreatedAt r) (ren_Days r))) (db_licenses d)"
    and nothing_else: "\<not> Counts r \<Longrightarrow> ls = db_licenses d"
  shows "ledger_inv lid u (ren_CreatedAt r, d\<lparr>db_renewals := db_renewals d @ [r], db_licenses := ls\<rparr>)"
proof -
  let ?d = "d\<lparr>db_renewals := db_renewals d @ [r], db_licenses := ls\<rparr>" and ?L = "ledger_rows lid d"
  from inv obtain l0 where l0: "license_row d lid = Some l0" "lic_UpdatesUntil l0 = Some (bought u (filter Counts ?L))"
    and ids: "distinct (map lic_ID (db_licenses d))" "distinct (map ren_ID (db_renewals d))"
    and st: "stamped t ?L" and un: "unedited u ?L"
    by (auto simp: ledger_inv_def)
  have ids': "distinct (map lic_ID ls)" using ids now nothing_else by (cases "Counts r") auto
  have rows: "ledger_rows lid ?d = (if ren_LicenseID r = lid then ?L @ [r] else ?L)"
    using assms(4) by (simp add: ledger_rows_def)
  have st': "stamped (ren_CreatedAt r) (ledger_rows lid ?d)"
    using stamped_snoc [OF st assms(2,5)] stamped_mono [OF st, of "ren_CreatedAt r"] assms(2) by (simp add: rows)
  have eff: "applied_rows (in_effect_at (ren_CreatedAt r)) ?L = filter Counts ?L"
    by (rule in_effect_now [OF st assms(2)])
  have un': "unedited u (ledger_rows lid ?d)"
    using un row l0 prev eff by (auto simp: rows unedited_snoc)
  have end': "\<exists>l'. license_row ?d lid = Some l' \<and> lic_UpdatesUntil l' = Some (bought u (filter Counts (ledger_rows lid ?d)))"
  proof (cases "Counts r")
    case True
    with now have "ls = set_updates_until e (ren_LicenseID r) (Some (RenewedUpdatesUntil (lic_UpdatesUntil l) (ren_CreatedAt r) (ren_Days r))) (db_licenses d)"
      by simp
    with True l0 row show ?thesis
      unfolding rows by (auto simp: license_row_def row_set_updates bought_def)
  next
    case False
    with nothing_else l0 show ?thesis unfolding rows by (auto simp: license_row_def)
  qed
  show ?thesis using ids ids' assms(3) st' un' end' by (simp add: ledger_inv_def)
qed

lemma ledger_inv_wait: "ledger_inv lid u (t, d) \<Longrightarrow> t \<le> t' \<Longrightarrow> ledger_inv lid u (t', d)"
  by (auto simp: ledger_inv_def intro: stamped_mono)

lemma ApplyLicenseRenewalIn_inv:
  assumes inv: "ledger_inv lid u (t, d)" and "t < env_clock e" "ren_RefundedAt r = None" "ren_SupersededAt r = None"
    and step: "ApplyLicenseRenewalIn e r d = (res, r', d')"
  shows "ledger_inv lid u (env_clock e, d')"
proof (cases "d' = d")
  case True
  with ledger_inv_wait [OF inv] assms(2) show ?thesis by simp
next
  case False
  define r0 where "r0 = (if ren_ID r = '''' then r\<lparr>ren_ID := env_newID e 0\<rparr> else r)"
  have r0: "ren_LicenseID r0 = ren_LicenseID r" "ren_RefundedAt r0 = None" "ren_SupersededAt r0 = None"
    using assms by (simp_all add: r0_def)
  note A = step [unfolded ApplyLicenseRenewalIn_def Let_def, folded r0_def]
  from False A obtain lic where lic: "license_row d (ren_LicenseID r0) = Some lic"
    by (auto split: if_splits option.splits)
  let ?r = "r0\<lparr>ren_CreatedAt := env_clock e, ren_PreviousUpdatesUntil := lic_UpdatesUntil lic,
    ren_UpdatesUntil := Some (RenewedUpdatesUntil (lic_UpdatesUntil lic) (env_clock e) (ren_Days r0))\<rparr>"
  from False A lic have some: "lic_UpdatesUntil lic \<noteq> None" and fresh: "\<not> renewal_conflicts ?r d"
    and d': "d' = d\<lparr>db_renewals := db_renewals d @ [?r], db_licenses := set_updates_until e (ren_LicenseID ?r) (ren_UpdatesUntil ?r) (db_licenses d)\<rparr>"
    by (auto split: if_splits option.splits)
  have "ledger_inv lid u (ren_CreatedAt ?r, d\<lparr>db_renewals := db_renewals d @ [?r],
      db_licenses := set_updates_until e (ren_LicenseID ?r) (ren_UpdatesUntil ?r) (db_licenses d)\<rparr>)"
    using fresh some lic r0 assms(2)
    by (intro ledger_inv_append [OF inv, where l = lic and e = e]) (auto simp: renewal_conflicts_def Counts_def)
  with d' show ?thesis by simp
qed

lemma RecordRefundedRenewalIn_inv:
  assumes inv: "ledger_inv lid u (t, d)" and "t < env_clock e" "ren_SupersededAt r = None"
    and step: "RecordRefundedRenewalIn e r d = (res, r', d')"
  shows "ledger_inv lid u (env_clock e, d')"
proof (cases "d' = d")
  case True
  with ledger_inv_wait [OF inv] assms(2) show ?thesis by simp
next
  case False
  define r0 where "r0 = (if ren_ID r = '''' then r\<lparr>ren_ID := env_newID e 0\<rparr> else r)"
  have r0: "ren_LicenseID r0 = ren_LicenseID r" "ren_SupersededAt r0 = None"
    using assms by (simp_all add: r0_def)
  note A = step [unfolded RecordRefundedRenewalIn_def Let_def, folded r0_def]
  from False A obtain lic where lic: "license_row d (ren_LicenseID r0) = Some lic"
    by (auto split: if_splits option.splits)
  let ?r = "r0\<lparr>ren_PreviousUpdatesUntil := lic_UpdatesUntil lic, ren_CreatedAt := env_clock e,
    ren_RefundedAt := Some (env_clock e), ren_UpdatesUntil := None\<rparr>"
  from False A lic have fresh: "\<not> renewal_conflicts ?r d" and d': "d' = d\<lparr>db_renewals := db_renewals d @ [?r]\<rparr>"
    by (auto split: if_splits option.splits)
  have "ledger_inv lid u (ren_CreatedAt ?r, d\<lparr>db_renewals := db_renewals d @ [?r], db_licenses := db_licenses d\<rparr>)"
    using fresh lic r0 assms(2)
    by (intro ledger_inv_append [OF inv, where l = lic]) (auto simp: renewal_conflicts_def Counts_def)
  with d' show ?thesis by simp
qed

text \<open>The refund: the replay with and without the renewal differ by what the renewal is worth.\<close>

lemma ledger_rows_refund:
  assumes "distinct (map ren_ID (db_renewals d))" "r \<in> set (db_renewals d)" "ren_RefundedAt r = None"
  shows "ledger_rows lid (d\<lparr>db_licenses := ls, db_renewals := update_where (\<lambda>x. ren_ID x = ren_ID r \<and> ren_RefundedAt x = None)
           (\<lambda>x. x\<lparr>ren_RefundedAt := Some now\<rparr>) (db_renewals d)\<rparr>) = mark_refunded (ren_ID r) now (ledger_rows lid d)"
proof -
  have "ren_RefundedAt x = None" if "x \<in> set (db_renewals d)" "ren_ID x = ren_ID r" for x
    using unique_column [OF assms(1) that(1) assms(2)] that(2) assms(3) by simp
  then have "update_where (\<lambda>x. ren_ID x = ren_ID r \<and> ren_RefundedAt x = None) (\<lambda>x. x\<lparr>ren_RefundedAt := Some now\<rparr>) (db_renewals d)
      = mark_refunded (ren_ID r) now (db_renewals d)"
    by (auto simp: mark_refunded_def update_where_def)
  moreover have "filter P (mark_refunded (ren_ID r) now xs) = mark_refunded (ren_ID r) now (filter P xs)"
    if "\<And>x. P (x\<lparr>ren_RefundedAt := Some now\<rparr>) = P x" for P and xs :: "LicenseRenewal list"
    by (induction xs) (simp_all add: mark_refunded_def update_where_def that)
  ultimately show ?thesis by (simp add: ledger_rows_def)
qed

lemma stamped_mark:
  assumes "stamped t rows" "t \<le> now"
  shows "stamped now (mark_refunded rid now rows)"
proof -
  have "sorted_wrt (\<lambda>a b. ren_CreatedAt a < ren_CreatedAt b) (mark_refunded rid now rows)"
    using assms(1) by (simp add: stamped_def mark_refunded_def update_where_def sorted_wrt_map if_distrib cong: if_cong)
  with assms show ?thesis by (force simp: stamped_def mark_refunded_def set_update_where)
qed

lemma mark_refunded_uncounted:
  assumes "\<forall>x \<in> set rows. ren_ID x = rid \<longrightarrow> ren_UpdatesUntil x = None"
  shows "filter Counts (mark_refunded rid now rows) = filter Counts rows"
  using assms by (induction rows) (auto simp: mark_refunded_def update_where_def Counts_def)

lemma reverted_end_unedited:
  assumes un: "unedited u rows" and st: "stamped t rows" "t \<le> now" and mem: "r \<in> set rows"
    and fresh: "\<forall>x \<in> set rows. ren_ID x = ren_ID r \<longrightarrow> ren_RefundedAt x = None"
  shows "reverted_end now r rows (bought u (filter Counts rows)) = bought u (filter Counts (mark_refunded (ren_ID r) now rows))"
proof -
  have "unedited u (mark_refunded (ren_ID r) now rows)"
    using st by (intro unedited_mark [OF un _ fresh]) (force simp: stamped_def)
  moreover have "rows \<noteq> []" "mark_refunded (ren_ID r) now rows \<noteq> []" using mem by (auto simp: mark_refunded_def update_where_def)
  ultimately show ?thesis
    using un by (simp add: reverted_end_def ReplayRenewals_unedited time_sub_def time_add_def MaxInt64_def)
qed

lemma RevertLicenseRenewalIn_inv:
  assumes inv: "ledger_inv lid u (t, d)" and "t < env_clock e"
    and own: "\<forall>x \<in> set (db_renewals d). ren_ID x = ren_ID r \<longrightarrow> ren_LicenseID x = ren_LicenseID r"
    and step: "RevertLicenseRenewalIn e r d = (res, r', d')"
  shows "ledger_inv lid u (env_clock e, d')"
proof (cases "d' = d")
  case True
  with ledger_inv_wait [OF inv] assms(2) show ?thesis by simp
next
  case False
  let ?now = "env_clock e" and ?L = "ledger_rows lid d"
  note A = step [unfolded RevertLicenseRenewalIn_def Let_def]
  from False A obtain lic x where lic: "license_row d (ren_LicenseID r) = Some lic"
    and sel: "select_one (\<lambda>x. ren_ID x = ren_ID r) (db_renewals d) = Some x" and open': "ren_RefundedAt x = None"
    by (auto split: if_splits option.splits)
  define ls where "ls = (case lic_UpdatesUntil lic of None \<Rightarrow> db_licenses d
    | Some current \<Rightarrow> if ren_UpdatesUntil x \<noteq> None \<and> ren_SupersededAt x = None
        then set_updates_until e (ren_LicenseID x) (Some (reverted_end ?now x (ledger (ren_LicenseID x) d) current)) (db_licenses d)
        else db_licenses d)"
  from False A lic sel open' have d': "d' = d\<lparr>db_licenses := ls,
      db_renewals := update_where (\<lambda>y. ren_ID y = ren_ID x \<and> ren_RefundedAt y = None) (\<lambda>y. y\<lparr>ren_RefundedAt := Some ?now\<rparr>) (db_renewals d)\<rparr>"
    by (auto simp: ls_def split: if_splits)
  have x: "x \<in> set (db_renewals d)" "ren_ID x = ren_ID r" "ren_LicenseID x = ren_LicenseID r"
    using select_one_SomeD [OF sel] own by auto
  from inv obtain l0 where l0: "license_row d lid = Some l0" "lic_UpdatesUntil l0 = Some (bought u (filter Counts ?L))"
    and ids: "distinct (map lic_ID (db_licenses d))" "distinct (map ren_ID (db_renewals d))"
    and st: "stamped t ?L" and un: "unedited u ?L"
    by (auto simp: ledger_inv_def)
  have rows: "ledger_rows lid d' = mark_refunded (ren_ID x) ?now ?L"
    unfolding d' by (rule ledger_rows_refund [OF ids(2) x(1) open'])
  have only: "y = x" if "y \<in> set ?L" "ren_ID y = ren_ID x" for y
    using unique_column [OF ids(2) _ x(1) that(2)] that(1) by (simp add: ledger_rows_def)
  have un': "unedited u (ledger_rows lid d')"
    unfolding rows using st assms(2) only open' by (intro unedited_mark [OF un]) (force simp: stamped_def)+
  have end': "\<exists>l'. license_row d' lid = Some l' \<and> lic_UpdatesUntil l' = Some (bought u (filter Counts (ledger_rows lid d')))"
  proof (cases "x \<in> set ?L \<and> ren_UpdatesUntil x \<noteq> None")
    case True
    then have "ren_LicenseID r = lid" "ren_SupersededAt x = None" using x by (auto simp: ledger_rows_def)
    with True l0 lic x have "ls = set_updates_until e lid (Some (reverted_end ?now x ?L (bought u (filter Counts ?L)))) (db_licenses d)"
      by (simp add: ls_def sorted_by_stamp [OF st])
    moreover have "reverted_end ?now x ?L (bought u (filter Counts ?L)) = bought u (filter Counts (mark_refunded (ren_ID x) ?now ?L))"
      using assms(2) True only open' by (intro reverted_end_unedited [OF un st]) auto
    ultimately show ?thesis using l0(1) unfolding rows by (auto simp: d' license_row_def row_set_updates)
  next
    case False
    then have same: "filter Counts (mark_refunded (ren_ID x) ?now ?L) = filter Counts ?L"
      using only by (intro mark_refunded_uncounted) blast
    have "\<exists>l'. select_one (\<lambda>l. lic_ID l = lid) ls = Some l' \<and> lic_UpdatesUntil l' = lic_UpdatesUntil l0"
      using False l0(1) x by (auto simp: ls_def license_row_def row_set_updates ledger_rows_def split: option.splits)
    with l0(2) same show ?thesis unfolding rows by (auto simp: d' license_row_def)
  qed
  have "distinct (map lic_ID ls)" using ids by (auto simp: ls_def split: option.splits)
  then show ?thesis
    using ids stamped_mark [OF st, of ?now] assms(2) un' end'
    by (simp add: ledger_inv_def rows) (simp add: d' map_update_where)
qed

section \<open>Properties\<close>

lemma renewal_step_inv:
  assumes "renewal_step lid s s'" and "ledger_inv lid u s"
  shows "ledger_inv lid u s'"
  using assms
proof (cases rule: renewal_step.cases)
  case (elsewhere d' d l' t t')
  have "ledger_rows lid d' = ledger_rows lid d" using elsewhere by (simp add: ledger_rows_def)
  with elsewhere assms(2) show ?thesis by (auto simp: ledger_inv_def intro: stamped_mono)
qed (auto intro: ApplyLicenseRenewalIn_inv RecordRefundedRenewalIn_inv RevertLicenseRenewalIn_inv)

text \<open>
  C3: a refund lands on the dates a customer who never bought the refunded renewal would have.
  Start from a licence with an update period and no ledger, and let any sequence of paid renewals
  (of this and other licences), renewals refunded before they applied, refunds in whatever order
  and anything else that leaves the period alone run, each ledger operation stamped later than
  the ones before. The licence's end is then exactly what the renewals that were never refunded
  come to, each on top of the last, from the original end: no refund leaves days behind or takes
  others' with it.
\<close>

theorem refunds_as_never_bought:
  assumes "(renewal_step lid)\<^sup>*\<^sup>* (t, d) (t', d')" and "distinct (map lic_ID (db_licenses d))"
    and "distinct (map ren_ID (db_renewals d))" and "ledger_rows lid d = []"
    and "license_row d lid = Some l" and "lic_UpdatesUntil l = Some u"
  shows "map_option lic_UpdatesUntil (license_row d' lid) = Some (Some (bought u (filter Counts (ledger_rows lid d'))))"
proof -
  have "ledger_inv lid u (t, d)"
    using assms(2-) by (simp add: ledger_inv_def stamped_def unedited_def bought_def)
  with assms(1) have "ledger_inv lid u (t', d')"
    by (induction rule: rtranclp_induct) (auto intro: renewal_step_inv)
  then show ?thesis by (auto simp: ledger_inv_def)
qed

definition demo_renewing :: db where
  "demo_renewing = demo_db\<lparr>db_licenses := [demo_license\<lparr>lic_UpdatesUntil := Some 5000\<rparr>]\<rparr>"

definition demo_renewal :: LicenseRenewal where
  "demo_renewal = zero_LicenseRenewal\<lparr>ren_ID := ''R'', ren_LicenseID := ''L'', ren_Days := 30\<rparr>"

definition demo_renewed :: db where
  "demo_renewed = snd (snd (ApplyLicenseRenewalIn demo_env demo_renewal demo_renewing))"

definition demo_reverted :: db where
  "demo_reverted = snd (snd (RevertLicenseRenewalIn (demo_env\<lparr>env_clock := 2000\<rparr>) demo_renewal demo_renewed))"

lemma demo_renewed_eq:
  "ApplyLicenseRenewalIn demo_env demo_renewal demo_renewing =
     (Inr (), demo_renewal\<lparr>ren_CreatedAt := 1000, ren_PreviousUpdatesUntil := Some 5000, ren_UpdatesUntil := Some (5000 + days_dur 30)\<rparr>,
      demo_renewing\<lparr>db_renewals := [demo_renewal\<lparr>ren_CreatedAt := 1000, ren_PreviousUpdatesUntil := Some 5000, ren_UpdatesUntil := Some (5000 + days_dur 30)\<rparr>],
        db_licenses := [demo_license\<lparr>lic_UpdatesUntil := Some (5000 + days_dur 30), lic_UpdatedAt := 1000\<rparr>]\<rparr>)"
  by (simp add: ApplyLicenseRenewalIn_def Let_def demo_renewing_def demo_renewal_def demo_defs zero_LicenseRenewal_def
      row_read_defs set_updates_until_def renewal_conflicts_def RenewedUpdatesUntil_def time_add_def)

lemma apply_demo:
  "ApplyLicenseRenewalIn demo_env demo_renewal demo_renewing =
     (Inr (), fst (snd (ApplyLicenseRenewalIn demo_env demo_renewal demo_renewing)), demo_renewed)"
  by (simp add: demo_renewed_def demo_renewed_eq)

theorem refunds_as_never_bought_witness:
  "map_option lic_UpdatesUntil (license_row demo_renewed ''L'') = Some (Some (5000 + days_dur 30)) \<and>
   map_option lic_UpdatesUntil (license_row demo_reverted ''L'') = Some (Some 5000)"
proof -
  let ?e = "demo_env\<lparr>env_clock := 2000\<rparr>"
  have rows: "db_renewals demo_renewed = [demo_renewal\<lparr>ren_CreatedAt := 1000, ren_PreviousUpdatesUntil := Some 5000, ren_UpdatesUntil := Some (5000 + days_dur 30)\<rparr>]"
    and fault: "db_fault demo_renewed = False" and lics: "license_row demo_renewed ''L'' \<noteq> None"
    by (simp_all add: demo_renewed_def demo_renewed_eq row_read_defs) (simp add: demo_renewing_def)
  have start: "distinct (map lic_ID (db_licenses demo_renewing))" "distinct (map ren_ID (db_renewals demo_renewing))"
    "ledger_rows ''L'' demo_renewing = []" "license_row demo_renewing ''L'' = Some (demo_license\<lparr>lic_UpdatesUntil := Some 5000\<rparr>)"
    by (simp_all add: demo_renewing_def ledger_rows_def row_read_defs)
  have s1: "renewal_step ''L'' (0, demo_renewing) (env_clock demo_env, demo_renewed)"
    by (rule renewal_step.apply_renewal [OF _ _ _ apply_demo])
      (simp_all add: demo_env_def demo_renewal_def zero_LicenseRenewal_def)
  obtain res r' where "RevertLicenseRenewalIn ?e demo_renewal demo_renewed = (res, r', demo_reverted)"
    by (metis demo_reverted_def prod.collapse)
  then have s2: "renewal_step ''L'' (env_clock demo_env, demo_renewed) (env_clock ?e, demo_reverted)"
    by (intro renewal_step.revert) (auto simp: demo_env_def rows)
  have p1: "(renewal_step ''L'')\<^sup>*\<^sup>* (0, demo_renewing) (env_clock demo_env, demo_renewed)" using s1 by blast
  with s2 have p2: "(renewal_step ''L'')\<^sup>*\<^sup>* (0, demo_renewing) (env_clock ?e, demo_reverted)" by (meson rtranclp.simps)
  note run1 = refunds_as_never_bought [OF p1 start, of 5000]
  note run2 = refunds_as_never_bought [OF p2 start, of 5000]
  have "filter Counts (ledger_rows ''L'' demo_reverted) = []"
    using lics fault
    by (auto simp: demo_reverted_def RevertLicenseRenewalIn_def Let_def rows demo_renewal_def zero_LicenseRenewal_def
        row_read_defs ledger_rows_def Counts_def split: option.splits)
  moreover have "bought 5000 (filter Counts (ledger_rows ''L'' demo_renewed)) = 5000 + days_dur 30"
    by (simp add: ledger_rows_def rows demo_renewal_def zero_LicenseRenewal_def Counts_def bought_def RenewedUpdatesUntil_def time_add_def)
  ultimately show ?thesis using run1 run2 by (simp add: bought_def)
qed

text \<open>
  A refund counts once. After a refund was taken, taking it again, by any request that still
  holds the unrefunded row it read before, answers without an error and changes nothing.
\<close>

theorem refund_counts_once:
  assumes "RevertLicenseRenewalIn e r d = (Inr (), r', d')" and "distinct (map ren_ID (db_renewals d))"
    and "\<not> db_fault d" and "license_row d (ren_LicenseID r) \<noteq> None"
    and "\<exists>x \<in> set (db_renewals d). ren_ID x = ren_ID r \<and> ren_LicenseID x = ren_LicenseID r"
  shows "fst (RevertLicenseRenewalIn e2 r d') = Inr () \<and> snd (snd (RevertLicenseRenewalIn e2 r d')) = d'"
proof (cases "ren_RefundedAt r = None")
  case False
  with assms(1) show ?thesis by (simp add: RevertLicenseRenewalIn_def)
next
  case True
  obtain lic where lic: "license_row d (ren_LicenseID r) = Some lic" using assms(4) by auto
  obtain x where x: "x \<in> set (db_renewals d)" "ren_ID x = ren_ID r" "ren_LicenseID x = ren_LicenseID r" using assms(5) by auto
  then have sel: "select_one (\<lambda>x. ren_ID x = ren_ID r) (db_renewals d) = Some x"
    using select_one_unique [OF assms(2)] by simp
  show ?thesis
  proof (cases "ren_RefundedAt x = None")
    case False
    with True lic sel assms(1,3) have "d' = d" by (simp add: RevertLicenseRenewalIn_def)
    with False True lic sel assms(3) show ?thesis by (simp add: RevertLicenseRenewalIn_def)
  next
    case unrefunded: True
    let ?f = "\<lambda>y. if ren_ID y = ren_ID x \<and> ren_RefundedAt y = None then y\<lparr>ren_RefundedAt := Some (env_clock e)\<rparr> else y"
    note A = assms(1) [unfolded RevertLicenseRenewalIn_def Let_def]
    from A True unrefunded lic sel assms(3) have rows: "db_renewals d' = map ?f (db_renewals d)" and fault: "\<not> db_fault d'"
      by (auto simp: update_where_def)
    have ids: "map ren_ID (db_renewals d') = map ren_ID (db_renewals d)" by (simp add: rows)
    have "?f x \<in> set (db_renewals d')" using x(1) unfolding rows by auto
    then have "x\<lparr>ren_RefundedAt := Some (env_clock e)\<rparr> \<in> set (db_renewals d')" using unrefunded by simp
    then have sel': "select_one (\<lambda>x. ren_ID x = ren_ID r) (db_renewals d') = Some (x\<lparr>ren_RefundedAt := Some (env_clock e)\<rparr>)"
      using select_one_unique [of ren_ID "db_renewals d'"] assms(2) ids x(2) by simp
    have "license_row d' (ren_LicenseID r) \<noteq> None"
      using A True unrefunded lic sel assms(3) by (auto simp: license_row_def row_set_updates split: option.splits)
    with True sel' fault unrefunded show ?thesis by (auto simp: RevertLicenseRenewalIn_def)
  qed
qed

theorem refund_counts_once_witness:
  "\<exists>r' d'. RevertLicenseRenewalIn (demo_env\<lparr>env_clock := 2000\<rparr>) demo_renewal demo_renewed = (Inr (), r', d') \<and>
     snd (snd (RevertLicenseRenewalIn demo_env demo_renewal d')) = d'"
proof -
  have rows: "db_renewals demo_renewed = [demo_renewal\<lparr>ren_CreatedAt := 1000, ren_PreviousUpdatesUntil := Some 5000, ren_UpdatesUntil := Some (5000 + days_dur 30)\<rparr>]"
    and row: "license_row demo_renewed ''L'' = Some (demo_license\<lparr>lic_UpdatesUntil := Some (5000 + days_dur 30), lic_UpdatedAt := 1000\<rparr>)"
    and fault: "\<not> db_fault demo_renewed"
    by (simp_all add: demo_renewed_def demo_renewed_eq row_read_defs) (simp add: demo_renewing_def)
  have r: "ren_ID demo_renewal = ''R''" "ren_LicenseID demo_renewal = ''L''" "ren_RefundedAt demo_renewal = None"
    by (simp_all add: demo_renewal_def zero_LicenseRenewal_def)
  have "fst (RevertLicenseRenewalIn (demo_env\<lparr>env_clock := 2000\<rparr>) demo_renewal demo_renewed) = Inr ()"
    using fault by (simp add: RevertLicenseRenewalIn_def Let_def r row rows select_one_def)
  then obtain r' d' where step: "RevertLicenseRenewalIn (demo_env\<lparr>env_clock := 2000\<rparr>) demo_renewal demo_renewed = (Inr (), r', d')"
    by (metis prod.collapse)
  from refund_counts_once [OF this, of demo_env] fault row rows r step show ?thesis by simp
qed

text \<open>
  An admin's edit never overwrites a renewal. When a paid renewal of one day or more commits
  after the admin read the period's end, the edit made on the end the admin saw is refused and
  changes nothing.
\<close>

theorem edit_never_overwrites_renewal:
  assumes "ApplyLicenseRenewalIn e r d = (Inr (), r', d')" and "license_row d (ren_LicenseID r) = Some lic"
    and "lic_UpdatesUntil lic = Some seen" and "1 \<le> ren_Days r" and "ren_Days r \<le> 106751"
  shows "SetLicenseUpdatesUntilIn e2 (ren_LicenseID r) (Some seen) next supersede d' = (Inr False, d')"
proof -
  define r0 where "r0 = (if ren_ID r = '''' then r\<lparr>ren_ID := env_newID e 0\<rparr> else r)"
  have r0: "ren_LicenseID r0 = ren_LicenseID r" "ren_Days r0 = ren_Days r" by (simp_all add: r0_def)
  let ?new = "RenewedUpdatesUntil (Some seen) (env_clock e) (ren_Days r)"
  from assms(1-3) r0 have "db_licenses d' = set_updates_until e (ren_LicenseID r) (Some ?new) (db_licenses d)" "\<not> db_fault d'"
    by (auto simp: ApplyLicenseRenewalIn_def Let_def r0_def [symmetric] split: if_splits option.splits)
  then have row: "license_row d' (ren_LicenseID r) = Some (lic\<lparr>lic_UpdatesUntil := Some ?new, lic_UpdatedAt := env_dbnow e\<rparr>)"
    using assms(2) by (simp add: license_row_def row_set_updates)
  have "seen + 24 * Hour \<le> ?new"
    using assms(4,5) by (simp add: RenewedUpdatesUntil_def time_add_def days_dur_exact duration_defs)
  then have "Second \<le> time_sub ?new seen" by (simp add: time_sub_def MaxInt64_def duration_defs)
  then have "\<not> SameEnd (Some ?new) (Some seen)"
    by (auto simp: SameEnd_def dur_abs_def duration_defs)
  with row \<open>\<not> db_fault d'\<close> show ?thesis by (simp add: SetLicenseUpdatesUntilIn_def)
qed

theorem edit_never_overwrites_renewal_witness:
  "SetLicenseUpdatesUntilIn demo_env ''L'' (Some 5000) None True demo_renewed = (Inr False, demo_renewed)"
proof -
  have r: "ren_ID demo_renewal = ''R''" "ren_LicenseID demo_renewal = ''L''" "ren_Days demo_renewal = 30"
    by (simp_all add: demo_renewal_def zero_LicenseRenewal_def)
  have "license_row demo_renewing ''L'' = Some (demo_license\<lparr>lic_UpdatesUntil := Some 5000\<rparr>)"
    by (simp add: demo_renewing_def row_read_defs)
  with edit_never_overwrites_renewal [OF apply_demo, of _ 5000 demo_env None True] r show ?thesis by simp
qed

end
