(* ===== verification/KG_Token.thy ===== *)
theory KG_Token
  imports KG_Features
begin

text \<open>
  Offline license tokens, \<^verbatim>\<open>internal/license/token.go\<close>: the signed payload, how it is put
  together and taken apart. Base64 (URL alphabet, no padding) is written out; Ed25519 and the
  JSON encoding of the payload are arguments (\<open>token_lib\<close>), with what the code relies on of
  them stated as hypotheses where a theorem needs it.
\<close>

section \<open>Base64, URL alphabet without padding\<close>

definition b64_alphabet :: string where
  "b64_alphabet = ''ABCDEFGHIJKLMNOPQRSTUVWXYZabcdefghijklmnopqrstuvwxyz0123456789-_''"

definition b64_char :: "nat \<Rightarrow> char" where
  "b64_char n = b64_alphabet ! (n mod 64)"

definition b64_val :: "char \<Rightarrow> nat option" where
  "b64_val c =
     (let n = char_code c in
      if 65 \<le> n \<and> n \<le> 90 then Some (n - 65)
      else if 97 \<le> n \<and> n \<le> 122 then Some (n - 71)
      else if 48 \<le> n \<and> n \<le> 57 then Some (n + 4)
      else if n = 45 then Some 62
      else if n = 95 then Some 63
      else None)"

fun b64_groups :: "nat list \<Rightarrow> nat list" where
  "b64_groups [] = []"
| "b64_groups [a] = [a div 4, (a mod 4) * 16]"
| "b64_groups [a, b] = [a div 4, (a mod 4) * 16 + b div 16, (b mod 16) * 4]"
| "b64_groups (a # b # c # rest) =
     [a div 4, (a mod 4) * 16 + b div 16, (b mod 16) * 4 + c div 64, c mod 64] @ b64_groups rest"

text \<open>A lone last character is refused; the unused low bits of the last one are dropped.\<close>

fun b64_bytes :: "nat list \<Rightarrow> nat list option" where
  "b64_bytes [] = Some []"
| "b64_bytes [w] = None"
| "b64_bytes [w, x] = Some [w * 4 + x div 16]"
| "b64_bytes [w, x, y] = Some [w * 4 + x div 16, (x mod 16) * 16 + y div 4]"
| "b64_bytes (w # x # y # z # rest) =
     map_option ((@) [w * 4 + x div 16, (x mod 16) * 16 + y div 4, (y mod 4) * 64 + z]) (b64_bytes rest)"

definition b64_encode :: "string \<Rightarrow> string" where
  "b64_encode s = map b64_char (b64_groups (map char_code s))"

text \<open>The decoder passes over line breaks.\<close>

definition b64_decode :: "string \<Rightarrow> string option" where
  "b64_decode s =
     (let cs = filter (\<lambda>c. char_code c \<noteq> 10 \<and> char_code c \<noteq> 13) s; vs = map b64_val cs in
      if None \<in> set vs then None else map_option (map char_of) (b64_bytes (map the vs)))"

section \<open>The token\<close>

record VerifyToken =
  vt_LicenseID :: string
  vt_ProductID :: string
  vt_PlanID :: string
  vt_Status :: string
  vt_Identifier :: string
  vt_Features :: "(string \<rightharpoonup> feature_value)"
  vt_IssuedAt :: int
  vt_ExpiresAt :: int
  vt_ValidUntil :: int
  vt_UpdatesUntil :: int
  vt_GraceDays :: int
  vt_Nonce :: string
  vt_Fingerprint :: string

record token_lib =
  ed_sign :: "string \<Rightarrow> string \<Rightarrow> string"
  ed_verify :: "string \<Rightarrow> string \<Rightarrow> string \<Rightarrow> bool"
  ed_public :: "string \<Rightarrow> string"
  json_marshal :: "VerifyToken \<Rightarrow> string option"
  json_unmarshal :: "string \<Rightarrow> VerifyToken option"

definition rand_bytes :: "random_source \<Rightarrow> nat \<Rightarrow> string" where
  "rand_bytes rnd n = map (\<lambda>i. char_of (unat (rnd i))) [0..<n]"

definition PublicKey :: "token_lib \<Rightarrow> string \<Rightarrow> string" where
  "PublicKey lib priv = ed_public lib priv"

definition with_nonce :: "env \<Rightarrow> VerifyToken \<Rightarrow> VerifyToken" where
  "with_nonce e t = (if vt_Nonce t = '''' then t\<lparr>vt_Nonce := b64_encode (rand_bytes (env_rand e) 16)\<rparr> else t)"

definition Sign :: "token_lib \<Rightarrow> env \<Rightarrow> VerifyToken \<Rightarrow> string \<Rightarrow> string result" where
  "Sign lib e t priv =
     (if length priv \<noteq> 64 then Inl (ErrRefused ''ed25519 private key not initialised'')
      else
        let t = with_nonce e t in
        case json_marshal lib t of
          None \<Rightarrow> Inl (ErrRefused ''marshal'')
        | Some payload \<Rightarrow>
            let b64 = b64_encode payload; sig = ed_sign lib priv b64
            in Inr (b64 @ ''.'' @ b64_encode sig))"

text \<open>\<^verbatim>\<open>strings.LastIndexByte\<close> and the two halves around it.\<close>

definition split_last :: "char \<Rightarrow> string \<Rightarrow> (string \<times> string) option" where
  "split_last c s =
     (let tail = takeWhile (\<lambda>x. x \<noteq> c) (rev s) in
      if length tail = length s then None
      else Some (take (length s - Suc (length tail)) s, rev tail))"

definition Verify :: "token_lib \<Rightarrow> time \<Rightarrow> string \<Rightarrow> string \<Rightarrow> VerifyToken result" where
  "Verify lib now raw pub =
     (if length pub \<noteq> 32 then Inl (ErrRefused ''ed25519 public key not initialised'')
      else case split_last (CHR ''.'') raw of
        None \<Rightarrow> Inl (ErrRefused ''invalid token format'')
      | Some (b64, sigB64) \<Rightarrow>
          (case b64_decode sigB64 of
             None \<Rightarrow> Inl (ErrRefused ''signature decode'')
           | Some sig \<Rightarrow>
               if \<not> ed_verify lib pub b64 sig then Inl (ErrRefused ''invalid signature'')
               else case b64_decode b64 of
                 None \<Rightarrow> Inl (ErrRefused ''payload decode'')
               | Some payload \<Rightarrow>
                   (case json_unmarshal lib payload of
                      None \<Rightarrow> Inl (ErrRefused ''payload unmarshal'')
                    | Some t \<Rightarrow>
                        if vt_ExpiresAt t > 0 \<and> unix_seconds now > vt_ExpiresAt t
                        then Inl (ErrRefused ''token expired'') else Inr t)))"

definition Fingerprint :: "env \<Rightarrow> string \<Rightarrow> string \<Rightarrow> string" where
  "Fingerprint e identifier productID = take 16 (env_sha256 e (identifier @ '':'' @ productID))"

section \<open>Base64 gives back what it was given\<close>

lemma length_b64_alphabet [simp]: "length b64_alphabet = 64"
  by (simp add: b64_alphabet_def)

lemma b64_val_alphabet: "map b64_val b64_alphabet = map Some [0..<64]"
  by (simp add: b64_alphabet_def b64_val_def char_code_def upt_rec)

lemma b64_alphabet_plain: "\<forall>c \<in> set b64_alphabet. char_code c \<noteq> 10 \<and> char_code c \<noteq> 13 \<and> c \<noteq> CHR ''.''"
  by (simp add: b64_alphabet_def char_code_def)

lemma b64_val_char: "n < 64 \<Longrightarrow> b64_val (b64_char n) = Some n"
  using nth_map [of n b64_alphabet b64_val] by (simp add: b64_val_alphabet b64_char_def)

lemma b64_char_plain: "char_code (b64_char n) \<noteq> 10" "char_code (b64_char n) \<noteq> 13" "b64_char n \<noteq> CHR ''.''"
proof -
  have "b64_char n \<in> set b64_alphabet" unfolding b64_char_def by (rule nth_mem) simp
  with b64_alphabet_plain show "char_code (b64_char n) \<noteq> 10" "char_code (b64_char n) \<noteq> 13" "b64_char n \<noteq> CHR ''.''"
    by blast+
qed

lemma sextets:
  fixes a b c :: nat
  assumes "a < 256" "b < 256" "c < 256"
  shows "a div 4 < 64" "a mod 4 * 16 + b div 16 < 64" "b mod 16 * 4 + c div 64 < 64" "c mod 64 < 64"
    "a mod 4 * 16 < 64" "b mod 16 * 4 < 64" "b div 16 < 16" "c div 64 < 4"
proof -
  show q: "a div 4 < 64" "b div 16 < 16" "c div 64 < 4" using assms by (auto intro: less_mult_imp_div_less)
  have "a mod 4 < 4" "b mod 16 < 16" by simp_all
  with q show "a mod 4 * 16 + b div 16 < 64" "b mod 16 * 4 + c div 64 < 64" "a mod 4 * 16 < 64" "b mod 16 * 4 < 64"
    by linarith+
  show "c mod 64 < 64" by simp
qed

lemma b64_groups_less: "\<forall>b \<in> set bs. b < 256 \<Longrightarrow> \<forall>g \<in> set (b64_groups bs). g < 64"
proof (induction bs rule: b64_groups.induct)
  case (2 a)
  then show ?case using sextets [of a 0 0] by simp
next
  case (3 a b)
  then show ?case using sextets [of a b 0] by simp
next
  case (4 a b c rest)
  then show ?case using sextets [of a b c] by simp
qed simp

lemma b64_bytes_groups: "\<forall>b \<in> set bs. b < 256 \<Longrightarrow> b64_bytes (b64_groups bs) = Some bs"
proof (induction bs rule: b64_groups.induct)
  case (2 a)
  then show ?case using sextets [of a 0 0] by simp
next
  case (3 a b)
  then show ?case using sextets [of a b 0] by simp
next
  case (4 a b c rest)
  then show ?case using sextets [of a b c] by simp
qed simp

text \<open>\<^verbatim>\<open>base64.RawURLEncoding\<close> round trip, on every byte string.\<close>

lemma b64_roundtrip: "b64_decode (b64_encode s) = Some s"
proof -
  let ?gs = "b64_groups (map char_code s)"
  have small: "\<forall>g \<in> set ?gs. g < 64" by (rule b64_groups_less) simp
  have "filter (\<lambda>c. char_code c \<noteq> 10 \<and> char_code c \<noteq> 13) (b64_encode s) = b64_encode s"
    by (auto simp: b64_encode_def b64_char_plain filter_id_conv)
  moreover have "map b64_val (b64_encode s) = map Some ?gs"
    using small by (auto simp: b64_encode_def b64_val_char)
  moreover have "b64_bytes ?gs = Some (map char_code s)" by (rule b64_bytes_groups) simp
  moreover have "map char_of (map char_code s) = s" by (simp add: o_def char_code_def)
  moreover have "None \<notin> set (map Some ?gs)" "map the (map Some ?gs) = ?gs" by (auto simp: o_def)
  ultimately show ?thesis unfolding b64_decode_def Let_def by (simp only: if_False option.map)
qed

lemma b64_no_dot: "CHR ''.'' \<notin> set (b64_encode s)"
  using b64_char_plain(3) by (auto simp: b64_encode_def) metis

lemma split_last_append:
  assumes "c \<notin> set t"
  shows "split_last c (s @ c # t) = Some (s, t)"
proof -
  have "takeWhile (\<lambda>x. x \<noteq> c) (rev (s @ c # t)) = rev t"
    using assms by (auto simp: takeWhile_append takeWhile_eq_all_conv)
  then show ?thesis by (simp add: split_last_def Let_def)
qed

section \<open>Properties\<close>

lemma Verify_signed:
  assumes "length (ed_public lib priv) = 32" and "ed_verify lib (ed_public lib priv) (b64_encode payload) sig"
    and "json_unmarshal lib payload = Some t"
  shows "Verify lib now (b64_encode payload @ ''.'' @ b64_encode sig) (PublicKey lib priv) =
           (if 0 < vt_ExpiresAt t \<and> vt_ExpiresAt t < unix_seconds now
            then Inl (ErrRefused ''token expired'') else Inr t)"
  using assms split_last_append [OF b64_no_dot, of "b64_encode payload" sig]
  by (simp add: Verify_def PublicKey_def b64_roundtrip)

lemma Sign_InrD:
  assumes "Sign lib e t priv = Inr raw"
  obtains payload where "json_marshal lib (with_nonce e t) = Some payload"
    "raw = b64_encode payload @ ''.'' @ b64_encode (ed_sign lib priv (b64_encode payload))"
  using assms by (auto simp: Sign_def Let_def split: if_splits option.splits)

text \<open>
  C19: a token the server signs verifies under the public key it serves and carries exactly what
  was signed, the nonce included, until its expiry passes; after that it is refused as expired.
  Relied on: Ed25519 verifies what it signed and its public keys have 32 bytes, and the JSON
  decoder gives back the signed payload.
\<close>

theorem token_roundtrip:
  assumes "Sign lib e t priv = Inr raw"
    and ed: "\<forall>m. ed_verify lib (ed_public lib priv) m (ed_sign lib priv m)" and "length (ed_public lib priv) = 32"
    and json: "\<forall>p. json_marshal lib (with_nonce e t) = Some p \<longrightarrow> json_unmarshal lib p = Some (with_nonce e t)"
  shows "Verify lib now raw (PublicKey lib priv) =
           (if 0 < vt_ExpiresAt t \<and> vt_ExpiresAt t < unix_seconds now
            then Inl (ErrRefused ''token expired'') else Inr (with_nonce e t))"
proof -
  obtain payload where p: "json_marshal lib (with_nonce e t) = Some payload"
    and raw: "raw = b64_encode payload @ ''.'' @ b64_encode (ed_sign lib priv (b64_encode payload))"
    using assms(1) by (rule Sign_InrD)
  have "vt_ExpiresAt (with_nonce e t) = vt_ExpiresAt t" by (simp add: with_nonce_def)
  with Verify_signed [OF assms(3), of payload _ "with_nonce e t" now] ed json p raw show ?thesis by simp
qed

definition demo_token :: VerifyToken where
  "demo_token = \<lparr>vt_LicenseID = ''L'', vt_ProductID = ''P'', vt_PlanID = ''PL'', vt_Status = ''active'', vt_Identifier = ''m1'',
     vt_Features = Map.empty, vt_IssuedAt = 0, vt_ExpiresAt = 100, vt_ValidUntil = 0, vt_UpdatesUntil = 0, vt_GraceDays = 0,
     vt_Nonce = ''n'', vt_Fingerprint = ''''\<rparr>"

text \<open>A signature scheme and an encoding to evaluate on: the signature repeats the key and the message.\<close>

definition demo_lib :: token_lib where
  "demo_lib = \<lparr>ed_sign = (\<lambda>k m. take 32 k @ m), ed_verify = (\<lambda>p m s. s = p @ m), ed_public = take 32,
     json_marshal = (\<lambda>t. Some (vt_LicenseID t)),
     json_unmarshal = (\<lambda>s. Some (demo_token\<lparr>vt_LicenseID := s\<rparr>))\<rparr>"

definition demo_priv :: string where
  "demo_priv = replicate 64 (CHR ''k'')"

theorem token_roundtrip_witness:
  "\<exists>raw. Sign demo_lib demo_env demo_token demo_priv = Inr raw \<and>
     Verify demo_lib (100 * Second) raw (PublicKey demo_lib demo_priv) = Inr demo_token \<and>
     Verify demo_lib (101 * Second) raw (PublicKey demo_lib demo_priv) = Inl (ErrRefused ''token expired'')"
proof -
  obtain raw where raw: "Sign demo_lib demo_env demo_token demo_priv = Inr raw"
    by (simp add: Sign_def demo_lib_def demo_priv_def Let_def)
  have lib: "\<forall>m. ed_verify demo_lib (ed_public demo_lib demo_priv) m (ed_sign demo_lib demo_priv m)"
    "length (ed_public demo_lib demo_priv) = 32" "with_nonce demo_env demo_token = demo_token"
    "\<forall>p. json_marshal demo_lib demo_token = Some p \<longrightarrow> json_unmarshal demo_lib p = Some demo_token"
    "vt_ExpiresAt demo_token = 100"
    by (auto simp: demo_lib_def demo_priv_def with_nonce_def demo_token_def)
  show ?thesis
    using token_roundtrip [OF raw lib(1,2), of "100 * Second"] token_roundtrip [OF raw lib(1,2), of "101 * Second"] raw lib
    by (auto simp: unix_seconds_def Second_def)
qed

text \<open>
  C21: only an issued token is accepted. If signatures cannot be made for anything but the
  payloads the server issued, then whatever text a client is handed, a payload that comes out of
  \<open>Verify\<close> is one of those, unchanged, and has not expired.
\<close>

theorem only_issued_tokens:
  assumes "Verify lib now raw pub = Inr t"
    and unforgeable: "\<forall>m s. ed_verify lib pub m s \<longrightarrow> (\<exists>u \<in> issued. \<exists>p. json_marshal lib u = Some p \<and> m = b64_encode p)"
    and json: "\<forall>u \<in> issued. \<forall>p. json_marshal lib u = Some p \<longrightarrow> json_unmarshal lib p = Some u"
  shows "t \<in> issued \<and> (vt_ExpiresAt t \<le> 0 \<or> unix_seconds now \<le> vt_ExpiresAt t)"
proof -
  from assms(1) obtain b64 sig payload where v: "ed_verify lib pub b64 sig" "b64_decode b64 = Some payload"
    "json_unmarshal lib payload = Some t" "\<not> (0 < vt_ExpiresAt t \<and> vt_ExpiresAt t < unix_seconds now)"
    by (auto simp: Verify_def split: if_splits option.splits)
  from unforgeable v(1) obtain u p where u: "u \<in> issued" "json_marshal lib u = Some p" "b64 = b64_encode p" by blast
  with v(2) have "payload = p" by (simp add: b64_roundtrip)
  with json u v(3) have "t = u" by auto
  with u v(4) show ?thesis by auto
qed

theorem only_issued_tokens_witness:
  "\<exists>raw. Verify (demo_lib\<lparr>ed_verify := \<lambda>p m s. m = b64_encode ''L''\<rparr>) 0 raw (replicate 32 (CHR ''k'')) = Inr demo_token \<and>
     demo_token \<in> {demo_token} \<and> unix_seconds 0 \<le> vt_ExpiresAt demo_token"
proof -
  let ?lib = "demo_lib\<lparr>ed_verify := \<lambda>p m s. m = b64_encode ''L''\<rparr>" and ?raw = "b64_encode ''L'' @ ''.''"
  have l: "demo_token\<lparr>vt_LicenseID := ''L''\<rparr> = demo_token" by (simp add: demo_token_def)
  have "Verify ?lib 0 ?raw (replicate 32 (CHR ''k'')) = Inr demo_token"
    using split_last_append [of "CHR ''.''" "[]" "b64_encode ''L''"] b64_roundtrip [of "''L''"]
    by (simp add: Verify_def demo_lib_def b64_decode_def [of "[]"] l) (simp add: demo_token_def unix_seconds_def)
  moreover from only_issued_tokens [OF this, of "{demo_token}"]
  have "unix_seconds 0 \<le> vt_ExpiresAt demo_token"
    by (auto simp: demo_lib_def l) (simp_all add: demo_token_def unix_seconds_def)
  ultimately show ?thesis by blast
qed

end
