(* ===== verification/KG_License_Service.thy ===== *)
theory KG_License_Service
  imports KG_BruteForce KG_Activation KG_Token
begin

text \<open>
  The license service, \<^verbatim>\<open>internal/service/license.go\<close>: what the unauthenticated SDK endpoints
  run to activate, verify and release a device with a license key, with the checks every one of
  them makes and the token they answer with, and \<^verbatim>\<open>IsLicenseUsable\<close> of
  \<^verbatim>\<open>internal/service/release.go\<close>.

  A request reads and writes the database in several steps. \<open>mid i\<close> is what other requests do
  to it in the \<open>i\<close>-th gap between two of them; the clock of the checks (\<open>e\<close>) is not the clock
  of the transaction and the token (\<open>e'\<close>). The nil failure tracker is \<open>None\<close>; audit entries and
  webhook events are appended to the log of what was handed over for writing and for delivery.
\<close>

section \<open>The service's state\<close>

record LicenseService =
  sv_failures :: "BruteForceProtection option"
  sv_db :: db
  sv_signingKey :: string
  sv_webhook :: bool

definition interfere :: "(db \<Rightarrow> db) \<Rightarrow> LicenseService \<Rightarrow> LicenseService" where
  "interfere f sv = sv\<lparr>sv_db := f (sv_db sv)\<rparr>"

definition Audit :: "AuditLog \<Rightarrow> db \<Rightarrow> db" where
  "Audit log d = d\<lparr>db_audit := db_audit d @ [log]\<rparr>"

definition sdk_audit :: "string \<Rightarrow> string \<Rightarrow> string \<Rightarrow> (string \<times> detail) list \<Rightarrow> AuditLog" where
  "sdk_audit licenseID action ip changes = \<lparr>audit_Entity = ''license'', audit_EntityID = licenseID, audit_Action = action,
     audit_ActorID = '''', audit_ActorType = ''sdk'', audit_Changes = changes, audit_IPAddress = ip,
     audit_ProductID = ''''\<rparr>"

definition Dispatch :: "string \<Rightarrow> string \<Rightarrow> (string \<times> detail) list \<Rightarrow> db \<Rightarrow> db" where
  "Dispatch productID event data d = d\<lparr>db_webhooks := db_webhooks d @ [(productID, event, data)]\<rparr>"

section \<open>Shared checks\<close>

definition lockedOut :: "duration \<Rightarrow> AppError" where
  "lockedOut retryAfter = app_WithDetails (app_New 429 ''LOCKED_OUT'' ''too many failed attempts'')
     [(''retry_after'', DInt (RetryAfterSeconds retryAfter))]"

definition blocked_for :: "env \<Rightarrow> string \<Rightarrow> LicenseService \<Rightarrow> AppError option" where
  "blocked_for e ip sv =
     (case sv_failures sv of
        None \<Rightarrow> None
      | Some bf \<Rightarrow> (case IsBlocked (env_now e) (FailureKeyIP ip) bf of
                      (blocked, retryAfter) \<Rightarrow> if blocked then Some (lockedOut retryAfter) else None))"

definition recordFailure :: "env \<Rightarrow> string \<Rightarrow> LicenseService \<Rightarrow> AppError option \<times> LicenseService" where
  "recordFailure e ip sv =
     (case sv_failures sv of
        None \<Rightarrow> (None, sv)
      | Some bf \<Rightarrow>
          let sv' = sv\<lparr>sv_failures := Some (RecordFailure (env_now e) (FailureKeyIP ip) bf)\<rparr>
          in (blocked_for e ip sv', sv'))"

definition recordSuccess :: "string \<Rightarrow> LicenseService \<Rightarrow> LicenseService" where
  "recordSuccess ip sv = sv\<lparr>sv_failures := map_option (RecordSuccess (FailureKeyIP ip)) (sv_failures sv)\<rparr>"

definition licenseNotFound :: AppError where
  "licenseNotFound = app_New 404 ''LICENSE_NOT_FOUND'' ''license not found''"

text \<open>The failed attempt is filed; it is the 404 unless it was the one that locks the address out.\<close>

definition fail_not_found :: "env \<Rightarrow> string \<Rightarrow> LicenseService \<Rightarrow> 'a app_result \<times> LicenseService" where
  "fail_not_found e ip sv =
     (case recordFailure e ip sv of
        (Some locked, sv') \<Rightarrow> (Inl locked, sv')
      | (None, sv') \<Rightarrow> (Inl licenseNotFound, sv'))"

definition keySeatID :: "License \<Rightarrow> string" where
  "keySeatID lic = (case lic_KeySeat lic of None \<Rightarrow> '''' | Some s \<Rightarrow> seat_ID s)"

definition requireProductCapability :: "Product option \<Rightarrow> string \<Rightarrow> string \<Rightarrow> AppError option" where
  "requireProductCapability product capability hint =
     (case product of
        None \<Rightarrow> Some (app_Internal (ErrRefused ''product not loaded for capability check''))
      | Some p \<Rightarrow>
          if ProductSupports (prod_Type p) capability then None
          else Some (app_New 404 ''FEATURE_NOT_AVAILABLE'' (hint @ '' is not available for '' @ prod_Type p @ '' products'')))"

definition refuseFloating :: "License \<Rightarrow> AppError option" where
  "refuseFloating lic =
     (case lic_Plan lic of
        Some p \<Rightarrow>
          if plan_LicenseModel p = ''floating''
          then Some (app_Conflict ''FLOATING_LICENSE''
                 ''this license is floating: check out a seat with /license/floating/checkout instead'')
          else None
      | None \<Rightarrow> None)"

definition seatPaused :: "License \<Rightarrow> AppError option" where
  "seatPaused lic =
     (if lic_KeySeat lic \<noteq> None \<and> lic_KeySeatPaused lic
      then Some (app_New 403 ''SEAT_PAUSED''
        (''this member'' @ [char_of (39 :: nat)] @ ''s seat is paused: the license has more people than seats; the owner can remove a member or add seats''))
      else None)"

fun firstErr :: "AppError option list \<Rightarrow> AppError option" where
  "firstErr [] = None"
| "firstErr (e # es) = (case e of Some err \<Rightarrow> Some err | None \<Rightarrow> firstErr es)"

section \<open>Lifecycle\<close>

definition effectiveGraceDays :: "License \<Rightarrow> int" where
  "effectiveGraceDays lic =
     (if lic_Status lic = StatusActive \<or> lic_Status lic = StatusTrialing \<or> lic_Status lic = StatusPastDue
      then license_grace_days lic else 0)"

definition assertUsable :: "env \<Rightarrow> License \<Rightarrow> AppError option" where
  "assertUsable e lic =
     (let now = env_now e; st = lic_Status lic in
      if st = StatusActive \<or> st = StatusTrialing \<or> st = StatusPastDue then
        (case lic_ValidUntil lic of
           Some vu \<Rightarrow>
             if now > vu \<and> now > time_add vu (days_dur (effectiveGraceDays lic))
             then Some (app_New 403 ''LICENSE_EXPIRED'' ''license has expired'') else None
         | None \<Rightarrow> None)
      else if st = StatusCanceled then
        (case lic_ValidUntil lic of
           Some vu \<Rightarrow> if now < vu then None else Some (app_New 403 ''LICENSE_CANCELED'' ''license has been canceled'')
         | None \<Rightarrow> Some (app_New 403 ''LICENSE_CANCELED'' ''license has been canceled''))
      else if st = StatusSuspended then Some (app_New 403 ''LICENSE_SUSPENDED'' ''license has been suspended'')
      else if st = StatusRevoked then Some (app_New 403 ''LICENSE_REVOKED'' ''license has been revoked'')
      else if st = StatusExpired then Some (app_New 403 ''LICENSE_EXPIRED'' ''license has expired'')
      else Some (app_New 403 ''LICENSE_INVALID'' ''license is not valid''))"

definition LicenseUsable :: "env \<Rightarrow> License \<Rightarrow> AppError option" where
  "LicenseUsable e lic = assertUsable e lic"

definition IsLicenseUsable :: "env \<Rightarrow> License \<Rightarrow> bool" where
  "IsLicenseUsable e lic =
     (let now = env_now e; graceDays = license_grace_days lic; st = lic_Status lic in
      if st = StatusActive \<or> st = StatusTrialing \<or> st = StatusPastDue then
        (case lic_ValidUntil lic of
           None \<Rightarrow> True
         | Some vu \<Rightarrow> if now < vu then True else now < time_add vu (days_dur graceDays))
      else if st = StatusCanceled then (case lic_ValidUntil lic of None \<Rightarrow> False | Some vu \<Rightarrow> now < vu)
      else False)"

definition maxActivations :: "License \<Rightarrow> int" where
  "maxActivations lic = snd (license_limits lic)"

definition loadLicenseForSDK :: "env \<Rightarrow> string \<Rightarrow> string \<Rightarrow> string \<Rightarrow> bool \<Rightarrow> db \<Rightarrow> License app_result" where
  "loadLicenseForSDK e key productID capability usabilityRequired d =
     (case FindLicenseByKey e key d of
        Inl err \<Rightarrow> Inl (if errors_is err ErrNoRows then licenseNotFound else app_Internal err)
      | Inr lic \<Rightarrow>
          if productID \<noteq> '''' \<and> lic_ProductID lic \<noteq> productID then Inl licenseNotFound
          else if capability \<noteq> '''' \<and>
            (case lic_Product lic of None \<Rightarrow> True | Some p \<Rightarrow> \<not> ProductSupports (prod_Type p) capability)
          then Inl licenseNotFound
          else if usabilityRequired \<and> (\<not> IsLicenseUsable e lic \<or> lic_KeySeatPaused lic) then Inl licenseNotFound
          else Inr lic)"

section \<open>The token of an answer\<close>

definition tokenTTL :: duration where
  "tokenTTL = 7 * 24 * Hour"

definition tokenTTLFor :: "License \<Rightarrow> duration" where
  "tokenTTLFor lic =
     (case lic_Plan lic of
        Some p \<Rightarrow> if plan_TokenTTLDays p > 0 then days_dur (plan_TokenTTLDays p) else tokenTTL
      | None \<Rightarrow> tokenTTL)"

definition token_expiry :: "time \<Rightarrow> License \<Rightarrow> time" where
  "token_expiry now lic =
     (let expiresAt = time_add now (tokenTTLFor lic) in
      case lic_ValidUntil lic of
        None \<Rightarrow> expiresAt
      | Some vu \<Rightarrow>
          let deadline = time_add vu (days_dur (effectiveGraceDays lic))
          in if deadline < expiresAt then deadline else expiresAt)"

definition token_for :: "env \<Rightarrow> License \<Rightarrow> string \<Rightarrow> (string \<rightharpoonup> feature_value) \<Rightarrow> VerifyToken" where
  "token_for e lic identifier features =
     \<lparr>vt_LicenseID = lic_ID lic, vt_ProductID = lic_ProductID lic, vt_PlanID = lic_PlanID lic,
      vt_Status = lic_Status lic, vt_Identifier = identifier, vt_Features = features,
      vt_IssuedAt = unix_seconds (env_now e), vt_ExpiresAt = unix_seconds (token_expiry (env_now e) lic),
      vt_ValidUntil = (case lic_ValidUntil lic of None \<Rightarrow> 0 | Some vu \<Rightarrow> unix_seconds vu),
      vt_UpdatesUntil = (case EffectiveUpdatesUntil lic of None \<Rightarrow> 0 | Some u \<Rightarrow> unix_seconds u),
      vt_GraceDays = effectiveGraceDays lic, vt_Nonce = '''',
      vt_Fingerprint = Fingerprint e identifier (lic_ProductID lic)\<rparr>"

definition signToken ::
  "token_lib \<Rightarrow> env \<Rightarrow> License \<Rightarrow> string \<Rightarrow> LicenseService \<Rightarrow> (string \<times> (string \<rightharpoonup> feature_value)) result" where
  "signToken lib e lic identifier sv =
     (case LicenseFeatures (Some (sv_db sv)) lic of
        Inl err \<Rightarrow> Inl err
      | Inr ents \<Rightarrow>
          let features = featureValues ents in
          case Sign lib e (token_for e lic identifier features) (sv_signingKey sv) of
            Inl err \<Rightarrow> Inl err
          | Inr token \<Rightarrow> Inr (token, features))"

section \<open>Activate, verify, deactivate\<close>

record ActivateInput =
  ain_LicenseKey :: string
  ain_Identifier :: string
  ain_IdentifierType :: string
  ain_Label :: string
  ain_IPAddress :: string
  ain_ProductID :: string

record ActivateResult =
  ares_Status :: string
  ares_LicenseID :: string
  ares_Token :: string

definition activate_answer ::
  "token_lib \<Rightarrow> env \<Rightarrow> string \<Rightarrow> License \<Rightarrow> string \<Rightarrow> LicenseService \<Rightarrow> ActivateResult app_result \<times> LicenseService" where
  "activate_answer lib e status lic identifier sv =
     (case signToken lib e lic identifier sv of
        Inl err \<Rightarrow> (Inl (app_Internal err), sv)
      | Inr (token, _) \<Rightarrow> (Inr \<lparr>ares_Status = status, ares_LicenseID = lic_ID lic, ares_Token = token\<rparr>, sv))"

definition touch :: "env \<Rightarrow> string \<Rightarrow> LicenseService \<Rightarrow> LicenseService" where
  "touch e aid sv = sv\<lparr>sv_db := snd (TouchActivation e aid (sv_db sv))\<rparr>"

definition device_request :: "ActivateInput \<Rightarrow> License \<Rightarrow> Activation" where
  "device_request i lic = zero_Activation\<lparr>act_LicenseID := lic_ID lic, act_Identifier := ain_Identifier i,
     act_IdentifierType := (if ain_IdentifierType i = '''' then ''device'' else ain_IdentifierType i),
     act_Label := ain_Label i, act_IPAddress := ain_IPAddress i, act_SeatID := keySeatID lic\<rparr>"

text \<open>From the locked transaction on: what \<^verbatim>\<open>ActivateForKey\<close> answered becomes the reply.\<close>

definition activate_locked ::
  "token_lib \<Rightarrow> env \<Rightarrow> ActivateInput \<Rightarrow> License \<Rightarrow> LicenseService \<Rightarrow> ActivateResult app_result \<times> LicenseService" where
  "activate_locked lib e i lic sv =
     (let maxA = maxActivations lic;
          (err, act, d) = ActivateForKey e (device_request i lic) maxA (ain_LicenseKey i) (sv_db sv);
          sv = sv\<lparr>sv_db := d\<rparr> in
      case err of
        Some er \<Rightarrow>
          if errors_is er ErrKeyRevoked then (Inl licenseNotFound, sv)
          else if errors_is er ErrDeviceHeld then
            (Inl (app_Conflict ''DEVICE_HELD''
               ''this device is activated with another key on this license; the license owner can remove it in the portal''), sv)
          else if errors_is er ErrAlreadyActivated then
            (let sv = touch e (act_ID act) sv;
                 sv = (if errors_is er ErrDeviceMoved
                       then sv\<lparr>sv_db := Audit (sdk_audit (lic_ID lic) ''device_moved_to_member'' (ain_IPAddress i)
                           [(''identifier'', DStr (ain_Identifier i)), (''seat_id'', DStr (keySeatID lic))]) (sv_db sv)\<rparr> else sv)
             in activate_answer lib e ''already_activated'' lic (ain_Identifier i) sv)
          else if er = ErrActivationLimit then
            (Inl (app_WithDetails (app_Conflict ''ACTIVATION_LIMIT'' ''maximum activations reached'')
               [(''max'', DInt maxA), (''current'', DInt (case CountActivations (lic_ID lic) (sv_db sv) of Inr n \<Rightarrow> n | Inl _ \<Rightarrow> 0))]), sv)
          else (Inl (app_Internal er), sv)
      | None \<Rightarrow>
          let sv = sv\<lparr>sv_db := Audit (sdk_audit (lic_ID lic) ''activated'' (ain_IPAddress i)
                [(''identifier'', DStr (ain_Identifier i)), (''type'', DStr (act_IdentifierType (device_request i lic))), (''label'', DStr (ain_Label i))]) (sv_db sv)\<rparr>;
              sv = recordSuccess (ain_IPAddress i) sv;
              sv = (if sv_webhook sv then sv\<lparr>sv_db := Dispatch (lic_ProductID lic) ''license.activated''
                [(''license_id'', DStr (lic_ID lic)), (''identifier'', DStr (ain_Identifier i)), (''type'', DStr (act_IdentifierType (device_request i lic)))] (sv_db sv)\<rparr> else sv)
          in activate_answer lib e ''activated'' lic (ain_Identifier i) sv)"

text \<open>
  What activate and verify ask before they look at the device: the address is not locked out, the
  key finds a licence, of the product if one was named.
\<close>

definition find_for_device ::
  "env \<Rightarrow> string \<Rightarrow> string \<Rightarrow> string \<Rightarrow> LicenseService \<Rightarrow> License app_result \<times> LicenseService" where
  "find_for_device e key productID ip sv =
     (case blocked_for e ip sv of
        Some locked \<Rightarrow> (Inl locked, sv)
      | None \<Rightarrow>
          (case FindLicenseByKey e key (sv_db sv) of
             Inl err \<Rightarrow> if errors_is err ErrNoRows then fail_not_found e ip sv else (Inl (app_Internal err), sv)
           | Inr lic \<Rightarrow>
               if productID \<noteq> '''' \<and> lic_ProductID lic \<noteq> productID then fail_not_found e ip sv else (Inr lic, sv)))"

definition Activate ::
  "token_lib \<Rightarrow> env \<Rightarrow> env \<Rightarrow> (nat \<Rightarrow> db \<Rightarrow> db) \<Rightarrow> ActivateInput \<Rightarrow> LicenseService \<Rightarrow> ActivateResult app_result \<times> LicenseService" where
  "Activate lib e e' mid i sv =
     (case find_for_device e (ain_LicenseKey i) (ain_ProductID i) (ain_IPAddress i) sv of
        (Inl err, sv) \<Rightarrow> (Inl err, sv)
      | (Inr lic, sv) \<Rightarrow>
          (case requireProductCapability (lic_Product lic) CapActivations ''device activation'' of
             Some err \<Rightarrow> (Inl err, sv)
           | None \<Rightarrow>
          (case assertUsable e lic of
             Some err \<Rightarrow> (Inl err, sv)
           | None \<Rightarrow>
          (case seatPaused lic of
             Some err \<Rightarrow> (Inl err, sv)
           | None \<Rightarrow>
          (case refuseFloating lic of
             Some err \<Rightarrow> (Inl err, sv)
           | None \<Rightarrow>
               let sv = interfere (mid 0) sv; seatID = keySeatID lic;
                   existing = FindActivation (lic_ID lic) (ain_Identifier i) (sv_db sv);
                   sv = interfere (mid 1) sv in
               (case existing of
                  Inr a \<Rightarrow>
                    if seatID = '''' \<or> act_SeatID a = seatID
                    then activate_answer lib e' ''already_activated'' lic (ain_Identifier i) (touch e' (act_ID a) sv)
                    else activate_locked lib e' i lic sv
                | Inl _ \<Rightarrow> activate_locked lib e' i lic sv))))))"

record VerifyInput =
  vin_LicenseKey :: string
  vin_Identifier :: string
  vin_ProductID :: string
  vin_IPAddress :: string

type_synonym DeactivateInput = VerifyInput

record VerifyResult =
  vres_Status :: string
  vres_PlanID :: string
  vres_PlanName :: string
  vres_ValidUntil :: "time option"
  vres_UpdatesUntil :: "time option"
  vres_Features :: "(string \<rightharpoonup> feature_value)"
  vres_Token :: string
  vres_GraceDays :: int
  vres_ExternalCustomerID :: string
  vres_ExternalWorkspaceID :: string

text \<open>The device of a request, unless the key is a member's and the device is not that member's.\<close>

definition own_device :: "License \<Rightarrow> string \<Rightarrow> db \<Rightarrow> Activation result" where
  "own_device lic identifier d =
     (case FindActivation (lic_ID lic) identifier d of
        Inl err \<Rightarrow> Inl err
      | Inr a \<Rightarrow>
          (case lic_KeySeat lic of
             Some s \<Rightarrow> if act_SeatID a \<noteq> seat_ID s then Inl ErrNoRows else Inr a
           | None \<Rightarrow> Inr a))"

definition service_Verify ::
  "token_lib \<Rightarrow> env \<Rightarrow> env \<Rightarrow> (nat \<Rightarrow> db \<Rightarrow> db) \<Rightarrow> VerifyInput \<Rightarrow> LicenseService \<Rightarrow> VerifyResult app_result \<times> LicenseService" where
  "service_Verify lib e e' mid i sv =
     (case find_for_device e (vin_LicenseKey i) (vin_ProductID i) (vin_IPAddress i) sv of
        (Inl err, sv) \<Rightarrow> (Inl err, sv)
      | (Inr lic, sv) \<Rightarrow>
          (case requireProductCapability (lic_Product lic) CapActivations ''device verification'' of
             Some err \<Rightarrow> (Inl err, sv)
           | None \<Rightarrow>
               if firstErr [assertUsable e lic, seatPaused lic] \<noteq> None then fail_not_found e (vin_IPAddress i) sv
               else
          (case refuseFloating lic of
             Some err \<Rightarrow> (Inl err, sv)
           | None \<Rightarrow>
               let sv = interfere (mid 0) sv in
               (case own_device lic (vin_Identifier i) (sv_db sv) of
                  Inl _ \<Rightarrow> (Inl licenseNotFound, sv)
                | Inr a \<Rightarrow>
                    let sv = recordSuccess (vin_IPAddress i) (touch e' (act_ID a) (interfere (mid 1) sv)) in
                    (case signToken lib e' lic (vin_Identifier i) sv of
                       Inl err \<Rightarrow> (Inl (app_Internal err), sv)
                     | Inr (token, features) \<Rightarrow>
                         (Inr \<lparr>vres_Status = lic_Status lic, vres_PlanID = lic_PlanID lic,
                            vres_PlanName = (case lic_Plan lic of None \<Rightarrow> '''' | Some p \<Rightarrow> plan_Name p),
                            vres_ValidUntil = lic_ValidUntil lic, vres_UpdatesUntil = EffectiveUpdatesUntil lic,
                            vres_Features = features, vres_Token = token, vres_GraceDays = effectiveGraceDays lic,
                            vres_ExternalCustomerID = lic_ExternalCustomerID lic,
                            vres_ExternalWorkspaceID = lic_ExternalWorkspaceID lic\<rparr>, sv))))))"

definition Deactivate ::
  "env \<Rightarrow> (nat \<Rightarrow> db \<Rightarrow> db) \<Rightarrow> DeactivateInput \<Rightarrow> LicenseService \<Rightarrow> unit app_result \<times> LicenseService" where
  "Deactivate e mid i sv =
     (case find_for_device e (vin_LicenseKey i) (vin_ProductID i) (vin_IPAddress i) sv of
        (Inl err, sv) \<Rightarrow> (Inl err, sv)
      | (Inr lic, sv) \<Rightarrow>
          (case requireProductCapability (lic_Product lic) CapActivations ''device deactivation'' of
             Some err \<Rightarrow> (Inl err, sv)
           | None \<Rightarrow>
               let sv = interfere (mid 0) sv in
               (case own_device lic (vin_Identifier i) (sv_db sv) of
                  Inl _ \<Rightarrow> (Inl licenseNotFound, sv)
                | Inr a \<Rightarrow>
                    (case DeleteActivation (act_ID a) (mid 1 (sv_db sv)) of
                       (Inl err, d) \<Rightarrow> (Inl (if errors_is err ErrNoRows then licenseNotFound else app_Internal err), sv\<lparr>sv_db := d\<rparr>)
                     | (Inr _, d) \<Rightarrow>
                         let sv = recordSuccess (vin_IPAddress i) (sv\<lparr>sv_db := Audit (sdk_audit (lic_ID lic) ''deactivated'' (vin_IPAddress i)
                           [(''identifier'', DStr (vin_Identifier i))]) d\<rparr>)
                         in (Inr (), if sv_webhook sv
                                     then sv\<lparr>sv_db := Dispatch (lic_ProductID lic) ''license.deactivated''
                             [(''license_id'', DStr (lic_ID lic)), (''identifier'', DStr (vin_Identifier i))] (sv_db sv)\<rparr> else sv)))))"

section \<open>What the requests lead to\<close>

lemma audit_tables [simp]:
  "db_activations (Audit a d) = db_activations d" "db_activations (Dispatch p ev dt d) = db_activations d"
  "db_licenses (Audit a d) = db_licenses d" "db_licenses (Dispatch p ev dt d) = db_licenses d"
  "db_plans (Audit a d) = db_plans d" "db_plans (Dispatch p ev dt d) = db_plans d"
  "db_products (Audit a d) = db_products d" "db_products (Dispatch p ev dt d) = db_products d"
  "db_seats (Audit a d) = db_seats d" "db_seats (Dispatch p ev dt d) = db_seats d"
  "db_floating (Audit a d) = db_floating d" "db_floating (Dispatch p ev dt d) = db_floating d"
  "db_fault (Audit a d) = db_fault d" "db_fault (Dispatch p ev dt d) = db_fault d"
  by (simp_all add: Audit_def Dispatch_def)

lemma audit_frame [simp]:
  "keyHeldIn e lid sid key (Audit a d) = keyHeldIn e lid sid key d"
  "keyHeldIn e lid sid key (Dispatch p ev dt d) = keyHeldIn e lid sid key d"
  "lockLicenseLimitsIn lid (Audit a d) = lockLicenseLimitsIn lid d"
  "lockLicenseLimitsIn lid (Dispatch p ev dt d) = lockLicenseLimitsIn lid d"
  by (rule keyHeldIn_frame; simp) (rule keyHeldIn_frame lockLicenseLimitsIn_frame; simp)+

lemma service_frame [simp]:
  "sv_db (recordSuccess ip sv) = sv_db sv" "sv_webhook (recordSuccess ip sv) = sv_webhook sv"
  "sv_db (interfere f sv) = f (sv_db sv)" "sv_failures (interfere f sv) = sv_failures sv"
  "sv_signingKey (interfere f sv) = sv_signingKey sv"
  by (simp_all add: recordSuccess_def interfere_def)

lemma activate_answer_InrD:
  "activate_answer lib e st lic ident sv = (Inr r, sv') \<Longrightarrow>
   sv' = sv \<and> ares_Status r = st \<and> ares_LicenseID r = lic_ID lic"
  by (auto simp: activate_answer_def split: sum.splits)

lemma find_for_device_InrD:
  assumes "find_for_device e key pid ip sv = (Inr lic, sv')"
  shows "sv' = sv \<and> FindLicenseByKey e key (sv_db sv) = Inr lic \<and> blocked_for e ip sv = None \<and> (pid = '''' \<or> lic_ProductID lic = pid)"
  using assms by (auto simp: find_for_device_def fail_not_found_def split: option.splits sum.splits if_splits prod.splits)

lemma activate_locked_activated:
  assumes "activate_locked lib e i lic sv = (Inr r, sv')" and "ares_Status r = ''activated''"
  obtains act d where "ActivateForKey e (device_request i lic) (maxActivations lic) (ain_LicenseKey i) (sv_db sv) = (None, act, d)"
    "ares_LicenseID r = lic_ID lic" "db_activations (sv_db sv') = db_activations d"
    "\<And>e lid sid key. keyHeldIn e lid sid key (sv_db sv') = keyHeldIn e lid sid key d"
    "\<And>lid. lockLicenseLimitsIn lid (sv_db sv') = lockLicenseLimitsIn lid d"
proof -
  obtain err act d where A: "ActivateForKey e (device_request i lic) (maxActivations lic) (ain_LicenseKey i) (sv_db sv) = (err, act, d)"
    by (metis prod_cases3)
  note B = assms(1) [unfolded activate_locked_def Let_def A prod.case]
  show ?thesis
  proof (cases err)
    case (Some er)
    with B assms(2) show ?thesis by (auto split: if_splits dest: activate_answer_InrD)
  next
    case None
    with B have "ares_LicenseID r = lic_ID lic \<and> db_activations (sv_db sv') = db_activations d \<and>
        (\<forall>e lid sid key. keyHeldIn e lid sid key (sv_db sv') = keyHeldIn e lid sid key d) \<and>
        (\<forall>lid. lockLicenseLimitsIn lid (sv_db sv') = lockLicenseLimitsIn lid d)"
      by (auto split: if_splits dest!: activate_answer_InrD)
    with that A None show ?thesis by blast
  qed
qed

lemma Activate_cases:
  assumes "Activate lib e e' mid i sv = (Inr r, sv')" and "ares_Status r = ''activated''"
  obtains lic sv1 where "FindLicenseByKey e (ain_LicenseKey i) (sv_db sv) = Inr lic" "blocked_for e (ain_IPAddress i) sv = None"
    "assertUsable e lic = None" "seatPaused lic = None" "refuseFloating lic = None"
    "activate_locked lib e' i lic sv1 = (Inr r, sv')"
proof -
  from assms(1) obtain lic where f: "find_for_device e (ain_LicenseKey i) (ain_ProductID i) (ain_IPAddress i) sv = (Inr lic, sv)"
    by (auto simp: Activate_def split: prod.splits sum.splits dest: find_for_device_InrD)
  let ?sv0 = "interfere (mid 0) sv" let ?sv1 = "interfere (mid 1) ?sv0"
  note A = assms(1) [unfolded Activate_def f prod.case sum.case Let_def]
  from A have ok: "assertUsable e lic = None" "seatPaused lic = None" "refuseFloating lic = None"
    "requireProductCapability (lic_Product lic) CapActivations ''device activation'' = None"
    by (auto split: option.splits)
  note B = A [unfolded ok option.case]
  have either: "(\<exists>aid. activate_answer lib e' ''already_activated'' lic (ain_Identifier i) (touch e' aid ?sv1) = (Inr r, sv')) \<or>
      activate_locked lib e' i lic ?sv1 = (Inr r, sv')"
    using B by (cases "FindActivation (lic_ID lic) (ain_Identifier i) (sv_db ?sv0)") (auto split: if_splits)
  from either assms(2) have "activate_locked lib e' i lic ?sv1 = (Inr r, sv')" by (auto dest: activate_answer_InrD)
  with that find_for_device_InrD [OF f] ok show ?thesis by blast
qed

text \<open>
  C2: a device is activated only for a key that works and only into a free slot. Whatever other
  requests do between the steps of this one, when activation answers \<^verbatim>\<open>activated\<close> the key it
  was given found the licence in the answer, usable and not paused, from an address that is not
  locked out, is still held in the database the transaction leaves, the device is there on the
  key's seat, and the licence's devices are within the limit of its plan.
\<close>

theorem activate_answers_activated:
  assumes "Activate lib e e' mid i sv = (Inr r, sv')" and "ares_Status r = ''activated''" and "ain_LicenseKey i \<noteq> ''''"
  shows "\<exists>lic. FindLicenseByKey e (ain_LicenseKey i) (sv_db sv) = Inr lic \<and> ares_LicenseID r = lic_ID lic \<and>
     blocked_for e (ain_IPAddress i) sv = None \<and> assertUsable e lic = None \<and> seatPaused lic = None \<and>
     keyHeldIn e' (lic_ID lic) (keySeatID lic) (ain_LicenseKey i) (sv_db sv') \<and>
     (\<exists>a \<in> set (db_activations (sv_db sv')). act_LicenseID a = lic_ID lic \<and> act_Identifier a = ain_Identifier i \<and>
        act_SeatID a = keySeatID lic) \<and>
     (\<forall>s m. lockLicenseLimitsIn (lic_ID lic) (sv_db sv') = Some (s, m) \<longrightarrow> devices (lic_ID lic) (sv_db sv') \<le> m)"
proof -
  from assms(1,2) obtain lic sv1 where lic: "FindLicenseByKey e (ain_LicenseKey i) (sv_db sv) = Inr lic"
    "blocked_for e (ain_IPAddress i) sv = None" "assertUsable e lic = None" "seatPaused lic = None"
    and locked: "activate_locked lib e' i lic sv1 = (Inr r, sv')" by (rule Activate_cases)
  from locked assms(2) obtain act d where
    A: "ActivateForKey e' (device_request i lic) (maxActivations lic) (ain_LicenseKey i) (sv_db sv1) = (None, act, d)"
    and id': "ares_LicenseID r = lic_ID lic" and fr: "db_activations (sv_db sv') = db_activations d"
    "\<And>e lid sid key. keyHeldIn e lid sid key (sv_db sv') = keyHeldIn e lid sid key d"
    "\<And>lid. lockLicenseLimitsIn lid (sv_db sv') = lockLicenseLimitsIn lid d"
    by (rule activate_locked_activated) blast
  have dr: "act_LicenseID (device_request i lic) = lic_ID lic" "act_SeatID (device_request i lic) = keySeatID lic"
    "act_Identifier (device_request i lic) = ain_Identifier i"
    by (simp_all add: device_request_def)
  from A [unfolded ActivateForKey_def] show ?thesis
  proof (cases rule: activateWithinLimit_cases)
    case (taken act1)
    have d: "d = (sv_db sv1)\<lparr>db_activations := db_activations (sv_db sv1) @ [activation_row e' act1]\<rparr>"
      by (rule insert_activation_InrD(1) [OF taken(2)])
    have "devices (lic_ID lic) d = devices (lic_ID lic) (sv_db sv1) + 1"
      using taken(3) dr by (simp add: d tbl_simps)
    with taken dr lic id' fr assms(3) show ?thesis by (auto simp: d)
  qed simp_all
qed

lemma fail_not_found_same:
  assumes "sv_failures sv2 = sv_failures sv"
  shows "fst (fail_not_found e ip sv2) = fst (fail_not_found e ip sv)"
    "sv_failures (snd (fail_not_found e ip sv2 :: 'a app_result \<times> LicenseService)) =
     sv_failures (snd (fail_not_found e ip sv :: 'a app_result \<times> LicenseService))"
    "sv_db (snd (fail_not_found e ip sv)) = sv_db sv"
  using assms by (auto simp: fail_not_found_def recordFailure_def blocked_for_def Let_def split: option.splits prod.splits)

text \<open>
  C16: verify tells a caller nothing of a key that does not work, on a product that has device
  activations. For a licence of such a product that is expired, canceled, suspended or revoked, or a
  member's key that is paused, it gives the same answer as for a key that does not exist, and counts
  the attempt against the address in the same way, so the lockout does not tell them apart either.
  On a product without device activations the key is not hidden: the answer, unless the address is
  locked out, is that the feature is not available, and no failed attempt is counted.
\<close>

theorem verify_hides_unusable:
  assumes "FindLicenseByKey e (vin_LicenseKey i) (sv_db sv) = Inr lic"
    and "vin_ProductID i = '''' \<or> lic_ProductID lic = vin_ProductID i"
    and "assertUsable e lic \<noteq> None \<or> seatPaused lic \<noteq> None"
    and "FindLicenseByKey e (vin_LicenseKey j) (sv_db sv2) = Inl ErrNoRows"
    and "sv_failures sv2 = sv_failures sv" and "vin_IPAddress j = vin_IPAddress i"
  shows "case requireProductCapability (lic_Product lic) CapActivations ''device verification'' of
       None \<Rightarrow>
         fst (service_Verify lib e e' mid i sv) = fst (service_Verify lib e e' mid2 j sv2) \<and>
         sv_failures (snd (service_Verify lib e e' mid i sv)) = sv_failures (snd (service_Verify lib e e' mid2 j sv2)) \<and>
         sv_db (snd (service_Verify lib e e' mid i sv)) = sv_db sv
     | Some err \<Rightarrow>
         service_Verify lib e e' mid i sv =
           (Inl (case blocked_for e (vin_IPAddress i) sv of None \<Rightarrow> err | Some locked \<Rightarrow> locked), sv)"
proof (cases "requireProductCapability (lic_Product lic) CapActivations ''device verification''")
  case (Some err)
  then show ?thesis using assms(1,2)
    by (cases "blocked_for e (vin_IPAddress i) sv") (auto simp: service_Verify_def find_for_device_def)
next
  case capable: None
  have same: "blocked_for e ip sv2 = blocked_for e ip sv" for ip using assms(5) by (simp add: blocked_for_def)
  have none: "firstErr [assertUsable e lic, seatPaused lic] \<noteq> None" using assms(3) by (auto split: option.splits)
  show ?thesis
  proof (cases "blocked_for e (vin_IPAddress i) sv")
    case (Some locked)
    with assms same capable show ?thesis by (simp add: service_Verify_def find_for_device_def)
  next
    case None
    have "service_Verify lib e e' mid i sv = fail_not_found e (vin_IPAddress i) sv"
      using None assms(1,2) capable none by (auto simp: service_Verify_def find_for_device_def)
    moreover have "find_for_device e (vin_LicenseKey j) (vin_ProductID j) (vin_IPAddress j) sv2 = fail_not_found e (vin_IPAddress i) sv2"
      using None same assms(4,6) by (simp add: find_for_device_def errors_is_def)
    then have "service_Verify lib e e' mid2 j sv2 = fail_not_found e (vin_IPAddress i) sv2"
      by (auto simp: service_Verify_def fail_not_found_def split: prod.splits option.splits)
    ultimately show ?thesis by (simp add: capable fail_not_found_same [OF assms(5)])
  qed
qed

text \<open>
  C15: a token never outlives the licence it was issued for. Under the laws of the signature and of
  the JSON encoding, a token of a licence with an end date is accepted offline only up to the
  second of that end plus the grace the server itself gives the licence in its present status,
  and only for the check-in interval of the plan; within both it is accepted and carries the
  licence, the device and its fingerprint.
\<close>

theorem token_never_outlives_license:
  assumes "signToken lib e lic ident sv = Inr (token, features)" and "lic_ValidUntil lic = Some vu"
    and "\<forall>m. ed_verify lib (ed_public lib (sv_signingKey sv)) m (ed_sign lib (sv_signingKey sv) m)"
    and "length (ed_public lib (sv_signingKey sv)) = 32"
    and "\<forall>p. json_marshal lib (with_nonce e (token_for e lic ident features)) = Some p \<longrightarrow>
           json_unmarshal lib p = Some (with_nonce e (token_for e lic ident features))"
    and "0 < unix_seconds (token_expiry (env_now e) lic)"
  shows "case Verify lib now token (PublicKey lib (sv_signingKey sv)) of
           Inr t \<Rightarrow> unix_seconds now \<le> unix_seconds (time_add vu (days_dur (effectiveGraceDays lic))) \<and>
             unix_seconds now \<le> unix_seconds (time_add (env_now e) (tokenTTLFor lic)) \<and>
             vt_LicenseID t = lic_ID lic \<and> vt_Identifier t = ident \<and> vt_Features t = features \<and>
             vt_Fingerprint t = Fingerprint e ident (lic_ProductID lic)
         | Inl err \<Rightarrow> err = ErrRefused ''token expired'' \<and>
             (unix_seconds (time_add vu (days_dur (effectiveGraceDays lic))) < unix_seconds now \<or>
              unix_seconds (time_add (env_now e) (tokenTTLFor lic)) < unix_seconds now)"
proof -
  let ?t = "token_for e lic ident features"
  from assms(1) have sig: "Sign lib e ?t (sv_signingKey sv) = Inr token"
    by (auto simp: signToken_def Let_def split: sum.splits)
  then obtain payload where p: "json_marshal lib (with_nonce e ?t) = Some payload"
    and raw: "token = b64_encode payload @ ''.'' @ b64_encode (ed_sign lib (sv_signingKey sv) (b64_encode payload))"
    by (rule Sign_InrD)
  have exp: "vt_ExpiresAt (with_nonce e ?t) = unix_seconds (token_expiry (env_now e) lic)"
    "vt_LicenseID (with_nonce e ?t) = lic_ID lic" "vt_Identifier (with_nonce e ?t) = ident" "vt_Features (with_nonce e ?t) = features"
    "vt_Fingerprint (with_nonce e ?t) = Fingerprint e ident (lic_ProductID lic)"
    by (simp_all add: with_nonce_def token_for_def)
  have "Verify lib now token (PublicKey lib (sv_signingKey sv)) =
      (if unix_seconds (token_expiry (env_now e) lic) < unix_seconds now then Inl (ErrRefused ''token expired'')
       else Inr (with_nonce e ?t))"
    using Verify_signed [OF assms(4), of payload _ "with_nonce e ?t" now] assms(3,5,6) p raw exp by simp
  moreover have "token_expiry (env_now e) lic = min (time_add vu (days_dur (effectiveGraceDays lic))) (time_add (env_now e) (tokenTTLFor lic))"
    using assms(2) by (auto simp: token_expiry_def Let_def)
  then have "unix_seconds (token_expiry (env_now e) lic) =
      min (unix_seconds (time_add vu (days_dur (effectiveGraceDays lic)))) (unix_seconds (time_add (env_now e) (tokenTTLFor lic)))"
    using unix_seconds_mono by (auto simp: min_def dest: antisym)
  ultimately show ?thesis using exp by (auto split: if_splits)
qed

definition demo_service :: LicenseService where
  "demo_service = \<lparr>sv_failures = None, sv_db = demo_db, sv_signingKey = demo_priv, sv_webhook = True\<rparr>"

text \<open>A JSON encoder that keeps every token apart for the evaluation: one fixed token each way.\<close>

definition one_token_lib :: "VerifyToken \<Rightarrow> token_lib" where
  "one_token_lib t = demo_lib\<lparr>json_marshal := (\<lambda>u. if u = t then Some ''{}'' else None), json_unmarshal := (\<lambda>s. Some t)\<rparr>"

definition ending_license :: License where
  "ending_license = demo_license\<lparr>lic_ValidUntil := Some (10 * Second), lic_Status := StatusCanceled\<rparr>"

theorem token_never_outlives_license_witness:
  "\<exists>lib token. signToken lib (demo_env\<lparr>env_now := 5 * Second\<rparr>) ending_license ''m1'' demo_service = Inr (token, Map.empty) \<and>
     Verify lib (11 * Second) token (PublicKey lib demo_priv) = Inl (ErrRefused ''token expired'')"
proof -
  let ?e = "demo_env\<lparr>env_now := 5 * Second\<rparr>"
  let ?t = "with_nonce ?e (token_for ?e ending_license ''m1'' Map.empty)"
  let ?lib = "one_token_lib ?t"
  have lic: "lic_ID ending_license = ''L''" "lic_ValidUntil ending_license = Some (10 * Second)" "lic_Plan ending_license = None"
    "lic_Status ending_license = StatusCanceled"
    by (simp_all add: ending_license_def demo_license_def zero_License_def)
  have g: "effectiveGraceDays ending_license = 0"
    by (simp add: effectiveGraceDays_def lic)
  have "LicenseFeatures (Some demo_db) ending_license = Inr []"
    by (simp add: LicenseFeatures_def ListLicenseAddons_def lic Let_def)
  then have s: "\<exists>token. signToken ?lib ?e ending_license ''m1'' demo_service = Inr (token, Map.empty)"
    by (simp add: signToken_def demo_service_def featureValues_def Sign_def demo_priv_def Let_def one_token_lib_def)
  then obtain token where s: "signToken ?lib ?e ending_license ''m1'' demo_service = Inr (token, Map.empty)" ..
  have lib: "\<forall>m. ed_verify ?lib (ed_public ?lib (sv_signingKey demo_service)) m (ed_sign ?lib (sv_signingKey demo_service) m)"
    "length (ed_public ?lib (sv_signingKey demo_service)) = 32"
    "\<forall>p. json_marshal ?lib ?t = Some p \<longrightarrow> json_unmarshal ?lib p = Some ?t"
    by (auto simp: one_token_lib_def demo_lib_def demo_service_def demo_priv_def split: if_splits)
  have "0 < unix_seconds (token_expiry (env_now ?e) ending_license)"
    by (simp add: token_expiry_def lic g tokenTTLFor_def tokenTTL_def time_add_def unix_seconds_def duration_defs Let_def)
  from token_never_outlives_license [OF s lic(2) lib this, of "11 * Second"] s show ?thesis
    by (auto simp: g time_add_def unix_seconds_def duration_defs demo_service_def split: sum.splits)
qed

text \<open>
  C25: the two usability rules agree up to one instant. \<open>assertUsable\<close>, which activation and
  verification apply, and \<open>IsLicenseUsable\<close>, which downloads and the other SDK endpoints apply,
  answer alike on every licence and at every time, except at exactly the end of a running
  licence's grace, where only the first still lets it through.
\<close>

theorem usable_rules_agree:
  assumes "0 \<le> days_dur (license_grace_days lic)"
  shows "assertUsable e lic = None \<longleftrightarrow> IsLicenseUsable e lic \<or>
    (lic_Status lic \<in> {StatusActive, StatusTrialing, StatusPastDue} \<and>
     lic_ValidUntil lic = Some (env_now e - days_dur (license_grace_days lic)))"
  using assms
  by (cases "lic_ValidUntil lic")
    (auto simp: assertUsable_def IsLicenseUsable_def effectiveGraceDays_def time_add_def Let_def)

theorem usable_rules_agree_witness:
  "assertUsable (demo_env\<lparr>env_now := 7 * 24 * Hour\<rparr>) (demo_license\<lparr>lic_ValidUntil := Some 0\<rparr>) = None \<and>
   \<not> IsLicenseUsable (demo_env\<lparr>env_now := 7 * 24 * Hour\<rparr>) (demo_license\<lparr>lic_ValidUntil := Some 0\<rparr>)"
proof -
  let ?l = "demo_license\<lparr>lic_ValidUntil := Some 0\<rparr>" and ?e = "demo_env\<lparr>env_now := 7 * 24 * Hour\<rparr>"
  have g: "license_grace_days ?l = 7" by (simp add: license_grace_days_def demo_license_def zero_License_def)
  from usable_rules_agree [of ?l ?e] show ?thesis
    by (simp add: g days_dur_exact) (simp add: IsLicenseUsable_def g days_dur_exact time_add_def duration_defs)
qed

text \<open>
  A key releases only its own devices. When a release succeeds, the key found a licence, the
  released device was on that licence under the given identifier, held by the key's member if it
  is a member's key, and it is the only row of the device table that went.
\<close>

theorem deactivate_releases_own:
  assumes "Deactivate e mid i sv = (Inr (), sv')" and "distinct (map act_ID (db_activations (mid 0 (sv_db sv))))"
    and "\<forall>d. mid (Suc 0) d = d"
  shows "\<exists>lic a. FindLicenseByKey e (vin_LicenseKey i) (sv_db sv) = Inr lic \<and> a \<in> set (db_activations (mid 0 (sv_db sv))) \<and>
     act_LicenseID a = lic_ID lic \<and> act_Identifier a = vin_Identifier i \<and>
     (\<forall>s. lic_KeySeat lic = Some s \<longrightarrow> act_SeatID a = seat_ID s) \<and>
     db_activations (sv_db sv') = filter (\<lambda>x. x \<noteq> a) (db_activations (mid 0 (sv_db sv)))"
proof -
  from assms(1) obtain lic where f: "find_for_device e (vin_LicenseKey i) (vin_ProductID i) (vin_IPAddress i) sv = (Inr lic, sv)"
    by (auto simp: Deactivate_def split: prod.splits sum.splits dest: find_for_device_InrD)
  note A = assms(1) [unfolded Deactivate_def f prod.case sum.case Let_def]
  let ?d = "mid 0 (sv_db sv)"
  from A have cap: "requireProductCapability (lic_Product lic) CapActivations ''device deactivation'' = None"
    by (auto split: option.splits)
  note B = A [unfolded cap option.case]
  from B obtain a where a: "own_device lic (vin_Identifier i) ?d = Inr a" by (auto split: sum.splits)
  then have own: "a \<in> set (db_activations ?d)" "act_LicenseID a = lic_ID lic" "act_Identifier a = vin_Identifier i"
    "\<forall>s. lic_KeySeat lic = Some s \<longrightarrow> act_SeatID a = seat_ID s"
    by (auto simp: own_device_def FindActivation_def dest!: select_one_SomeD split: sum.splits option.splits if_splits)
  from B a assms(3) have "db_activations (sv_db sv') = db_activations (snd (DeleteActivation (act_ID a) ?d))"
    "fst (DeleteActivation (act_ID a) ?d) = Inr ()"
    by (auto split: prod.splits sum.splits if_splits)
  then have "db_activations (sv_db sv') = filter (\<lambda>x. act_ID x \<noteq> act_ID a) (db_activations ?d)"
    by (auto simp: DeleteActivation_def delete_where_def split: if_splits)
  also have "\<dots> = filter (\<lambda>x. x \<noteq> a) (db_activations ?d)"
    using unique_column [OF assms(2) _ own(1)] by (intro filter_cong) auto
  finally show ?thesis using find_for_device_InrD [OF f] own by blast
qed

lemma find_demo: "FindLicenseByKey demo_env ''KEY'' demo_db = Inr (load_license demo_db demo_license)"
  using hash_demo(1)
  by (simp add: FindLicenseByKey_def findLicenseWhere_def select_one_def)

definition demo_input :: VerifyInput where
  "demo_input = \<lparr>vin_LicenseKey = ''KEY'', vin_Identifier = ''m1'', vin_ProductID = '''', vin_IPAddress = ''ip''\<rparr>"

definition demo_activate :: ActivateInput where
  "demo_activate = \<lparr>ain_LicenseKey = ''KEY'', ain_Identifier = ''m1'', ain_IdentifierType = '''', ain_Label = '''',
     ain_IPAddress = ''ip'', ain_ProductID = ''''\<rparr>"

definition undisturbed :: "nat \<Rightarrow> db \<Rightarrow> db" where
  [simp]: "undisturbed n d = d"

lemma demo_capability: "requireProductCapability (lic_Product (load_license demo_db demo_license)) CapActivations h = None"
  by (simp add: requireProductCapability_def product_of_def select_one_def ProductSupports_def)

theorem deactivate_releases_own_witness:
  "\<exists>sv'. Deactivate demo_env undisturbed demo_input (demo_service\<lparr>sv_db := demo_db\<lparr>db_activations := [demo_device ''m1'']\<rparr>\<rparr>) = (Inr (), sv') \<and>
     db_activations (sv_db sv') = []"
proof -
  let ?d = "demo_db\<lparr>db_activations := [demo_device ''m1'']\<rparr>" and ?lic = "load_license demo_db demo_license"
  let ?sv = "demo_service\<lparr>sv_db := ?d\<rparr>"
  have dev: "act_ID (demo_device ''m1'') = ''m1''" "act_LicenseID (demo_device ''m1'') = ''L''" "act_Identifier (demo_device ''m1'') = ''m1''"
    by (simp_all add: demo_device_def zero_Activation_def)
  have lic: "FindLicenseByKey demo_env ''KEY'' ?d = Inr ?lic"
    using find_demo FindLicenseByKey_frame [of ?d demo_db] by simp
  have "fst (Deactivate demo_env undisturbed demo_input ?sv) = Inr ()"
    by (simp add: Deactivate_def find_for_device_def blocked_for_def demo_service_def demo_input_def lic demo_capability undisturbed_def
        interfere_def own_device_def FindActivation_def select_one_def dev DeleteActivation_def deletedOne_def count_where_def Let_def
        del: load_license_simps(5))
  then obtain sv' where r: "Deactivate demo_env undisturbed demo_input ?sv = (Inr (), sv')" by (metis prod.collapse)
  from deactivate_releases_own [OF r] have "db_activations (sv_db sv') = []"
    by (auto simp: undisturbed_def demo_service_def)
  with r show ?thesis by blast
qed

theorem activate_answers_activated_witness:
  "\<exists>r sv'. Activate demo_lib demo_env demo_env undisturbed demo_activate demo_service = (Inr r, sv') \<and> ares_Status r = ''activated'' \<and>
     keyHeldIn demo_env ''L'' '''' ''KEY'' (sv_db sv')"
proof -
  let ?lic = "load_license demo_db demo_license"
  have req: "device_request demo_activate ?lic = (demo_device ''m1'')\<lparr>act_ID := '''', act_IPAddress := ''ip''\<rparr>"
    by (simp add: device_request_def demo_activate_def demo_device_def zero_Activation_def keySeatID_def)
  have plan: "lic_Plan ?lic = Some demo_plan"
    by (simp add: load_license_def plan_of_def select_one_def) (simp add: demo_plan_def zero_Plan_def)
  have ok: "assertUsable demo_env ?lic = None" "seatPaused ?lic = None" "refuseFloating ?lic = None" "maxActivations ?lic = 2"
    "keySeatID ?lic = ''''"
    by (simp_all add: assertUsable_def seatPaused_def refuseFloating_def plan maxActivations_def license_limits_def keySeatID_def)
      (simp_all add: demo_plan_def zero_Plan_def plan_limits_def demo_license_def zero_License_def)
  let ?row = "activation_row demo_env ((demo_device ''m1'')\<lparr>act_ID := ''id0'', act_IPAddress := ''ip''\<rparr>)"
  have act: "ActivateForKey demo_env ((demo_device ''m1'')\<lparr>act_ID := '''', act_IPAddress := ''ip''\<rparr>) 2 ''KEY'' demo_db =
      (None, (demo_device ''m1'')\<lparr>act_ID := ''id0'', act_IPAddress := ''ip''\<rparr>, demo_db\<lparr>db_activations := [?row]\<rparr>)"
    using keyHeldIn_demo lockLicenseLimitsIn_demo license_row_demo
    by (simp add: ActivateForKey_def activateWithinLimit_def Let_def insert_activation_def select_one_def exists_where_def
        demo_device_def zero_Activation_def) (simp add: demo_env_def)
  have key: "ain_LicenseKey demo_activate = ''KEY''" "ain_ProductID demo_activate = ''''" by (simp_all add: demo_activate_def)
  have find: "find_for_device demo_env ''KEY'' '''' ip demo_service = (Inr ?lic, demo_service)" for ip
    by (simp add: find_for_device_def blocked_for_def demo_service_def find_demo)
  have found: "FindActivation l m demo_db = Inl ErrNoRows" for l m by (simp add: FindActivation_def select_one_def)
  have sv: "interfere (undisturbed n) demo_service = demo_service" for n by (simp add: interfere_def undisturbed_def)
  have "\<exists>r sv'. activate_locked demo_lib demo_env demo_activate ?lic demo_service = (Inr r, sv') \<and> ares_Status r = ''activated''"
    unfolding activate_locked_def req ok key by (simp add: act demo_service_def Let_def activate_answer_def signToken_def
        LicenseFeatures_def ListLicenseAddons_def Sign_def demo_lib_def demo_priv_def recordSuccess_def Audit_def Dispatch_def)
  moreover have act_eq: "Activate demo_lib demo_env demo_env undisturbed demo_activate demo_service =
      activate_locked demo_lib demo_env demo_activate ?lic demo_service"
  proof -
    have "sv_db demo_service = demo_db" by (simp add: demo_service_def)
    then show ?thesis by (simp add: Activate_def key find demo_capability ok sv found undisturbed_def [of 0 demo_db] Let_def del: load_license_simps(5))
  qed
  ultimately obtain r sv' where r: "Activate demo_lib demo_env demo_env undisturbed demo_activate demo_service = (Inr r, sv')"
    "ares_Status r = ''activated''"
    using act_eq by metis
  from activate_answers_activated [OF r] find_demo have "keyHeldIn demo_env ''L'' (keySeatID ?lic) ''KEY'' (sv_db sv')"
    by (auto simp: key demo_service_def)
  with r ok show ?thesis by auto
qed

theorem verify_hides_unusable_witness:
  "fst (service_Verify demo_lib demo_env demo_env undisturbed demo_input (demo_service\<lparr>sv_db := demo_db\<lparr>db_licenses := [demo_license\<lparr>lic_Status := StatusRevoked\<rparr>]\<rparr>\<rparr>)) =
   fst (service_Verify demo_lib demo_env demo_env undisturbed demo_input (demo_service\<lparr>sv_db := empty_db\<rparr>))"
proof -
  let ?l = "demo_license\<lparr>lic_Status := StatusRevoked\<rparr>" let ?d = "demo_db\<lparr>db_licenses := [?l]\<rparr>"
  have "FindLicenseByKey demo_env ''KEY'' ?d = Inr (load_license ?d ?l)"
    using hash_demo(1) by (simp add: FindLicenseByKey_def findLicenseWhere_def select_one_def)
  moreover have "FindLicenseByKey demo_env ''KEY'' empty_db = Inl ErrNoRows"
    by (simp add: FindLicenseByKey_def findLicenseWhere_def select_one_def empty_db_def Let_def)
  moreover have "requireProductCapability (lic_Product (load_license ?d ?l)) CapActivations ''device verification'' = None"
    by (simp add: requireProductCapability_def product_of_def select_one_def ProductSupports_def)
  moreover have "assertUsable demo_env (load_license ?d ?l) \<noteq> None" by (simp add: assertUsable_def)
  ultimately show ?thesis
    using verify_hides_unusable [of demo_env demo_input "demo_service\<lparr>sv_db := ?d\<rparr>" "load_license ?d ?l" demo_input "demo_service\<lparr>sv_db := empty_db\<rparr>"]
    by (simp add: demo_input_def)
qed

end
