(* ===== verification/KG_SDK_Services.thy ===== *)
theory KG_SDK_Services
  imports KG_License_Service KG_Floating KG_Usage
begin

text \<open>
  The services behind the other SDK endpoints: floating sessions
  (\<^verbatim>\<open>internal/service/floating.go\<close>), metered usage and quotas (\<^verbatim>\<open>internal/service/usage.go\<close>)
  and entitlements (\<^verbatim>\<open>internal/service/entitlement.go\<close>). As in the license service, \<open>mid i\<close>
  is what other requests do to the database between two steps of a request; what is logged is
  left out, what is handed to the webhook and mail services is recorded.
\<close>

section \<open>Floating sessions\<close>

record CheckOutInput =
  co_LicenseKey :: string
  co_Identifier :: string
  co_Label :: string
  co_ProductID :: string
  co_IPAddress :: string

record CheckOutResult =
  cor_SessionID :: string
  cor_ExpiresAt :: time
  cor_Active :: int
  cor_Max :: int

text \<open>\<^verbatim>\<open>time.Duration(timeout) * time.Minute\<close>, wrapping as Go's multiplication does.\<close>

definition minutes_dur :: "int \<Rightarrow> duration" where
  "minutes_dur n = wrap64 (n * Minute)"

definition is_floating :: "License \<Rightarrow> bool" where
  "is_floating lic = (case lic_Plan lic of None \<Rightarrow> False | Some p \<Rightarrow> plan_LicenseModel p = ''floating'')"

definition floating_timeout :: "License \<Rightarrow> int" where
  "floating_timeout lic = (case lic_Plan lic of None \<Rightarrow> 30 | Some p \<Rightarrow> if plan_FloatingTimeout p \<le> 0 then 30 else plan_FloatingTimeout p)"

text \<open>A count whose error is dropped: Go's zero value.\<close>

definition count_or_zero :: "int result \<Rightarrow> int" where
  "count_or_zero r = (case r of Inr n \<Rightarrow> n | Inl _ \<Rightarrow> 0)"

definition CheckOut :: "env \<Rightarrow> (nat \<Rightarrow> db \<Rightarrow> db) \<Rightarrow> CheckOutInput \<Rightarrow> db \<Rightarrow> CheckOutResult app_result \<times> db" where
  "CheckOut e mid i d =
     (case loadLicenseForSDK e (co_LicenseKey i) (co_ProductID i) CapActivations True d of
        Inl err \<Rightarrow> (Inl err, d)
      | Inr lic \<Rightarrow>
          if \<not> is_floating lic then (Inl licenseNotFound, d)
          else
            let maxSessions = snd (license_limits lic);
                expiresAt = time_add (env_now e) (minutes_dur (floating_timeout lic));
                sess = zero_FloatingSession\<lparr>fs_LicenseID := lic_ID lic, fs_Identifier := co_Identifier i, fs_Label := co_Label i,
                         fs_IPAddress := co_IPAddress i, fs_ExpiresAt := expiresAt, fs_SeatID := keySeatID lic\<rparr> in
            (case CheckOutFloatingForKey e sess maxSessions (co_LicenseKey i) (mid 0 d) of
               (Inl err, _, d1) \<Rightarrow>
                 (Inl (if errors_is err ErrKeyRevoked then licenseNotFound
                       else if errors_is err ErrSessionHeld
                       then app_Conflict ''SESSION_HELD'' (''this machine'' @ [char_of (39 :: nat)] @ ''s session was checked out with another key on this license'')
                       else if errors_is err ErrFloatingLimitReached
                       then app_WithDetails (app_Conflict ''FLOATING_LIMIT'' ''all floating sessions are in use'')
                              [(''active'', DInt (count_or_zero (CountActiveFloating e (lic_ID lic) (mid 1 d1)))), (''max'', DInt maxSessions)]
                       else app_Internal err), mid 1 d1)
             | (Inr isNew, sess', d1) \<Rightarrow>
                 (Inr \<lparr>cor_SessionID = fs_ID sess', cor_ExpiresAt = expiresAt,
                       cor_Active = count_or_zero (CountActiveFloating e (lic_ID lic) (mid 1 d1)), cor_Max = maxSessions\<rparr>, mid 1 d1)))"

definition CheckIn :: "env \<Rightarrow> (nat \<Rightarrow> db \<Rightarrow> db) \<Rightarrow> string \<Rightarrow> string \<Rightarrow> string \<Rightarrow> db \<Rightarrow> unit app_result \<times> db" where
  "CheckIn e mid licenseKey identifier productID d =
     (case loadLicenseForSDK e licenseKey productID CapActivations True d of
        Inl err \<Rightarrow> (Inl err, d)
      | Inr lic \<Rightarrow>
          (case CheckInFloating (lic_ID lic) identifier (keySeatID lic) (mid 0 d) of
             (Inl err, d1) \<Rightarrow> (Inl (app_Internal err), d1)
           | (Inr _, d1) \<Rightarrow> (Inr (), d1)))"

definition Heartbeat :: "env \<Rightarrow> (nat \<Rightarrow> db \<Rightarrow> db) \<Rightarrow> string \<Rightarrow> string \<Rightarrow> string \<Rightarrow> db \<Rightarrow> CheckOutResult app_result \<times> db" where
  "Heartbeat e mid licenseKey identifier productID d =
     (case loadLicenseForSDK e licenseKey productID CapActivations True d of
        Inl err \<Rightarrow> (Inl err, d)
      | Inr lic \<Rightarrow>
          if \<not> is_floating lic then (Inl licenseNotFound, d)
          else
            let newExpiry = time_add (env_now e) (minutes_dur (floating_timeout lic)) in
            (case HeartbeatFloating e (lic_ID lic) identifier (keySeatID lic) newExpiry (mid 0 d) of
               (Inl err, d1) \<Rightarrow> (Inl (app_Internal err), d1)
             | (Inr renewed, d1) \<Rightarrow>
                 if \<not> renewed then (Inl (app_NotFound ''SESSION'' identifier), d1)
                 else (Inr \<lparr>cor_SessionID = '''', cor_ExpiresAt = newExpiry,
                          cor_Active = count_or_zero (CountActiveFloating e (lic_ID lic) (mid 1 d1)),
                          cor_Max = snd (license_limits lic)\<rparr>, mid 1 d1)))"

definition CleanExpired :: "env \<Rightarrow> db \<Rightarrow> db" where
  "CleanExpired e d = snd (CleanExpiredFloating e d)"

section \<open>Usage\<close>

text \<open>
  \<^verbatim>\<open>us_reaches used limit\<close> is the comparison of \<^verbatim>\<open>float64(used) / float64(limit)\<close> with the warning
  threshold; \<open>None\<close> when no threshold is set.
\<close>

record UsageService =
  us_webhook :: bool
  us_email :: bool
  us_reaches :: "(int \<Rightarrow> int \<Rightarrow> bool) option"

record RecordUsageInput =
  ru_LicenseKey :: string
  ru_Feature :: string
  ru_Quantity :: int
  ru_ProductID :: string
  ru_IPAddress :: string

record RecordUsageResult =
  rur_Accepted :: bool
  rur_Used :: int
  rur_Limit :: int
  rur_Remaining :: int
  rur_Period :: string
  rur_PeriodKey :: string

definition notify :: "bool \<Rightarrow> string \<Rightarrow> string \<Rightarrow> (string \<times> detail) list \<Rightarrow> db \<Rightarrow> db" where
  "notify webhook productID event data d = (if webhook then Dispatch productID event data d else d)"

definition send_mail :: "bool \<Rightarrow> string \<Rightarrow> string \<Rightarrow> (string \<times> detail) list \<Rightarrow> db \<Rightarrow> db" where
  "send_mail email template to data d = (if email then d\<lparr>db_mail := db_mail d @ [(template, to, data)]\<rparr> else d)"

definition quotaFor :: "License \<Rightarrow> string \<Rightarrow> db \<Rightarrow> Entitlement option result" where
  "quotaFor lic feature d =
     (case LicenseFeatures (Some d) lic of
        Inl err \<Rightarrow> Inl err
      | Inr ents \<Rightarrow> Inr (List.find (\<lambda>en. ent_Feature en = feature \<and> ent_ValueType en = ''quota'') ents))"

definition quota_period :: "Entitlement \<Rightarrow> string" where
  "quota_period q = (if ent_QuotaPeriod q = '''' then ''monthly'' else ent_QuotaPeriod q)"

definition quota_warning :: "UsageService \<Rightarrow> License \<Rightarrow> string \<Rightarrow> int \<Rightarrow> int \<Rightarrow> int \<Rightarrow> db \<Rightarrow> db" where
  "quota_warning us lic feature quantity newUsed limit d =
     (case us_reaches us of
        None \<Rightarrow> d
      | Some reaches \<Rightarrow>
          if limit > 0 \<and> reaches newUsed limit \<and> \<not> reaches (wrap64 (newUsed - quantity)) limit then
            let d = notify (us_webhook us) (lic_ProductID lic) ''quota.warning''
                      [(''license_id'', DStr (lic_ID lic)), (''feature'', DStr feature), (''used'', DInt newUsed), (''limit'', DInt limit)] d
            in if lic_Email lic \<noteq> '''' then send_mail (us_email us) ''quota_warning'' (lic_Email lic)
                 [(''product'', DStr (case lic_Product lic of None \<Rightarrow> '''' | Some p \<Rightarrow> prod_Name p)), (''feature'', DStr feature),
                  (''used'', DInt newUsed), (''limit'', DInt limit)] d
               else d
          else d)"

definition RecordUsage ::
  "env \<Rightarrow> (nat \<Rightarrow> db \<Rightarrow> db) \<Rightarrow> UsageService \<Rightarrow> RecordUsageInput \<Rightarrow> db \<Rightarrow> RecordUsageResult app_result \<times> db" where
  "RecordUsage e mid us i d =
     (let quantity = (if ru_Quantity i \<le> 0 then 1 else ru_Quantity i); feature = ru_Feature i in
      case loadLicenseForSDK e (ru_LicenseKey i) (ru_ProductID i) '''' True d of
        Inl err \<Rightarrow> (Inl err, d)
      | Inr lic \<Rightarrow>
          (case quotaFor lic feature (mid 0 d) of
             Inl err \<Rightarrow> (Inl (app_Internal err), mid 0 d)
           | Inr None \<Rightarrow> (Inl (app_New 400 ''NO_QUOTA'' (''no quota entitlement found for feature: '' @ feature)), mid 0 d)
           | Inr (Some quota) \<Rightarrow>
               let limit = parse_int64 (ent_Value quota); period = quota_period quota;
                   periodKey = CurrentPeriodKey (env_now e) period in
               (case IncrementUsageCounterWithLimit e (lic_ID lic) feature period periodKey quantity limit (mid 1 (mid 0 d)) of
                  (Inl err, d1) \<Rightarrow>
                    (Inl (if errors_is err ErrUsageQuantityTooLarge then app_New 400 ''INVALID_INPUT'' ''quantity too large''
                          else app_Internal err), d1)
                | (Inr (updated, accepted), d1) \<Rightarrow>
                    if \<not> accepted then
                      (Inl (app_WithDetails (app_New 429 ''QUOTA_EXCEEDED'' (''usage quota exceeded for '' @ feature))
                         [(''used'', DInt (uc_Used updated)), (''limit'', DInt limit), (''period'', DStr period)]),
                       notify (us_webhook us) (lic_ProductID lic) ''quota.exceeded''
                         [(''license_id'', DStr (lic_ID lic)), (''feature'', DStr feature), (''used'', DInt (uc_Used updated)), (''limit'', DInt limit)] d1)
                    else
                      let d2 = snd (RecordUsageEvent e (zero_UsageEvent\<lparr>ue_LicenseID := lic_ID lic, ue_Feature := feature,
                                 ue_Quantity := quantity, ue_IPAddress := ru_IPAddress i\<rparr>) (mid 2 d1));
                          d3 = (if ent_StripeMeterEventName quota \<noteq> ''''
                                then snd (InsertMeteredEvent e (lic_ID lic) feature periodKey quantity (mid 3 d2)) else d2);
                          d4 = quota_warning us lic feature quantity (uc_Used updated) limit d3
                      in (Inr \<lparr>rur_Accepted = True, rur_Used = uc_Used updated, rur_Limit = limit,
                              rur_Remaining = quotaRemaining limit (uc_Used updated), rur_Period = period,
                              rur_PeriodKey = periodKey\<rparr>, d4))))"

record QuotaStatus =
  qs_Feature :: string
  qs_Used :: int
  qs_Limit :: int
  qs_Remaining :: int
  qs_Period :: string
  qs_PeriodKey :: string

definition used_now :: "string \<Rightarrow> string \<Rightarrow> string \<Rightarrow> string \<Rightarrow> db \<Rightarrow> int" where
  "used_now licenseID feature period periodKey d =
     (case GetUsageCounter licenseID feature period periodKey d of Inr c \<Rightarrow> uc_Used c | Inl _ \<Rightarrow> 0)"

definition GetQuotaStatus :: "env \<Rightarrow> (nat \<Rightarrow> db \<Rightarrow> db) \<Rightarrow> string \<Rightarrow> string \<Rightarrow> string \<Rightarrow> db \<Rightarrow> QuotaStatus app_result" where
  "GetQuotaStatus e mid licenseKey feature productID d =
     (case loadLicenseForSDK e licenseKey productID '''' True d of
        Inl err \<Rightarrow> Inl err
      | Inr lic \<Rightarrow>
          (case quotaFor lic feature (mid 0 d) of
             Inl err \<Rightarrow> Inl (app_Internal err)
           | Inr None \<Rightarrow> Inl (app_NotFound ''QUOTA'' feature)
           | Inr (Some quota) \<Rightarrow>
               let limit = parse_int64 (ent_Value quota); period = quota_period quota;
                   periodKey = CurrentPeriodKey (env_now e) period;
                   used = used_now (lic_ID lic) feature period periodKey (mid 1 (mid 0 d))
               in Inr \<lparr>qs_Feature = feature, qs_Used = used, qs_Limit = limit, qs_Remaining = quotaRemaining limit used,
                      qs_Period = period, qs_PeriodKey = periodKey\<rparr>))"

section \<open>Entitlements\<close>

record FeatureStatus =
  fst_Enabled :: bool
  fst_ValueType :: string
  fst_Value :: string
  fst_Used :: "int option"
  fst_Limit :: "int option"
  fst_Remaining :: "int option"
  fst_Period :: string
  fst_ResetsAt :: string

record CheckResult =
  chk_Licensed :: bool
  chk_Status :: string
  chk_PlanID :: string
  chk_PlanName :: string
  chk_Features :: "(string \<rightharpoonup> FeatureStatus)"

text \<open>\<^verbatim>\<open>t.Format(time.RFC3339)\<close> of a UTC date and hour.\<close>

definition rfc3339_hour :: "int \<times> int \<times> int \<Rightarrow> int \<Rightarrow> string" where
  "rfc3339_hour ymd h = (case ymd of (y, m, d) \<Rightarrow> pad4 y @ ''-'' @ pad2 m @ ''-'' @ pad2 d @ ''T'' @ pad2 h @ '':00:00Z'')"

definition nextPeriodReset :: "time \<Rightarrow> string \<Rightarrow> string" where
  "nextPeriodReset now period =
     (let secs = unix_seconds now; day = secs div 86400; (y, m, _) = civil_from_days day in
      if period = ''hourly'' then
        let next = (secs div 3600 + 1) * 3600 in rfc3339_hour (civil_from_days (next div 86400)) (next mod 86400 div 3600)
      else if period = ''daily'' then rfc3339_hour (civil_from_days (day + 1)) 0
      else if period = ''monthly'' then rfc3339_hour (if m = 12 then (y + 1, 1, 1) else (y, m + 1, 1)) 0
      else if period = ''yearly'' then rfc3339_hour (y + 1, 1, 1) 0
      else '''')"

definition feature_status :: "env \<Rightarrow> string \<Rightarrow> db \<Rightarrow> Entitlement \<Rightarrow> FeatureStatus" where
  "feature_status e licenseID d en =
     (let fs = \<lparr>fst_Enabled = True, fst_ValueType = ent_ValueType en, fst_Value = ent_Value en, fst_Used = None,
                fst_Limit = None, fst_Remaining = None, fst_Period = '''', fst_ResetsAt = ''''\<rparr> in
      if ent_ValueType en = ''bool'' \<or> ent_ValueType en = ''flag'' then fs\<lparr>fst_Enabled := featureEnabled en\<rparr>
      else if ent_ValueType en = ''quota'' then
        let limit = parse_int64 (ent_Value en); period = quota_period en;
            used = used_now licenseID (ent_Feature en) period (CurrentPeriodKey (env_now e) period) d
        in fs\<lparr>fst_Used := Some used, fst_Limit := Some limit, fst_Remaining := Some (quotaRemaining limit used),
              fst_Period := period, fst_ResetsAt := nextPeriodReset (env_now e) period\<rparr>
      else fs)"

text \<open>A failure to read the features comes back as the plain error, not as an application error.\<close>

definition Check :: "env \<Rightarrow> (nat \<Rightarrow> db \<Rightarrow> db) \<Rightarrow> string \<Rightarrow> string \<Rightarrow> string \<Rightarrow> db \<Rightarrow> (AppError + error) + CheckResult" where
  "Check e mid licenseKey feature productID d =
     (case loadLicenseForSDK e licenseKey productID '''' True d of
        Inl err \<Rightarrow> Inl (Inl err)
      | Inr lic \<Rightarrow>
          (case LicenseFeatures (Some (mid 0 d)) lic of
             Inl err \<Rightarrow> Inl (Inr err)
           | Inr ents \<Rightarrow>
               Inr \<lparr>chk_Licensed = True, chk_Status = lic_Status lic,
                    chk_PlanID = (case lic_Plan lic of None \<Rightarrow> '''' | Some p \<Rightarrow> plan_ID p),
                    chk_PlanName = (case lic_Plan lic of None \<Rightarrow> '''' | Some p \<Rightarrow> plan_Name p),
                    chk_Features = fold (\<lambda>en m. if \<not> (feature \<noteq> '''' \<and> ent_Feature en \<noteq> feature)
                       then m(ent_Feature en \<mapsto> feature_status e (lic_ID lic) (mid 1 (mid 0 d)) en) else m) ents Map.empty\<rparr>))"

section \<open>What an endpoint leaves alone\<close>

text \<open>Usage, mail and webhooks leave everything a key, its features and its limits are read from.\<close>

definition same_terms :: "db \<Rightarrow> db \<Rightarrow> bool" where
  "same_terms d' d \<longleftrightarrow> db_fault d' = db_fault d \<and> db_products d' = db_products d \<and> db_plans d' = db_plans d \<and>
     db_entitlements d' = db_entitlements d \<and> db_licenses d' = db_licenses d \<and> db_seats d' = db_seats d \<and>
     db_addons d' = db_addons d \<and> db_license_addons d' = db_license_addons d"

lemma same_terms_refl [simp]: "same_terms d d" by (simp add: same_terms_def)

lemma same_terms_trans: "same_terms d2 d1 \<Longrightarrow> same_terms d1 d \<Longrightarrow> same_terms d2 d" by (simp add: same_terms_def)

lemma loadLicenseForSDK_frame: "same_terms d' d \<Longrightarrow> loadLicenseForSDK e key pid cap u d' = loadLicenseForSDK e key pid cap u d"
  by (simp add: loadLicenseForSDK_def same_terms_def FindLicenseByKey_frame [of d' d])

lemma LicenseFeatures_frame: "same_terms d' d \<Longrightarrow> LicenseFeatures (Some d') lic = LicenseFeatures (Some d) lic"
proof -
  assume "same_terms d' d"
  then have "ListLicenseAddons lid d' = ListLicenseAddons lid d" for lid by (simp add: ListLicenseAddons_def same_terms_def)
  then show ?thesis by (simp add: LicenseFeatures_def Let_def)
qed

lemma quotaFor_frame: "same_terms d' d \<Longrightarrow> quotaFor lic f d' = quotaFor lic f d"
  by (simp add: quotaFor_def LicenseFeatures_frame [of d' d])

lemma increment_terms: "same_terms (snd (IncrementUsageCounterWithLimit e lid f p pk q limit d)) d"
  by (auto simp: IncrementUsageCounterWithLimit_def ensure_counter_def same_terms_def Let_def split: if_splits option.splits sum.splits)

lemma event_frame:
  "same_terms (snd (RecordUsageEvent e ev d)) d" "db_usage_counters (snd (RecordUsageEvent e ev d)) = db_usage_counters d"
  "db_webhooks (snd (RecordUsageEvent e ev d)) = db_webhooks d"
  by (auto simp: RecordUsageEvent_def same_terms_def Let_def)

lemma metered_frame:
  "same_terms (snd (InsertMeteredEvent e lid f pk q d)) d" "db_usage_counters (snd (InsertMeteredEvent e lid f pk q d)) = db_usage_counters d"
  "db_webhooks (snd (InsertMeteredEvent e lid f pk q d)) = db_webhooks d"
  by (auto simp: InsertMeteredEvent_def same_terms_def Let_def)

lemma warning_frame:
  "same_terms (quota_warning us lic f q n limit d) d" "db_usage_counters (quota_warning us lic f q n limit d) = db_usage_counters d"
  by (auto simp: quota_warning_def notify_def send_mail_def Dispatch_def same_terms_def Let_def split: option.splits)

lemma increment_webhooks: "db_webhooks (snd (IncrementUsageCounterWithLimit e lid f p pk q limit d)) = db_webhooks d"
  by (auto simp: IncrementUsageCounterWithLimit_def ensure_counter_def Let_def split: if_splits option.splits sum.splits)

lemma increment_accepted_row:
  assumes "IncrementUsageCounterWithLimit e lid f p pk q limit d = (Inr (c, True), d1)"
  shows "select_one (counter_key lid f p pk) (db_usage_counters d1) = Some c" "\<not> db_fault d"
proof -
  let ?g = "\<lambda>c. c\<lparr>uc_Used := uc_Used c + q, uc_UpdatedAt := env_dbnow e\<rparr>" and ?k = "counter_key lid f p pk"
  from assms obtain d0 cur where "select_one ?k (db_usage_counters d0) = Some cur" "c = ?g cur"
    "d1 = d0\<lparr>db_usage_counters := update_where ?k ?g (db_usage_counters d0)\<rparr>"
    by (auto simp: IncrementUsageCounterWithLimit_def Let_def split: if_splits option.splits sum.splits)
  with select_one_update [of ?k ?g "db_usage_counters d0"] show "select_one ?k (db_usage_counters d1) = Some c"
    by (simp add: counter_key_def)
  from assms show "\<not> db_fault d" by (auto simp: IncrementUsageCounterWithLimit_def Let_def split: if_splits)
qed

lemma RecordUsage_accepted:
  assumes "RecordUsage e undisturbed us i d = (Inr r, d')"
  obtains lic quota c d1 where "loadLicenseForSDK e (ru_LicenseKey i) (ru_ProductID i) '''' True d = Inr lic"
    "quotaFor lic (ru_Feature i) d = Inr (Some quota)"
    "IncrementUsageCounterWithLimit e (lic_ID lic) (ru_Feature i) (quota_period quota) (CurrentPeriodKey (env_now e) (quota_period quota))
       (if ru_Quantity i \<le> 0 then 1 else ru_Quantity i) (parse_int64 (ent_Value quota)) d = (Inr (c, True), d1)"
    "r = \<lparr>rur_Accepted = True, rur_Used = uc_Used c, rur_Limit = parse_int64 (ent_Value quota),
          rur_Remaining = quotaRemaining (parse_int64 (ent_Value quota)) (uc_Used c), rur_Period = quota_period quota,
          rur_PeriodKey = CurrentPeriodKey (env_now e) (quota_period quota)\<rparr>"
    "same_terms d' d" "db_usage_counters d' = db_usage_counters d1"
proof -
  let ?q = "if ru_Quantity i \<le> 0 then 1 else ru_Quantity i"
  from assms obtain lic quota where lic: "loadLicenseForSDK e (ru_LicenseKey i) (ru_ProductID i) '''' True d = Inr lic"
    and quota: "quotaFor lic (ru_Feature i) d = Inr (Some quota)"
    by (auto simp: RecordUsage_def undisturbed_def Let_def split: sum.splits option.splits)
  let ?pk = "CurrentPeriodKey (env_now e) (quota_period quota)" and ?limit = "parse_int64 (ent_Value quota)"
  obtain ir d1 where inc: "IncrementUsageCounterWithLimit e (lic_ID lic) (ru_Feature i) (quota_period quota) ?pk ?q ?limit d = (ir, d1)"
    by fastforce
  note A = assms [unfolded RecordUsage_def undisturbed_def lic quota Let_def sum.case option.case inc prod.case]
  from A obtain c where ir: "ir = Inr (c, True)" by (auto split: sum.splits if_splits)
  have t1: "same_terms d1 d" using increment_terms [of e "lic_ID lic" "ru_Feature i" "quota_period quota" ?pk ?q ?limit d] by (simp add: inc)
  let ?d2 = "snd (RecordUsageEvent e (zero_UsageEvent\<lparr>ue_LicenseID := lic_ID lic, ue_Feature := ru_Feature i,
      ue_Quantity := ?q, ue_IPAddress := ru_IPAddress i\<rparr>) d1)"
  let ?d3 = "if ent_StripeMeterEventName quota \<noteq> '''' then snd (InsertMeteredEvent e (lic_ID lic) (ru_Feature i) ?pk ?q ?d2) else ?d2"
  from A ir have d': "d' = quota_warning us lic (ru_Feature i) ?q (uc_Used c) ?limit ?d3" by auto
  have d3: "same_terms ?d3 d1" "db_usage_counters ?d3 = db_usage_counters d1"
    by (auto simp: event_frame metered_frame intro: same_terms_trans [OF metered_frame(1) event_frame(1)])
  have w: "same_terms d' ?d3" "db_usage_counters d' = db_usage_counters ?d3" by (simp_all only: d' warning_frame)
  have "same_terms d' d" by (rule same_terms_trans [OF w(1) same_terms_trans [OF d3(1) t1]])
  moreover have "db_usage_counters d' = db_usage_counters d1" by (simp only: w(2) d3(2))
  moreover from A ir have "r = \<lparr>rur_Accepted = True, rur_Used = uc_Used c, rur_Limit = ?limit,
      rur_Remaining = quotaRemaining ?limit (uc_Used c), rur_Period = quota_period quota, rur_PeriodKey = ?pk\<rparr>" by auto
  ultimately show ?thesis using that [OF lic quota, of c d1] inc ir by blast
qed

lemma used_now_row:
  "select_one (counter_key lid f p pk) (db_usage_counters d) = Some c \<Longrightarrow> \<not> db_fault d \<Longrightarrow> used_now lid f p pk d = uc_Used c"
  by (simp add: used_now_def GetUsageCounter_def)

lemma merged_features_distinct:
  assumes "LicenseFeatures (Some d) lic = Inr ents" and "\<forall>p. lic_Plan lic = Some p \<longrightarrow> distinct (map ent_Feature (plan_Entitlements p))"
  shows "distinct (map ent_Feature ents)"
proof -
  let ?pl = "case lic_Plan lic of None \<Rightarrow> [] | Some p \<Rightarrow> plan_Entitlements p"
  let ?plan = "fold index_plan_feature ?pl (Map.empty, [])"
  have d: "distinct (map ent_Feature ?pl)" using assms(2) by (auto split: option.splits)
  note ok = index_plan_ok [OF d]
  show ?thesis
  proof (cases "lic_ID lic = ''''")
    case True
    with assms(1) ok d show ?thesis by (simp add: LicenseFeatures_def Let_def)
  next
    case False
    with assms(1) obtain addons where ents: "ents = snd (fold (merge_addon (lic_ProductID lic)) addons ?plan)"
      by (auto simp: LicenseFeatures_def Let_def split: sum.splits)
    obtain index' where m: "fold (merge_addon (lic_ProductID lic)) addons (fst ?plan, snd ?plan) = (index', ents)"
      using ents by (metis prod.collapse)
    have "index_ok (fst ?plan, snd ?plan)" using ok unfolding prod.collapse by blast
    from merge_addons_ok [OF this m] show ?thesis using index_ok_distinct by blast
  qed
qed

text \<open>
  The quota status describes what usage is counted against. After a call was accepted, the
  quota status and the entitlements of the same key, asked in the same period, report the used
  amount, the limit, what remains and the period that call answered with.
\<close>

theorem quota_status_agrees:
  assumes "RecordUsage e undisturbed us i d = (Inr r, d')"
    and "\<forall>lic p. lic_Plan lic = Some p \<and> loadLicenseForSDK e (ru_LicenseKey i) (ru_ProductID i) '''' True d = Inr lic \<longrightarrow>
           distinct (map ent_Feature (plan_Entitlements p))"
  shows "GetQuotaStatus e undisturbed (ru_LicenseKey i) (ru_Feature i) (ru_ProductID i) d' =
           Inr \<lparr>qs_Feature = ru_Feature i, qs_Used = rur_Used r, qs_Limit = rur_Limit r, qs_Remaining = rur_Remaining r,
                qs_Period = rur_Period r, qs_PeriodKey = rur_PeriodKey r\<rparr> \<and>
         (\<exists>res fs. Check e undisturbed (ru_LicenseKey i) (ru_Feature i) (ru_ProductID i) d' = Inr res \<and>
           chk_Features res (ru_Feature i) = Some fs \<and> fst_Used fs = Some (rur_Used r) \<and> fst_Limit fs = Some (rur_Limit r) \<and>
           fst_Remaining fs = Some (rur_Remaining r) \<and> fst_Period fs = rur_Period r)"
proof -
  let ?f = "ru_Feature i"
  from assms(1) obtain lic quota c d1 where lic: "loadLicenseForSDK e (ru_LicenseKey i) (ru_ProductID i) '''' True d = Inr lic"
    and quota: "quotaFor lic ?f d = Inr (Some quota)"
    and inc: "IncrementUsageCounterWithLimit e (lic_ID lic) ?f (quota_period quota) (CurrentPeriodKey (env_now e) (quota_period quota))
       (if ru_Quantity i \<le> 0 then 1 else ru_Quantity i) (parse_int64 (ent_Value quota)) d = (Inr (c, True), d1)"
    and r: "r = \<lparr>rur_Accepted = True, rur_Used = uc_Used c, rur_Limit = parse_int64 (ent_Value quota),
          rur_Remaining = quotaRemaining (parse_int64 (ent_Value quota)) (uc_Used c), rur_Period = quota_period quota,
          rur_PeriodKey = CurrentPeriodKey (env_now e) (quota_period quota)\<rparr>"
    and same: "same_terms d' d" and rows: "db_usage_counters d' = db_usage_counters d1"
    by (rule RecordUsage_accepted)
  note lic' = loadLicenseForSDK_frame [OF same, of e "ru_LicenseKey i" "ru_ProductID i" "''''" True, unfolded lic]
  have quota': "quotaFor lic ?f d' = Inr (Some quota)" using quotaFor_frame [OF same] quota by simp
  have "\<not> db_fault d'" using increment_accepted_row(2) [OF inc] same by (simp add: same_terms_def)
  then have used: "used_now (lic_ID lic) ?f (quota_period quota) (CurrentPeriodKey (env_now e) (quota_period quota)) d' = uc_Used c"
    using increment_accepted_row(1) [OF inc] rows by (intro used_now_row) simp_all
  obtain ents where ents: "LicenseFeatures (Some d') lic = Inr ents"
    and q: "List.find (\<lambda>en. ent_Feature en = ?f \<and> ent_ValueType en = ''quota'') ents = Some quota"
    using quota' by (auto simp: quotaFor_def split: sum.splits)
  have dist: "distinct (map ent_Feature ents)"
    using assms(2) lic by (intro merged_features_distinct [OF ents]) blast
  have qf: "ent_Feature quota = ?f" "ent_ValueType quota = ''quota''" "quota \<in> set ents" using q by (auto simp: find_Some_iff)
  then have "List.find (\<lambda>en. ent_Feature en = ?f) ents = Some quota"
    using select_one_unique [OF dist qf(3)] by (simp add: select_one_def)
  then have "fold (\<lambda>en m. if \<not> (?f \<noteq> '''' \<and> ent_Feature en \<noteq> ?f) then m(ent_Feature en \<mapsto> feature_status e (lic_ID lic) d' en) else m)
      ents Map.empty ?f = Some (feature_status e (lic_ID lic) d' quota)"
    using qf(1) by (simp only: fold_feature_map [OF dist] option.case) simp
  then have check: "\<exists>res. Check e undisturbed (ru_LicenseKey i) ?f (ru_ProductID i) d' = Inr res \<and>
      chk_Features res ?f = Some (feature_status e (lic_ID lic) d' quota)"
    unfolding Check_def lic' undisturbed_def sum.case by (simp add: ents)
  have "GetQuotaStatus e undisturbed (ru_LicenseKey i) ?f (ru_ProductID i) d' =
      Inr \<lparr>qs_Feature = ?f, qs_Used = rur_Used r, qs_Limit = rur_Limit r, qs_Remaining = rur_Remaining r,
        qs_Period = rur_Period r, qs_PeriodKey = rur_PeriodKey r\<rparr>"
    by (simp add: GetQuotaStatus_def lic' undisturbed_def quota' used r Let_def)
  with check show ?thesis by (auto simp: feature_status_def qf used r Let_def)
qed

text \<open>A database on which usage is metered: the demo licence with a quota of 100 calls a month.\<close>

definition metered_db :: db where
  "metered_db = demo_db\<lparr>db_entitlements := [demo_feature\<lparr>ent_PlanID := ''PL''\<rparr>]\<rparr>"

definition demo_usage :: RecordUsageInput where
  "demo_usage = \<lparr>ru_LicenseKey = ''KEY'', ru_Feature = ''api'', ru_Quantity = 7, ru_ProductID = '''', ru_IPAddress = ''''\<rparr>"

definition quiet_usage :: UsageService where
  "quiet_usage = \<lparr>us_webhook = False, us_email = False, us_reaches = None\<rparr>"

lemma load_metered: "loadLicenseForSDK demo_env ''KEY'' '''' '''' True metered_db = Inr (load_license metered_db demo_license)"
proof -
  have "FindLicenseByKey demo_env ''KEY'' metered_db = Inr (load_license metered_db demo_license)"
    using hash_demo(1) by (simp add: FindLicenseByKey_def findLicenseWhere_def select_one_def metered_db_def)
  then show ?thesis by (simp add: loadLicenseForSDK_def IsLicenseUsable_def Let_def) (simp add: demo_license_def zero_License_def)
qed

lemma metered_plan: "lic_Plan (load_license metered_db demo_license) = Some (demo_plan\<lparr>plan_Entitlements := [demo_feature\<lparr>ent_PlanID := ''PL''\<rparr>]\<rparr>)"
  by (simp add: load_license_def plan_of_def select_one_def metered_db_def)

lemma metered_quota: "quotaFor (load_license metered_db demo_license) ''api'' metered_db = Inr (Some (demo_feature\<lparr>ent_PlanID := ''PL''\<rparr>))"
  by (simp add: quotaFor_def LicenseFeatures_def metered_plan ListLicenseAddons_def index_plan_feature_def Let_def)
    (simp add: metered_db_def demo_feature_def)

lemma was_accepted_InrD: "was_accepted r \<Longrightarrow> \<exists>c. r = Inr (c, True)"
  by (auto simp: was_accepted_def split: sum.splits bool.splits)

theorem quota_status_agrees_witness:
  "\<exists>r d'. RecordUsage demo_env undisturbed quiet_usage demo_usage metered_db = (Inr r, d') \<and>
     GetQuotaStatus demo_env undisturbed ''KEY'' ''api'' '''' d' =
       Inr \<lparr>qs_Feature = ''api'', qs_Used = rur_Used r, qs_Limit = rur_Limit r, qs_Remaining = rur_Remaining r,
            qs_Period = rur_Period r, qs_PeriodKey = rur_PeriodKey r\<rparr>"
proof -
  have q: "ent_Value (demo_feature\<lparr>ent_PlanID := ''PL''\<rparr>) = ''100''" "ent_StripeMeterEventName (demo_feature\<lparr>ent_PlanID := ''PL''\<rparr>) = ''calls''"
    by (simp_all add: demo_feature_def)
  have lim: "parse_int64 ''100'' = 100"
    by (simp add: parse_int64_def is_digit_def char_code_def digits_value_def MaxInt64_def)
  have "was_accepted (fst (IncrementUsageCounterWithLimit demo_env ''L'' ''api'' p pk 7 100 metered_db))" for p pk
    by (simp add: IncrementUsageCounterWithLimit_def ensure_counter_def metered_db_def license_row_def select_one_def
        counter_key_def MaxInt64_def was_accepted_def Let_def)
  then have "\<exists>c d1. IncrementUsageCounterWithLimit demo_env ''L'' ''api'' p pk 7 100 metered_db = (Inr (c, True), d1)" for p pk
    by (metis prod.collapse was_accepted_InrD)
  then obtain c d1 where inc: "IncrementUsageCounterWithLimit demo_env ''L'' ''api'' (quota_period (demo_feature\<lparr>ent_PlanID := ''PL''\<rparr>))
      (CurrentPeriodKey (env_now demo_env) (quota_period (demo_feature\<lparr>ent_PlanID := ''PL''\<rparr>))) 7 100 metered_db = (Inr (c, True), d1)"
    by blast
  have "\<exists>r d'. RecordUsage demo_env undisturbed quiet_usage demo_usage metered_db = (Inr r, d')"
    by (simp add: RecordUsage_def demo_usage_def load_metered metered_quota q lim inc Let_def)
  then obtain r d' where r: "RecordUsage demo_env undisturbed quiet_usage demo_usage metered_db = (Inr r, d')" by blast
  from quota_status_agrees [OF r] load_metered metered_plan r show ?thesis by (auto simp: demo_usage_def)
qed

text \<open>
  One limit, one kind of slot. A licence on a floating plan never takes a device slot or gets a
  device's token, and a licence on any other plan never takes or renews a floating session,
  whatever happens between the steps of the requests: the slots of a plan are not handed out
  twice.
\<close>

theorem floating_or_devices:
  assumes "FindLicenseByKey e key (sv_db sv) = Inr lic"
  shows "(is_floating lic \<longrightarrow>
           (\<forall>i r. ain_LicenseKey i = key \<longrightarrow> fst (Activate lib e e' mid i sv) \<noteq> Inr r) \<and>
           (\<forall>i r. vin_LicenseKey i = key \<longrightarrow> fst (service_Verify lib e e' mid i sv) \<noteq> Inr r)) \<and>
         (\<not> is_floating lic \<longrightarrow>
           (\<forall>j r. co_LicenseKey j = key \<longrightarrow> fst (CheckOut e mid j (sv_db sv)) \<noteq> Inr r) \<and>
           (\<forall>ident pid r. fst (Heartbeat e mid key ident pid (sv_db sv)) \<noteq> Inr r))"
proof -
  have find: "(\<exists>err sv'. find_for_device e key pid ip sv = (Inl err, sv')) \<or> find_for_device e key pid ip sv = (Inr lic, sv)" for pid ip
    using assms by (auto simp: find_for_device_def fail_not_found_def split: option.splits prod.splits)
  have refused: "is_floating lic \<Longrightarrow> refuseFloating lic \<noteq> None"
    by (auto simp: is_floating_def refuseFloating_def split: option.splits)
  have "fst (Activate lib e e' mid i sv) \<noteq> Inr r" if "is_floating lic" "ain_LicenseKey i = key" for i r
    using find [of "ain_ProductID i" "ain_IPAddress i"] refused that by (auto simp: Activate_def split: option.splits)
  moreover have "fst (service_Verify lib e e' mid i sv) \<noteq> Inr r" if "is_floating lic" "vin_LicenseKey i = key" for i r
    using find [of "vin_ProductID i" "vin_IPAddress i"] refused that
    by (auto simp: service_Verify_def fail_not_found_def split: option.splits prod.splits)
  moreover have load: "loadLicenseForSDK e key pid cap u (sv_db sv) = Inr l \<Longrightarrow> l = lic" for pid cap u l
    using assms by (auto simp: loadLicenseForSDK_def split: if_splits option.splits)
  have "fst (CheckOut e mid j (sv_db sv)) \<noteq> Inr r" if "\<not> is_floating lic" "co_LicenseKey j = key" for j r
    using load that by (auto simp: CheckOut_def split: sum.splits)
  moreover have "fst (Heartbeat e mid key ident pid (sv_db sv)) \<noteq> Inr r" if "\<not> is_floating lic" for ident pid r
    using load that by (auto simp: Heartbeat_def split: sum.splits)
  ultimately show ?thesis by blast
qed

theorem floating_or_devices_witness:
  "fst (CheckOut demo_env undisturbed \<lparr>co_LicenseKey = ''KEY'', co_Identifier = ''m1'', co_Label = '''', co_ProductID = '''', co_IPAddress = ''''\<rparr> demo_db)
     \<noteq> Inr \<lparr>cor_SessionID = ''id0'', cor_ExpiresAt = 0, cor_Active = 1, cor_Max = 2\<rparr>"
proof -
  have "\<not> is_floating (load_license demo_db demo_license)"
    by (simp add: is_floating_def load_license_def plan_of_def select_one_def) (simp add: demo_plan_def zero_Plan_def)
  with floating_or_devices [of demo_env "''KEY''" demo_service] find_demo show ?thesis
    by (simp add: demo_service_def)
qed

end
