(* ===== verification/KG_Seat_Service.thy ===== *)
theory KG_Seat_Service
  imports KG_SDK_Services KG_Seats KG_Pause
begin

text \<open>
  Team management, \<^verbatim>\<open>internal/service/seats.go\<close>: the owner invites and removes people, an invitee
  accepts with the token of the mail, the vendor's admin removes a seat by its identifier, and a
  team is listed. \<^verbatim>\<open>mail.ParseAddress\<close> is an argument of the address check
  (\<^verbatim>\<open>pkg/apperr/validate.go\<close>), answering the parsed address. As in the other services, \<open>mid i\<close> is
  what other requests do between two steps of a request.
\<close>

section \<open>Addresses and tokens\<close>

definition ValidateEmail :: "(string \<Rightarrow> string option) \<Rightarrow> string \<Rightarrow> AppError option" where
  "ValidateEmail ParseAddress email =
     (if email = '''' then Some (app_BadRequest ''email is required'')
      else if length email > 254 then Some (app_BadRequest ''email is too long'')
      else case ParseAddress email of
        None \<Rightarrow> Some (app_BadRequest ''invalid email format'')
      | Some addr \<Rightarrow>
          if CHR ''@'' \<notin> set addr then Some (app_BadRequest ''invalid email format'')
          else if addr \<noteq> email
          then Some (app_BadRequest ''invalid email format: use a bare address such as name@example.com'')
          else None)"

definition hex_digit :: "nat \<Rightarrow> char" where
  "hex_digit n = ''0123456789abcdef'' ! n"

definition hex_encode :: "8 word list \<Rightarrow> string" where
  "hex_encode bs = concat (map (\<lambda>b. [hex_digit (unat b div 16), hex_digit (unat b mod 16)]) bs)"

definition GenerateSeatInviteToken :: "env \<Rightarrow> string \<times> string" where
  "GenerateSeatInviteToken e =
     (let plain = hex_encode (map (env_rand e) [0..<32]) in (plain, HashSeatInviteToken e plain))"

section \<open>The service\<close>

record SeatService =
  ss_webhook :: bool
  ss_email :: bool
  ss_baseURL :: string

definition NewSeatService :: "bool \<Rightarrow> bool \<Rightarrow> string \<Rightarrow> SeatService" where
  "NewSeatService wh em baseURL =
     \<lparr>ss_webhook = wh, ss_email = em, ss_baseURL = rev (dropWhile (\<lambda>c. c = CHR ''/'') (rev baseURL))\<rparr>"

record AddSeatInput =
  as_LicenseKey :: string
  as_Email :: string
  as_Role :: string
  as_ProductID :: string
  as_ActorUserID :: string
  as_ActorEmail :: string

definition requireOwner :: "License \<Rightarrow> string \<Rightarrow> AppError option" where
  "requireOwner lic email = (if email \<noteq> '''' \<and> equal_fold (lic_Email lic) email then None else Some licenseNotFound)"

definition inviteURL :: "SeatService \<Rightarrow> string \<Rightarrow> string" where
  "inviteURL ss plainToken =
     (if ss_baseURL ss = '''' then ''/accept-invite?token='' @ plainToken
      else ss_baseURL ss @ ''/accept-invite?token='' @ plainToken)"

fun outcome_text :: "SeatAddOutcome \<Rightarrow> string" where
  "outcome_text SeatCreated = ''created''"
| "outcome_text SeatRestored = ''restored''"
| "outcome_text SeatExisted = ''existed''"
| "outcome_text SeatResent = ''resent''"

definition deactivated_events :: "bool \<Rightarrow> License \<Rightarrow> Activation list \<Rightarrow> db \<Rightarrow> db" where
  "deactivated_events webhook lic devs d =
     fold (\<lambda>a. notify webhook (lic_ProductID lic) ''license.deactivated''
             [(''license_id'', DStr (lic_ID lic)), (''identifier'', DStr (act_Identifier a))]) devs d"

definition seat_audit :: "string \<Rightarrow> string \<Rightarrow> string \<Rightarrow> string \<Rightarrow> string \<Rightarrow> string \<Rightarrow> (string \<times> detail) list \<Rightarrow> AuditLog" where
  "seat_audit seatID action actorType actorID ip productID changes =
     \<lparr>audit_Entity = ''seat'', audit_EntityID = seatID, audit_Action = action, audit_ActorID = actorID,
      audit_ActorType = actorType, audit_Changes = changes, audit_IPAddress = ip, audit_ProductID = productID\<rparr>"

text \<open>What follows an accepted invitation: events, the mail with the link, the audit line.\<close>

definition invite_announced :: "SeatService \<Rightarrow> AddSeatInput \<Rightarrow> License \<Rightarrow> string \<Rightarrow> SeatAddOutcome \<Rightarrow> Activation list \<Rightarrow> Seat \<Rightarrow> db \<Rightarrow> db" where
  "invite_announced ss i lic plainToken outcome staleDevices seat d =
     (if outcome = SeatExisted then d
      else
        let d = (if outcome \<noteq> SeatResent
                 then notify (ss_webhook ss) (lic_ProductID lic) ''seat.added''
                   [(''license_id'', DStr (lic_ID lic)), (''seat_id'', DStr (seat_ID seat)), (''email'', DStr (as_Email i)),
                    (''role'', DStr (as_Role i)), (''outcome'', DStr (outcome_text outcome))] d
                 else d);
            d = deactivated_events (ss_webhook ss) lic staleDevices d
        in send_mail (ss_email ss) ''seat_invite'' (as_Email i)
             [(''Product'', DStr (case lic_Product lic of None \<Rightarrow> '''' | Some p \<Rightarrow> prod_Name p)), (''Inviter'', DStr (lic_Email lic)),
              (''InviteURL'', DStr (inviteURL ss plainToken)),
              (''DownloadURL'', DStr (case lic_Product lic of None \<Rightarrow> '''' | Some p \<Rightarrow> prod_DownloadURL p))] d)"

definition add_seat_error :: "env \<Rightarrow> License \<Rightarrow> int \<Rightarrow> db \<Rightarrow> error \<Rightarrow> AppError" where
  "add_seat_error e lic maxSeats d err =
     (if errors_is err ErrUpgradeCheckoutOpen
      then app_Conflict ''UPGRADE_IN_PROGRESS'' ''an upgrade of this license is waiting for payment; finish or close it before inviting people''
      else if errors_is err ErrUpgradeSeatLimit
      then app_Conflict ''UPGRADE_SEAT_LIMIT'' ''the plan this license is being upgraded to has no seat left for another person''
      else if errors_is err ErrSeatLimitReached
      then app_WithDetails (app_Conflict ''SEAT_LIMIT'' ''maximum seats reached'')
             [(''max'', DInt maxSeats), (''current'', DInt (count_or_zero (CountActiveSeats (lic_ID lic) d) + 1))]
      else app_Internal err)"

definition AddSeat ::
  "(string \<Rightarrow> string option) \<Rightarrow> env \<Rightarrow> (nat \<Rightarrow> db \<Rightarrow> db) \<Rightarrow> SeatService \<Rightarrow> AddSeatInput \<Rightarrow> db \<Rightarrow> Seat app_result \<times> db" where
  "AddSeat ParseAddress e mid ss i d =
     (case loadLicenseForSDK e (as_LicenseKey i) (as_ProductID i) CapSeats True d of
        Inl err \<Rightarrow> (Inl err, d)
      | Inr lic \<Rightarrow>
          (case requireOwner lic (as_ActorEmail i) of
             Some err \<Rightarrow> (Inl err, d)
           | None \<Rightarrow>
               let i = i\<lparr>as_Email := to_lower (trim_space (as_Email i))\<rparr> in
               (case ValidateEmail ParseAddress (as_Email i) of
                  Some err \<Rightarrow> (Inl err, d)
                | None \<Rightarrow>
                    let i = (if as_Role i = '''' then i\<lparr>as_Role := ''member''\<rparr> else i) in
                    if as_Role i \<noteq> ''member'' then (Inl (app_BadRequest ''role must be member''), d)
                    else if equal_fold (as_Email i) (lic_Email lic)
                    then (Inl (app_BadRequest (''cannot invite the license owner '' @ map char_of [226, 128, 148 :: nat] @ '' they already have access'')), d)
                    else
                      let maxSeats = fst (license_limits lic);
                          (plainToken, tokenHash) = GenerateSeatInviteToken e in
                      if plainToken = '''' then (Inl (app_Internal (ErrRefused ''invite token generation failed'')), d)
                      else
                        let seat = zero_Seat\<lparr>seat_LicenseID := lic_ID lic, seat_Email := as_Email i, seat_Role := as_Role i,
                                     seat_InviteTokenHash := tokenHash,
                                     seat_InviteExpiresAt := Some (time_add (env_now e) SeatInviteTTL)\<rparr> in
                        (case AddSeatWithinLimit e seat maxSeats (mid 0 d) of
                           (Inl err, _, d1) \<Rightarrow> (Inl (add_seat_error e lic maxSeats (mid 1 d1) err), mid 1 d1)
                         | (Inr (outcome, staleDevices), seat, d1) \<Rightarrow>
                             let d2 = Audit (seat_audit (seat_ID seat) ''seat_invited'' ''portal_user'' (as_ActorUserID i) '''' (lic_ProductID lic)
                                        [(''license_id'', DStr (lic_ID lic)), (''email'', DStr (as_Email i)), (''role'', DStr (as_Role i)),
                                         (''outcome'', DStr (outcome_text outcome))])
                                        (invite_announced ss i lic plainToken outcome staleDevices seat d1)
                             in (Inr (seat\<lparr>seat_UserID := ''''\<rparr>), d2)))))"

section \<open>Accepting\<close>

definition FindLicenseByID :: "string \<Rightarrow> db \<Rightarrow> License result" where
  "FindLicenseByID lid d = findLicenseWhere (\<lambda>l. lic_ID l = lid) d"

record AcceptSeatInviteResult =
  asr_UserID :: string
  asr_Email :: string
  asr_LicenseID :: string
  asr_ProductName :: string
  asr_Role :: string

definition invite_invalid :: AppError where
  "invite_invalid = app_New 404 ''SEAT_INVITE_INVALID'' ''this invitation is invalid or has expired''"

definition service_AcceptSeatInvite ::
  "env \<Rightarrow> env \<Rightarrow> (nat \<Rightarrow> db \<Rightarrow> db) \<Rightarrow> SeatService \<Rightarrow> string \<Rightarrow> db \<Rightarrow> AcceptSeatInviteResult app_result \<times> db" where
  "service_AcceptSeatInvite e e' mid ss plainToken d =
     (case AcceptSeatInvite e plainToken d of
        (Inl err, d1) \<Rightarrow>
          (Inl (if errors_is err ErrSeatInviteInvalid then invite_invalid
                else if errors_is err ErrSeatLimitReached
                then app_Conflict ''SEAT_LIMIT'' ''no seat is free on this license right now; ask the license owner to free one, then open the invitation again''
                else app_Internal err), d1)
      | (Inr (user, seat), d1) \<Rightarrow>
          let d1 = mid 0 d1 in
          (case FindLicenseByID (seat_LicenseID seat) d1 of
             Inl lerr \<Rightarrow> (Inl (app_Internal lerr), d1)
           | Inr lic \<Rightarrow>
               if LicenseUsable e' lic \<noteq> None then
                 (case RollbackSeatAccept (seat_ID seat) (mid 1 d1) of
                    (Inl _, d2) \<Rightarrow> (Inl invite_invalid, d2)
                  | (Inr devs, d2) \<Rightarrow> (Inl invite_invalid, deactivated_events (ss_webhook ss) lic devs d2))
               else (Inr \<lparr>asr_UserID = user_ID user, asr_Email = user_Email user, asr_LicenseID = seat_LicenseID seat,
                        asr_ProductName = (case lic_Product lic of None \<Rightarrow> '''' | Some p \<Rightarrow> prod_Name p),
                        asr_Role = seat_Role seat\<rparr>, d1)))"

section \<open>Removing and listing\<close>

definition service_removeSeat ::
  "env \<Rightarrow> (nat \<Rightarrow> db \<Rightarrow> db) \<Rightarrow> SeatService \<Rightarrow> License \<Rightarrow> string \<Rightarrow> string \<Rightarrow> string \<Rightarrow> string \<Rightarrow> db \<Rightarrow> unit app_result \<times> db" where
  "service_removeSeat e mid ss lic seatID actorType actorID ip d =
     (case FindSeatByID seatID d of
        Inl err \<Rightarrow> (Inl (if errors_is err ErrNoRows then app_NotFound ''SEAT'' seatID else app_Internal err), d)
      | Inr seat \<Rightarrow>
          if seat_LicenseID seat \<noteq> lic_ID lic then (Inl (app_NotFound ''SEAT'' seatID), d)
          else
            (case RemoveSeat e seatID (mid 1 d) of
               (Inl err, d1) \<Rightarrow> (Inl (app_Internal err), d1)
             | (Inr (devs, removed), d1) \<Rightarrow>
                 if \<not> removed then (Inr (), d1)
                 else
                   let d2 = notify (ss_webhook ss) (lic_ProductID lic) ''seat.removed''
                              [(''license_id'', DStr (lic_ID lic)), (''seat_id'', DStr seatID), (''email'', DStr (seat_Email seat))] d1;
                       d3 = deactivated_events (ss_webhook ss) lic devs d2;
                       d4 = Audit (seat_audit seatID ''seat_removed'' actorType actorID ip (lic_ProductID lic)
                              [(''license_id'', DStr (lic_ID lic)), (''email'', DStr (seat_Email seat)),
                               (''devices_removed'', DInt (int (length devs)))]) d3
                   in (Inr (), d4)))"

definition service_RemoveSeat ::
  "env \<Rightarrow> (nat \<Rightarrow> db \<Rightarrow> db) \<Rightarrow> SeatService \<Rightarrow> string \<Rightarrow> string \<Rightarrow> string \<Rightarrow> string \<Rightarrow> string \<Rightarrow> db \<Rightarrow> unit app_result \<times> db" where
  "service_RemoveSeat e mid ss licenseKey seatID productID actorUserID actorEmail d =
     (case loadLicenseForSDK e licenseKey productID CapSeats False d of
        Inl err \<Rightarrow> (Inl err, d)
      | Inr lic \<Rightarrow>
          (case requireOwner lic actorEmail of
             Some err \<Rightarrow> (Inl err, d)
           | None \<Rightarrow> service_removeSeat e mid ss lic seatID ''portal_user'' actorUserID '''' (mid 0 d)))"

definition AdminRemoveSeat ::
  "env \<Rightarrow> (nat \<Rightarrow> db \<Rightarrow> db) \<Rightarrow> SeatService \<Rightarrow> string \<Rightarrow> string \<Rightarrow> string \<Rightarrow> string \<Rightarrow> db \<Rightarrow> unit app_result \<times> db" where
  "AdminRemoveSeat e mid ss licenseID seatID adminID ip d =
     (case FindLicenseByID licenseID d of
        Inl err \<Rightarrow> (Inl (if errors_is err ErrNoRows then licenseNotFound else app_Internal err), d)
      | Inr lic \<Rightarrow> service_removeSeat e mid ss lic seatID ''admin'' adminID ip (mid 0 d))"

text \<open>The store's listing of a whole team (\<^verbatim>\<open>store.All\<close>), oldest first.\<close>

definition store_ListSeats :: "string \<Rightarrow> db \<Rightarrow> Seat list result" where
  "store_ListSeats licenseID d =
     (if db_fault d then Inl ErrDB
      else Inr (sort_key seat_age (filter (\<lambda>s. seat_LicenseID s = licenseID \<and> seat_RemovedAt s = None) (db_seats d))))"

definition ListSeats :: "env \<Rightarrow> (nat \<Rightarrow> db \<Rightarrow> db) \<Rightarrow> string \<Rightarrow> string \<Rightarrow> string \<Rightarrow> db \<Rightarrow> Seat list app_result" where
  "ListSeats e mid licenseKey productID actorEmail d =
     (case loadLicenseForSDK e licenseKey productID CapSeats False d of
        Inl err \<Rightarrow> Inl err
      | Inr lic \<Rightarrow>
          (case store_ListSeats (lic_ID lic) (mid 0 d) of
             Inl err \<Rightarrow> Inl (app_Internal err)
           | Inr seats \<Rightarrow>
               let seats = (if \<not> equal_fold (lic_Email lic) actorEmail then JoinedSeats seats else seats) in
               (case MarkPausedSeats (lic_ID lic) seats (mid 1 (mid 0 d)) of
                  Inl err \<Rightarrow> Inl (app_Internal err)
                | Inr seats \<Rightarrow> Inr (map (\<lambda>s. s\<lparr>seat_UserID := ''''\<rparr>) seats))))"

section \<open>Who manages the team\<close>

text \<open>
  C37: only the owner manages the team. A request to invite or to remove someone from any
  other address than the licence's own, a member's included, changes nothing and is answered
  as a key that does not exist.
\<close>

theorem only_owner_manages_team:
  assumes "FindLicenseByKey e key d = Inr lic" and "actor = '''' \<or> \<not> equal_fold (lic_Email lic) actor"
  shows "(\<forall>i. as_LicenseKey i = key \<and> as_ActorEmail i = actor \<longrightarrow> AddSeat parse e mid ss i d = (Inl licenseNotFound, d)) \<and>
         service_RemoveSeat e mid ss key sid pid uid actor d = (Inl licenseNotFound, d) \<and>
         (FindLicenseByKey e other d = Inl ErrNoRows \<longrightarrow>
           service_RemoveSeat e mid ss other sid pid uid actor' d = (Inl licenseNotFound, d))"
proof -
  have load: "loadLicenseForSDK e key p cap u d = Inl licenseNotFound \<or> loadLicenseForSDK e key p cap u d = Inr lic" for p cap u
    using assms(1) by (simp add: loadLicenseForSDK_def)
  have refused: "requireOwner lic actor = Some licenseNotFound" using assms(2) by (auto simp: requireOwner_def)
  have "AddSeat parse e mid ss i d = (Inl licenseNotFound, d)" if "as_LicenseKey i = key" "as_ActorEmail i = actor" for i
    using load [of "as_ProductID i" CapSeats True] refused that by (auto simp: AddSeat_def)
  moreover have "service_RemoveSeat e mid ss key sid pid uid actor d = (Inl licenseNotFound, d)"
    using load [of pid CapSeats False] refused by (auto simp: service_RemoveSeat_def)
  moreover have "FindLicenseByKey e other d = Inl ErrNoRows \<longrightarrow>
           service_RemoveSeat e mid ss other sid pid uid actor' d = (Inl licenseNotFound, d)"
    by (simp add: service_RemoveSeat_def loadLicenseForSDK_def errors_is_def)
  ultimately show ?thesis by blast
qed

theorem only_owner_manages_team_witness:
  "service_RemoveSeat demo_env undisturbed \<lparr>ss_webhook = True, ss_email = True, ss_baseURL = ''''\<rparr> ''KEY'' ''S'' '''' ''U'' ''m@x'' demo_db =
     (Inl licenseNotFound, demo_db)"
proof -
  have "\<not> equal_fold (lic_Email (load_license demo_db demo_license)) ''m@x''"
    by (simp add: equal_fold_def load_license_def demo_license_def zero_License_def to_lower_def lower_char_def char_code_def)
  with only_owner_manages_team [OF find_demo] show ?thesis by blast
qed

section \<open>Accepting on a licence that is not usable\<close>

lemma deactivated_events_tables [simp]:
  "db_seats (deactivated_events w lic as d) = db_seats d" "db_activations (deactivated_events w lic as d) = db_activations d"
  "db_floating (deactivated_events w lic as d) = db_floating d" "db_licenses (deactivated_events w lic as d) = db_licenses d"
  unfolding deactivated_events_def by (induction as arbitrary: d) (simp_all add: notify_def)

lemma RollbackSeatAccept_rows:
  assumes "RollbackSeatAccept sid d = (Inr devs, d')" and "sid \<noteq> ''''"
  shows "holds_nothing sid d'"
    and "db_seats d' = update_where (\<lambda>s. seat_ID s = sid) (\<lambda>s. (clear_member_key s)\<lparr>seat_UserID := '''', seat_AcceptedAt := None\<rparr>) (db_seats d)"
proof -
  have d': "d' = drop_seat_slots sid (set_seat sid (\<lambda>s. (clear_member_key s)\<lparr>seat_UserID := '''', seat_AcceptedAt := None\<rparr>) d)"
    using assms(1) by (auto simp: RollbackSeatAccept_def split: if_splits option.splits)
  show "holds_nothing sid d'"
    unfolding d' by (intro drop_clear_holds_nothing set_seat_clears) (simp_all add: assms(2) clear_member_key_def)
  show "db_seats d' = update_where (\<lambda>s. seat_ID s = sid) (\<lambda>s. (clear_member_key s)\<lparr>seat_UserID := '''', seat_AcceptedAt := None\<rparr>) (db_seats d)"
    by (simp add: d' set_seat_seats)
qed

text \<open>
  C38: an invitation to a licence that cannot be used is refused as an unknown token is, and
  leaves nobody on the team: the seat is not joined, no account and no key is tied to it, it holds
  no device and no session, its token is spent, and the other seats are as they were.
\<close>

theorem refused_accept_leaves_nothing:
  assumes acc: "AcceptSeatInvite e token d = (Inr (user, seat), d1)" and uniq: "invites_unique d"
    and lic: "FindLicenseByID (seat_LicenseID seat) d1 = Inr lic" and un: "LicenseUsable e' lic \<noteq> None"
    and sid: "seat_ID seat \<noteq> ''''"
  shows "\<exists>d2. service_AcceptSeatInvite e e' undisturbed ss token d = (Inl invite_invalid, d2) \<and>
     fst (service_AcceptSeatInvite e e' undisturbed ss '''' d) = Inl invite_invalid \<and>
     holds_nothing (seat_ID seat) d2 \<and>
     (\<forall>s \<in> set (db_seats d2). seat_ID s = seat_ID seat \<longrightarrow> \<not> is_joined s \<and> seat_UserID s = '''') \<and>
     (\<forall>s \<in> set (db_seats d2). seat_InviteTokenHash s \<noteq> HashSeatInviteToken e token) \<and>
     filter (\<lambda>s. seat_ID s \<noteq> seat_ID seat) (db_seats d2) = filter (\<lambda>s. seat_ID s \<noteq> seat_ID seat) (db_seats d)"
  using acc
proof (cases rule: AcceptSeatInvite_cases)
  case (accepted old l pl)
  let ?f = "accept_seat e (fst (claim_user e old d))" and ?sid = "seat_ID seat"
  have same: "?sid = seat_ID old" using accepted(8) by (simp add: accept_seat_def clear_member_key_def)
  have rows: "db_seats d1 = update_where (\<lambda>s. seat_ID s = ?sid) ?f (db_seats d)"
    by (simp add: accepted(9) set_seat_seats same)
  have "\<not> db_fault d1" using lic by (auto simp: FindLicenseByID_def findLicenseWhere_def split: if_splits)
  moreover have "?f old \<in> set (db_seats d1)" unfolding rows set_update_where same using accepted(1) by force
  then have "select_one (\<lambda>s. seat_ID s = ?sid) (db_seats d1) \<noteq> None"
    using same by (auto simp: select_one_None_iff accept_seat_def clear_member_key_def intro: bexI [rotated])
  ultimately obtain devs d2 where rb: "RollbackSeatAccept ?sid d1 = (Inr devs, d2)"
    by (auto simp: RollbackSeatAccept_def)
  note r = RollbackSeatAccept_rows [OF rb sid]
  let ?d2 = "deactivated_events (ss_webhook ss) lic devs d2"
  have "service_AcceptSeatInvite e e' undisturbed ss token d = (Inl invite_invalid, ?d2)"
    unfolding service_AcceptSeatInvite_def acc by (simp add: lic un rb undisturbed_def)
  moreover have "fst (service_AcceptSeatInvite e e' undisturbed ss '''' d) = Inl invite_invalid"
    by (simp add: service_AcceptSeatInvite_def AcceptSeatInvite_def errors_is_def)
  moreover have "holds_nothing ?sid ?d2" using r(1) by (simp add: holds_nothing_def)
  moreover have "\<forall>s \<in> set (db_seats ?d2). seat_ID s = ?sid \<longrightarrow> \<not> is_joined s \<and> seat_UserID s = ''''"
    by (simp add: r(2) ball_update_where is_joined_def)
  moreover have "\<forall>s \<in> set (db_seats ?d2). seat_InviteTokenHash s \<noteq> HashSeatInviteToken e token"
    using uniq accepted(1,2,13) same
    by (simp add: r(2) rows ball_update_where accept_seat_def clear_member_key_def invites_unique_def) metis
  moreover have "filter (\<lambda>s. seat_ID s \<noteq> ?sid) (db_seats ?d2) = filter (\<lambda>s. seat_ID s \<noteq> ?sid) (db_seats d)"
    by (simp add: r(2) rows filter_update_other accept_seat_def clear_member_key_def)
  ultimately show ?thesis by blast
qed simp

definition suspended_license :: License where
  "suspended_license = demo_license\<lparr>lic_Status := StatusSuspended\<rparr>"

definition suspended_db :: db where
  "suspended_db = demo_db\<lparr>db_seats := [demo_seat, demo_invite], db_licenses := [suspended_license]\<rparr>"

lemma accept_suspended:
  "\<exists>user d1. AcceptSeatInvite demo_env ''t'' suspended_db = (Inr (user, accept_seat demo_env user demo_invite), d1) \<and>
     FindLicenseByID ''L'' d1 = Inr (load_license d1 suspended_license)"
proof -
  have i: "seat_InviteTokenHash demo_seat = ''''" "seat_InviteTokenHash demo_invite = ''ht''"
    "seat_LicenseID demo_invite = ''L''" "seat_RemovedAt demo_invite = None" "seat_AcceptedAt demo_invite = None"
    "seat_InviteExpiresAt demo_invite = Some 5000" "seat_Email demo_invite = ''n@x''" "env_now demo_env = 1000"
    by (simp_all add: demo_seat_def demo_invite_def zero_Seat_def demo_env_def)
  have row: "lic_ID suspended_license = ''L''" "lic_PlanID suspended_license = ''PL''" "lic_Email suspended_license = ''o@x''"
    by (simp_all add: suspended_license_def)
  have d: "db_seats suspended_db = [demo_seat, demo_invite]" "db_licenses suspended_db = [suspended_license]"
    "db_plans suspended_db = [demo_plan]" "\<not> db_fault suspended_db" "db_users suspended_db = db_users demo_db"
    by (simp_all add: suspended_db_def)
  have l: "license_row suspended_db ''L'' = Some suspended_license" "plan_of suspended_db suspended_license = Some demo_plan"
    by (simp_all add: row_read_defs d row)
  have lim: "seatLimitSQL suspended_license demo_plan = 3"
    by (simp add: seatLimitSQL_def demo_plan_def zero_Plan_def)
  have n: "joined_members suspended_license suspended_db = 1"
    by (simp add: joined_members_def count_where_def joined_member_def is_joined_def i d row to_lower_def lower_char_def char_code_def)
  let ?u = "fst (claim_user demo_env demo_invite suspended_db)"
  let ?d1 = "set_seat (seat_ID demo_invite) (accept_seat demo_env ?u) (snd (claim_user demo_env demo_invite suspended_db))"
  have "AcceptSeatInvite demo_env ''t'' suspended_db = (Inr (?u, accept_seat demo_env ?u demo_invite), ?d1)"
    by (simp add: AcceptSeatInvite_def Let_def select_one_def HashSeatInviteToken_demo i l lim n d split_beta)
  moreover have "FindLicenseByID ''L'' ?d1 = Inr (load_license ?d1 suspended_license)"
    by (simp add: FindLicenseByID_def findLicenseWhere_def d row select_one_def) (simp add: d claim_user_def Let_def split: option.splits)
  ultimately show ?thesis by blast
qed

theorem refused_accept_leaves_nothing_witness:
  "\<exists>d2. service_AcceptSeatInvite demo_env demo_env undisturbed \<lparr>ss_webhook = True, ss_email = True, ss_baseURL = ''''\<rparr> ''t'' suspended_db =
     (Inl invite_invalid, d2) \<and> holds_nothing ''S2'' d2"
proof -
  obtain user d1 where acc: "AcceptSeatInvite demo_env ''t'' suspended_db = (Inr (user, accept_seat demo_env user demo_invite), d1)"
    and lic: "FindLicenseByID ''L'' d1 = Inr (load_license d1 suspended_license)" using accept_suspended by blast
  have s: "seat_ID (accept_seat demo_env user demo_invite) = ''S2''" "seat_LicenseID (accept_seat demo_env user demo_invite) = ''L''"
    by (simp_all add: accept_seat_def clear_member_key_def demo_invite_def)
  have uniq: "invites_unique suspended_db"
    by (auto simp: invites_unique_def suspended_db_def demo_seat_def demo_invite_def zero_Seat_def)
  have un: "LicenseUsable demo_env (load_license d1 suspended_license) \<noteq> None"
    by (simp add: LicenseUsable_def assertUsable_def load_license_def suspended_license_def Let_def)
  show ?thesis using refused_accept_leaves_nothing [OF acc uniq, unfolded s, OF lic un] by blast
qed

end
