(* ===== verification/KG_Runs.thy ===== *)
theory KG_Runs
  imports KG_Prelude
begin

text \<open>
  Runs of labelled steps, for protocols in which any number of processes act on the same rows one
  statement at a time, and the contract of a budget: a resource of which every granted step takes
  one and nothing but a refill puts any back.
\<close>

inductive lrun :: "('l \<Rightarrow> 's \<Rightarrow> 's \<Rightarrow> bool) \<Rightarrow> 'l list \<Rightarrow> 's \<Rightarrow> 's \<Rightarrow> bool" for step where
  lrun_Nil: "lrun step [] s s"
| lrun_Cons: "step l s s1 \<Longrightarrow> lrun step ls s1 s2 \<Longrightarrow> lrun step (l # ls) s s2"

inductive_cases lrun_NilE: "lrun step [] s s'"
inductive_cases lrun_ConsE: "lrun step (l # ls) s s'"

lemma lrun_invariant:
  assumes "lrun step ls s s'" and "I s"
    and "\<And>l s s'. l \<in> set ls \<Longrightarrow> step l s s' \<Longrightarrow> I s \<Longrightarrow> I s'"
  shows "I s'"
  using assms by (induction rule: lrun.induct) auto

locale budget =
  fixes inv :: "'s \<Rightarrow> bool"
    and left :: "'s \<Rightarrow> nat"
    and step :: "'l \<Rightarrow> 's \<Rightarrow> 's \<Rightarrow> bool"
    and grant :: "'l \<Rightarrow> bool"
    and refill :: "'l \<Rightarrow> bool"
  assumes step_inv: "inv s \<Longrightarrow> step l s s' \<Longrightarrow> inv s'"
    and step_left: "inv s \<Longrightarrow> step l s s' \<Longrightarrow> \<not> refill l \<Longrightarrow> (if grant l then 1 else 0) + left s' \<le> left s"
begin

lemma never_overspent:
  assumes "lrun step ls s s'" and "inv s" and "\<forall>l \<in> set ls. \<not> refill l"
  shows "length (filter grant ls) + left s' \<le> left s"
  using assms
proof (induction rule: lrun.induct)
  case (lrun_Cons l s s1 ls s2)
  then have "(if grant l then 1 else 0) + left s1 \<le> left s" using step_left by simp
  with lrun_Cons step_inv [of s l s1] show ?case by (auto split: if_splits)
qed simp

end

end
