(* ===== verification/KG_Login.thy ===== *)
theory KG_Login
  imports KG_Runs KG_SDK_Services KG_Seats
begin

text \<open>
  Signing in: the codes mailed to an address (\<^verbatim>\<open>internal/handler/otp.go\<close> and the code rows of
  \<^verbatim>\<open>internal/store/store.go\<close>) and the refresh tokens that keep a session alive
  (\<^verbatim>\<open>internal/handler/oauth.go\<close>, \<^verbatim>\<open>internal/store/store.go\<close>). Every statement on a code is one step;
  requests interleave in any order. A renewal is one transaction with the token's row locked.
  The six-digit draw of \<^verbatim>\<open>rand.Int\<close> is an argument.
\<close>

section \<open>Login codes\<close>

definition MaxOTPAttempts :: int where
  "MaxOTPAttempts = 5"

definition CreateOTPCode :: "env \<Rightarrow> OTPCode \<Rightarrow> db \<Rightarrow> OTPCode result \<times> db" where
  "CreateOTPCode e otp d =
     (let otp = (if otp_ID otp = '''' then otp\<lparr>otp_ID := env_newID e 0\<rparr> else otp);
          otp = (if otp_CreatedAt otp = time_zero then otp\<lparr>otp_CreatedAt := env_dbnow e\<rparr> else otp) in
      if db_fault d \<or> exists_where (\<lambda>c. otp_ID c = otp_ID otp) (db_otp_codes d) then (Inl ErrDB, d)
      else (Inr otp, d\<lparr>db_otp_codes := db_otp_codes d @ [otp]\<rparr>))"

definition CountRecentOTPCodes :: "env \<Rightarrow> string \<Rightarrow> db \<Rightarrow> int result" where
  "CountRecentOTPCodes e email d =
     (if db_fault d then Inl ErrDB
      else Inr (count_where (\<lambda>c. otp_Email c = email \<and> otp_CreatedAt c > env_dbnow e - 10 * Minute) (db_otp_codes d)))"

definition FindLatestValidOTPCode :: "env \<Rightarrow> string \<Rightarrow> db \<Rightarrow> OTPCode result" where
  "FindLatestValidOTPCode e email d =
     (if db_fault d then Inl ErrDB
      else case first_by (\<lambda>c. - otp_CreatedAt c)
                  (filter (\<lambda>c. otp_Email c = email \<and> \<not> otp_Used c \<and> otp_ExpiresAt c > env_dbnow e \<and>
                     otp_Attempts c < MaxOTPAttempts) (db_otp_codes d)) of
        None \<Rightarrow> Inl ErrNoRows
      | Some c \<Rightarrow> Inr c)"

text \<open>\<open>None\<close>: no attempt was left, or the code was used or expired meanwhile.\<close>

definition claimable :: "env \<Rightarrow> string \<Rightarrow> OTPCode \<Rightarrow> bool" where
  "claimable e cid c \<longleftrightarrow> otp_ID c = cid \<and> otp_Attempts c < MaxOTPAttempts \<and> \<not> otp_Used c \<and> otp_ExpiresAt c > env_dbnow e"

definition ClaimOTPAttempt :: "env \<Rightarrow> string \<Rightarrow> db \<Rightarrow> int option result \<times> db" where
  "ClaimOTPAttempt e cid d =
     (if db_fault d then (Inl ErrDB, d)
      else case select_one (claimable e cid) (db_otp_codes d) of
        None \<Rightarrow> (Inr None, d)
      | Some c \<Rightarrow> (Inr (Some (otp_Attempts c + 1)),
                   d\<lparr>db_otp_codes := update_where (claimable e cid) (\<lambda>c. c\<lparr>otp_Attempts := otp_Attempts c + 1\<rparr>) (db_otp_codes d)\<rparr>))"

definition ConsumeOTPCode :: "string \<Rightarrow> db \<Rightarrow> bool result \<times> db" where
  "ConsumeOTPCode cid d =
     (if db_fault d then (Inl ErrDB, d)
      else (Inr (count_where (\<lambda>c. otp_ID c = cid \<and> \<not> otp_Used c) (db_otp_codes d) = 1),
            d\<lparr>db_otp_codes := update_where (\<lambda>c. otp_ID c = cid \<and> \<not> otp_Used c) (\<lambda>c. c\<lparr>otp_Used := True\<rparr>) (db_otp_codes d)\<rparr>))"

definition CleanExpiredOTPs :: "env \<Rightarrow> db \<Rightarrow> db" where
  "CleanExpiredOTPs e d =
     (if db_fault d then d else d\<lparr>db_otp_codes := delete_where (\<lambda>c. otp_ExpiresAt c < env_dbnow e) (db_otp_codes d)\<rparr>)"

section \<open>Asking for a code and presenting it\<close>

definition hashOTPCode :: "env \<Rightarrow> string \<Rightarrow> string" where
  "hashOTPCode e code = env_sha256 e code"

text \<open>\<^verbatim>\<open>%06d\<close> of the number drawn below a million.\<close>

definition generateOTPCode :: "nat \<Rightarrow> string" where
  "generateOTPCode n = map (\<lambda>k. char_of (48 + n div 10 ^ k mod 10)) [5, 4, 3, 2, 1, 0]"

definition unguessableCodeHash :: "env \<Rightarrow> string" where
  "unguessableCodeHash e = env_sha256 e (map (\<lambda>i. char_of (unat (env_rand e i))) [0..<32])"

definition GetSetting :: "string \<Rightarrow> db \<Rightarrow> string result" where
  "GetSetting key d =
     (if db_fault d then Inl ErrDB
      else case map_of (db_settings d) key of None \<Rightarrow> Inl ErrNoRows | Some v \<Rightarrow> Inr v)"

definition HasAccountOrLicense :: "string \<Rightarrow> db \<Rightarrow> bool result" where
  "HasAccountOrLicense email d =
     (let em = to_lower (trim_space email) in
      if em = '''' then Inr False
      else if db_fault d then Inl ErrDB
      else Inr (exists_where (\<lambda>u. user_Email u = em) (db_users d) \<or>
                exists_where (\<lambda>l. to_lower (lic_Email l) = em) (db_licenses d) \<or>
                exists_where (\<lambda>s. to_lower (seat_Email s) = em \<and> seat_RemovedAt s = None) (db_seats d)))"

definition signupAllowed :: "(db \<Rightarrow> db) \<Rightarrow> string \<Rightarrow> db \<Rightarrow> bool" where
  "signupAllowed gap email d =
     (case GetSetting ''signup_mode'' d of
        Inl err \<Rightarrow> errors_is err ErrNoRows
      | Inr mode \<Rightarrow>
          if mode \<noteq> ''licensed_only'' then True
          else (case HasAccountOrLicense email (gap d) of Inl _ \<Rightarrow> False | Inr known \<Rightarrow> known))"

text \<open>\<open>configured\<close>: there is a mail service and its settings could be read and name a provider.\<close>

definition sendCode :: "env \<Rightarrow> (nat \<Rightarrow> db \<Rightarrow> db) \<Rightarrow> bool \<Rightarrow> nat \<Rightarrow> string \<Rightarrow> bool \<Rightarrow> db \<Rightarrow> unit app_result \<times> db" where
  "sendCode e mid configured draw email gated d =
     (case CountRecentOTPCodes e email d of
        Inl err \<Rightarrow> (Inl (app_Internal err), d)
      | Inr count \<Rightarrow>
          if count \<ge> 3 then (Inl (app_New 429 ''RATE_LIMITED'' ''too many code requests, try again later''), d)
          else
            let allowed = (\<not> gated \<or> signupAllowed (mid 1) email (mid 0 d));
                d = mid 1 (mid 0 d);
                code = generateOTPCode draw;
                codeHash = (if allowed then hashOTPCode e code else unguessableCodeHash e) in
            (case CreateOTPCode e \<lparr>otp_ID = '''', otp_Email = email, otp_CodeHash = codeHash, otp_Attempts = 0,
                    otp_ExpiresAt = time_add (env_now e) (10 * Minute), otp_Used = False, otp_CreatedAt = time_zero\<rparr> (mid 2 d) of
               (Inl err, d1) \<Rightarrow> (Inl (app_Internal err), d1)
             | (Inr _, d1) \<Rightarrow>
                 if allowed then (Inr (), send_mail configured ''otp_code'' email [(''code'', DStr code)] d1)
                 else (Inr (), d1)))"

definition checkCode :: "env \<Rightarrow> (nat \<Rightarrow> db \<Rightarrow> db) \<Rightarrow> string \<Rightarrow> string \<Rightarrow> db \<Rightarrow> unit app_result \<times> db" where
  "checkCode e mid email code d =
     (let refused = (\<lambda>attempts. app_Unauthorized (if MaxOTPAttempts - attempts \<le> 0
                                  then ''too many attempts, request a new code'' else ''invalid or expired code'')) in
      case FindLatestValidOTPCode e email d of
        Inl _ \<Rightarrow> (Inl (refused 0), d)
      | Inr otp \<Rightarrow>
          (case ClaimOTPAttempt e (otp_ID otp) (mid 0 d) of
             (Inl cerr, d1) \<Rightarrow> (Inl (app_Internal cerr), d1)
           | (Inr None, d1) \<Rightarrow> (Inl (refused MaxOTPAttempts), d1)
           | (Inr (Some attempts), d1) \<Rightarrow>
               if hashOTPCode e code \<noteq> otp_CodeHash otp \<or> otp_ID otp = '''' then (Inl (refused attempts), d1)
               else (case ConsumeOTPCode (otp_ID otp) (mid 1 d1) of
                       (Inl err, d2) \<Rightarrow> (Inl (app_Internal err), d2)
                     | (Inr consumed, d2) \<Rightarrow>
                         if consumed then (Inr (), d2) else (Inl (app_Unauthorized ''invalid or expired code''), d2))))"

section \<open>How often a code can be tried and used\<close>

datatype otp_event = Created string | Guess string | Login string | Quiet

inductive otp_step :: "otp_event \<Rightarrow> db \<Rightarrow> db \<Rightarrow> bool" where
  created: "CreateOTPCode e otp d = (Inr row, d') \<Longrightarrow> otp_step (Created (otp_ID row)) d d'"
| guess: "ClaimOTPAttempt e cid d = (Inr (Some n), d') \<Longrightarrow> otp_step (Guess cid) d d'"
| no_guess: "ClaimOTPAttempt e cid d = (Inr None, d') \<Longrightarrow> otp_step Quiet d d'"
| login: "ConsumeOTPCode cid d = (Inr True, d') \<Longrightarrow> otp_step (Login cid) d d'"
| no_login: "ConsumeOTPCode cid d = (Inr False, d') \<Longrightarrow> otp_step Quiet d d'"
| cleaned: "otp_step Quiet d (CleanExpiredOTPs e d)"
| elsewhere: "db_otp_codes d' = db_otp_codes d \<Longrightarrow> otp_step Quiet d d'"

definition codes_unique :: "db \<Rightarrow> bool" where
  "codes_unique d \<longleftrightarrow> distinct (map otp_ID (db_otp_codes d))"

definition open_code :: "string \<Rightarrow> db \<Rightarrow> OTPCode option" where
  "open_code cid d = select_one (\<lambda>c. otp_ID c = cid \<and> \<not> otp_Used c) (db_otp_codes d)"

definition guesses_left :: "string \<Rightarrow> db \<Rightarrow> nat" where
  "guesses_left cid d = (case open_code cid d of None \<Rightarrow> 0 | Some c \<Rightarrow> nat (MaxOTPAttempts - otp_Attempts c))"

definition logins_left :: "string \<Rightarrow> db \<Rightarrow> nat" where
  "logins_left cid d = (case open_code cid d of None \<Rightarrow> 0 | Some _ \<Rightarrow> 1)"

lemma open_code_iff:
  assumes "codes_unique d"
  shows "open_code cid d = Some c \<longleftrightarrow> c \<in> set (db_otp_codes d) \<and> otp_ID c = cid \<and> \<not> otp_Used c"
proof
  assume "c \<in> set (db_otp_codes d) \<and> otp_ID c = cid \<and> \<not> otp_Used c"
  then show "open_code cid d = Some c"
    using assms unfolding open_code_def codes_unique_def
    by (intro select_one_by_key [where k = otp_ID]) auto
qed (auto simp: open_code_def dest: select_one_SomeD)

lemma otp_step_unique: "otp_step l d d' \<Longrightarrow> codes_unique d \<Longrightarrow> codes_unique d'"
  by (induction rule: otp_step.induct)
    (auto simp: codes_unique_def CreateOTPCode_def ClaimOTPAttempt_def ConsumeOTPCode_def CleanExpiredOTPs_def Let_def
       map_update_where distinct_map_delete_where split: if_splits option.splits)

lemma fewer_open:
  assumes "codes_unique d" and "codes_unique d'" and "set (db_otp_codes d') \<subseteq> set (db_otp_codes d)" and "open_code cid d' = Some c"
  shows "open_code cid d = Some c"
  using assms by (auto simp: open_code_iff)

lemma consume_open:
  assumes "ConsumeOTPCode cid' d = (Inr b, d')" and "codes_unique d" and "open_code cid d' = Some c'"
  shows "cid' \<noteq> cid \<and> open_code cid d = Some c'"
proof -
  have d': "db_otp_codes d' = update_where (\<lambda>c. otp_ID c = cid' \<and> \<not> otp_Used c) (\<lambda>c. c\<lparr>otp_Used := True\<rparr>) (db_otp_codes d)"
    using assms(1) by (auto simp: ConsumeOTPCode_def split: if_splits)
  have "codes_unique d'" using assms(2) by (simp add: codes_unique_def d' map_update_where)
  then have c': "c' \<in> set (db_otp_codes d')" "otp_ID c' = cid" "\<not> otp_Used c'" using assms(3) by (simp_all add: open_code_iff)
  then obtain c where "c \<in> set (db_otp_codes d)" "c' = (if otp_ID c = cid' \<and> \<not> otp_Used c then c\<lparr>otp_Used := True\<rparr> else c)"
    by (auto simp: d' set_update_where)
  with c'(2,3) show ?thesis by (auto simp: open_code_iff [OF assms(2)] split: if_splits)
qed

text \<open>What is open after a step was open before it, with no more attempts used than now.\<close>

lemma otp_step_open:
  assumes "otp_step l d d'" and "codes_unique d" and "l \<noteq> Created cid" and "open_code cid d' = Some c'"
  shows "l \<noteq> Login cid \<and>
         (\<exists>c. open_code cid d = Some c \<and> otp_Attempts c + (if l = Guess cid then 1 else 0) \<le> otp_Attempts c')"
  using assms(1)
proof cases
  case (created e otp row)
  with assms(3,4) show ?thesis
    by (auto simp: open_code_iff [OF otp_step_unique [OF assms(1,2)]] open_code_iff [OF assms(2)] CreateOTPCode_def Let_def split: if_splits)
next
  case (guess e cid' n)
  then obtain g where g: "g \<in> set (db_otp_codes d)" "claimable e cid' g"
    and d': "db_otp_codes d' = update_where (claimable e cid') (\<lambda>c. c\<lparr>otp_Attempts := otp_Attempts c + 1\<rparr>) (db_otp_codes d)"
    by (auto simp: ClaimOTPAttempt_def split: if_splits option.splits dest: select_one_SomeD)
  from assms(4) have c': "c' \<in> set (db_otp_codes d')" "otp_ID c' = cid" "\<not> otp_Used c'"
    by (simp_all add: open_code_iff [OF otp_step_unique [OF assms(1,2)]])
  then obtain c where c: "c \<in> set (db_otp_codes d)"
    and cc': "c' = (if claimable e cid' c then c\<lparr>otp_Attempts := otp_Attempts c + 1\<rparr> else c)"
    by (auto simp: d' set_update_where)
  have id: "otp_ID c = cid" "\<not> otp_Used c" using c'(2,3) cc' by (auto split: if_splits)
  have "claimable e cid' c" if "cid' = cid"
    using g id that unique_column [of otp_ID, OF assms(2) [unfolded codes_unique_def] c g(1)] by (auto simp: claimable_def)
  then have "otp_Attempts c + (if l = Guess cid then 1 else 0) \<le> otp_Attempts c'" using cc' guess(1) by auto
  moreover have "open_code cid d = Some c" using c id by (simp add: open_code_iff [OF assms(2)])
  ultimately show ?thesis using guess(1) by blast
next
  case (login cid')
  with consume_open [OF _ assms(2), of cid' True d'] assms(4) show ?thesis by auto
next
  case (no_login cid')
  with consume_open [OF _ assms(2), of cid' False d'] assms(4) show ?thesis by auto
next
  case (cleaned e)
  then have "set (db_otp_codes d') \<subseteq> set (db_otp_codes d)" by (auto simp: CleanExpiredOTPs_def)
  then show ?thesis using cleaned(1) fewer_open [OF assms(2) otp_step_unique [OF assms(1,2)] _ assms(4)] by auto
qed (use assms(4) in \<open>auto simp: open_code_def ClaimOTPAttempt_def split: if_splits option.splits\<close>)

lemma guess_open:
  assumes "otp_step (Guess cid) d d'" and "codes_unique d"
  shows "\<exists>c. open_code cid d = Some c \<and> otp_Attempts c < MaxOTPAttempts"
  using assms
  by (cases rule: otp_step.cases)
    (auto simp: ClaimOTPAttempt_def claimable_def open_code_iff split: if_splits option.splits dest!: select_one_SomeD)

lemma login_open:
  assumes "otp_step (Login cid) d d'" and "codes_unique d"
  shows "\<exists>c. open_code cid d = Some c"
proof -
  from assms(1) have "count_where (\<lambda>c. otp_ID c = cid \<and> \<not> otp_Used c) (db_otp_codes d) \<noteq> 0"
    by cases (auto simp: ConsumeOTPCode_def split: if_splits)
  then show ?thesis using assms(2) by (auto simp: count_where_zero_iff open_code_iff)
qed

interpretation otp_guesses: budget codes_unique "guesses_left cid" otp_step "\<lambda>l. l = Guess cid" "\<lambda>l. l = Created cid" for cid
proof
  fix s s' :: db and l :: otp_event
  assume inv: "codes_unique s" and step: "otp_step l s s'"
  then show "codes_unique s'" using otp_step_unique by blast
  assume "l \<noteq> Created cid"
  note old = otp_step_open [OF step inv this]
  show "(if l = Guess cid then 1 else 0) + guesses_left cid s' \<le> guesses_left cid s"
  proof (cases "open_code cid s'")
    case None
    have "guesses_left cid s \<noteq> 0" if g: "l = Guess cid"
      using guess_open [of cid s s'] inv step g by (auto simp: guesses_left_def)
    with None show ?thesis by (auto simp: guesses_left_def)
  next
    case (Some c')
    from old [OF this] obtain c where c: "open_code cid s = Some c"
      "otp_Attempts c + (if l = Guess cid then 1 else 0) \<le> otp_Attempts c'" by blast
    have "otp_Attempts c < MaxOTPAttempts" if "l = Guess cid"
      using guess_open [of cid s s'] inv step that c(1) by auto
    with c Some show ?thesis by (cases "l = Guess cid") (simp_all add: guesses_left_def)
  qed
qed

interpretation otp_logins: budget codes_unique "logins_left cid" otp_step "\<lambda>l. l = Login cid" "\<lambda>l. l = Created cid" for cid
proof
  fix s s' :: db and l :: otp_event
  assume inv: "codes_unique s" and step: "otp_step l s s'"
  then show "codes_unique s'" using otp_step_unique by blast
  assume "l \<noteq> Created cid"
  note old = otp_step_open [OF step inv this]
  show "(if l = Login cid then 1 else 0) + logins_left cid s' \<le> logins_left cid s"
    using old login_open [OF _ inv] step by (cases "open_code cid s'") (fastforce simp: logins_left_def)+
qed

lemma checkCode_InrD:
  assumes "checkCode e mid email code d = (Inr (), d')"
  obtains otp n d1 where "FindLatestValidOTPCode e email d = Inr otp" "hashOTPCode e code = otp_CodeHash otp"
    "ClaimOTPAttempt e (otp_ID otp) (mid 0 d) = (Inr (Some n), d1)" "ConsumeOTPCode (otp_ID otp) (mid 1 d1) = (Inr True, d')"
  using assms by (auto simp: checkCode_def Let_def split: sum.splits option.splits prod.splits if_splits)


definition demo_code :: OTPCode where
  "demo_code = \<lparr>otp_ID = ''C'', otp_Email = ''o@x'', otp_CodeHash = ''h123456'', otp_Attempts = 0, otp_ExpiresAt = 5000,
     otp_Used = False, otp_CreatedAt = 1000\<rparr>"


section \<open>Refresh tokens\<close>

definition RefreshReuseGrace :: duration where
  "RefreshReuseGrace = 30 * Second"

definition refreshTokenTTL :: duration where
  "refreshTokenTTL = 30 * 24 * Hour"

definition hashToken :: "env \<Rightarrow> string \<Rightarrow> string" where
  "hashToken e raw = env_sha256 e raw"

text \<open>An insert, refused by the unique hash or when the user is gone.\<close>

definition insert_refresh_token :: "env \<Rightarrow> string \<Rightarrow> string \<Rightarrow> time \<Rightarrow> db \<Rightarrow> unit result \<times> db" where
  "insert_refresh_token e userID tokenHash expiresAt d =
     (if exists_where (\<lambda>t. rt_TokenHash t = tokenHash \<or> rt_ID t = env_newID e 0) (db_refresh_tokens d) \<or>
         \<not> exists_where (\<lambda>u. user_ID u = userID) (db_users d)
      then (Inl ErrDB, d)
      else (Inr (), d\<lparr>db_refresh_tokens := db_refresh_tokens d @
             [\<lparr>rt_ID = env_newID e 0, rt_UserID = userID, rt_TokenHash = tokenHash, rt_ExpiresAt = expiresAt,
               rt_CreatedAt = env_dbnow e, rt_RevokedAt = None\<rparr>]\<rparr>))"

definition CreateRefreshToken :: "env \<Rightarrow> string \<Rightarrow> string \<Rightarrow> time \<Rightarrow> db \<Rightarrow> unit result \<times> db" where
  "CreateRefreshToken e userID tokenHash expiresAt d =
     (if db_fault d then (Inl ErrDB, d) else insert_refresh_token e userID tokenHash expiresAt d)"

definition FindRefreshToken :: "env \<Rightarrow> string \<Rightarrow> db \<Rightarrow> RefreshToken result" where
  "FindRefreshToken e tokenHash d =
     (if db_fault d then Inl ErrDB
      else case select_one (\<lambda>t. rt_TokenHash t = tokenHash \<and> rt_ExpiresAt t > env_dbnow e \<and> rt_RevokedAt t = None) (db_refresh_tokens d) of
        None \<Rightarrow> Inl ErrNoRows
      | Some t \<Rightarrow> Inr t)"

record RefreshRenewal =
  rr_Token :: RefreshToken
  rr_User :: "User option"
  rr_ExpiresAt :: time
  rr_Grace :: bool

text \<open>The renewal that is returned beside \<open>ErrRefreshTokenReused\<close> comes with the error.\<close>

definition RenewRefreshToken ::
  "env \<Rightarrow> string \<Rightarrow> string \<Rightarrow> time \<Rightarrow> db \<Rightarrow> ((error \<times> RefreshRenewal option) + RefreshRenewal) \<times> db" where
  "RenewRefreshToken e tokenHash newHash expiresAt d =
     (if db_fault d then (Inl (ErrDB, None), d)
      else case select_one (\<lambda>t. rt_TokenHash t = tokenHash \<and> rt_ExpiresAt t > env_dbnow e) (db_refresh_tokens d) of
        None \<Rightarrow> (Inl (ErrNoRows, None), d)
      | Some rt \<Rightarrow>
          let grace = (case rt_RevokedAt rt of None \<Rightarrow> False | Some at \<Rightarrow> at > env_dbnow e - RefreshReuseGrace);
              newExp = (if rt_RevokedAt rt \<noteq> None \<and> rt_ExpiresAt rt < expiresAt then rt_ExpiresAt rt else expiresAt) in
          if rt_RevokedAt rt \<noteq> None \<and> \<not> grace
          then (Inl (ErrRefreshTokenReused, Some \<lparr>rr_Token = rt, rr_User = None, rr_ExpiresAt = expiresAt, rr_Grace = False\<rparr>), d)
          else
            let d1 = (if rt_RevokedAt rt = None
                      then d\<lparr>db_refresh_tokens := update_where (\<lambda>t. rt_ID t = rt_ID rt) (\<lambda>t. t\<lparr>rt_RevokedAt := Some (env_dbnow e)\<rparr>) (db_refresh_tokens d)\<rparr>
                      else d);
                rt' = (if rt_RevokedAt rt = None then rt\<lparr>rt_RevokedAt := Some (env_dbnow e)\<rparr> else rt) in
            case select_one (\<lambda>u. user_ID u = rt_UserID rt) (db_users d1) of
              None \<Rightarrow> (Inl (ErrRefreshUserNotFound, None), d)
            | Some user \<Rightarrow>
                (case insert_refresh_token e (rt_UserID rt) newHash newExp d1 of
                   (Inl err, _) \<Rightarrow> (Inl (err, None), d)
                 | (Inr _, d2) \<Rightarrow>
                     (Inr \<lparr>rr_Token = rt', rr_User = Some user, rr_ExpiresAt = newExp, rr_Grace = grace\<rparr>, d2)))"

definition DeleteRefreshToken :: "string \<Rightarrow> db \<Rightarrow> db" where
  "DeleteRefreshToken tokenHash d =
     (if db_fault d then d else d\<lparr>db_refresh_tokens := delete_where (\<lambda>t. rt_TokenHash t = tokenHash) (db_refresh_tokens d)\<rparr>)"

definition DeleteUserRefreshTokens :: "string \<Rightarrow> db \<Rightarrow> db" where
  "DeleteUserRefreshTokens userID d =
     (if db_fault d then d else d\<lparr>db_refresh_tokens := delete_where (\<lambda>t. rt_UserID t = userID) (db_refresh_tokens d)\<rparr>)"

definition CleanExpiredRefreshTokens :: "env \<Rightarrow> db \<Rightarrow> db" where
  "CleanExpiredRefreshTokens e d =
     (if db_fault d then d else d\<lparr>db_refresh_tokens := delete_where (\<lambda>t. rt_ExpiresAt t < env_dbnow e) (db_refresh_tokens d)\<rparr>)"

text \<open>\<open>rawRefresh\<close> is the fresh random token; the answer is the user of the new session and the token's expiry.\<close>

definition Refresh :: "env \<Rightarrow> (db \<Rightarrow> db) \<Rightarrow> string \<Rightarrow> string \<Rightarrow> db \<Rightarrow> (User option \<times> time) app_result \<times> db" where
  "Refresh e gap raw rawRefresh d =
     (if raw = '''' then (Inl (app_Unauthorized ''no refresh token''), d)
      else case RenewRefreshToken e (hashToken e raw) (hashToken e rawRefresh) (time_add (env_now e) refreshTokenTTL) d of
        (Inr ren, d1) \<Rightarrow> (Inr (rr_User ren, rr_ExpiresAt ren), d1)
      | (Inl (err, ren), d1) \<Rightarrow>
          if err = ErrRefreshTokenReused
          then (Inl (app_Unauthorized ''refresh token reuse detected''),
                (case ren of Some r \<Rightarrow> DeleteUserRefreshTokens (rt_UserID (rr_Token r)) (gap d1) | None \<Rightarrow> d1))
          else if err = ErrNoRows then (Inl (app_Unauthorized ''invalid refresh token''), d1)
          else if err = ErrRefreshUserNotFound then (Inl (app_Unauthorized ''user not found''), d1)
          else (Inl (app_Internal err), d1))"

definition Logout :: "env \<Rightarrow> string \<Rightarrow> string \<Rightarrow> string \<Rightarrow> db \<Rightarrow> db" where
  "Logout e raw userID ip d =
     (let d = (if raw \<noteq> '''' then DeleteRefreshToken (hashToken e raw) d else d) in
      if userID \<noteq> '''' then
        Audit \<lparr>audit_Entity = ''session'', audit_EntityID = userID, audit_Action = ''logout'', audit_ActorID = userID,
               audit_ActorType = ''user'', audit_Changes = [], audit_IPAddress = ip, audit_ProductID = ''''\<rparr>
          (DeleteUserRefreshTokens userID d)
      else d)"

definition tokens_unique :: "db \<Rightarrow> bool" where
  "tokens_unique d \<longleftrightarrow> distinct (map rt_TokenHash (db_refresh_tokens d)) \<and> distinct (map rt_ID (db_refresh_tokens d))"

lemma insert_refresh_token_InrD:
  assumes "insert_refresh_token e uid h exp d = (Inr (), d')"
  obtains t where "db_refresh_tokens d' = db_refresh_tokens d @ [t]" "rt_TokenHash t = h" "rt_UserID t = uid" "rt_ExpiresAt t = exp"
    "\<forall>x \<in> set (db_refresh_tokens d). rt_TokenHash x \<noteq> h \<and> rt_ID x \<noteq> rt_ID t" "db_fault d' = db_fault d" "db_users d' = db_users d"
  using assms by (auto simp: insert_refresh_token_def split: if_splits)

text \<open>A renewal that is not a grace renewal rotates a token nobody had rotated.\<close>

lemma Renew_rotates:
  assumes "RenewRefreshToken e h h1 exp d = (Inr ren, d1)" and "\<not> rr_Grace ren" and "tokens_unique d"
  shows "rr_Token ren \<in> set (db_refresh_tokens d1) \<and> rt_TokenHash (rr_Token ren) = h \<and>
         rt_RevokedAt (rr_Token ren) = Some (env_dbnow e) \<and> tokens_unique d1 \<and> \<not> db_fault d1"
proof -
  from assms(1) obtain rt where nf: "\<not> db_fault d"
    and sel: "select_one (\<lambda>t. rt_TokenHash t = h \<and> rt_ExpiresAt t > env_dbnow e) (db_refresh_tokens d) = Some rt"
    by (auto simp: RenewRefreshToken_def split: if_splits option.splits)
  note rt = select_one_SomeD [OF sel]
  have fresh: "rt_RevokedAt rt = None"
    using assms(1,2) nf sel by (auto simp: RenewRefreshToken_def Let_def split: if_splits option.splits sum.splits prod.splits)
  let ?d1 = "d\<lparr>db_refresh_tokens := update_where (\<lambda>t. rt_ID t = rt_ID rt) (\<lambda>t. t\<lparr>rt_RevokedAt := Some (env_dbnow e)\<rparr>) (db_refresh_tokens d)\<rparr>"
  have ins: "insert_refresh_token e (rt_UserID rt) h1 exp ?d1 = (Inr (), d1)" and ren: "rr_Token ren = rt\<lparr>rt_RevokedAt := Some (env_dbnow e)\<rparr>"
    using assms(1) nf sel fresh by (auto simp: RenewRefreshToken_def Let_def split: option.splits sum.splits prod.splits)
  from ins obtain t where t: "db_refresh_tokens d1 = db_refresh_tokens ?d1 @ [t]" "rt_TokenHash t = h1"
    "\<forall>x \<in> set (db_refresh_tokens ?d1). rt_TokenHash x \<noteq> h1 \<and> rt_ID x \<noteq> rt_ID t" "db_fault d1 = db_fault ?d1"
    by (rule insert_refresh_token_InrD) blast
  have "rr_Token ren \<in> set (db_refresh_tokens ?d1)" using rt by (force simp: ren set_update_where)
  moreover have "tokens_unique d1"
    using assms(3) t(2,3) by (auto simp: tokens_unique_def t(1) map_update_where ball_update_where)
  ultimately show ?thesis using rt t(1,4) nf by (simp add: ren)
qed


definition demo_session_db :: db where
  "demo_session_db = demo_db\<lparr>db_users := [zero_User\<lparr>user_ID := ''U'', user_Email := ''o@x''\<rparr>],
     db_refresh_tokens := [\<lparr>rt_ID = ''R'', rt_UserID = ''U'', rt_TokenHash = ''hraw'', rt_ExpiresAt = 10 ^ 15, rt_CreatedAt = 0, rt_RevokedAt = None\<rparr>]\<rparr>"


end
