(* ===== verification/KG_Team.thy ===== *)
theory KG_Team
  imports KG_Login
begin

text \<open>
  Accounts and the vendor's team, \<^verbatim>\<open>internal/store/store.go\<close>: users by address, the roles of the
  installation (owner, admin, user), how they are granted at start-up and at login
  (\<^verbatim>\<open>internal/handler/otp.go\<close>), and the change of a role under the team lock. An address of the
  list \<^verbatim>\<open>ADMIN_EMAILS\<close> is an argument. Every role change is one transaction under one lock,
  every other statement one step.
\<close>

section \<open>Accounts\<close>

definition UpsertUser :: "env \<Rightarrow> User \<Rightarrow> db \<Rightarrow> unit result \<times> db" where
  "UpsertUser e u d =
     (let u = u\<lparr>user_ID := (if user_ID u = '''' then env_newID e 0 else user_ID u), user_Email := normalizeEmail (user_Email u)\<rparr> in
      if db_fault d then (Inl ErrDB, d)
      else if exists_where (\<lambda>x. user_Email x = user_Email u) (db_users d)
      then (Inr (), d\<lparr>db_users := update_where (\<lambda>x. user_Email x = user_Email u)
             (\<lambda>x. x\<lparr>user_Name := (if user_Name u \<noteq> '''' then user_Name u else user_Name x),
                    user_AvatarURL := (if user_AvatarURL u \<noteq> '''' then user_AvatarURL u else user_AvatarURL x),
                    user_UpdatedAt := env_dbnow e\<rparr>) (db_users d)\<rparr>)
      else if exists_where (\<lambda>x. user_ID x = user_ID u) (db_users d) then (Inl ErrDB, d)
      else (Inr (), d\<lparr>db_users := db_users d @ [u\<lparr>user_Role := (if user_Role u = '''' then ''user'' else user_Role u),
              user_CreatedAt := env_dbnow e, user_UpdatedAt := env_dbnow e\<rparr>]\<rparr>))"

definition FindUserByEmail :: "string \<Rightarrow> db \<Rightarrow> User result" where
  "FindUserByEmail email d =
     (if db_fault d then Inl ErrDB
      else case select_one (\<lambda>u. user_Email u = normalizeEmail email) (db_users d) of None \<Rightarrow> Inl ErrNoRows | Some u \<Rightarrow> Inr u)"

definition FindUserByID :: "string \<Rightarrow> db \<Rightarrow> User result" where
  "FindUserByID uid d =
     (if db_fault d then Inl ErrDB
      else case select_one (\<lambda>u. user_ID u = uid) (db_users d) of None \<Rightarrow> Inl ErrNoRows | Some u \<Rightarrow> Inr u)"

definition UpdateUserProfile :: "env \<Rightarrow> string \<Rightarrow> string \<Rightarrow> db \<Rightarrow> unit result \<times> db" where
  "UpdateUserProfile e userID name d =
     (if db_fault d then (Inl ErrDB, d)
      else (Inr (), d\<lparr>db_users := update_where (\<lambda>u. user_ID u = userID)
              (\<lambda>u. u\<lparr>user_Name := name, user_UpdatedAt := env_dbnow e\<rparr>) (db_users d)\<rparr>))"

definition CreatePlaceholderUser :: "env \<Rightarrow> string \<Rightarrow> db \<Rightarrow> unit result \<times> db" where
  "CreatePlaceholderUser e email d =
     (if db_fault d then (Inl ErrDB, d)
      else if exists_where (\<lambda>u. user_Email u = email) (db_users d) then (Inr (), d)
      else if exists_where (\<lambda>u. user_ID u = env_newID e 0) (db_users d) then (Inl ErrDB, d)
      else (Inr (), d\<lparr>db_users := db_users d @ [zero_User\<lparr>user_ID := env_newID e 0, user_Email := email, user_Role := ''user'',
              user_CreatedAt := env_dbnow e, user_UpdatedAt := env_dbnow e\<rparr>]\<rparr>))"

section \<open>Roles\<close>

definition is_owner :: "User \<Rightarrow> bool" where
  "is_owner u \<longleftrightarrow> user_Role u = ''owner''"

definition CountOwners :: "db \<Rightarrow> int result" where
  "CountOwners d = (if db_fault d then Inl ErrDB else Inr (count_where is_owner (db_users d)))"

definition FindUserIsAdmin :: "string \<Rightarrow> db \<Rightarrow> bool" where
  "FindUserIsAdmin uid d =
     (if db_fault d then False
      else case select_one (\<lambda>u. user_ID u = uid) (db_users d) of None \<Rightarrow> False | Some u \<Rightarrow> IsAdmin u)"

definition set_role :: "env \<Rightarrow> string \<Rightarrow> User \<Rightarrow> User" where
  "set_role e role u = u\<lparr>user_Role := role, user_UpdatedAt := env_dbnow e\<rparr>"

text \<open>One \<^verbatim>\<open>UPDATE\<close> per listed address; the first is the owner's when there was none at the start.\<close>

definition sync_admin :: "env \<Rightarrow> string \<Rightarrow> string \<Rightarrow> db \<Rightarrow> db" where
  "sync_admin e role email d =
     (if db_fault d then d
      else d\<lparr>db_users := update_where (\<lambda>u. user_Email u = email \<and> user_Role u = ''user'') (set_role e role) (db_users d)\<rparr>)"

fun sync_admins :: "env \<Rightarrow> (nat \<Rightarrow> db \<Rightarrow> db) \<Rightarrow> bool \<Rightarrow> nat \<Rightarrow> string list \<Rightarrow> db \<Rightarrow> db" where
  "sync_admins e mid ownerExists i [] d = d"
| "sync_admins e mid ownerExists i (email # emails) d =
     sync_admins e mid ownerExists (Suc i) emails
       (sync_admin e (if i = 0 \<and> \<not> ownerExists then ''owner'' else ''admin'') email (mid i d))"

definition SyncAdminEmails :: "env \<Rightarrow> (nat \<Rightarrow> db \<Rightarrow> db) \<Rightarrow> string list \<Rightarrow> db \<Rightarrow> db" where
  "SyncAdminEmails e mid adminEmails d =
     (if adminEmails = [] then d
      else sync_admins e mid (\<not> db_fault d \<and> exists_where is_owner (db_users d)) 0 adminEmails d)"

definition SetupNeeded :: "db \<Rightarrow> bool result" where
  "SetupNeeded d =
     (case GetSetting ''setup_complete'' d of
        Inl err \<Rightarrow> if errors_is err ErrNoRows
                   then Inr (\<not> (exists_where IsAdmin (db_users d) \<or> db_products d \<noteq> [])) else Inl err
      | Inr complete \<Rightarrow>
          if complete = ''true'' then Inr False
          else Inr (\<not> (exists_where IsAdmin (db_users d) \<or> db_products d \<noteq> [])))"

text \<open>The position of an address in the list, past its end when it is not there (\<^verbatim>\<open>NULLS LAST\<close>).\<close>

definition array_position :: "string list \<Rightarrow> string \<Rightarrow> nat" where
  "array_position xs x = length (takeWhile (\<lambda>y. y \<noteq> x) xs)"

definition next_owner :: "string list \<Rightarrow> db \<Rightarrow> User option" where
  "next_owner adminEmails d =
     first_by (\<lambda>u. array_position adminEmails (user_Email u))
       (sort_key (\<lambda>u. JoinKey (user_CreatedAt u) (user_ID u)) (filter (\<lambda>u. user_Role u = ''admin'') (db_users d)))"

definition EnsureOwner :: "env \<Rightarrow> string list \<Rightarrow> db \<Rightarrow> string result \<times> db" where
  "EnsureOwner e adminEmails d =
     (if db_fault d then (Inl ErrDB, d)
      else if exists_where is_owner (db_users d) then (Inr '''', d)
      else case next_owner adminEmails d of
        None \<Rightarrow> (Inr '''', d)
      | Some u \<Rightarrow> (Inr (user_Email u),
                   d\<lparr>db_users := update_where (\<lambda>x. user_ID x = user_ID u) (set_role e ''owner'') (db_users d)\<rparr>))"

definition PromoteAdminEmail :: "env \<Rightarrow> (db \<Rightarrow> db) \<Rightarrow> string \<Rightarrow> db \<Rightarrow> string result \<times> db" where
  "PromoteAdminEmail e gap userID d =
     (if db_fault d then (Inl ErrDB, d)
      else
        let role = (if exists_where is_owner (db_users d) then ''admin'' else ''owner'') in
        if exists_where (\<lambda>u. user_ID u = userID \<and> user_Role u = ''user'') (db_users d)
        then (Inr role, d\<lparr>db_users := update_where (\<lambda>u. user_ID u = userID \<and> user_Role u = ''user'') (set_role e role) (db_users d)\<rparr>)
        else
          let d = gap d in
          (case FindUserByID userID d of Inl err \<Rightarrow> (Inl err, d) | Inr u \<Rightarrow> (Inr (user_Role u), d)))"

text \<open>The role before, and whether it changed.\<close>

definition SetRoleAtomic :: "env \<Rightarrow> string \<Rightarrow> string \<Rightarrow> string \<Rightarrow> db \<Rightarrow> (string \<times> bool) result \<times> db" where
  "SetRoleAtomic e actorID targetID role d =
     (if role \<noteq> ''owner'' \<and> role \<noteq> ''admin'' \<and> role \<noteq> ''user'' then (Inl (ErrRefused (''invalid role: '' @ role)), d)
      else if db_fault d then (Inl ErrDB, d)
      else if actorID \<noteq> '''' \<and> (case select_one (\<lambda>u. user_ID u = actorID) (db_users d) of None \<Rightarrow> True | Some u \<Rightarrow> \<not> is_owner u)
      then (Inl ErrNotOwner, d)
      else case select_one (\<lambda>u. user_ID u = targetID) (db_users d) of
        None \<Rightarrow> (Inl ErrUserNotFound, d)
      | Some target \<Rightarrow>
          if user_Role target = role then (Inr (user_Role target, False), d)
          else if is_owner target \<and> count_where is_owner (db_users d) \<le> 1 then (Inl ErrLastOwner, d)
          else (Inr (user_Role target, True),
                d\<lparr>db_users := update_where (\<lambda>u. user_ID u = targetID) (set_role e role) (db_users d)\<rparr>))"

section \<open>Login\<close>

definition IsAdminEmail :: "string list \<Rightarrow> string \<Rightarrow> bool" where
  "IsAdminEmail adminEmails email \<longleftrightarrow> to_lower (trim_space email) \<in> set adminEmails"

definition loginUser :: "env \<Rightarrow> (nat \<Rightarrow> db \<Rightarrow> db) \<Rightarrow> string list \<Rightarrow> string \<Rightarrow> db \<Rightarrow> User result \<times> db" where
  "loginUser e mid adminEmails email d =
     (case UpsertUser e (zero_User\<lparr>user_Email := email\<rparr>) d of
        (Inl err, d1) \<Rightarrow> (Inl err, d1)
      | (Inr _, d1) \<Rightarrow>
          (case FindUserByEmail email (mid 0 d1) of
             Inl err \<Rightarrow> (Inl err, mid 0 d1)
           | Inr user \<Rightarrow>
               if IsAdminEmail adminEmails (user_Email user) \<and> user_Role user = ''user''
               then (case PromoteAdminEmail e (mid 2) (user_ID user) (mid 1 (mid 0 d1)) of
                       (Inr role, d2) \<Rightarrow> (Inr (user\<lparr>user_Role := role\<rparr>), d2)
                     | (Inl _, d2) \<Rightarrow> (Inr user, d2))
               else (Inr user, mid 0 d1)))"

text \<open>
  A code presented at the login: checked and used up, the sign-up gate asked again, the account found
  or made, the session's refresh token stored, the login audited.
\<close>

definition OTPVerify ::
  "env \<Rightarrow> (nat \<Rightarrow> nat \<Rightarrow> db \<Rightarrow> db) \<Rightarrow> string list \<Rightarrow> bool \<Rightarrow> string \<Rightarrow> string \<Rightarrow> string \<Rightarrow> string \<Rightarrow> db \<Rightarrow> User app_result \<times> db" where
  "OTPVerify e mid adminEmails mailer reqEmail reqCode rawRefresh ip d =
     (let email = to_lower (trim_space reqEmail) in
      case checkCode e (mid 0) email (trim_space reqCode) d of
        (Inl err, d1) \<Rightarrow> (Inl err, d1)
      | (Inr _, d1) \<Rightarrow>
          let d1 = mid 1 0 d1 in
          if \<not> signupAllowed (mid 1 1) email d1 then (Inl (app_Unauthorized ''invalid or expired code''), mid 1 1 d1)
          else
            (case loginUser e (mid 2) adminEmails email (mid 1 1 d1) of
               (Inl err, d2) \<Rightarrow> (Inl (app_Internal err), d2)
             | (Inr user, d2) \<Rightarrow>
                 let d3 = (if time_sub (env_now e) (user_CreatedAt user) < Minute
                           then send_mail mailer ''welcome'' (user_Email user) [(''name'', DStr (user_Name user))] d2 else d2);
                     d4 = snd (CreateRefreshToken e (user_ID user) (hashToken e rawRefresh) (time_add (env_now e) refreshTokenTTL) (mid 3 0 d3));
                     d5 = Audit \<lparr>audit_Entity = ''session'', audit_EntityID = user_ID user, audit_Action = ''login'', audit_ActorID = user_ID user,
                            audit_ActorType = ''otp'', audit_Changes = [(''email'', DStr (user_Email user))], audit_IPAddress = ip, audit_ProductID = ''''\<rparr> d4
                 in (Inr user, d5)))"

section \<open>Someone can always manage the team\<close>

definition owners :: "db \<Rightarrow> int" where
  "owners d = count_where is_owner (db_users d)"

definition users_unique :: "db \<Rightarrow> bool" where
  "users_unique d \<longleftrightarrow> distinct (map user_ID (db_users d))"

inductive team_step :: "db \<Rightarrow> db \<Rightarrow> bool" where
  set_role: "SetRoleAtomic e actor target role d = (r, d') \<Longrightarrow> team_step d d'"
| promote: "PromoteAdminEmail e (\<lambda>x. x) uid d = (r', d') \<Longrightarrow> team_step d d'"
| ensure: "EnsureOwner e emails d = (r', d') \<Longrightarrow> team_step d d'"
| sync: "role = ''owner'' \<or> role = ''admin'' \<Longrightarrow> team_step d (sync_admin e role email d)"
| upsert: "UpsertUser e u d = (r'', d') \<Longrightarrow> team_step d d'"
| profile: "UpdateUserProfile e uid name d = (r'', d') \<Longrightarrow> team_step d d'"
| placeholder: "CreatePlaceholderUser e email d = (r'', d') \<Longrightarrow> team_step d d'"
| elsewhere: "db_users d' = db_users d \<Longrightarrow> team_step d d'"

lemma set_role_ID [simp]: "user_ID (set_role e role u) = user_ID u"
  by (simp add: set_role_def)

lemma team_step_unique: "team_step d d' \<Longrightarrow> users_unique d \<Longrightarrow> users_unique d'"
  by (induction rule: team_step.induct)
    (auto simp: users_unique_def SetRoleAtomic_def PromoteAdminEmail_def EnsureOwner_def sync_admin_def UpsertUser_def
       UpdateUserProfile_def CreatePlaceholderUser_def Let_def map_update_where split: if_splits option.splits sum.splits)

text \<open>Only a change of role takes the role of an owner away, and it leaves another owner.\<close>

lemma SetRoleAtomic_owners:
  assumes "SetRoleAtomic e actor target role d = (r, d')" and "users_unique d"
  shows "owners d \<le> owners d' \<or> 1 \<le> owners d'"
proof (cases "d' = d")
  case False
  then obtain t where t: "select_one (\<lambda>u. user_ID u = target) (db_users d) = Some t"
    and ok: "\<not> (is_owner t \<and> count_where is_owner (db_users d) \<le> 1)"
    and d': "db_users d' = update_where (\<lambda>u. user_ID u = target) (set_role e role) (db_users d)"
    using assms(1) by (auto simp: SetRoleAtomic_def split: if_splits option.splits)
  note tt = select_one_SomeD [OF t]
  show ?thesis
  proof (cases "is_owner t")
    case True
    then have "\<not> (\<forall>u \<in> set (db_users d). is_owner u \<longrightarrow> user_ID u = target)"
      using ok count_where_one_key [of user_ID "db_users d" is_owner target] assms(2) by (auto simp: users_unique_def)
    then obtain u where "u \<in> set (db_users d)" "is_owner u" "user_ID u \<noteq> target" by blast
    then have "\<exists>x \<in> set (db_users d'). is_owner x" unfolding d' set_update_where by force
    then have "owners d' \<noteq> 0" by (simp add: owners_def count_where_zero_iff)
    moreover have "0 \<le> owners d'" by (simp add: owners_def)
    ultimately show ?thesis by linarith
  next
    case no: False
    have "u = t" if "u \<in> set (db_users d)" "user_ID u = target" for u
      using that tt unique_column [of user_ID "db_users d" u t] assms(2) by (auto simp: users_unique_def)
    then show ?thesis using no unfolding owners_def d' by (intro disjI1 count_where_update_mono) auto
  qed
qed simp

lemma team_step_owners:
  assumes "team_step d d'" and "users_unique d"
  shows "owners d \<le> owners d' \<or> 1 \<le> owners d'"
  using assms(1)
proof cases
  case (set_role e actor target role r)
  then show ?thesis using SetRoleAtomic_owners assms(2) by blast
next
  case (ensure e emails r')
  then show ?thesis
    by (auto simp: EnsureOwner_def owners_def set_role_def is_owner_def intro!: count_where_update_mono split: if_splits option.splits)
next
  case (promote e uid r')
  then show ?thesis
    by (auto simp: PromoteAdminEmail_def owners_def is_owner_def Let_def intro!: count_where_update_mono split: if_splits sum.splits)
qed (auto simp: owners_def sync_admin_def is_owner_def UpsertUser_def UpdateUserProfile_def CreatePlaceholderUser_def Let_def count_where_append
      intro!: count_where_update_mono split: if_splits)

interpretation team: bounded_resource users_unique "\<lambda>d. - owners d" "\<lambda>_. - 1" team_step
  by unfold_locales (use team_step_unique team_step_owners in force)+

lemma sync_admins_steps:
  assumes "\<And>i d. team_step\<^sup>*\<^sup>* d (mid i d)"
  shows "team_step\<^sup>*\<^sup>* d (sync_admins e mid x i emails d)"
proof (induction emails arbitrary: i d)
  case (Cons email emails)
  let ?role = "if i = 0 \<and> \<not> x then ''owner'' else ''admin''"
  have "team_step (mid i d) (sync_admin e ?role email (mid i d))" by (rule team_step.sync) simp
  with assms [of d i] have "team_step\<^sup>*\<^sup>* d (sync_admin e ?role email (mid i d))" by (rule rtranclp.rtrancl_into_rtrancl)
  with Cons.IH show ?case by (simp add: rtranclp_trans)
qed simp

text \<open>
  C29: an installation that has an owner keeps one. Whatever role changes, promotions, logins and
  invitations happen and in whatever order, at least one owner remains; the start-up promotion of
  listed addresses is such a run whatever happens between its statements; and a role changed on
  behalf of someone was changed on behalf of an owner.
\<close>

theorem an_owner_remains:
  assumes "team_step\<^sup>*\<^sup>* d d'" and "users_unique d" and "1 \<le> owners d"
  shows "1 \<le> owners d' \<and>
         ((\<forall>i x. team_step\<^sup>*\<^sup>* x (mid i x)) \<longrightarrow> 1 \<le> owners (SyncAdminEmails e mid emails d')) \<and>
         (\<forall>actor target role old d''. actor \<noteq> '''' \<and> SetRoleAtomic e actor target role d' = (Inr (old, True), d'') \<longrightarrow>
            (\<exists>u \<in> set (db_users d'). user_ID u = actor \<and> is_owner u) \<and> 1 \<le> owners d'')"
proof -
  have run: "1 \<le> owners x" if "team_step\<^sup>*\<^sup>* d x" for x
    using team.never_exceeded [OF that assms(2)] assms(3) by simp
  moreover have "1 \<le> owners (SyncAdminEmails e mid emails d')" if "\<forall>i x. team_step\<^sup>*\<^sup>* x (mid i x)"
    using run [OF rtranclp_trans [OF assms(1) sync_admins_steps]] run [OF assms(1)] that by (simp add: SyncAdminEmails_def)
  moreover have "\<exists>u \<in> set (db_users d'). user_ID u = actor \<and> is_owner u"
    if "actor \<noteq> ''''" "SetRoleAtomic e actor target role d' = (Inr (old, True), d'')" for actor target role old d''
    using that by (auto simp: SetRoleAtomic_def split: if_splits option.splits dest!: select_one_SomeD)
  moreover have "1 \<le> owners d''" if "SetRoleAtomic e actor target role d' = (Inr (old, True), d'')" for actor target role old d''
    using run [OF rtranclp.rtrancl_into_rtrancl [OF assms(1) team_step.set_role [OF that]]] .
  ultimately show ?thesis using assms(1) by blast
qed

definition team_db :: db where
  "team_db = demo_db\<lparr>db_users := [zero_User\<lparr>user_ID := ''A'', user_Role := ''owner''\<rparr>, zero_User\<lparr>user_ID := ''B'', user_Role := ''owner''\<rparr>]\<rparr>"

theorem an_owner_remains_witness:
  "\<exists>d1 d2. SetRoleAtomic demo_env ''A'' ''B'' ''user'' team_db = (Inr (''owner'', True), d1) \<and>
     SetRoleAtomic demo_env ''A'' ''A'' ''user'' d1 = (Inl ErrLastOwner, d2) \<and> 1 \<le> owners d2"
proof -
  let ?d1 = "team_db\<lparr>db_users := update_where (\<lambda>u. user_ID u = ''B'') (set_role demo_env ''user'') (db_users team_db)\<rparr>"
  have one: "SetRoleAtomic demo_env ''A'' ''B'' ''user'' team_db = (Inr (''owner'', True), ?d1)"
    by (simp add: SetRoleAtomic_def team_db_def select_one_def is_owner_def count_where_def zero_User_def)
  have two: "SetRoleAtomic demo_env ''A'' ''A'' ''user'' ?d1 = (Inl ErrLastOwner, ?d1)"
    by (simp add: SetRoleAtomic_def team_db_def select_one_def is_owner_def count_where_def zero_User_def update_where_def set_role_def)
  have "team_step\<^sup>*\<^sup>* team_db ?d1" using team_step.set_role [OF one] by blast
  moreover have "users_unique team_db" "1 \<le> owners team_db"
    by (simp_all add: users_unique_def owners_def count_where_def is_owner_def team_db_def zero_User_def)
  ultimately show ?thesis using an_owner_remains [of team_db ?d1] one two by auto
qed

end
