(* ===== verification/KG_Delivery.thy ===== *)
theory KG_Delivery
  imports KG_Runs KG_Store
begin

text \<open>
  Doing a thing once with several replicas running: the marks of events already handled
  (\<^verbatim>\<open>processed_events\<close>), the leases on reminders (\<^verbatim>\<open>notifications\<close>) and the mail queue they feed
  (\<^verbatim>\<open>email_queue\<close>), all of \<^verbatim>\<open>internal/store/store.go\<close>, with the queue processor of
  \<^verbatim>\<open>internal/service/email.go\<close>. Every statement, and every transaction, is one step; any number of
  processes take steps in any order. A statement's new identifier is \<^verbatim>\<open>env_newID e 0\<close>.
\<close>

section \<open>Events handled once\<close>

definition is_event :: "string \<Rightarrow> string \<Rightarrow> ProcessedEvent \<Rightarrow> bool" where
  "is_event provider eventID p \<longleftrightarrow> pe_Provider p = provider \<and> pe_EventID p = eventID"

definition HasProcessedEvent :: "string \<Rightarrow> string \<Rightarrow> db \<Rightarrow> bool result" where
  "HasProcessedEvent provider eventID d =
     (if db_fault d then Inl ErrDB else Inr (exists_where (is_event provider eventID) (db_processed_events d)))"

definition IsEventProcessed :: "string \<Rightarrow> string \<Rightarrow> db \<Rightarrow> bool" where
  "IsEventProcessed provider eventID d = (case HasProcessedEvent provider eventID d of Inr b \<Rightarrow> b | Inl _ \<Rightarrow> False)"

definition ClaimProcessedEvent :: "env \<Rightarrow> string \<Rightarrow> string \<Rightarrow> db \<Rightarrow> bool result \<times> db" where
  "ClaimProcessedEvent e provider eventID d =
     (if db_fault d then (Inl ErrDB, d)
      else if exists_where (is_event provider eventID) (db_processed_events d) then (Inr False, d)
      else if exists_where (\<lambda>p. pe_ID p = env_newID e 0) (db_processed_events d) then (Inl ErrDB, d)
      else (Inr (env_newID e 0 \<noteq> ''''),
            d\<lparr>db_processed_events := db_processed_events d @
               [\<lparr>pe_ID = env_newID e 0, pe_Provider = provider, pe_EventID = eventID, pe_CreatedAt = env_dbnow e\<rparr>]\<rparr>))"

definition TryRecordProcessedEvent :: "env \<Rightarrow> string \<Rightarrow> string \<Rightarrow> db \<Rightarrow> bool \<times> db" where
  "TryRecordProcessedEvent e provider eventID d =
     (case ClaimProcessedEvent e provider eventID d of (Inr b, d') \<Rightarrow> (b, d') | (Inl _, d') \<Rightarrow> (False, d'))"

definition DeleteProcessedEvent :: "string \<Rightarrow> string \<Rightarrow> db \<Rightarrow> unit result \<times> db" where
  "DeleteProcessedEvent provider eventID d =
     (if db_fault d then (Inl ErrDB, d)
      else (Inr (), d\<lparr>db_processed_events := delete_where (is_event provider eventID) (db_processed_events d)\<rparr>))"

definition CompleteProcessedEvent :: "string \<Rightarrow> string \<Rightarrow> db \<Rightarrow> unit result \<times> db" where
  "CompleteProcessedEvent claimProvider eventID d = DeleteProcessedEvent claimProvider eventID d"

text \<open>\<^verbatim>\<open>int(maxAge.Seconds())\<close>: whole seconds, towards zero.\<close>

definition whole_seconds :: "duration \<Rightarrow> duration" where
  "whole_seconds t = (if t \<ge> 0 then t div Second else - (- t div Second)) * Second"

definition ReleaseStaleProcessedEvent :: "env \<Rightarrow> string \<Rightarrow> string \<Rightarrow> duration \<Rightarrow> db \<Rightarrow> bool result \<times> db" where
  "ReleaseStaleProcessedEvent e provider eventID maxAge d =
     (let stale = (\<lambda>p. is_event provider eventID p \<and> pe_CreatedAt p < env_dbnow e - whole_seconds maxAge) in
      if db_fault d then (Inl ErrDB, d)
      else (Inr (exists_where stale (db_processed_events d)),
            d\<lparr>db_processed_events := delete_where stale (db_processed_events d)\<rparr>))"

section \<open>Reminders claimed before they are sent\<close>

definition is_reminder :: "string \<Rightarrow> string \<Rightarrow> Notification \<Rightarrow> bool" where
  "is_reminder licenseID tag n \<longleftrightarrow> nt_LicenseID n = licenseID \<and> nt_Tag n = tag"

definition HasNotification :: "string \<Rightarrow> string \<Rightarrow> db \<Rightarrow> bool" where
  "HasNotification licenseID tag d \<longleftrightarrow> \<not> db_fault d \<and> exists_where (is_reminder licenseID tag) (db_notifications d)"

text \<open>An insert of a row, refused when the licence is not there or the identifier is taken.\<close>

definition insert_notification :: "Notification \<Rightarrow> db \<Rightarrow> db result" where
  "insert_notification n d =
     (if \<not> exists_where (\<lambda>l. lic_ID l = nt_LicenseID n) (db_licenses d) \<or> exists_where (\<lambda>x. nt_ID x = nt_ID n) (db_notifications d)
      then Inl ErrDB else Inr (d\<lparr>db_notifications := db_notifications d @ [n]\<rparr>))"

definition TryRecordNotification :: "env \<Rightarrow> string \<Rightarrow> string \<Rightarrow> db \<Rightarrow> bool result \<times> db" where
  "TryRecordNotification e licenseID tag d =
     (if db_fault d then (Inl ErrDB, d)
      else if exists_where (is_reminder licenseID tag) (db_notifications d) then (Inr False, d)
      else case insert_notification \<lparr>nt_ID = env_newID e 0, nt_LicenseID = licenseID, nt_Tag = tag, nt_SentAt = Some (env_dbnow e), nt_ClaimedAt = None\<rparr> d of
        Inl err \<Rightarrow> (Inl err, d)
      | Inr d' \<Rightarrow> (Inr True, d'))"

definition RecordNotification :: "env \<Rightarrow> string \<Rightarrow> string \<Rightarrow> db \<Rightarrow> db" where
  "RecordNotification e licenseID tag d = snd (TryRecordNotification e licenseID tag d)"

definition TryRecordPastDueNotification :: "env \<Rightarrow> string \<Rightarrow> string \<Rightarrow> time \<Rightarrow> string \<Rightarrow> db \<Rightarrow> bool result \<times> db" where
  "TryRecordPastDueNotification e licenseID subscriptionID pastDueAt tag d =
     (if db_fault d then (Inl ErrDB, d)
      else if exists_where (\<lambda>l. lic_ID l = licenseID \<and> subscriptionID \<noteq> '''' \<and> lic_StripeSubscriptionID l = subscriptionID \<and>
                lic_Status l = StatusPastDue \<and> map_option unix_seconds (lic_PastDueAt l) = Some (unix_seconds pastDueAt)) (db_licenses d)
      then TryRecordNotification e licenseID tag d
      else (Inr False, d))"

definition notificationLease :: duration where
  "notificationLease = 10 * Minute"

definition lapsed_claim :: "env \<Rightarrow> Notification \<Rightarrow> bool" where
  "lapsed_claim e n \<longleftrightarrow> nt_SentAt n = None \<and> (case nt_ClaimedAt n of None \<Rightarrow> False | Some at \<Rightarrow> at < env_dbnow e - notificationLease)"

text \<open>The empty token: the lease was not won.\<close>

definition ClaimNotification :: "env \<Rightarrow> string \<Rightarrow> string \<Rightarrow> db \<Rightarrow> string result \<times> db" where
  "ClaimNotification e licenseID tag d =
     (let token = env_newID e 0 in
      if db_fault d then (Inl ErrDB, d)
      else case select_one (is_reminder licenseID tag) (db_notifications d) of
        None \<Rightarrow>
          (case insert_notification \<lparr>nt_ID = token, nt_LicenseID = licenseID, nt_Tag = tag, nt_SentAt = None, nt_ClaimedAt = Some (env_dbnow e)\<rparr> d of
             Inl err \<Rightarrow> (Inl err, d)
           | Inr d' \<Rightarrow> (Inr token, d'))
      | Some n \<Rightarrow>
          if \<not> lapsed_claim e n then (Inr '''', d)
          else if exists_where (\<lambda>x. nt_ID x = token) (db_notifications d) then (Inl ErrDB, d)
          else (Inr token, d\<lparr>db_notifications := update_where (is_reminder licenseID tag)
                  (\<lambda>x. x\<lparr>nt_ID := token, nt_ClaimedAt := Some (env_dbnow e)\<rparr>) (db_notifications d)\<rparr>))"

definition queued_mail :: "env \<Rightarrow> string \<Rightarrow> string \<Rightarrow> string \<Rightarrow> string \<Rightarrow> QueuedEmail" where
  "queued_mail e to subject body notificationID =
     \<lparr>qe_ID = env_newID e 0, qe_ToAddr = to, qe_Subject = subject, qe_Body = body, qe_Attempts = 0, qe_MaxAttempts = 5,
      qe_Status = ''pending'', qe_NextRetry = None, qe_Error = '''', qe_ClaimToken = '''', qe_CreatedAt = env_dbnow e,
      qe_SentAt = None, qe_NotificationID = notificationID\<rparr>"

definition insert_mail :: "QueuedEmail \<Rightarrow> db \<Rightarrow> db result" where
  "insert_mail m d =
     (if exists_where (\<lambda>x. qe_ID x = qe_ID m) (db_email_queue d) then Inl ErrDB
      else Inr (d\<lparr>db_email_queue := db_email_queue d @ [m]\<rparr>))"

definition EnqueueEmail :: "env \<Rightarrow> string \<Rightarrow> string \<Rightarrow> string \<Rightarrow> db \<Rightarrow> unit result \<times> db" where
  "EnqueueEmail e to subject body d =
     (if db_fault d then (Inl ErrDB, d)
      else case insert_mail (queued_mail e to subject body '''') d of Inl err \<Rightarrow> (Inl err, d) | Inr d' \<Rightarrow> (Inr (), d'))"

definition EnqueueEmailAndCloseNotification :: "env \<Rightarrow> string \<Rightarrow> string \<Rightarrow> string \<Rightarrow> string \<Rightarrow> db \<Rightarrow> unit result \<times> db" where
  "EnqueueEmailAndCloseNotification e to subject body token d =
     (let held = (\<lambda>n. nt_ID n = token \<and> nt_SentAt n = None) in
      if db_fault d then (Inl ErrDB, d)
      else case insert_mail (queued_mail e to subject body token) d of
        Inl err \<Rightarrow> (Inl err, d)
      | Inr d' \<Rightarrow>
          if \<not> exists_where held (db_notifications d) then (Inl ErrNotificationClaimLost, d)
          else (Inr (), d'\<lparr>db_notifications := update_where held (\<lambda>n. n\<lparr>nt_SentAt := Some (env_dbnow e)\<rparr>) (db_notifications d)\<rparr>))"

definition ReleaseNotification :: "string \<Rightarrow> db \<Rightarrow> unit result \<times> db" where
  "ReleaseNotification token d =
     (if db_fault d then (Inl ErrDB, d)
      else (Inr (), d\<lparr>db_notifications := delete_where (\<lambda>n. nt_ID n = token \<and> nt_SentAt n = None) (db_notifications d)\<rparr>))"

section \<open>The mail queue\<close>

definition emailClaimLease :: duration where
  "emailClaimLease = 10 * Minute"

definition mail_due :: "env \<Rightarrow> QueuedEmail \<Rightarrow> bool" where
  "mail_due e m \<longleftrightarrow> qe_Status m = ''pending'' \<and> (case qe_NextRetry m of None \<Rightarrow> True | Some t \<Rightarrow> t \<le> env_dbnow e)"

definition claim_mail :: "env \<Rightarrow> QueuedEmail \<Rightarrow> QueuedEmail" where
  "claim_mail e m = m\<lparr>qe_NextRetry := Some (env_dbnow e + emailClaimLease), qe_ClaimToken := env_newID e 0\<rparr>"

definition ClaimNextEmail :: "env \<Rightarrow> db \<Rightarrow> QueuedEmail option result \<times> db" where
  "ClaimNextEmail e d =
     (if db_fault d then (Inl ErrDB, d)
      else case first_by qe_CreatedAt (filter (mail_due e) (db_email_queue d)) of
        None \<Rightarrow> (Inr None, d)
      | Some m \<Rightarrow> (Inr (Some (claim_mail e m)),
                   d\<lparr>db_email_queue := update_where (\<lambda>x. qe_ID x = qe_ID m) (claim_mail e) (db_email_queue d)\<rparr>))"

definition held_mail :: "string \<Rightarrow> string \<Rightarrow> QueuedEmail \<Rightarrow> bool" where
  "held_mail mid token m \<longleftrightarrow> qe_ID m = mid \<and> qe_ClaimToken m = token"

definition mark_mail :: "string \<Rightarrow> string \<Rightarrow> (QueuedEmail \<Rightarrow> QueuedEmail) \<Rightarrow> db \<Rightarrow> db" where
  "mark_mail mid token f d =
     (if db_fault d then d else d\<lparr>db_email_queue := update_where (held_mail mid token) f (db_email_queue d)\<rparr>)"

definition MarkEmailSent :: "env \<Rightarrow> string \<Rightarrow> string \<Rightarrow> db \<Rightarrow> db" where
  "MarkEmailSent e mid token d =
     mark_mail mid token (\<lambda>m. m\<lparr>qe_Status := ''sent'', qe_SentAt := Some (env_dbnow e), qe_Attempts := qe_Attempts m + 1, qe_Body := ''''\<rparr>) d"

definition MarkEmailDeferred :: "env \<Rightarrow> string \<Rightarrow> string \<Rightarrow> string \<Rightarrow> db \<Rightarrow> db" where
  "MarkEmailDeferred e mid token errMsg d =
     mark_mail mid token (\<lambda>m. m\<lparr>qe_Error := errMsg, qe_Status := ''pending'', qe_NextRetry := Some (env_dbnow e + 10 * Minute), qe_ClaimToken := ''''\<rparr>) d"

definition fail_mail :: "env \<Rightarrow> string \<Rightarrow> QueuedEmail \<Rightarrow> QueuedEmail" where
  "fail_mail e errMsg m =
     (let give_up = qe_Attempts m + 1 \<ge> qe_MaxAttempts m in
      m\<lparr>qe_Attempts := qe_Attempts m + 1, qe_Error := errMsg,
        qe_Status := (if give_up then ''failed'' else ''pending''),
        qe_NextRetry := (if give_up then None else Some (env_dbnow e + Minute * 2 ^ nat (qe_Attempts m))),
        qe_ClaimToken := '''', qe_Body := (if give_up then '''' else qe_Body m)\<rparr>)"

definition MarkEmailFailed :: "env \<Rightarrow> string \<Rightarrow> string \<Rightarrow> string \<Rightarrow> db \<Rightarrow> db" where
  "MarkEmailFailed e mid token errMsg d =
     (if db_fault d then d
      else case select_one (held_mail mid token) (db_email_queue d) of
        None \<Rightarrow> d
      | Some m \<Rightarrow>
          let d' = mark_mail mid token (fail_mail e errMsg) d in
          if qe_Status (fail_mail e errMsg m) \<noteq> ''failed'' \<or> qe_NotificationID m = '''' then d'
          else d'\<lparr>db_notifications := update_where (\<lambda>n. nt_ID n = qe_NotificationID m)
                  (\<lambda>n. n\<lparr>nt_SentAt := None, nt_ClaimedAt := Some 0\<rparr>) (db_notifications d')\<rparr>)"

definition MarkEmailFailedPermanent :: "env \<Rightarrow> string \<Rightarrow> string \<Rightarrow> string \<Rightarrow> db \<Rightarrow> db" where
  "MarkEmailFailedPermanent e mid token errMsg d =
     mark_mail mid token (\<lambda>m. m\<lparr>qe_Attempts := qe_Attempts m + 1, qe_Error := errMsg, qe_Status := ''failed'', qe_NextRetry := None,
       qe_ClaimToken := '''', qe_Body := ''''\<rparr>) d"

text \<open>How a send ends: sent, or an error that is permanent, worth a retry, or the operator's to fix.\<close>

datatype send_result = Delivered | Permanent string | Retryable string | Misconfigured string

definition report_send :: "env \<Rightarrow> QueuedEmail \<Rightarrow> send_result \<Rightarrow> db \<Rightarrow> db" where
  "report_send e m r d =
     (case r of
        Delivered \<Rightarrow> MarkEmailSent e (qe_ID m) (qe_ClaimToken m) d
      | Permanent msg \<Rightarrow> MarkEmailFailedPermanent e (qe_ID m) (qe_ClaimToken m) msg d
      | Retryable msg \<Rightarrow> MarkEmailFailed e (qe_ID m) (qe_ClaimToken m) msg d
      | Misconfigured msg \<Rightarrow> MarkEmailDeferred e (qe_ID m) (qe_ClaimToken m) msg d)"

text \<open>
  One pass of the processor, with \<open>send\<close> what the mail server answers and \<open>mid\<close> what other
  processes do while a mail is being sent; the environment is read anew for every mail (\<open>env_at\<close>).
  \<open>configured\<close>: the mail settings could be read and name a provider.
\<close>

definition emailQueueBatch :: nat where
  "emailQueueBatch = 20"

fun queue_pass :: "(nat \<Rightarrow> env) \<Rightarrow> (nat \<Rightarrow> db \<Rightarrow> db) \<Rightarrow> (string \<Rightarrow> string \<Rightarrow> string \<Rightarrow> send_result) \<Rightarrow> nat \<Rightarrow> db \<Rightarrow> db" where
  "queue_pass env_at mid send 0 d = d"
| "queue_pass env_at mid send (Suc n) d =
     (case ClaimNextEmail (env_at (2 * n)) d of
        (Inr (Some m), d1) \<Rightarrow>
          queue_pass env_at mid send n
            (report_send (env_at (2 * n + 1)) m (send (qe_ToAddr m) (qe_Subject m) (qe_Body m)) (mid n d1))
      | (_, d1) \<Rightarrow> d1)"

definition processQueue :: "bool \<Rightarrow> (nat \<Rightarrow> env) \<Rightarrow> (nat \<Rightarrow> db \<Rightarrow> db) \<Rightarrow> (string \<Rightarrow> string \<Rightarrow> string \<Rightarrow> send_result) \<Rightarrow> db \<Rightarrow> db" where
  "processQueue configured env_at mid send d = (if configured then queue_pass env_at mid send emailQueueBatch d else d)"

section \<open>One mail per reminder\<close>

text \<open>
  The state of a run: the database and, for the statement only, which reminder each claim token was
  issued for. New identifiers are new: a claim's token was not issued before.
\<close>

type_synonym issued = "(string \<times> string \<times> string) list"

definition live_mail :: "QueuedEmail \<Rightarrow> bool" where
  "live_mail m \<longleftrightarrow> qe_Status m \<noteq> ''failed''"

inductive delivery_step :: "db \<times> issued \<Rightarrow> db \<times> issued \<Rightarrow> bool" where
  claim: "ClaimNotification e l g d = (Inr t, d') \<Longrightarrow> t \<noteq> '''' \<Longrightarrow> t \<notin> fst ` set tok \<Longrightarrow> delivery_step (d, tok) (d', (t, l, g) # tok)"
| no_claim: "ClaimNotification e l g d = (Inr '''', d') \<Longrightarrow> env_newID e 0 \<noteq> '''' \<Longrightarrow> delivery_step (d, tok) (d', tok)"
| close: "EnqueueEmailAndCloseNotification e to subject body t d = (r, d') \<Longrightarrow> delivery_step (d, tok) (d', tok)"
| release: "ReleaseNotification t d = (r, d') \<Longrightarrow> delivery_step (d, tok) (d', tok)"
| recorded: "TryRecordNotification e l g d = (r', d') \<Longrightarrow> env_newID e 0 \<notin> fst ` set tok \<Longrightarrow> delivery_step (d, tok) (d', tok)"
| plain: "EnqueueEmail e to subject body d = (r, d') \<Longrightarrow> delivery_step (d, tok) (d', tok)"
| take_mail: "ClaimNextEmail e d = (r'', d') \<Longrightarrow> delivery_step (d, tok) (d', tok)"
| report: "qe_ClaimToken m \<noteq> '''' \<Longrightarrow> delivery_step (d, tok) (report_send e m res d, tok)"

definition notes_unique :: "Notification list \<Rightarrow> bool" where
  "notes_unique N \<longleftrightarrow> distinct (map nt_ID N) \<and> distinct (map (\<lambda>n. (nt_LicenseID n, nt_Tag n)) N)"

text \<open>A token names the reminder it was issued for, and every open claim has a token.\<close>

definition tokens_ok :: "issued \<Rightarrow> Notification list \<Rightarrow> bool" where
  "tokens_ok tok N \<longleftrightarrow> distinct (map fst tok) \<and>
     (\<forall>(t, l, g) \<in> set tok. \<forall>n \<in> set N. nt_ID n = t \<longrightarrow> is_reminder l g n) \<and>
     (\<forall>n \<in> set N. nt_SentAt n = None \<longrightarrow> nt_ID n \<in> fst ` set tok)"

text \<open>A mail not given up on has a closed claim of its own behind it, one a failed mail left nobody holds.\<close>

definition backed :: "Notification list \<Rightarrow> QueuedEmail list \<Rightarrow> bool" where
  "backed N Q \<longleftrightarrow> (\<forall>m \<in> set Q. live_mail m \<and> qe_NotificationID m \<noteq> '''' \<longrightarrow>
     (\<exists>n \<in> set N. nt_ID n = qe_NotificationID m \<and> nt_SentAt n \<noteq> None))"

definition single :: "QueuedEmail list \<Rightarrow> bool" where
  "single Q \<longleftrightarrow> distinct (map qe_ID Q) \<and>
     (\<forall>m1 \<in> set Q. \<forall>m2 \<in> set Q. live_mail m1 \<and> live_mail m2 \<and> qe_NotificationID m1 = qe_NotificationID m2 \<and>
        qe_NotificationID m1 \<noteq> '''' \<longrightarrow> qe_ID m1 = qe_ID m2) \<and>
     (\<forall>m \<in> set Q. \<not> live_mail m \<longrightarrow> qe_ClaimToken m = '''')"

definition named :: "issued \<Rightarrow> QueuedEmail list \<Rightarrow> bool" where
  "named tok Q \<longleftrightarrow> (\<forall>m \<in> set Q. qe_NotificationID m \<noteq> '''' \<longrightarrow> qe_NotificationID m \<in> fst ` set tok)"

definition delivery_inv :: "db \<times> issued \<Rightarrow> bool" where
  "delivery_inv = (\<lambda>(d, tok). notes_unique (db_notifications d) \<and> tokens_ok tok (db_notifications d) \<and>
     backed (db_notifications d) (db_email_queue d) \<and> single (db_email_queue d) \<and> named tok (db_email_queue d))"

subsection \<open>Steps on the reminders\<close>

lemma insert_notification_InrD:
  "insert_notification n d = Inr d' \<Longrightarrow> db_notifications d' = db_notifications d @ [n] \<and> db_email_queue d' = db_email_queue d \<and>
     (\<forall>x \<in> set (db_notifications d). nt_ID x \<noteq> nt_ID n)"
  by (auto simp: insert_notification_def split: if_splits)

lemma notes_unique_snoc:
  assumes "notes_unique N" and "\<forall>x \<in> set N. nt_ID x \<noteq> nt_ID n" and "\<not> exists_where (is_reminder (nt_LicenseID n) (nt_Tag n)) N"
  shows "notes_unique (N @ [n])"
  using assms by (auto simp: notes_unique_def is_reminder_def)

lemma tokens_ok_snoc:
  assumes "tokens_ok tok N" and "nt_ID n \<notin> fst ` set tok"
  shows "tokens_ok ((nt_ID n, nt_LicenseID n, nt_Tag n) # tok) (N @ [n]) \<or> (\<exists>x \<in> set N. nt_ID x = nt_ID n)"
    and "nt_SentAt n \<noteq> None \<Longrightarrow> tokens_ok tok (N @ [n])"
  using assms by (auto simp: tokens_ok_def is_reminder_def rev_image_eqI)

lemma backed_more: "backed N Q \<Longrightarrow> set N \<subseteq> set N' \<Longrightarrow> backed N' Q"
  by (fastforce simp: backed_def)

lemma claim_inv:
  assumes "ClaimNotification e l g d = (Inr t, d')" and "t \<noteq> ''''" and "t \<notin> fst ` set tok" and "delivery_inv (d, tok)"
  shows "delivery_inv (d', (t, l, g) # tok)"
proof -
  let ?N = "db_notifications d" and ?Q = "db_email_queue d"
  have inv: "notes_unique ?N" "tokens_ok tok ?N" "backed ?N ?Q" "single ?Q" "named ((t, l, g) # tok) ?Q"
    using assms(4) by (auto simp: delivery_inv_def named_def)
  show ?thesis
  proof (cases "select_one (is_reminder l g) ?N")
    case None
    let ?n = "\<lparr>nt_ID = t, nt_LicenseID = l, nt_Tag = g, nt_SentAt = None, nt_ClaimedAt = Some (env_dbnow e)\<rparr>"
    have ins: "insert_notification ?n d = Inr d'"
      using assms(1) None by (auto simp: ClaimNotification_def Let_def split: if_splits sum.splits)
    note i = insert_notification_InrD [OF ins]
    have "notes_unique (db_notifications d')" "tokens_ok ((t, l, g) # tok) (db_notifications d')" "backed (db_notifications d') ?Q"
      using notes_unique_snoc [OF inv(1), of ?n] tokens_ok_snoc(1) [OF inv(2), of ?n] assms(3) i None backed_more [OF inv(3), of "db_notifications d'"]
      by (auto simp: select_one_None_iff)
    with inv(4,5) i show ?thesis by (simp add: delivery_inv_def)
  next
    case (Some n)
    note n = select_one_SomeD [OF Some]
    have d': "db_notifications d' = update_where (is_reminder l g) (\<lambda>x. x\<lparr>nt_ID := t, nt_ClaimedAt := Some (env_dbnow e)\<rparr>) ?N"
      and fresh: "\<forall>x \<in> set ?N. nt_ID x \<noteq> t" and lapsed: "nt_SentAt n = None" and q: "db_email_queue d' = ?Q"
      using assms(1,2) Some by (auto simp: ClaimNotification_def Let_def lapsed_claim_def split: if_splits)
    have one: "x = n" if "x \<in> set ?N" "is_reminder l g x" for x
      using inv(1) that n unique_column [of "\<lambda>n. (nt_LicenseID n, nt_Tag n)" ?N x n] by (auto simp: notes_unique_def is_reminder_def)
    have "map (\<lambda>n. (nt_LicenseID n, nt_Tag n)) (db_notifications d') = map (\<lambda>n. (nt_LicenseID n, nt_Tag n)) ?N"
      unfolding d' by (rule map_update_where) simp
    moreover have "distinct (map nt_ID (db_notifications d'))"
      unfolding d' using inv(1) n one fresh by (intro distinct_map_update) (auto simp: notes_unique_def)
    ultimately have "notes_unique (db_notifications d')" using inv(1) by (simp add: notes_unique_def)
    moreover have "tokens_ok ((t, l, g) # tok) (db_notifications d')"
    proof -
      have "t' \<noteq> t" if "(t', x) \<in> set tok" for t' x using assms(3) that by force
      then show ?thesis
        using inv(2) assms(3) fresh unfolding d' by (fastforce simp: tokens_ok_def ball_update_where is_reminder_def)
    qed
    moreover have "backed (db_notifications d') ?Q"
      unfolding backed_def
    proof (intro ballI impI)
      fix m
      assume "m \<in> set ?Q" "live_mail m \<and> qe_NotificationID m \<noteq> ''''"
      then obtain x where x: "x \<in> set ?N" "nt_ID x = qe_NotificationID m" "nt_SentAt x \<noteq> None" using inv(3) by (auto simp: backed_def)
      then have "\<not> is_reminder l g x" using one lapsed by auto
      then show "\<exists>n \<in> set (db_notifications d'). nt_ID n = qe_NotificationID m \<and> nt_SentAt n \<noteq> None"
        unfolding d' set_update_where using x by force
    qed
    ultimately show ?thesis using inv(4,5) q by (simp add: delivery_inv_def)
  qed
qed

lemma delivery_invD:
  assumes "delivery_inv (d, tok)"
  shows "notes_unique (db_notifications d)" "tokens_ok tok (db_notifications d)" "backed (db_notifications d) (db_email_queue d)"
    "single (db_email_queue d)" "named tok (db_email_queue d)"
  using assms by (simp_all add: delivery_inv_def)

lemma release_inv:
  assumes "ReleaseNotification t d = (r, d')" and "delivery_inv (d, tok)"
  shows "delivery_inv (d', tok)"
proof -
  note inv = delivery_invD [OF assms(2)]
  let ?N = "delete_where (\<lambda>n. nt_ID n = t \<and> nt_SentAt n = None) (db_notifications d)"
  have "notes_unique ?N" using inv(1) by (simp add: notes_unique_def distinct_map_delete_where)
  moreover have "tokens_ok tok ?N" using inv(2) by (auto simp: tokens_ok_def)
  moreover have "backed ?N (db_email_queue d)" using inv(3) by (fastforce simp: backed_def)
  ultimately show ?thesis
    using assms inv by (auto simp: ReleaseNotification_def delivery_inv_def split: if_splits)
qed

lemma record_inv:
  assumes "TryRecordNotification e l g d = (r, d')" and "env_newID e 0 \<notin> fst ` set tok" and "delivery_inv (d, tok)"
  shows "delivery_inv (d', tok)"
proof (cases "d' = d")
  case False
  let ?n = "\<lparr>nt_ID = env_newID e 0, nt_LicenseID = l, nt_Tag = g, nt_SentAt = Some (env_dbnow e), nt_ClaimedAt = None\<rparr>"
  note inv = delivery_invD [OF assms(3)]
  have ins: "insert_notification ?n d = Inr d'" and none: "\<not> exists_where (is_reminder l g) (db_notifications d)"
    using assms(1) False by (auto simp: TryRecordNotification_def split: if_splits sum.splits)
  note i = insert_notification_InrD [OF ins]
  show ?thesis
    using notes_unique_snoc [OF inv(1), of ?n] tokens_ok_snoc(2) [OF inv(2), of ?n] assms(2) i none
      backed_more [OF inv(3), of "db_notifications d'"] inv(4,5)
    by (auto simp: delivery_inv_def)
qed (use assms in simp)

subsection \<open>Steps on the mails\<close>

lemma single_distinct: "single Q \<Longrightarrow> distinct (map qe_ID Q)"
  and single_closed: "single Q \<Longrightarrow> m \<in> set Q \<Longrightarrow> \<not> live_mail m \<Longrightarrow> qe_ClaimToken m = ''''"
  and singleD: "single Q \<Longrightarrow> m1 \<in> set Q \<Longrightarrow> m2 \<in> set Q \<Longrightarrow> live_mail m1 \<Longrightarrow> live_mail m2 \<Longrightarrow>
     qe_NotificationID m1 = qe_NotificationID m2 \<Longrightarrow> qe_NotificationID m1 \<noteq> '''' \<Longrightarrow> qe_ID m1 = qe_ID m2"
  unfolding single_def by blast+

lemma singleI:
  assumes "distinct (map qe_ID Q)"
    and "\<And>m1 m2. m1 \<in> set Q \<Longrightarrow> m2 \<in> set Q \<Longrightarrow> live_mail m1 \<Longrightarrow> live_mail m2 \<Longrightarrow>
       qe_NotificationID m1 = qe_NotificationID m2 \<Longrightarrow> qe_NotificationID m1 \<noteq> '''' \<Longrightarrow> qe_ID m1 = qe_ID m2"
    and "\<And>m. m \<in> set Q \<Longrightarrow> \<not> live_mail m \<Longrightarrow> qe_ClaimToken m = ''''"
  shows "single Q"
  using assms unfolding single_def by blast

lemma queue_update_inv:
  assumes "single Q" and "backed N Q"
    and keeps: "\<And>m. qe_ID (f m) = qe_ID m" "\<And>m. qe_NotificationID (f m) = qe_NotificationID m"
    and live: "\<And>m. m \<in> set Q \<Longrightarrow> P m \<Longrightarrow> live_mail m \<and> (live_mail (f m) \<or> qe_ClaimToken (f m) = '''')"
  shows "single (update_where P f Q)" and "backed N (update_where P f Q)"
proof -
  have old: "\<exists>m0 \<in> set Q. qe_ID m0 = qe_ID m \<and> qe_NotificationID m0 = qe_NotificationID m \<and> (live_mail m \<longrightarrow> live_mail m0) \<and>
      (\<not> live_mail m \<longrightarrow> qe_ClaimToken m = '''')" if "m \<in> set (update_where P f Q)" for m
  proof -
    from that obtain x where x: "x \<in> set Q" "m = (if P x then f x else x)" by (auto simp: set_update_where)
    have "\<not> live_mail x \<longrightarrow> qe_ClaimToken x = ''''" using single_closed [OF assms(1) x(1)] by blast
    with x keeps live [OF x(1)] show ?thesis by (intro bexI [OF _ x(1)]) (cases "P x"; auto)
  qed
  show "single (update_where P f Q)"
  proof (rule singleI)
    show "distinct (map qe_ID (update_where P f Q))" using single_distinct [OF assms(1)] keeps by (simp add: map_update_where)
  next
    fix m1 m2
    assume m: "m1 \<in> set (update_where P f Q)" "m2 \<in> set (update_where P f Q)" "live_mail m1" "live_mail m2"
      "qe_NotificationID m1 = qe_NotificationID m2" "qe_NotificationID m1 \<noteq> ''''"
    from old [OF m(1)] old [OF m(2)] m(3,4) obtain x1 x2 where x: "x1 \<in> set Q" "x2 \<in> set Q" "live_mail x1" "live_mail x2"
      "qe_ID x1 = qe_ID m1" "qe_ID x2 = qe_ID m2" "qe_NotificationID x1 = qe_NotificationID m1" "qe_NotificationID x2 = qe_NotificationID m2"
      by blast
    show "qe_ID m1 = qe_ID m2" using singleD [OF assms(1) x(1-4)] x(5-8) m(5,6) by metis
  next
    fix m
    assume "m \<in> set (update_where P f Q)" "\<not> live_mail m"
    then show "qe_ClaimToken m = ''''" using old by blast
  qed
  show "backed N (update_where P f Q)"
    unfolding backed_def using old assms(2) [unfolded backed_def] by metis
qed

lemma named_update: "named tok Q \<Longrightarrow> (\<And>m. qe_NotificationID (f m) = qe_NotificationID m) \<Longrightarrow> named tok (update_where P f Q)"
  by (auto simp: named_def set_update_where)

lemma mark_mail_inv:
  assumes "delivery_inv (d, tok)" and "token \<noteq> ''''"
    and "\<And>m. qe_ID (f m) = qe_ID m" "\<And>m. qe_NotificationID (f m) = qe_NotificationID m"
    and "\<And>m. live_mail (f m) \<or> qe_ClaimToken (f m) = ''''"
  shows "delivery_inv (mark_mail mid token f d, tok)"
proof (cases "db_fault d")
  case False
  note inv = delivery_invD [OF assms(1)]
  have "live_mail m \<and> (live_mail (f m) \<or> qe_ClaimToken (f m) = '''')" if "m \<in> set (db_email_queue d)" "held_mail mid token m" for m
    using single_closed [OF inv(4) that(1)] that(2) assms(2,5) by (auto simp: held_mail_def)
  note q = queue_update_inv [OF inv(4,3) assms(3,4) this]
  show ?thesis using inv q named_update [OF inv(5) assms(4)] False by (simp add: delivery_inv_def mark_mail_def)
qed (use assms in \<open>simp add: mark_mail_def\<close>)

lemma take_mail_inv:
  assumes "ClaimNextEmail e d = (r, d')" and "delivery_inv (d, tok)"
  shows "delivery_inv (d', tok)"
proof (cases "d' = d")
  case False
  note inv = delivery_invD [OF assms(2)]
  from assms(1) False obtain m where m: "first_by qe_CreatedAt (filter (mail_due e) (db_email_queue d)) = Some m"
    and d': "d' = d\<lparr>db_email_queue := update_where (\<lambda>x. qe_ID x = qe_ID m) (claim_mail e) (db_email_queue d)\<rparr>"
    by (auto simp: ClaimNextEmail_def split: if_splits option.splits)
  from first_by_SomeD [OF m] have mm: "m \<in> set (db_email_queue d)" "qe_Status m = ''pending''" by (auto simp: mail_due_def)
  have one: "x = m" if "x \<in> set (db_email_queue d)" "qe_ID x = qe_ID m" for x
    using unique_column [OF single_distinct [OF inv(4)] that(1) mm(1) that(2)] .
  have "live_mail x \<and> (live_mail (claim_mail e x) \<or> qe_ClaimToken (claim_mail e x) = '''')"
    if "x \<in> set (db_email_queue d)" "qe_ID x = qe_ID m" for x
    using one [OF that] mm(2) by (simp add: live_mail_def claim_mail_def)
  note live = this
  have keeps: "qe_ID (claim_mail e x) = qe_ID x" "qe_NotificationID (claim_mail e x) = qe_NotificationID x" for x by (simp_all add: claim_mail_def)
  note q = queue_update_inv [OF inv(4,3) keeps live] named_update [OF inv(5) keeps(2)]
  show ?thesis unfolding d' delivery_inv_def using inv(1,2) q by simp
qed (use assms in simp)

lemma single_snoc:
  assumes "single Q" and "\<forall>x \<in> set Q. qe_ID x \<noteq> qe_ID m" and "live_mail m"
    and "qe_NotificationID m = '''' \<or> (\<forall>x \<in> set Q. live_mail x \<longrightarrow> qe_NotificationID x \<noteq> qe_NotificationID m)"
  shows "single (Q @ [m])"
proof -
  show ?thesis
  proof (rule singleI)
    show "distinct (map qe_ID (Q @ [m]))" using single_distinct [OF assms(1)] assms(2) by auto
  next
    fix m1 m2
    assume m: "m1 \<in> set (Q @ [m])" "m2 \<in> set (Q @ [m])" "live_mail m1" "live_mail m2"
      "qe_NotificationID m1 = qe_NotificationID m2" "qe_NotificationID m1 \<noteq> ''''"
    consider "m1 \<in> set Q" "m2 \<in> set Q" | "m1 = m" "m2 = m" | "m1 = m" "m2 \<in> set Q" | "m2 = m" "m1 \<in> set Q"
      using m(1,2) by auto
    then show "qe_ID m1 = qe_ID m2"
    proof cases
      case 1
      then show ?thesis using singleD [OF assms(1)] m by blast
    qed (use m assms(4) in auto)
  next
    fix x
    assume "x \<in> set (Q @ [m])" "\<not> live_mail x"
    then show "qe_ClaimToken x = ''''" using assms(3) single_closed [OF assms(1)] by auto
  qed
qed

lemma enqueue_inv:
  assumes "insert_mail (queued_mail e to subject body t) d = Inr d'" and "delivery_inv (d, tok)"
    and "t = '''' \<or> (t \<in> fst ` set tok \<and> (\<forall>m \<in> set (db_email_queue d). live_mail m \<longrightarrow> qe_NotificationID m \<noteq> t))"
  shows "single (db_email_queue d')" "named tok (db_email_queue d')"
    "db_email_queue d' = db_email_queue d @ [queued_mail e to subject body t]" "db_notifications d' = db_notifications d"
proof -
  note inv = delivery_invD [OF assms(2)]
  show q: "db_email_queue d' = db_email_queue d @ [queued_mail e to subject body t]" "db_notifications d' = db_notifications d"
    using assms(1) by (auto simp: insert_mail_def split: if_splits)
  have new: "\<forall>x \<in> set (db_email_queue d). qe_ID x \<noteq> qe_ID (queued_mail e to subject body t)"
    using assms(1) by (auto simp: insert_mail_def split: if_splits)
  have mail: "live_mail (queued_mail e to subject body t)" "qe_NotificationID (queued_mail e to subject body t) = t"
    by (simp_all add: live_mail_def queued_mail_def)
  show "single (db_email_queue d')"
    unfolding q by (rule single_snoc [OF inv(4) new mail(1)]) (use assms(3) mail(2) in auto)
  show "named tok (db_email_queue d')" using inv(5) assms(3) unfolding q by (auto simp: named_def queued_mail_def)
qed

lemma plain_inv:
  assumes "EnqueueEmail e to subject body d = (r, d')" and "delivery_inv (d, tok)"
  shows "delivery_inv (d', tok)"
proof (cases "d' = d")
  case False
  then have ins: "insert_mail (queued_mail e to subject body '''') d = Inr d'"
    using assms(1) by (auto simp: EnqueueEmail_def split: if_splits sum.splits)
  note q = enqueue_inv [OF ins assms(2) disjI1 [OF refl]]
  have "backed (db_notifications d') (db_email_queue d')"
    using delivery_invD(3) [OF assms(2)] unfolding q backed_def by (auto simp: queued_mail_def)
  with q delivery_invD [OF assms(2)] show ?thesis by (simp add: delivery_inv_def)
qed (use assms in simp)

lemma close_inv:
  assumes "EnqueueEmailAndCloseNotification e to subject body t d = (r, d')" and "delivery_inv (d, tok)"
  shows "delivery_inv (d', tok)"
proof (cases "d' = d")
  case False
  note inv = delivery_invD [OF assms(2)]
  let ?held = "\<lambda>n. nt_ID n = t \<and> nt_SentAt n = None" and ?sent = "\<lambda>n. n\<lparr>nt_SentAt := Some (env_dbnow e)\<rparr>"
  from False assms(1) obtain d1 where ins: "insert_mail (queued_mail e to subject body t) d = Inr d1"
    and n: "\<exists>n \<in> set (db_notifications d). ?held n"
    and d': "d' = d1\<lparr>db_notifications := update_where ?held ?sent (db_notifications d)\<rparr>"
    by (auto simp: EnqueueEmailAndCloseNotification_def Let_def split: if_splits sum.splits)
  have one: "x = y" if "x \<in> set (db_notifications d)" "y \<in> set (db_notifications d)" "nt_ID x = nt_ID y" for x y
    using inv(1) that unique_column [of nt_ID "db_notifications d" x y] by (auto simp: notes_unique_def)
  have t: "t \<in> fst ` set tok" using n inv(2) by (auto simp: tokens_ok_def)
  have none: "qe_NotificationID m \<noteq> t" if m: "m \<in> set (db_email_queue d)" "live_mail m" "t \<noteq> ''''" for m
  proof
    assume "qe_NotificationID m = t"
    then obtain x where x: "x \<in> set (db_notifications d)" "nt_ID x = t" "nt_SentAt x \<noteq> None"
      using inv(3) [unfolded backed_def, rule_format, OF m(1)] m(2,3) by auto
    from n obtain y where "y \<in> set (db_notifications d)" "nt_ID y = t" "nt_SentAt y = None" by blast
    with x one [of x y] show False by simp
  qed
  have "t = '''' \<or> (t \<in> fst ` set tok \<and> (\<forall>m \<in> set (db_email_queue d). live_mail m \<longrightarrow> qe_NotificationID m \<noteq> t))"
    using t none by blast
  note q = enqueue_inv [OF ins assms(2) this]
  have "notes_unique (db_notifications d')" using inv(1) by (simp add: d' notes_unique_def map_update_where)
  moreover have "tokens_ok tok (db_notifications d')"
    using inv(2) unfolding d' by (auto simp: tokens_ok_def ball_update_where is_reminder_def)
  moreover have "backed (db_notifications d') (db_email_queue d')"
  proof -
    have keep: "\<exists>y \<in> set (db_notifications d'). nt_ID y = nt_ID x \<and> nt_SentAt y \<noteq> None"
      if "x \<in> set (db_notifications d)" "nt_SentAt x \<noteq> None \<or> ?held x" for x
    proof -
      have "(if ?held x then ?sent x else x) \<in> set (db_notifications d')" using that(1) by (simp add: d' set_update_where)
      then show ?thesis using that(2) by (rule_tac bexI) auto
    qed
    show ?thesis
      unfolding backed_def
    proof (intro ballI impI)
      fix m
      assume m: "m \<in> set (db_email_queue d')" "live_mail m \<and> qe_NotificationID m \<noteq> ''''"
      show "\<exists>n \<in> set (db_notifications d'). nt_ID n = qe_NotificationID m \<and> nt_SentAt n \<noteq> None"
      proof (cases "m \<in> set (db_email_queue d)")
        case True
        then obtain x where "x \<in> set (db_notifications d)" "nt_ID x = qe_NotificationID m" "nt_SentAt x \<noteq> None"
          using inv(3) m by (auto simp: backed_def)
        with keep show ?thesis by metis
      next
        case False
        then have "qe_NotificationID m = t" using m(1) q(3) by (simp add: d' queued_mail_def)
        with keep n show ?thesis by metis
      qed
    qed
  qed
  ultimately show ?thesis using q by (simp add: d' delivery_inv_def)
qed (use assms in simp)

lemma fail_mail_keeps [simp]:
  "qe_ID (fail_mail e msg m) = qe_ID m" "qe_NotificationID (fail_mail e msg m) = qe_NotificationID m"
  "live_mail (fail_mail e msg m) \<or> qe_ClaimToken (fail_mail e msg m) = ''''"
  by (simp_all add: fail_mail_def Let_def)

text \<open>A mail given up on opens its reminder again: no other mail of it is under way.\<close>

lemma reopen_inv:
  assumes "delivery_inv (d, tok)" and "t \<in> fst ` set tok" and "\<forall>m \<in> set (db_email_queue d). live_mail m \<longrightarrow> qe_NotificationID m \<noteq> t"
  shows "delivery_inv (d\<lparr>db_notifications := update_where (\<lambda>n. nt_ID n = t) (\<lambda>n. n\<lparr>nt_SentAt := None, nt_ClaimedAt := Some 0\<rparr>) (db_notifications d)\<rparr>, tok)"
proof -
  note inv = delivery_invD [OF assms(1)]
  let ?f = "\<lambda>n. n\<lparr>nt_SentAt := None, nt_ClaimedAt := Some 0\<rparr>"
  let ?N = "update_where (\<lambda>n. nt_ID n = t) ?f (db_notifications d)"
  have "notes_unique ?N" using inv(1) by (simp add: notes_unique_def map_update_where)
  moreover have "tokens_ok tok ?N"
    using inv(2) assms(2) by (auto simp: tokens_ok_def ball_update_where is_reminder_def)
  moreover have "backed ?N (db_email_queue d)"
    unfolding backed_def
  proof (intro ballI impI)
    fix m
    assume m: "m \<in> set (db_email_queue d)" "live_mail m \<and> qe_NotificationID m \<noteq> ''''"
    then obtain x where x: "x \<in> set (db_notifications d)" "nt_ID x = qe_NotificationID m" "nt_SentAt x \<noteq> None"
      using inv(3) [unfolded backed_def, rule_format, OF m(1)] by auto
    have "nt_ID x \<noteq> t" using assms(3) m x(2) by auto
    then have "x \<in> set ?N" using x(1) by (force simp: set_update_where)
    with x show "\<exists>n \<in> set ?N. nt_ID n = qe_NotificationID m \<and> nt_SentAt n \<noteq> None" by blast
  qed
  ultimately show ?thesis using inv(4,5) by (simp add: delivery_inv_def)
qed

lemma failed_inv:
  assumes "delivery_inv (d, tok)" and "token \<noteq> ''''"
  shows "delivery_inv (MarkEmailFailed e mid token msg d, tok)"
proof -
  note inv = delivery_invD [OF assms(1)]
  let ?d1 = "mark_mail mid token (fail_mail e msg) d"
  have marked: "delivery_inv (?d1, tok)" by (rule mark_mail_inv [OF assms]) simp_all
  show ?thesis
  proof (cases "db_fault d \<or> select_one (held_mail mid token) (db_email_queue d) = None")
    case False
    then obtain m where nf: "\<not> db_fault d" and m: "select_one (held_mail mid token) (db_email_queue d) = Some m" by auto
    have held: "m \<in> set (db_email_queue d)" "held_mail mid token m" using select_one_SomeD [OF m] by auto
    then have live: "live_mail m" using single_closed [OF inv(4)] assms(2) by (auto simp: held_mail_def)
    show ?thesis
    proof (cases "qe_Status (fail_mail e msg m) \<noteq> ''failed'' \<or> qe_NotificationID m = ''''")
      case True
      then show ?thesis using marked nf m by (auto simp: MarkEmailFailed_def Let_def)
    next
      case gone: False
      have tok: "qe_NotificationID m \<in> fst ` set tok" using inv(5) held(1) gone by (auto simp: named_def)
      have "qe_NotificationID x \<noteq> qe_NotificationID m" if x: "x \<in> set (db_email_queue ?d1)" "live_mail x" for x
      proof
        assume same: "qe_NotificationID x = qe_NotificationID m"
        from x(1) obtain y where y: "y \<in> set (db_email_queue d)" "x = (if held_mail mid token y then fail_mail e msg y else y)"
          using nf by (auto simp: mark_mail_def set_update_where)
        have ly: "live_mail y" using y single_closed [OF inv(4) y(1)] x(2) assms(2) by (auto simp: held_mail_def split: if_splits)
        have "qe_NotificationID y = qe_NotificationID m" using y(2) same by (auto split: if_splits)
        then have "qe_ID y = qe_ID m" using singleD [OF inv(4) y(1) held(1) ly live] gone by simp
        then have "y = m" using unique_column [OF single_distinct [OF inv(4)] y(1) held(1)] by blast
        then show False using y(2) held(2) x(2) gone by (simp add: live_mail_def)
      qed
      from reopen_inv [OF marked tok] this show ?thesis using nf m gone by (simp add: MarkEmailFailed_def Let_def)
    qed
  qed (use assms(1) in \<open>auto simp: MarkEmailFailed_def\<close>)
qed

lemma report_inv:
  assumes "qe_ClaimToken m \<noteq> ''''" and "delivery_inv (d, tok)"
  shows "delivery_inv (report_send e m res d, tok)"
proof (cases res)
  case (Retryable msg)
  then show ?thesis using failed_inv [OF assms(2,1)] by (simp add: report_send_def)
qed (use assms in \<open>auto simp: report_send_def MarkEmailSent_def MarkEmailDeferred_def MarkEmailFailedPermanent_def live_mail_def
      intro!: mark_mail_inv\<close>)

lemma delivery_step_inv: "delivery_step s s' \<Longrightarrow> delivery_inv s \<Longrightarrow> delivery_inv s'"
proof (induction rule: delivery_step.induct)
  case (no_claim e l g d d' tok)
  then have "d' = d"
    by (auto simp: ClaimNotification_def insert_notification_def Let_def split: if_splits option.splits sum.splits)
  with no_claim show ?case by simp
qed (blast intro: claim_inv close_inv release_inv record_inv plain_inv take_mail_inv report_inv)+

text \<open>
  C27: nobody is reminded twice. However many replicas claim reminders, stall, are taken over, queue,
  send, fail and retry mails, in any order, at most one mail that was not given up on exists for a
  licence and reminder tag; and a reminder whose claim is open has none.
\<close>

theorem one_mail_per_reminder:
  assumes "delivery_step\<^sup>*\<^sup>* (d, []) (d', tok)" and "notes_unique (db_notifications d)" and "distinct (map qe_ID (db_email_queue d))"
    and "\<forall>n \<in> set (db_notifications d). nt_SentAt n \<noteq> None" and "\<forall>m \<in> set (db_email_queue d). qe_NotificationID m = '''' \<and> qe_ClaimToken m = ''''"
  shows "count_where (\<lambda>m. live_mail m \<and> qe_NotificationID m \<noteq> '''' \<and> (qe_NotificationID m, l, g) \<in> set tok) (db_email_queue d') \<le> 1 \<and>
         (\<forall>n \<in> set (db_notifications d'). nt_SentAt n = None \<and> is_reminder l g n \<longrightarrow>
            \<not> (\<exists>m \<in> set (db_email_queue d'). live_mail m \<and> qe_NotificationID m \<noteq> '''' \<and> (qe_NotificationID m, l, g) \<in> set tok))"
proof -
  have "delivery_inv (d, [])"
    using assms(2-5) by (auto simp: delivery_inv_def tokens_ok_def backed_def single_def named_def)
  with assms(1) have "delivery_inv (d', tok)"
    by (induction rule: rtranclp_induct) (auto intro: delivery_step_inv)
  note inv = delivery_invD [OF this]
  let ?live = "\<lambda>m. live_mail m \<and> qe_NotificationID m \<noteq> '''' \<and> (qe_NotificationID m, l, g) \<in> set tok"
  have behind: "\<exists>n \<in> set (db_notifications d'). nt_ID n = qe_NotificationID m \<and> nt_SentAt n \<noteq> None \<and> is_reminder l g n"
    if "m \<in> set (db_email_queue d')" "?live m" for m
  proof -
    from inv(3) [unfolded backed_def, rule_format, OF that(1)] that(2) obtain n where n: "n \<in> set (db_notifications d')"
      "nt_ID n = qe_NotificationID m" "nt_SentAt n \<noteq> None" by blast
    moreover have "is_reminder l g n" using inv(2) that(2) n(1,2) by (force simp: tokens_ok_def)
    ultimately show ?thesis by blast
  qed
  have row: "n = n'" if "n \<in> set (db_notifications d')" "n' \<in> set (db_notifications d')" "is_reminder l g n" "is_reminder l g n'" for n n'
    using that inv(1) unique_column [of "\<lambda>n. (nt_LicenseID n, nt_Tag n)" "db_notifications d'" n n'] by (simp add: notes_unique_def is_reminder_def)
  have same: "qe_ID m1 = qe_ID m2" if m: "m1 \<in> set (db_email_queue d')" "?live m1" "m2 \<in> set (db_email_queue d')" "?live m2" for m1 m2
  proof -
    obtain n1 where n1: "n1 \<in> set (db_notifications d')" "nt_ID n1 = qe_NotificationID m1" "is_reminder l g n1" using behind [OF m(1,2)] by blast
    obtain n2 where n2: "n2 \<in> set (db_notifications d')" "nt_ID n2 = qe_NotificationID m2" "is_reminder l g n2" using behind [OF m(3,4)] by blast
    have "qe_NotificationID m1 = qe_NotificationID m2" using row [OF n1(1) n2(1) n1(3) n2(3)] n1(2) n2(2) by simp
    then show ?thesis using singleD [OF inv(4) m(1,3)] m(2,4) by blast
  qed
  have "count_where ?live (db_email_queue d') \<le> 1"
  proof (cases "\<exists>m0 \<in> set (db_email_queue d'). ?live m0")
    case True
    then obtain m0 where "m0 \<in> set (db_email_queue d')" "?live m0" by blast
    then have "\<forall>m \<in> set (db_email_queue d'). ?live m \<longrightarrow> qe_ID m = qe_ID m0" using same by blast
    then show ?thesis by (rule count_where_one_key [OF single_distinct [OF inv(4)]])
  next
    case False
    then have "count_where ?live (db_email_queue d') = 0" unfolding count_where_zero_iff by blast
    then show ?thesis by linarith
  qed
  moreover have "\<not> (\<exists>m \<in> set (db_email_queue d'). ?live m)"
    if "n \<in> set (db_notifications d')" "nt_SentAt n = None \<and> is_reminder l g n" for n
  proof
    assume "\<exists>m \<in> set (db_email_queue d'). ?live m"
    then obtain m where "m \<in> set (db_email_queue d')" "?live m" by blast
    then obtain x where "x \<in> set (db_notifications d')" "nt_SentAt x \<noteq> None" "is_reminder l g x" using behind by blast
    with row [of n x] that show False by simp
  qed
  ultimately show ?thesis by blast
qed

theorem one_mail_per_reminder_witness:
  "\<exists>d1 d2. delivery_step\<^sup>*\<^sup>* (demo_db, []) (d2, [(''id0'', ''L'', ''expiry'')]) \<and> length (db_email_queue d2) = 1 \<and>
     count_where (\<lambda>m. live_mail m \<and> qe_NotificationID m \<noteq> '''' \<and> (qe_NotificationID m, ''L'', ''expiry'') \<in> set [(''id0'', ''L'', ''expiry'')])
       (db_email_queue d2) \<le> 1"
proof -
  let ?tok = "[(''id0'', ''L'', ''expiry'')]"
  have demo: "db_notifications demo_db = []" "db_email_queue demo_db = []" by (simp_all add: demo_db_def empty_db_def)
  have id: "env_newID demo_env 0 = ''id0''" by (simp add: demo_env_def)
  let ?n = "\<lparr>nt_ID = ''id0'', nt_LicenseID = ''L'', nt_Tag = ''expiry'', nt_SentAt = None, nt_ClaimedAt = Some (env_dbnow demo_env)\<rparr>"
  let ?d1 = "demo_db\<lparr>db_notifications := [?n]\<rparr>"
  have "ClaimNotification demo_env ''L'' ''expiry'' demo_db = (Inr ''id0'', ?d1)"
    by (simp add: ClaimNotification_def insert_notification_def demo id select_one_def Let_def)
  then have one: "delivery_step (demo_db, []) (?d1, ?tok)" by (rule delivery_step.claim) simp_all
  obtain d2 where two: "EnqueueEmailAndCloseNotification demo_env ''o@x'' ''s'' ''b'' ''id0'' ?d1 = (Inr (), d2)" "length (db_email_queue d2) = 1"
    by (simp add: EnqueueEmailAndCloseNotification_def insert_mail_def demo)
  have run: "delivery_step\<^sup>*\<^sup>* (demo_db, []) (d2, ?tok)"
    by (rule converse_rtranclp_into_rtranclp, rule one, rule r_into_rtranclp, rule delivery_step.close, rule two(1))
  have "notes_unique (db_notifications demo_db)" by (simp add: notes_unique_def demo)
  note once = one_mail_per_reminder [OF run this, of "''L''" "''expiry''"]
  have "distinct (map qe_ID (db_email_queue demo_db))" "\<forall>n \<in> set (db_notifications demo_db). nt_SentAt n \<noteq> None"
    "\<forall>m \<in> set (db_email_queue demo_db). qe_NotificationID m = '''' \<and> qe_ClaimToken m = ''''" by (simp_all add: demo)
  from once [OF this] run two(2) show ?thesis by blast
qed

section \<open>The queue is worked off\<close>

definition sent_of :: "env \<Rightarrow> QueuedEmail \<Rightarrow> QueuedEmail" where
  "sent_of e m = m\<lparr>qe_Status := ''sent'', qe_SentAt := Some (env_dbnow e), qe_Attempts := qe_Attempts m + 1, qe_Body := ''''\<rparr>"

definition deliver_mail :: "env \<Rightarrow> env \<Rightarrow> QueuedEmail \<Rightarrow> QueuedEmail" where
  "deliver_mail e e' m = sent_of e' (claim_mail e m)"

lemma MarkEmailSent_sent_of: "MarkEmailSent e mid token d = mark_mail mid token (sent_of e) d"
  by (simp add: MarkEmailSent_def sent_of_def [abs_def])

lemma sent_of_status [simp]: "qe_Status (sent_of e m) = ''sent''" "qe_ID (sent_of e m) = qe_ID m" "qe_Body (sent_of e m) = ''''"
  by (simp_all add: sent_of_def)

lemma deliver_mail_simps [simp]:
  "qe_Status (deliver_mail e e' m) = ''sent''" "qe_ID (deliver_mail e e' m) = qe_ID m" "qe_Body (deliver_mail e e' m) = ''''"
  by (simp_all add: deliver_mail_def sent_of_def claim_mail_def)

text \<open>A claimed mail the server takes is marked sent, and nothing else in the queue moves.\<close>

lemma send_one:
  assumes "ClaimNextEmail e d = (Inr (Some m), d1)" and "distinct (map qe_ID (db_email_queue d))"
  obtains m0 where "m0 \<in> set (db_email_queue d)" "mail_due e m0" "\<not> db_fault d" "qe_ID m = qe_ID m0"
    "report_send e' m Delivered d1 = d\<lparr>db_email_queue := update_where (\<lambda>x. qe_ID x = qe_ID m0) (deliver_mail e e') (db_email_queue d)\<rparr>"
proof -
  from assms(1) obtain m0 where f: "first_by qe_CreatedAt (filter (mail_due e) (db_email_queue d)) = Some m0" and nf: "\<not> db_fault d"
    and m: "m = claim_mail e m0" and d1: "d1 = d\<lparr>db_email_queue := update_where (\<lambda>x. qe_ID x = qe_ID m0) (claim_mail e) (db_email_queue d)\<rparr>"
    by (auto simp: ClaimNextEmail_def split: if_splits option.splits)
  have m0: "m0 \<in> set (db_email_queue d)" "mail_due e m0" using first_by_SomeD [OF f] by auto
  have one: "x = m0" if "x \<in> set (db_email_queue d)" "qe_ID x = qe_ID m0" for x
    using unique_column [OF assms(2) that(1) m0(1) that(2)] .
  have "update_where (held_mail (qe_ID m) (qe_ClaimToken m)) (sent_of e') (db_email_queue d1) =
      update_where (\<lambda>x. qe_ID x = qe_ID m0) (deliver_mail e e') (db_email_queue d)"
    using one by (auto simp: d1 m update_where_def held_mail_def claim_mail_def deliver_mail_def)
  then have "report_send e' m Delivered d1 = d\<lparr>db_email_queue := update_where (\<lambda>x. qe_ID x = qe_ID m0) (deliver_mail e e') (db_email_queue d)\<rparr>"
    using nf by (simp add: report_send_def MarkEmailSent_sent_of mark_mail_def d1)
  with m0 nf m show ?thesis by (intro that [of m0]) (simp_all add: claim_mail_def)
qed

lemma mail_due_mono: "mail_due e m \<Longrightarrow> env_dbnow e \<le> env_dbnow e' \<Longrightarrow> mail_due e' m"
  by (auto simp: mail_due_def split: option.splits)

definition pending_mails :: "db \<Rightarrow> int" where
  "pending_mails d = count_where (\<lambda>m. qe_Status m = ''pending'') (db_email_queue d)"

lemma pending_after_send:
  assumes "m0 \<in> set Q" and "distinct (map qe_ID Q)" and "qe_Status m0 = ''pending''"
  shows "count_where (\<lambda>m. qe_Status m = ''pending'') (update_where (\<lambda>x. qe_ID x = qe_ID m0) (deliver_mail e e') Q) =
         count_where (\<lambda>m. qe_Status m = ''pending'') Q - 1"
  using assms
proof (induction Q)
  case (Cons m Q)
  let ?u = "update_where (\<lambda>x. qe_ID x = qe_ID m0) (deliver_mail e e')"
  show ?case
  proof (cases "m = m0")
    case True
    then have "?u Q = Q" using Cons.prems(2) by (intro update_where_none) (auto simp: rev_image_eqI)
    with True Cons.prems(3) show ?thesis by (simp add: update_where_Cons count_where_Cons)
  next
    case False
    then have "m0 \<in> set Q" "qe_ID m \<noteq> qe_ID m0" using Cons.prems(1,2) by (auto simp: rev_image_eqI)
    with Cons show ?thesis by (simp add: update_where_Cons count_where_Cons)
  qed
qed simp

lemma queue_pass_keeps_sent:
  assumes "distinct (map qe_ID (db_email_queue d))" and "m \<in> set (db_email_queue d)" and "qe_Status m = ''sent''"
  shows "m \<in> set (db_email_queue (queue_pass env_at (\<lambda>_ x. x) (\<lambda>_ _ _. Delivered) n d))"
  using assms
proof (induction n arbitrary: d)
  case (Suc n)
  let ?e = "env_at (2 * n)" and ?e' = "env_at (2 * n + 1)"
  show ?case
  proof (cases "\<exists>c d1. ClaimNextEmail ?e d = (Inr (Some c), d1)")
    case True
    then obtain c d1 where c: "ClaimNextEmail ?e d = (Inr (Some c), d1)" by blast
    obtain m0 where m0: "m0 \<in> set (db_email_queue d)" "mail_due ?e m0"
      and r: "report_send ?e' c Delivered d1 = d\<lparr>db_email_queue := update_where (\<lambda>x. qe_ID x = qe_ID m0) (deliver_mail ?e ?e') (db_email_queue d)\<rparr>"
      by (rule send_one [OF c Suc.prems(1), of ?e'])
    have "m \<noteq> m0" using m0(2) Suc.prems(3) by (auto simp: mail_due_def)
    then have "qe_ID m \<noteq> qe_ID m0" using unique_column [OF Suc.prems(1,2) m0(1)] by blast
    then have "m \<in> set (update_where (\<lambda>x. qe_ID x = qe_ID m0) (deliver_mail ?e ?e') (db_email_queue d))"
      using Suc.prems(2) by (force simp: set_update_where)
    then show ?thesis using Suc.prems(1,3) r by (simp add: c) (rule Suc.IH; simp add: map_update_where)
  next
    case False
    then have "queue_pass env_at (\<lambda>_ x. x) (\<lambda>_ _ _. Delivered) (Suc n) d = d"
      by (auto simp: ClaimNextEmail_def split: if_splits option.splits)
    then show ?thesis using Suc.prems(2) by simp
  qed
qed simp

lemma queue_pass_sends:
  assumes "\<not> db_fault d" and "distinct (map qe_ID (db_email_queue d))" and "pending_mails d \<le> int n"
    and "\<And>k. env_dbnow e \<le> env_dbnow (env_at k)" and "m \<in> set (db_email_queue d)" and "mail_due e m"
  shows "\<exists>m' \<in> set (db_email_queue (queue_pass env_at (\<lambda>_ x. x) (\<lambda>_ _ _. Delivered) n d)).
           qe_ID m' = qe_ID m \<and> qe_Status m' = ''sent'' \<and> qe_Body m' = ''''"
  using assms(1-3,5,6)
proof (induction n arbitrary: d)
  case 0
  then have "pending_mails d = 0" using count_where_nonneg by (auto simp: pending_mails_def intro: antisym)
  with 0 show ?case by (auto simp: pending_mails_def count_where_zero_iff mail_due_def)
next
  case (Suc n)
  let ?e = "env_at (2 * n)" and ?e' = "env_at (2 * n + 1)"
  have due: "mail_due ?e m" using mail_due_mono [OF Suc.prems(5) assms(4)] .
  then have "first_by qe_CreatedAt (filter (mail_due ?e) (db_email_queue d)) \<noteq> None" using Suc.prems(4) by (auto simp: filter_empty_conv)
  then obtain f where "first_by qe_CreatedAt (filter (mail_due ?e) (db_email_queue d)) = Some f" by blast
  then obtain c d1 where c: "ClaimNextEmail ?e d = (Inr (Some c), d1)" using Suc.prems(1) by (simp add: ClaimNextEmail_def)
  obtain m0 where m0: "m0 \<in> set (db_email_queue d)" "mail_due ?e m0" "qe_ID c = qe_ID m0"
    and r: "report_send ?e' c Delivered d1 = d\<lparr>db_email_queue := update_where (\<lambda>x. qe_ID x = qe_ID m0) (deliver_mail ?e ?e') (db_email_queue d)\<rparr>"
    by (rule send_one [OF c Suc.prems(2), of ?e'])
  let ?d = "d\<lparr>db_email_queue := update_where (\<lambda>x. qe_ID x = qe_ID m0) (deliver_mail ?e ?e') (db_email_queue d)\<rparr>"
  have step: "queue_pass env_at (\<lambda>_ x. x) (\<lambda>_ _ _. Delivered) (Suc n) d = queue_pass env_at (\<lambda>_ x. x) (\<lambda>_ _ _. Delivered) n ?d"
    using r by (simp add: c)
  have wf: "\<not> db_fault ?d" "distinct (map qe_ID (db_email_queue ?d))" using Suc.prems(1,2) by (simp_all add: map_update_where)
  have fewer: "pending_mails ?d \<le> int n"
    using pending_after_send [OF m0(1) Suc.prems(2)] m0(2) Suc.prems(3) by (simp add: pending_mails_def mail_due_def)
  show ?case
  proof (cases "m = m0")
    case False
    then have "qe_ID m \<noteq> qe_ID m0" using unique_column [OF Suc.prems(2,4) m0(1)] by blast
    then have "m \<in> set (db_email_queue ?d)" using Suc.prems(4) by (force simp: set_update_where)
    then show ?thesis unfolding step using Suc.IH [OF wf fewer _ Suc.prems(5)] by blast
  next
    case True
    then have "deliver_mail ?e ?e' m \<in> set (db_email_queue ?d)" using Suc.prems(4) by (force simp: set_update_where)
    from queue_pass_keeps_sent [OF wf(2) this deliver_mail_simps(1), of env_at n] show ?thesis unfolding step by (intro bexI [of _ "deliver_mail ?e ?e' m"] conjI deliver_mail_simps)
  qed
qed

text \<open>
  C32: the queue is worked off. One pass of a processor over a queue of at most one batch, with a
  mail server that takes what it is handed, sends every mail that was due when it started (a mail
  whose holder died is due again when its lease is over) and leaves none of their bodies, and with
  them the licence keys, behind. With no mail configured a pass leaves the queue as it is.
\<close>

theorem queue_worked_off:
  assumes "\<not> db_fault d" and "distinct (map qe_ID (db_email_queue d))" and "pending_mails d \<le> int emailQueueBatch"
    and "\<And>k. env_dbnow e \<le> env_dbnow (env_at k)" and "m \<in> set (db_email_queue d)" and "mail_due e m"
  shows "(\<exists>m' \<in> set (db_email_queue (processQueue True env_at (\<lambda>_ x. x) (\<lambda>_ _ _. Delivered) d)).
            qe_ID m' = qe_ID m \<and> qe_Status m' = ''sent'' \<and> qe_Body m' = '''') \<and>
         processQueue False env_at mid send d = d"
  using queue_pass_sends [OF assms] by (simp add: processQueue_def)

definition stalled_mail :: QueuedEmail where
  "stalled_mail = \<lparr>qe_ID = ''M'', qe_ToAddr = ''o@x'', qe_Subject = ''s'', qe_Body = ''KEY'', qe_Attempts = 1, qe_MaxAttempts = 5,
     qe_Status = ''pending'', qe_NextRetry = Some 900, qe_Error = '''', qe_ClaimToken = ''dead'', qe_CreatedAt = 0, qe_SentAt = None,
     qe_NotificationID = ''''\<rparr>"

theorem queue_worked_off_witness:
  "\<exists>m' \<in> set (db_email_queue (processQueue True (\<lambda>_. demo_env) (\<lambda>_ x. x) (\<lambda>_ _ _. Delivered) (demo_db\<lparr>db_email_queue := [stalled_mail]\<rparr>))).
     qe_ID m' = ''M'' \<and> qe_Status m' = ''sent'' \<and> qe_Body m' = ''''"
proof -
  have "mail_due demo_env stalled_mail" by (simp add: mail_due_def stalled_mail_def demo_env_def)
  moreover have "pending_mails (demo_db\<lparr>db_email_queue := [stalled_mail]\<rparr>) \<le> int emailQueueBatch"
    by (simp add: pending_mails_def count_where_def emailQueueBatch_def)
  ultimately show ?thesis
    using queue_worked_off [of "demo_db\<lparr>db_email_queue := [stalled_mail]\<rparr>" demo_env "\<lambda>_. demo_env" stalled_mail]
    by (simp add: stalled_mail_def)
qed

section \<open>An event is handled by one process\<close>

datatype event_label = Won string string | Forgotten string string | Unrelated

inductive event_step :: "event_label \<Rightarrow> db \<Rightarrow> db \<Rightarrow> bool" where
  won: "ClaimProcessedEvent e p ev d = (Inr True, d') \<Longrightarrow> event_step (Won p ev) d d'"
| lost: "ClaimProcessedEvent e p ev d = (Inr False, d') \<Longrightarrow> env_newID e 0 \<noteq> '''' \<Longrightarrow> event_step Unrelated d d'"
| deleted: "DeleteProcessedEvent p ev d = (r, d') \<Longrightarrow> event_step (Forgotten p ev) d d'"
| stale: "ReleaseStaleProcessedEvent e p ev age d = (r', d') \<Longrightarrow> event_step (Forgotten p ev) d d'"
| elsewhere: "db_processed_events d' = db_processed_events d \<Longrightarrow> event_step Unrelated d d'"

definition claims_left :: "string \<Rightarrow> string \<Rightarrow> db \<Rightarrow> nat" where
  "claims_left p ev d = (if exists_where (is_event p ev) (db_processed_events d) then 0 else 1)"

interpretation events: budget "\<lambda>_. True" "claims_left p ev" event_step "\<lambda>l. l = Won p ev" "\<lambda>l. l = Forgotten p ev" for p ev
proof
  fix s s' :: db and l
  assume step: "event_step l s s'" and "l \<noteq> Forgotten p ev"
  then show "(if l = Won p ev then 1 else 0) + claims_left p ev s' \<le> claims_left p ev s"
    by cases (auto simp: claims_left_def ClaimProcessedEvent_def DeleteProcessedEvent_def ReleaseStaleProcessedEvent_def is_event_def Let_def
        split: if_splits)
qed simp

text \<open>However many processes claim an event, between two releases of its mark at most one is told to handle it.\<close>

lemma event_claimed_once:
  assumes "lrun event_step ls d d'" and "Forgotten p ev \<notin> set ls"
  shows "length (filter (\<lambda>l. l = Won p ev) ls) \<le> 1"
proof -
  have "claims_left p ev d \<le> 1" by (simp add: claims_left_def)
  moreover have "\<forall>l \<in> set ls. l \<noteq> Forgotten p ev" using assms(2) by blast
  note events.never_overspent [OF assms(1) TrueI this]
  ultimately show ?thesis by linarith
qed

end
