(* ===== verification/KG_Idempotency.thy ===== *)
theory KG_Idempotency
  imports KG_Store
begin

text \<open>
  Retries of a write with an \<^verbatim>\<open>Idempotency-Key\<close>: the slots of \<^verbatim>\<open>internal/store/idempotency.go\<close> and
  the middleware that claims a slot, runs the handler and keeps its answer
  (\<^verbatim>\<open>internal/middleware/idempotency.go\<close>). The handler is an argument: it changes the database and
  answers a status and a body, or crashes before it wrote any (\<open>None\<close>). Claiming is two statements;
  what other requests do between them is an argument.
\<close>

section \<open>Slots\<close>

definition in_slot :: "string \<Rightarrow> string \<Rightarrow> IdempotencyKey \<Rightarrow> bool" where
  "in_slot key endpoint r \<longleftrightarrow> ik_Key r = key \<and> ik_Endpoint r = endpoint"

definition fresh_slot :: "env \<Rightarrow> string \<Rightarrow> string \<Rightarrow> string \<Rightarrow> IdempotencyKey" where
  "fresh_slot e key endpoint bodyHash =
     \<lparr>ik_Key = key, ik_Endpoint = endpoint, ik_BodyHash = bodyHash, ik_ResponseStatus = 0, ik_ResponseBody = '''',
      ik_ResponseComplete = False, ik_CreatedAt = env_dbnow e, ik_ExpiresAt = env_dbnow e + 24 * Hour\<rparr>"

text \<open>The \<^verbatim>\<open>INSERT ... ON CONFLICT DO UPDATE\<close>: whether it wrote a row. The columns' checks bound both names.\<close>

definition claim_slot :: "env \<Rightarrow> string \<Rightarrow> string \<Rightarrow> string \<Rightarrow> db \<Rightarrow> bool result \<times> db" where
  "claim_slot e key endpoint bodyHash d =
     (if db_fault d \<or> key = '''' \<or> length key > 256 \<or> endpoint = '''' \<or> length endpoint > 256 then (Inl ErrDB, d)
      else case select_one (in_slot key endpoint) (db_idempotency_keys d) of
        None \<Rightarrow> (Inr True, d\<lparr>db_idempotency_keys := db_idempotency_keys d @ [fresh_slot e key endpoint bodyHash]\<rparr>)
      | Some r \<Rightarrow>
          if ik_ExpiresAt r < env_dbnow e
          then (Inr True, d\<lparr>db_idempotency_keys := update_where (in_slot key endpoint) (\<lambda>_. fresh_slot e key endpoint bodyHash) (db_idempotency_keys d)\<rparr>)
          else (Inr False, d))"

definition IdempotencyClaim ::
  "env \<Rightarrow> (db \<Rightarrow> db) \<Rightarrow> string \<Rightarrow> string \<Rightarrow> string \<Rightarrow> db \<Rightarrow> IdempotencyKey option result \<times> db" where
  "IdempotencyClaim e gap key endpoint bodyHash d =
     (case claim_slot e key endpoint bodyHash d of
        (Inl err, d1) \<Rightarrow> (Inl err, d1)
      | (Inr True, d1) \<Rightarrow> (Inr None, d1)
      | (Inr False, d1) \<Rightarrow>
          let d1 = gap d1 in
          if db_fault d1 then (Inl ErrDB, d1)
          else case select_one (in_slot key endpoint) (db_idempotency_keys d1) of
            None \<Rightarrow> (Inr None, d1)
          | Some r \<Rightarrow> if ik_BodyHash r \<noteq> bodyHash then (Inl ErrIdempotencyBodyMismatch, d1) else (Inr (Some r), d1))"

definition IdempotencyComplete :: "string \<Rightarrow> string \<Rightarrow> int \<Rightarrow> string \<Rightarrow> db \<Rightarrow> unit result \<times> db" where
  "IdempotencyComplete key endpoint status body d =
     (let body = (if length body > 65536 then take 65536 body else body) in
      if db_fault d then (Inl ErrDB, d)
      else (Inr (), d\<lparr>db_idempotency_keys := update_where (in_slot key endpoint)
              (\<lambda>r. r\<lparr>ik_ResponseStatus := status, ik_ResponseBody := body, ik_ResponseComplete := True\<rparr>) (db_idempotency_keys d)\<rparr>))"

definition IdempotencyAbandon :: "string \<Rightarrow> string \<Rightarrow> db \<Rightarrow> db" where
  "IdempotencyAbandon key endpoint d =
     (if db_fault d then d
      else d\<lparr>db_idempotency_keys := delete_where (\<lambda>r. in_slot key endpoint r \<and> \<not> ik_ResponseComplete r) (db_idempotency_keys d)\<rparr>)"

definition IdempotencyPruneExpired :: "env \<Rightarrow> db \<Rightarrow> int result \<times> db" where
  "IdempotencyPruneExpired e d =
     (if db_fault d then (Inl ErrDB, d)
      else (Inr (count_where (\<lambda>r. ik_ExpiresAt r < env_dbnow e) (db_idempotency_keys d)),
            d\<lparr>db_idempotency_keys := delete_where (\<lambda>r. ik_ExpiresAt r < env_dbnow e) (db_idempotency_keys d)\<rparr>))"

definition ValidIdempotencyKey :: "string \<Rightarrow> bool" where
  "ValidIdempotencyKey s \<longleftrightarrow> 1 \<le> length s \<and> length s \<le> 256 \<and> list_all (\<lambda>c. char_code c \<noteq> 0 \<and> char_code c \<noteq> 10 \<and> char_code c \<noteq> 13) s"

definition SecondsUntil :: "env \<Rightarrow> time \<Rightarrow> int" where
  "SecondsUntil e t = (let d = time_sub t (env_now e) in if d < 0 then 0 else d div Second)"

section \<open>The middleware\<close>

text \<open>A reply: status, body, and whether it was replayed from a slot.\<close>

type_synonym reply = "int \<times> string \<times> bool"

definition maxBody :: nat where
  "maxBody = 256 * 1024"

definition finish_slot :: "string \<Rightarrow> string \<Rightarrow> (int \<times> string) option \<Rightarrow> db \<Rightarrow> db" where
  "finish_slot key endpoint answer d =
     (case answer of
        None \<Rightarrow> IdempotencyAbandon key endpoint d
      | Some (status, body) \<Rightarrow>
          if status = 0 \<or> status \<ge> 500 then IdempotencyAbandon key endpoint d
          else snd (IdempotencyComplete key endpoint status body d))"

definition run_handler :: "(db \<Rightarrow> (int \<times> string) option \<times> db) \<Rightarrow> db \<Rightarrow> reply app_result \<times> db" where
  "run_handler handler d =
     (case handler d of
        (Some (status, body), d') \<Rightarrow> (Inr (status, body, False), d')
      | (None, d') \<Rightarrow> (Inl (app_New 500 ''INTERNAL_ERROR'' ''an internal error occurred''), d'))"

definition Idempotency ::
  "env \<Rightarrow> (nat \<Rightarrow> db \<Rightarrow> db) \<Rightarrow> (db \<Rightarrow> (int \<times> string) option \<times> db) \<Rightarrow> string \<Rightarrow> string \<Rightarrow> string \<Rightarrow> string \<Rightarrow> db \<Rightarrow> reply app_result \<times> db" where
  "Idempotency e mid handler httpMethod key body endpoint d =
     (if httpMethod \<noteq> ''POST'' \<or> key = '''' then run_handler handler d
      else if \<not> ValidIdempotencyKey key
      then (Inl (app_New 400 ''INVALID_IDEMPOTENCY_KEY'' (''Idempotency-Key must be 1'' @ map char_of [226, 128, 147 :: nat] @ ''256 chars, no control characters'')), d)
      else if length body > maxBody
      then (Inl (app_New 413 ''BODY_TOO_LARGE'' ''request body exceeds idempotency limit (256 KiB)''), d)
      else case IdempotencyClaim e (mid 0) key endpoint (env_sha256 e body) d of
        (Inl err, d1) \<Rightarrow>
          (Inl (if errors_is err ErrIdempotencyBodyMismatch
                then app_New 422 ''IDEMPOTENCY_KEY_CONFLICT'' ''Idempotency-Key reused with a different request body''
                else app_Internal err), d1)
      | (Inr (Some r), d1) \<Rightarrow>
          if ik_ResponseComplete r then (Inr (ik_ResponseStatus r, ik_ResponseBody r, True), d1)
          else (Inl (app_New 409 ''IDEMPOTENCY_IN_FLIGHT'' ''an earlier request with this Idempotency-Key is still being processed''), d1)
      | (Inr None, d1) \<Rightarrow>
          (case run_handler handler (mid 1 d1) of
             (Inl err, d2) \<Rightarrow> (Inl err, finish_slot key endpoint None (mid 2 d2))
           | (Inr (status, answer, _), d2) \<Rightarrow> (Inr (status, answer, False), finish_slot key endpoint (Some (status, answer)) (mid 2 d2))))"

section \<open>A finished request is answered once and for all\<close>

text \<open>What other requests do to the table while a slot's answer is kept: anything but finish that slot.\<close>

inductive slot_step :: "string \<Rightarrow> string \<Rightarrow> time \<Rightarrow> db \<Rightarrow> db \<Rightarrow> bool" for key endpoint until where
  claim: "claim_slot e k ep h d = (r, d') \<Longrightarrow> env_dbnow e \<le> until \<Longrightarrow> slot_step key endpoint until d d'"
| complete: "IdempotencyComplete k ep st body d = (r', d') \<Longrightarrow> k \<noteq> key \<or> ep \<noteq> endpoint \<Longrightarrow> slot_step key endpoint until d d'"
| abandon: "slot_step key endpoint until d (IdempotencyAbandon k ep d)"
| prune: "IdempotencyPruneExpired e d = (n, d') \<Longrightarrow> env_dbnow e \<le> until \<Longrightarrow> slot_step key endpoint until d d'"
| elsewhere: "db_idempotency_keys d' = db_idempotency_keys d \<Longrightarrow> slot_step key endpoint until d d'"

definition slots_unique :: "db \<Rightarrow> bool" where
  "slots_unique d \<longleftrightarrow> distinct (map (\<lambda>r. (ik_Key r, ik_Endpoint r)) (db_idempotency_keys d))"

definition kept :: "IdempotencyKey \<Rightarrow> db \<Rightarrow> bool" where
  "kept r d \<longleftrightarrow> r \<in> set (db_idempotency_keys d) \<and> slots_unique d"

lemma select_slot:
  assumes "slots_unique d" and "r \<in> set (db_idempotency_keys d)"
  shows "select_one (in_slot (ik_Key r) (ik_Endpoint r)) (db_idempotency_keys d) = Some r"
  using assms by (intro select_one_by_key [where k = "\<lambda>r. (ik_Key r, ik_Endpoint r)"]) (auto simp: slots_unique_def in_slot_def)

lemma claim_slot_unique:
  assumes "claim_slot e k ep h d = (r, d')" and "slots_unique d"
  shows "slots_unique d'"
proof -
  have same: "map (\<lambda>r. (ik_Key r, ik_Endpoint r)) (update_where (in_slot k ep) (\<lambda>_. fresh_slot e k ep h) rows) =
      map (\<lambda>r. (ik_Key r, ik_Endpoint r)) rows" for rows
    by (rule map_update_where) (simp add: in_slot_def fresh_slot_def)
  have new: "(k, ep) \<notin> (\<lambda>r. (ik_Key r, ik_Endpoint r)) ` set (db_idempotency_keys d)"
    if "select_one (in_slot k ep) (db_idempotency_keys d) = None"
    using that by (auto simp: select_one_None_iff in_slot_def)
  have "ik_Key (fresh_slot e k ep h) = k" "ik_Endpoint (fresh_slot e k ep h) = ep" by (simp_all add: fresh_slot_def)
  then show ?thesis using assms new by (auto simp: claim_slot_def slots_unique_def same split: if_splits option.splits)
qed

lemma slot_step_kept:
  assumes "slot_step (ik_Key r) (ik_Endpoint r) (ik_ExpiresAt r) d d'" and "kept r d" and "ik_ResponseComplete r"
  shows "kept r d'"
proof -
  have u: "slots_unique d" and r: "r \<in> set (db_idempotency_keys d)" using assms(2) by (simp_all add: kept_def)
  from assms(1) show ?thesis
  proof cases
    case (claim e k ep h res)
    have "r \<in> set (db_idempotency_keys d')"
    proof (cases "in_slot k ep r")
      case True
      then have "select_one (in_slot k ep) (db_idempotency_keys d) = Some r" using select_slot [OF u r] by (simp add: in_slot_def)
      then show ?thesis using claim r by (auto simp: claim_slot_def split: if_splits)
    next
      case False
      then show ?thesis using claim r by (auto simp: claim_slot_def set_update_where split: if_splits option.splits)
    qed
    then show ?thesis using claim_slot_unique [OF claim(1) u] by (simp add: kept_def)
  next
    case (complete k ep st body res)
    then have "d' = d \<or> d' = d\<lparr>db_idempotency_keys := update_where (in_slot k ep)
        (\<lambda>r. r\<lparr>ik_ResponseStatus := st, ik_ResponseBody := (if length body > 65536 then take 65536 body else body), ik_ResponseComplete := True\<rparr>)
        (db_idempotency_keys d)\<rparr>"
      by (auto simp: IdempotencyComplete_def Let_def split: if_splits)
    moreover have "\<not> in_slot k ep r" using complete(2) by (auto simp: in_slot_def)
    ultimately show ?thesis using u r by (auto simp: kept_def slots_unique_def map_update_where set_update_where)
  next
    case (abandon k ep)
    then show ?thesis using u r assms(3) by (simp add: kept_def slots_unique_def IdempotencyAbandon_def distinct_map_delete_where)
  next
    case (prune e n)
    then show ?thesis using u r by (auto simp: kept_def slots_unique_def IdempotencyPruneExpired_def distinct_map_delete_where split: if_splits)
  next
    case elsewhere
    then show ?thesis using u r by (simp add: kept_def slots_unique_def)
  qed
qed

text \<open>
  C31: a finished write is not run again. When a request with a key ran its handler, still held its
  slot and answered below 500, every retry with the same key and body up to a day after it claimed
  gets that answer (its first 65536 bytes) from the slot and leaves the database as it is, whatever
  other requests claim, finish, abandon or prune meanwhile.
\<close>

theorem finished_write_is_replayed:
  assumes fin: "d1 = finish_slot key endpoint (Some (status, answer)) d0" "status \<noteq> 0" "status < 500" "\<not> db_fault d0"
    and held: "r \<in> set (db_idempotency_keys d0)" "in_slot key endpoint r" "slots_unique d0" "ik_BodyHash r = env_sha256 e body"
    and run: "(slot_step key endpoint (ik_ExpiresAt r))\<^sup>*\<^sup>* d1 d2" "\<not> db_fault d2" "\<And>x. (slot_step key endpoint (ik_ExpiresAt r))\<^sup>*\<^sup>* x (mid 0 x)"
      "\<not> db_fault (mid 0 d2)"
    and retry: "env_dbnow e \<le> ik_ExpiresAt r" "ValidIdempotencyKey key" "length body \<le> maxBody" "endpoint \<noteq> ''''" "length endpoint \<le> 256"
  shows "Idempotency e mid handler ''POST'' key body endpoint d2 = (Inr (status, take 65536 answer, True), mid 0 d2)"
proof -
  let ?f = "\<lambda>r. r\<lparr>ik_ResponseStatus := status, ik_ResponseBody := take 65536 answer, ik_ResponseComplete := True\<rparr>"
  let ?r = "?f r"
  have cut: "(if length answer > 65536 then take 65536 answer else answer) = take 65536 answer" by simp
  have d1: "d1 = d0\<lparr>db_idempotency_keys := update_where (in_slot key endpoint) ?f (db_idempotency_keys d0)\<rparr>"
    using fin by (simp add: finish_slot_def IdempotencyComplete_def cut)
  have "kept ?r d1" using held by (force simp: kept_def d1 slots_unique_def map_update_where set_update_where)
  have slot: "ik_Key r = key" "ik_Endpoint r = endpoint" using held(2) by (simp_all add: in_slot_def)
  have stays: "kept ?r y" if "(slot_step key endpoint (ik_ExpiresAt r))\<^sup>*\<^sup>* x y" "kept ?r x" for x y
    using that by (induction rule: rtranclp_induct) (use slot_step_kept [of ?r] slot in auto)
  have k2: "kept ?r d2" and k3: "kept ?r (mid 0 d2)" using stays run(1,3) \<open>kept ?r d1\<close> by blast+
  have sel: "select_one (in_slot key endpoint) (db_idempotency_keys d2) = Some ?r"
    "select_one (in_slot key endpoint) (db_idempotency_keys (mid 0 d2)) = Some ?r"
    using select_slot [of d2 ?r] select_slot [of "mid 0 d2" ?r] k2 k3 slot by (simp_all add: kept_def)
  have "key \<noteq> ''''" "length key \<le> 256" using retry(2) by (auto simp: ValidIdempotencyKey_def)
  then have "IdempotencyClaim e (mid 0) key endpoint (env_sha256 e body) d2 = (Inr (Some ?r), mid 0 d2)"
    using run(2,4) retry(1,4,5) held(4) by (simp add: IdempotencyClaim_def claim_slot_def sel)
  then show ?thesis using retry(2,3) \<open>key \<noteq> ''''\<close> by (simp add: Idempotency_def)
qed

definition demo_slot :: IdempotencyKey where
  "demo_slot = fresh_slot demo_env ''k'' ''/license/usage'' ''hbody''"

theorem finished_write_is_replayed_witness:
  "Idempotency demo_env (\<lambda>_ x. x) (\<lambda>x. (Some (201, ''twice''), x)) ''POST'' ''k'' ''body'' ''/license/usage''
     (finish_slot ''k'' ''/license/usage'' (Some (200, ''ok'')) (demo_db\<lparr>db_idempotency_keys := [demo_slot]\<rparr>)) =
   (Inr (200, ''ok'', True), finish_slot ''k'' ''/license/usage'' (Some (200, ''ok'')) (demo_db\<lparr>db_idempotency_keys := [demo_slot]\<rparr>))"
proof -
  let ?d0 = "demo_db\<lparr>db_idempotency_keys := [demo_slot]\<rparr>"
  have slot: "in_slot ''k'' ''/license/usage'' demo_slot" "ik_BodyHash demo_slot = env_sha256 demo_env ''body''"
    "env_dbnow demo_env \<le> ik_ExpiresAt demo_slot"
    by (simp_all add: demo_slot_def fresh_slot_def in_slot_def demo_env_def time_simps)
  have wf: "slots_unique ?d0" "\<not> db_fault ?d0" "\<not> db_fault (finish_slot ''k'' ''/license/usage'' (Some (200, ''ok'')) ?d0)"
    by (simp_all add: slots_unique_def finish_slot_def IdempotencyComplete_def)
  have ok: "ValidIdempotencyKey ''k''" "length ''body'' \<le> maxBody" by (simp_all add: ValidIdempotencyKey_def maxBody_def char_code_def)
  show ?thesis
    using finished_write_is_replayed [of _ "''k''" "''/license/usage''" 200 "''ok''" ?d0 demo_slot demo_env "''body''" _ "\<lambda>_ x. x"
        "\<lambda>x. (Some (201, ''twice''), x)", OF refl] slot wf ok by simp
qed

text \<open>
  C39: what the slot does not prevent. A request that finds the slot taken and reads it only after
  the running request failed with a 5xx and gave it up is told to run the handler although it holds
  no slot; the next request claims the slot and runs the handler as well.
\<close>

theorem abandoned_slot_two_owners:
  assumes "select_one (in_slot key endpoint) (db_idempotency_keys d) = Some r" and "\<not> ik_ResponseComplete r"
    and "env_dbnow e \<le> ik_ExpiresAt r" and "\<not> db_fault d" and "slots_unique d"
    and "key \<noteq> ''''" "length key \<le> 256" "endpoint \<noteq> ''''" "length endpoint \<le> 256"
  shows "\<exists>d1 d2. IdempotencyClaim e (IdempotencyAbandon key endpoint) key endpoint h d = (Inr None, d1) \<and>
           IdempotencyClaim e' (\<lambda>x. x) key endpoint h' d1 = (Inr None, d2)"
proof -
  let ?d1 = "IdempotencyAbandon key endpoint d"
  have "x = r" if "x \<in> set (db_idempotency_keys d)" "in_slot key endpoint x" for x
    using select_slot [OF assms(5) that(1)] that(2) assms(1) by (simp add: in_slot_def)
  then have "\<forall>x \<in> set (db_idempotency_keys ?d1). \<not> in_slot key endpoint x"
    using assms(2,4) by (auto simp: IdempotencyAbandon_def)
  then have none: "select_one (in_slot key endpoint) (db_idempotency_keys ?d1) = None" by (simp add: select_one_None_iff)
  have nf: "\<not> db_fault ?d1" using assms(4) by (simp add: IdempotencyAbandon_def)
  have "IdempotencyClaim e (IdempotencyAbandon key endpoint) key endpoint h d = (Inr None, ?d1)"
    using assms(1,3,4,6-9) none nf by (simp add: IdempotencyClaim_def claim_slot_def)
  moreover have "\<exists>d2. IdempotencyClaim e' (\<lambda>x. x) key endpoint h' ?d1 = (Inr None, d2)"
    using assms(6-9) none nf by (simp add: IdempotencyClaim_def claim_slot_def)
  ultimately show ?thesis by blast
qed

theorem abandoned_slot_two_owners_witness:
  "\<exists>d1 d2. IdempotencyClaim demo_env (IdempotencyAbandon ''k'' ''/license/usage'') ''k'' ''/license/usage'' ''hbody''
       (demo_db\<lparr>db_idempotency_keys := [demo_slot]\<rparr>) = (Inr None, d1) \<and>
     IdempotencyClaim demo_env (\<lambda>x. x) ''k'' ''/license/usage'' ''hbody'' d1 = (Inr None, d2)"
proof -
  let ?d = "demo_db\<lparr>db_idempotency_keys := [demo_slot]\<rparr>"
  have s: "ik_Key demo_slot = ''k''" "ik_Endpoint demo_slot = ''/license/usage''" "\<not> ik_ResponseComplete demo_slot"
    "env_dbnow demo_env \<le> ik_ExpiresAt demo_slot"
    by (simp_all add: demo_slot_def fresh_slot_def time_simps)
  have "slots_unique ?d" "select_one (in_slot ''k'' ''/license/usage'') (db_idempotency_keys ?d) = Some demo_slot"
    using s by (simp_all add: slots_unique_def select_one_def in_slot_def)
  then show ?thesis using s by (intro abandoned_slot_two_owners) simp_all
qed

end
