(* ===== verification/KG_RateLimit.thy ===== *)
theory KG_RateLimit
  imports KG_Breaker KG_Errors
begin

text \<open>
  Rate limiting, \<^verbatim>\<open>internal/middleware/ratelimit.go\<close>: the in-memory counters with their sweep, the
  Redis backend, whose answer to the script (the count, or no answer in time) is an argument, and the
  backend that falls back from one to the other behind the circuit breaker. Each call holds the
  mutex of the counters and is one step.
\<close>

section \<open>The in-memory backend\<close>

record visitor =
  vs_count :: int
  vs_windowStart :: time
  vs_window :: duration

type_synonym memoryBackend = "string \<rightharpoonup> visitor"

definition memory_Allow :: "time \<Rightarrow> string \<Rightarrow> int \<Rightarrow> duration \<Rightarrow> memoryBackend \<Rightarrow> bool \<times> memoryBackend" where
  "memory_Allow now key rate window mb =
     (let opened = (True, mb(key \<mapsto> \<lparr>vs_count = 1, vs_windowStart = now, vs_window = window\<rparr>)) in
      case mb key of
        None \<Rightarrow> opened
      | Some v \<Rightarrow>
          if time_sub now (vs_windowStart v) \<ge> window then opened
          else let v' = v\<lparr>vs_count := wrap64 (vs_count v + 1)\<rparr> in (vs_count v' \<le> rate, mb(key \<mapsto> v')))"

definition cleanup :: "time \<Rightarrow> memoryBackend \<Rightarrow> memoryBackend" where
  "cleanup now mb = (\<lambda>key. case mb key of
      None \<Rightarrow> None
    | Some v \<Rightarrow> if time_sub now (vs_windowStart v) > max (vs_window v) (5 * Minute) then None else Some v)"

section \<open>Redis, and the fallback\<close>

text \<open>What the script answered: the count after its \<^verbatim>\<open>INCR\<close>, or an error.\<close>

definition redis_allow :: "int result \<Rightarrow> int \<Rightarrow> bool result" where
  "redis_allow reply rate = (case reply of Inl err \<Rightarrow> Inl err | Inr count \<Rightarrow> Inr (count \<le> rate))"

record resilientBackend =
  rb_memory :: memoryBackend
  rb_breaker :: Breaker

definition NewResilientRedisBackend :: resilientBackend where
  "NewResilientRedisBackend = \<lparr>rb_memory = Map.empty, rb_breaker = New 5 (5 * Second)\<rparr>"

definition resilient_Allow :: "time \<Rightarrow> int result \<Rightarrow> string \<Rightarrow> int \<Rightarrow> duration \<Rightarrow> resilientBackend \<Rightarrow> bool \<times> resilientBackend" where
  "resilient_Allow now reply key rate window r =
     (let (tryRedis, br) = Allow now (rb_breaker r); r = r\<lparr>rb_breaker := br\<rparr>;
          in_memory = (\<lambda>r. let (ok, mb) = memory_Allow now key rate window (rb_memory r) in (ok, r\<lparr>rb_memory := mb\<rparr>)) in
      if \<not> tryRedis then in_memory r
      else case redis_allow reply rate of
        Inl _ \<Rightarrow> in_memory (r\<lparr>rb_breaker := Failure now (rb_breaker r)\<rparr>)
      | Inr ok \<Rightarrow> (ok, r\<lparr>rb_breaker := Success (rb_breaker r)\<rparr>))"

section \<open>Keys and answers\<close>

definition rateLimited :: "duration \<Rightarrow> int \<times> AppError" where
  "rateLimited window = (max 1 (window div Second), app_New 429 ''RATE_LIMITED'' ''too many requests, please try again later'')"

definition RateLimit_key :: "string \<Rightarrow> string option \<Rightarrow> string" where
  "RateLimit_key clientIP apiKeyID = (case apiKeyID of None \<Rightarrow> clientIP | Some k \<Rightarrow> ''apikey:'' @ k)"

definition RateLimitByIP_key :: "string \<Rightarrow> string" where
  "RateLimitByIP_key clientIP = ''ip:'' @ clientIP"

definition RateLimitByIPScoped_key :: "string \<Rightarrow> string \<Rightarrow> string" where
  "RateLimitByIPScoped_key scope clientIP = ''ip:'' @ scope @ '':'' @ clientIP"

section \<open>A window lets the rate through\<close>

datatype rl_event = Call string int duration time | Sweep time

fun rl_run :: "rl_event list \<Rightarrow> memoryBackend \<Rightarrow> (string \<times> bool) list" where
  "rl_run [] mb = []"
| "rl_run (Sweep now # evs) mb = rl_run evs (cleanup now mb)"
| "rl_run (Call key rate window now # evs) mb =
     (let (ok, mb') = memory_Allow now key rate window mb in (key, ok) # rl_run evs mb')"

fun ev_time :: "rl_event \<Rightarrow> time" where
  "ev_time (Call key rate window now) = now"
| "ev_time (Sweep now) = now"

definition calls_of :: "string \<Rightarrow> rl_event list \<Rightarrow> nat" where
  "calls_of key evs = length (filter (\<lambda>ev. case ev of Call k _ _ _ \<Rightarrow> k = key | Sweep _ \<Rightarrow> False) evs)"

definition allowed :: "string \<Rightarrow> (string \<times> bool) list \<Rightarrow> nat" where
  "allowed key rs = length (filter (\<lambda>(k, ok). k = key \<and> ok) rs)"

definition in_window :: "string \<Rightarrow> int \<Rightarrow> duration \<Rightarrow> time \<Rightarrow> rl_event \<Rightarrow> bool" where
  "in_window key rate window t0 ev \<longleftrightarrow> t0 \<le> ev_time ev \<and> ev_time ev < t0 + window \<and>
     (case ev of Call k r w _ \<Rightarrow> k = key \<longrightarrow> r = rate \<and> w = window | Sweep _ \<Rightarrow> True)"

lemma time_sub_in_window:
  "t0 \<le> t \<Longrightarrow> t < t0 + window \<Longrightarrow> window \<le> MaxInt64 \<Longrightarrow> time_sub t t0 = t - t0"
  by (simp add: time_sub_def MaxInt64_def)

lemma run_open_window:
  assumes "window \<le> MaxInt64" and "\<forall>ev \<in> set evs. in_window key rate window t0 ev"
    and "mb key = Some \<lparr>vs_count = c, vs_windowStart = t0, vs_window = window\<rparr>" and "1 \<le> c" and "c + int (length evs) < 2 ^ 63"
  shows "int (allowed key (rl_run evs mb)) = max 0 (min (int (calls_of key evs)) (rate - c))"
  using assms(2-)
proof (induction evs arbitrary: mb c)
  case Nil
  then show ?case by (simp add: allowed_def calls_of_def)
next
  case (Cons ev evs)
  have win: "in_window key rate window t0 ev" "\<forall>ev \<in> set evs. in_window key rate window t0 ev" using Cons.prems(1) by simp_all
  note sub = time_sub_in_window [OF _ _ assms(1), of t0 "ev_time ev"]
  show ?case
  proof (cases ev)
    case (Sweep now)
    then have "cleanup now mb key = mb key" using win(1) sub Cons.prems(2) by (simp add: cleanup_def in_window_def)
    then show ?thesis using Cons.IH [OF win(2), of "cleanup now mb" c] Cons.prems Sweep by (simp add: calls_of_def)
  next
    case (Call k r w now)
    show ?thesis
    proof (cases "k = key")
      case False
      then have "snd (memory_Allow now k r w mb) key = mb key" by (auto simp: memory_Allow_def Let_def split: option.splits)
      then show ?thesis
        using Cons.IH [OF win(2), of "snd (memory_Allow now k r w mb)" c] Cons.prems Call False
        by (simp add: calls_of_def allowed_def split_beta)
    next
      case True
      then have rw: "r = rate" "w = window" "\<not> window \<le> time_sub now t0" using win(1) Call sub by (simp_all add: in_window_def)
      let ?mb = "mb(key \<mapsto> \<lparr>vs_count = c + 1, vs_windowStart = t0, vs_window = window\<rparr>)"
      have "wrap64 (c + 1) = c + 1" using Cons.prems(3,4) by simp
      then have step: "memory_Allow now k r w mb = (c + 1 \<le> rate, ?mb)"
        using rw True Cons.prems(2) by (simp add: memory_Allow_def)
      have "int (allowed key (rl_run evs ?mb)) = max 0 (min (int (calls_of key evs)) (rate - (c + 1)))"
        by (rule Cons.IH [OF win(2)]) (use Cons.prems in simp_all)
      moreover have "calls_of key (ev # evs) = Suc (calls_of key evs)" using Call True by (simp add: calls_of_def)
      moreover have "allowed key (rl_run (ev # evs) mb) = (if c + 1 \<le> rate then 1 else 0) + allowed key (rl_run evs ?mb)"
        using Call True step by (simp add: allowed_def)
      ultimately show ?thesis by (auto simp: min_def max_def)
    qed
  qed
qed

text \<open>
  C36: a window lets exactly the rate through. From the call that opens a window on, among the calls
  of a key before the window closes exactly the first \<open>rate\<close> are let through (the opening one in any
  case), whatever calls of other keys and sweeps happen in between: a sweep never hands out a fresh
  allowance.
\<close>

theorem rate_window_exact:
  assumes "mb key = None \<or> (\<exists>v. mb key = Some v \<and> time_sub t0 (vs_windowStart v) \<ge> window)"
    and "window \<le> MaxInt64" and "\<forall>ev \<in> set evs. in_window key rate window t0 ev" and "length evs < 2 ^ 62"
  shows "int (allowed key (rl_run (Call key rate window t0 # evs) mb)) = max 1 (min (int (calls_of key evs) + 1) rate)"
proof -
  let ?mb = "mb(key \<mapsto> \<lparr>vs_count = 1, vs_windowStart = t0, vs_window = window\<rparr>)"
  have "memory_Allow t0 key rate window mb = (True, ?mb)" using assms(1) by (auto simp: memory_Allow_def)
  moreover have "int (length evs) < 2 ^ 62" using assms(4) by (metis of_nat_less_iff of_nat_numeral of_nat_power)
  then have "int (allowed key (rl_run evs ?mb)) = max 0 (min (int (calls_of key evs)) (rate - 1))"
    using run_open_window [OF assms(2,3), of ?mb 1] by simp
  ultimately show ?thesis by (simp add: allowed_def)
qed

theorem rate_window_exact_witness:
  "int (allowed ''ip'' (rl_run [Call ''ip'' 2 (60 * Second) 0, Sweep 1, Call ''ip'' 2 (60 * Second) 1, Call ''ip'' 2 (60 * Second) 2] Map.empty)) = 2"
proof -
  let ?w = "60 * Second" and ?evs = "[Sweep 1, Call ''ip'' 2 (60 * Second) 1, Call ''ip'' 2 (60 * Second) 2]"
  have ok: "?w \<le> MaxInt64" "\<forall>ev \<in> set ?evs. in_window ''ip'' 2 ?w 0 ev" "length ?evs < 2 ^ 62"
    by (simp_all add: in_window_def MaxInt64_def Second_def)
  have n: "calls_of ''ip'' ?evs = 2" by (simp add: calls_of_def)
  have "int (allowed ''ip'' (rl_run (Call ''ip'' 2 ?w 0 # ?evs) Map.empty)) = max 1 (min (int 2 + 1) 2)"
    using rate_window_exact [OF disjI1 ok, of Map.empty] unfolding n by blast
  also have "max 1 (min (int 2 + 1) 2) = (2 :: int)" by simp
  finally show ?thesis .
qed

end
