(* ===== verification/KG_Subscription.thy ===== *)
theory KG_Subscription
  imports KG_Activation KG_Floating KG_Renewals
begin

text \<open>
  What a Stripe subscription may do to its licence, as the store enforces it
  (\<^verbatim>\<open>internal/store/store.go\<close>, \<^verbatim>\<open>updateLicenseAndSubscriptionIn\<close> and the writes around it): the guards
  checked in the write itself under the licence row lock, the stamp that lets the newest read win,
  the plan and seats a downgrade holds, and the subscription rows that follow the licence
  (\<^verbatim>\<open>internal/store/subscription.go\<close> and the cancel state). Each write is one transaction, one step.
  A write names the columns it takes from its copy of the licence.
\<close>

abbreviation SuspendedByAdmin :: string where "SuspendedByAdmin \<equiv> ''admin''"
abbreviation SuspendedByStripe :: string where "SuspendedByStripe \<equiv> ''stripe''"

section \<open>Writing columns of a licence\<close>

datatype lic_column =
    C_status | C_plan_id | C_quantity | C_valid_until | C_updates_until | C_canceled_at
  | C_suspended_at | C_suspended_by | C_past_due_at | C_stripe_subscription_id | C_stripe_customer_id
  | C_stripe_synced_at | C_stripe_pending_update_expires_at | C_updates_terms_set | C_payment_provider
  | C_stripe_payment_intent_id | C_stripe_checkout_session_id | C_updated_at

fun set_col :: "License \<Rightarrow> lic_column \<Rightarrow> License \<Rightarrow> License" where
  "set_col src C_status r = r\<lparr>lic_Status := lic_Status src\<rparr>"
| "set_col src C_plan_id r = r\<lparr>lic_PlanID := lic_PlanID src\<rparr>"
| "set_col src C_quantity r = r\<lparr>lic_Quantity := lic_Quantity src\<rparr>"
| "set_col src C_valid_until r = r\<lparr>lic_ValidUntil := lic_ValidUntil src\<rparr>"
| "set_col src C_updates_until r = r\<lparr>lic_UpdatesUntil := lic_UpdatesUntil src\<rparr>"
| "set_col src C_canceled_at r = r\<lparr>lic_CanceledAt := lic_CanceledAt src\<rparr>"
| "set_col src C_suspended_at r = r\<lparr>lic_SuspendedAt := lic_SuspendedAt src\<rparr>"
| "set_col src C_suspended_by r = r\<lparr>lic_SuspendedBy := lic_SuspendedBy src\<rparr>"
| "set_col src C_past_due_at r = r\<lparr>lic_PastDueAt := lic_PastDueAt src\<rparr>"
| "set_col src C_stripe_subscription_id r = r\<lparr>lic_StripeSubscriptionID := lic_StripeSubscriptionID src\<rparr>"
| "set_col src C_stripe_customer_id r = r\<lparr>lic_StripeCustomerID := lic_StripeCustomerID src\<rparr>"
| "set_col src C_stripe_synced_at r = r\<lparr>lic_StripeSyncedAt := lic_StripeSyncedAt src\<rparr>"
| "set_col src C_stripe_pending_update_expires_at r =
     r\<lparr>lic_StripePendingUpdateExpiresAt := lic_StripePendingUpdateExpiresAt src\<rparr>"
| "set_col src C_updates_terms_set r = r\<lparr>lic_UpdatesTermsSet := lic_UpdatesTermsSet src\<rparr>"
| "set_col src C_payment_provider r = r\<lparr>lic_PaymentProvider := lic_PaymentProvider src\<rparr>"
| "set_col src C_stripe_payment_intent_id r = r\<lparr>lic_StripePaymentIntentID := lic_StripePaymentIntentID src\<rparr>"
| "set_col src C_stripe_checkout_session_id r = r\<lparr>lic_StripeCheckoutSessionID := lic_StripeCheckoutSessionID src\<rparr>"
| "set_col src C_updated_at r = r\<lparr>lic_UpdatedAt := lic_UpdatedAt src\<rparr>"

definition set_cols :: "License \<Rightarrow> lic_column list \<Rightarrow> License \<Rightarrow> License" where
  "set_cols src cols r = fold (set_col src) cols r"

text \<open>
  The columns of the rows a statement hits, with the triggers that run for the plan and for the end
  of updates; \<open>None\<close> when one of them refuses a row.
\<close>

definition write_columns :: "env \<Rightarrow> lic_column list \<Rightarrow> (License \<Rightarrow> bool) \<Rightarrow> License \<Rightarrow> db \<Rightarrow> db option" where
  "write_columns e cols hit src d =
     (if C_plan_id \<in> set cols then update_plan_rows e hit (set_cols src cols) d
      else if C_updates_until \<in> set cols \<and>
              exists_where (\<lambda>r. hit r \<and> licenses_require_gated_feed d r (set_cols src cols r)) (db_licenses d) then None
      else Some (d\<lparr>db_licenses := update_where hit (set_cols src cols) (db_licenses d)\<rparr>))"

definition written_as :: "env \<Rightarrow> db \<Rightarrow> License \<Rightarrow> lic_column list \<Rightarrow> License \<Rightarrow> License" where
  "written_as e d src cols r =
     (if C_plan_id \<in> set cols then licenses_init_updates_until e d r (set_cols src cols r) else set_cols src cols r)"

text \<open>A checkout session belongs to one licence: a unique index refuses the second.\<close>

definition UpdateLicenseIn :: "env \<Rightarrow> License \<Rightarrow> lic_column list \<Rightarrow> db \<Rightarrow> unit result \<times> db" where
  "UpdateLicenseIn e l cols d =
     (let l = l\<lparr>lic_UpdatedAt := env_now e\<rparr>; cols = cols @ [C_updated_at] in
      if db_fault d then (Inl ErrDB, d)
      else case write_columns e cols (\<lambda>r. lic_ID r = lic_ID l) l d of
        None \<Rightarrow> (Inl ErrDB, d)
      | Some d1 \<Rightarrow>
          if C_stripe_checkout_session_id \<in> set cols \<and> lic_StripeCheckoutSessionID l \<noteq> '''' \<and>
             exists_where (\<lambda>r. lic_ID r \<noteq> lic_ID l \<and> lic_StripeCheckoutSessionID r = lic_StripeCheckoutSessionID l) (db_licenses d)
          then (Inl ErrCheckoutSessionConflict, d)
          else (Inr (), d1))"

text \<open>A row read with no relation loaded.\<close>

definition bare_license :: "License \<Rightarrow> License" where
  "bare_license l = l\<lparr>lic_Product := None, lic_Plan := None, lic_KeySeat := None, lic_KeySeatPaused := False\<rparr>"

definition FindLicenseByStripeSubscription :: "string \<Rightarrow> db \<Rightarrow> License result" where
  "FindLicenseByStripeSubscription subID d =
     (if db_fault d then Inl ErrDB
      else case select_one (\<lambda>l. subID \<noteq> '''' \<and> lic_StripeSubscriptionID l = subID) (db_licenses d) of
        None \<Rightarrow> Inl ErrNoRows | Some l \<Rightarrow> Inr (bare_license l))"

section \<open>The guarded write\<close>

text \<open>The row as a write found it under the lock, on the struct as \<^verbatim>\<open>Was...\<close> fields.\<close>

record Found =
  fd_WasStripePaused :: bool
  fd_WasCanceled :: bool
  fd_WasExpired :: bool
  fd_WasRevoked :: bool
  fd_WasPastDue :: bool
  fd_PriorPastDueAt :: "time option"

definition nothing_found :: Found where
  "nothing_found = \<lparr>fd_WasStripePaused = False, fd_WasCanceled = False, fd_WasExpired = False, fd_WasRevoked = False,
     fd_WasPastDue = False, fd_PriorPastDueAt = None\<rparr>"

definition found_of :: "License \<Rightarrow> Found" where
  "found_of r = \<lparr>fd_WasStripePaused = (lic_Status r = StatusSuspended \<and> lic_SuspendedBy r = SuspendedByStripe),
     fd_WasCanceled = (lic_Status r = StatusCanceled), fd_WasExpired = (lic_Status r = StatusExpired),
     fd_WasRevoked = (lic_Status r = StatusRevoked), fd_WasPastDue = (lic_Status r = StatusPastDue),
     fd_PriorPastDueAt = lic_PastDueAt r\<rparr>"

definition suspended_by_other :: "License \<Rightarrow> bool" where
  "suspended_by_other r \<longleftrightarrow> lic_Status r = StatusSuspended \<and>
     (if lic_SuspendedBy r = '''' then SuspendedByAdmin else lic_SuspendedBy r) \<noteq> SuspendedByStripe"

definition live_status :: "string \<Rightarrow> bool" where
  "live_status st \<longleftrightarrow> st = StatusActive \<or> st = StatusTrialing \<or> st = StatusPastDue"

text \<open>The \<^verbatim>\<open>WHERE\<close> of the update, beside the primary key.\<close>

definition write_allowed :: "License \<Rightarrow> bool \<Rightarrow> time option \<Rightarrow> lic_column list \<Rightarrow> License \<Rightarrow> bool" where
  "write_allowed lic stillLinked asOf cols r \<longleftrightarrow>
     (stillLinked \<and> lic_StripeSubscriptionID lic \<noteq> '''' \<longrightarrow> lic_StripeSubscriptionID r = lic_StripeSubscriptionID lic) \<and>
     (case (asOf, lic_StripeSyncedAt r) of (Some t, Some s) \<Rightarrow> s \<le> t | _ \<Rightarrow> True) \<and>
     (stillLinked \<longrightarrow>
        lic_Status r \<noteq> StatusRevoked \<and>
        (C_valid_until \<in> set cols \<and> C_status \<notin> set cols \<longrightarrow>
           lic_Status r \<noteq> StatusCanceled \<and> lic_Status r \<noteq> StatusExpired \<and> lic_Status r \<noteq> StatusRevoked) \<and>
        (if live_status (lic_Status lic) then
           \<not> suspended_by_other r \<and>
           \<not> (lic_Status r = StatusCanceled \<and> lic_SuspendedBy r = SuspendedByAdmin) \<and>
           (asOf = None \<longrightarrow> lic_Status r \<noteq> StatusCanceled) \<and>
           (lic_Status lic = StatusPastDue \<longrightarrow> \<not> (lic_Status r = StatusExpired \<and> lic_PastDueAt r \<noteq> None))
         else if lic_Status lic = StatusSuspended then
           lic_Status r \<noteq> StatusCanceled \<and> \<not> suspended_by_other r
         else True))"

text \<open>The copy and the columns as they are written: kept starts, a pause that ends with the subscription, the stamp.\<close>

definition prepare_write :: "env \<Rightarrow> License \<Rightarrow> time option \<Rightarrow> lic_column list \<Rightarrow> License option \<Rightarrow> License \<times> lic_column list" where
  "prepare_write e lic asOf cols prior =
     (let found = (case prior of None \<Rightarrow> nothing_found | Some r \<Rightarrow> found_of r);
          lic = (case prior of
             Some r \<Rightarrow>
               if lic_Status lic = StatusPastDue \<and> fd_WasPastDue found \<and> lic_PastDueAt r \<noteq> None \<and> C_past_due_at \<in> set cols
               then lic\<lparr>lic_PastDueAt := lic_PastDueAt r\<rparr> else lic
           | None \<Rightarrow> lic);
          lic = (case prior of
             Some r \<Rightarrow>
               if lic_Status lic = StatusSuspended \<and> fd_WasStripePaused found \<and> lic_SuspendedAt r \<noteq> None \<and> C_suspended_at \<in> set cols
               then lic\<lparr>lic_SuspendedAt := lic_SuspendedAt r\<rparr> else lic
           | None \<Rightarrow> lic);
          lic = lic\<lparr>lic_UpdatedAt := env_now e\<rparr>;
          ends_pause = (lic_Status lic = StatusCanceled \<and> fd_WasStripePaused found \<and> C_suspended_by \<notin> set cols);
          lic = (if ends_pause then lic\<lparr>lic_SuspendedAt := None, lic_SuspendedBy := ''''\<rparr> else lic);
          lic = (case asOf of None \<Rightarrow> lic | Some t \<Rightarrow> lic\<lparr>lic_StripeSyncedAt := Some t\<rparr>)
      in (lic, cols @ [C_updated_at] @ (if ends_pause then [C_suspended_at, C_suspended_by] else []) @
               (if asOf \<noteq> None then [C_stripe_synced_at] else [])))"

text \<open>Why a write that hit no row did not: unlinked, stale or restricted.\<close>

definition refusal :: "License \<Rightarrow> time option \<Rightarrow> License option \<Rightarrow> error" where
  "refusal lic asOf prior =
     (case prior of
        None \<Rightarrow> ErrSubscriptionUnlinked
      | Some r \<Rightarrow>
          if lic_StripeSubscriptionID r \<noteq> lic_StripeSubscriptionID lic then ErrSubscriptionUnlinked
          else (case (asOf, lic_StripeSyncedAt r) of
                  (Some t, Some s) \<Rightarrow> if s > t then ErrStaleSubscriptionRead else ErrLicenseRestricted
                | _ \<Rightarrow> ErrLicenseRestricted))"

definition syncSubscriptionStatus :: "env \<Rightarrow> string \<Rightarrow> string \<Rightarrow> db \<Rightarrow> db" where
  "syncSubscriptionStatus e licenseID status d =
     d\<lparr>db_subscriptions := update_where (\<lambda>s. sub_LicenseID s = licenseID \<and> sub_Status s \<noteq> status)
        (\<lambda>s. s\<lparr>sub_Status := status, sub_UpdatedAt := env_dbnow e\<rparr>) (db_subscriptions d)\<rparr>"

definition updateLicenseAndSubscriptionIn ::
  "env \<Rightarrow> License \<Rightarrow> bool \<Rightarrow> time option \<Rightarrow> lic_column list \<Rightarrow> db \<Rightarrow> unit result \<times> (License \<times> Found) \<times> db" where
  "updateLicenseAndSubscriptionIn e lic stillLinked asOf cols d =
     (if db_fault d then (Inl ErrDB, (lic, nothing_found), d)
      else
        let prior = license_row d (lic_ID lic);
            found = (case prior of None \<Rightarrow> nothing_found | Some r \<Rightarrow> found_of r);
            (lic', allCols) = prepare_write e lic asOf cols prior;
            hit = (\<lambda>r. lic_ID r = lic_ID lic \<and> write_allowed lic stillLinked asOf cols r);
            n = count_where hit (db_licenses d)
        in if n = 0 \<and> (asOf \<noteq> None \<or> stillLinked) then (Inl (refusal lic asOf prior), (lic', found), d)
           else case write_columns e allCols hit lic' d of
             None \<Rightarrow> (Inl ErrDB, (lic', found), d)
           | Some d1 \<Rightarrow>
             let d = d1;
                 d = (if n > 0 \<and> C_status \<in> set cols then snd (endFloatingSessionsIfStoppedIn (lic_ID lic) (lic_Status lic) d) else d);
                 d = (if C_status \<in> set cols then syncSubscriptionStatus e (lic_ID lic) (lic_Status lic) d else d);
                 d = (if C_plan_id \<in> set cols then syncSubscriptionPlanIn e (lic_ID lic) (lic_PlanID lic) d else d)
             in (Inr (), (lic', found), d))"

section \<open>The writes the payment code makes\<close>

text \<open>The database's clock, read before Stripe is asked.\<close>

definition StripeReadStamp :: "env \<Rightarrow> db \<Rightarrow> time result" where
  "StripeReadStamp e d = (if db_fault d then Inl ErrDB else Inr (env_clock e))"

definition UpdateLicenseAndSubscription ::
  "env \<Rightarrow> License \<Rightarrow> lic_column list \<Rightarrow> db \<Rightarrow> unit result \<times> (License \<times> Found) \<times> db" where
  "UpdateLicenseAndSubscription e lic cols d = updateLicenseAndSubscriptionIn e lic False None cols d"

definition UpdateLicenseFromSubscription ::
  "env \<Rightarrow> License \<Rightarrow> lic_column list \<Rightarrow> db \<Rightarrow> unit result \<times> (License \<times> Found) \<times> db" where
  "UpdateLicenseFromSubscription e lic cols d = updateLicenseAndSubscriptionIn e lic True None cols d"

definition UpdateLicenseFromSubscriptionRead ::
  "env \<Rightarrow> License \<Rightarrow> time \<Rightarrow> lic_column list \<Rightarrow> db \<Rightarrow> unit result \<times> (License \<times> Found) \<times> db" where
  "UpdateLicenseFromSubscriptionRead e lic asOf cols d = updateLicenseAndSubscriptionIn e lic True (Some asOf) cols d"

definition UpdateLicenseFromSubscriptionEnded ::
  "env \<Rightarrow> License \<Rightarrow> time \<Rightarrow> lic_column list \<Rightarrow> db \<Rightarrow> unit result \<times> (License \<times> Found) \<times> db" where
  "UpdateLicenseFromSubscriptionEnded e lic asOf cols d =
     (let recorded = (case license_row d (lic_ID lic) of None \<Rightarrow> None | Some r \<Rightarrow> lic_StripeSyncedAt r);
          stamp = (case recorded of Some s \<Rightarrow> if s > asOf then s else asOf | None \<Rightarrow> asOf)
      in updateLicenseAndSubscriptionIn e (lic\<lparr>lic_StripeSyncedAt := Some stamp\<rparr>) True None (cols @ [C_stripe_synced_at]) d)"

definition terms_held :: "time \<Rightarrow> License \<Rightarrow> bool" where
  "terms_held now r \<longleftrightarrow> (case lic_TermsHeldUntil r of None \<Rightarrow> False | Some until \<Rightarrow> until > now)"

definition clear_hold :: "(License \<Rightarrow> bool) \<Rightarrow> License list \<Rightarrow> License list" where
  "clear_hold P = update_where P (\<lambda>r. r\<lparr>lic_TermsHeldUntil := None, lic_TermsCheckAfter := None\<rparr>)"

definition shows_terms :: "License \<Rightarrow> lic_column list \<Rightarrow> License \<Rightarrow> bool" where
  "shows_terms lic cols row \<longleftrightarrow> lic_Quantity lic = lic_Quantity row \<and> (C_plan_id \<notin> set cols \<or> lic_PlanID lic = lic_PlanID row)"

definition held_cols :: "lic_column list \<Rightarrow> lic_column list" where
  "held_cols cols = filter (\<lambda>c. c \<noteq> C_plan_id \<and> c \<noteq> C_quantity) cols"

text \<open>The terms Stripe bills, taken by a licence that refuses the rest; \<open>Inr None\<close> when no row took them.\<close>

definition take_terms :: "env \<Rightarrow> License \<Rightarrow> string \<Rightarrow> time \<Rightarrow> db \<Rightarrow> db option result" where
  "take_terms e lic planID asOf d =
     (let takes = (\<lambda>r. lic_ID r = lic_ID lic \<and> lic_StripeSubscriptionID lic \<noteq> '''' \<and>
            lic_StripeSubscriptionID r = lic_StripeSubscriptionID lic \<and>
            (case lic_StripeSyncedAt r of None \<Rightarrow> True | Some s \<Rightarrow> s \<le> asOf))
      in if \<not> exists_where takes (db_licenses d) then Inr None
         else case update_plan_rows e takes (\<lambda>r. r\<lparr>lic_Quantity := lic_Quantity lic, lic_PlanID := planID,
                  lic_StripeSyncedAt := Some asOf, lic_UpdatedAt := env_dbnow e\<rparr>) d of
           None \<Rightarrow> Inl ErrDB
         | Some d1 \<Rightarrow> Inr (Some (syncSubscriptionPlanIn e (lic_ID lic) planID d1)))"

definition end_hold :: "string \<Rightarrow> db \<Rightarrow> db" where
  "end_hold licenseID d =
     d\<lparr>db_licenses := clear_hold (\<lambda>r. lic_ID r = licenseID \<and> lic_TermsHeldUntil r \<noteq> None) (db_licenses d)\<rparr>"

text \<open>The terms before the write, whether they were written, and the error.\<close>

definition UpdateLicenseFromSubscriptionReadTerms ::
  "env \<Rightarrow> License \<Rightarrow> time \<Rightarrow> lic_column list \<Rightarrow> db \<Rightarrow> (LicenseTerms \<times> bool \<times> unit result) \<times> (License \<times> Found) \<times> db" where
  "UpdateLicenseFromSubscriptionReadTerms e lic asOf cols d =
     (let no_terms = \<lparr>lt_PlanID = '''', lt_Quantity = 0\<rparr> in
      if db_fault d then ((no_terms, False, Inl ErrDB), (lic, nothing_found), d)
      else case license_row d (lic_ID lic) of
        None \<Rightarrow> ((no_terms, False, Inl ErrSubscriptionUnlinked), (lic, nothing_found), d)
      | Some row \<Rightarrow>
          let before = \<lparr>lt_PlanID = lic_PlanID row, lt_Quantity = lic_Quantity row\<rparr>;
              rowHeld = terms_held (env_clock e) row;
              held = (rowHeld \<and> \<not> shows_terms lic cols row);
              written = (\<not> rowHeld \<or> shows_terms lic cols row);
              cols = (if held then held_cols cols else cols)
          in case updateLicenseAndSubscriptionIn e lic True (Some asOf) cols d of
            (Inr (), lf, d1) \<Rightarrow>
              ((before, written, if held then Inl ErrTermsHeld else Inr ()), lf,
               if C_quantity \<in> set cols then end_hold (lic_ID lic) d1 else d1)
          | (Inl err, lf, _) \<Rightarrow>
              if err = ErrLicenseRestricted \<and> C_quantity \<in> set cols then
                (case take_terms e lic (if C_plan_id \<in> set cols then lic_PlanID lic else lt_PlanID before) asOf d of
                   Inl qerr \<Rightarrow> ((before, False, Inl qerr), lf, d)
                 | Inr None \<Rightarrow> ((before, False, Inl err), lf, d)
                 | Inr (Some d') \<Rightarrow> ((before, written, Inl ErrLicenseRestricted), lf, d'))
              else ((before, False, Inl err), lf, d))"

section \<open>Terms a downgrade holds\<close>

record LapsedTermHold =
  lh_LicenseID :: string
  lh_Until :: time

definition LicenseTermsHeld :: "env \<Rightarrow> string \<Rightarrow> db \<Rightarrow> bool result" where
  "LicenseTermsHeld e licenseID d =
     (if db_fault d then Inl ErrDB
      else case license_row d licenseID of None \<Rightarrow> Inl ErrNoRows | Some r \<Rightarrow> Inr (terms_held (env_clock e) r))"

text \<open>\<^verbatim>\<open>ORDER BY terms_check_after NULLS FIRST, terms_held_until\<close>: the sort is stable.\<close>

definition FindLapsedTermHolds :: "env \<Rightarrow> nat \<Rightarrow> db \<Rightarrow> LapsedTermHold list result" where
  "FindLapsedTermHolds e limit d =
     (let at_end = (\<lambda>r. case lic_TermsHeldUntil r of None \<Rightarrow> 0 | Some t \<Rightarrow> t);
          check = (\<lambda>r. case lic_TermsCheckAfter r of None \<Rightarrow> 0 | Some t \<Rightarrow> t);
          lapsed = filter (\<lambda>r. lic_TermsHeldUntil r \<noteq> None \<and> at_end r \<le> env_clock e \<and>
            (lic_TermsCheckAfter r = None \<or> check r \<le> env_clock e)) (db_licenses d);
          byEnd = sort_key at_end lapsed
      in if db_fault d then Inl ErrDB
         else Inr (take limit (map (\<lambda>r. \<lparr>lh_LicenseID = lic_ID r, lh_Until = at_end r\<rparr>)
           (filter (\<lambda>r. lic_TermsCheckAfter r = None) byEnd @
            sort_key check (filter (\<lambda>r. lic_TermsCheckAfter r \<noteq> None) byEnd)))))"

definition is_hold :: "LapsedTermHold \<Rightarrow> License \<Rightarrow> bool" where
  "is_hold h r \<longleftrightarrow> lic_ID r = lh_LicenseID h \<and> lic_TermsHeldUntil r = Some (lh_Until h)"

definition PostponeTermsCheck :: "env \<Rightarrow> LapsedTermHold \<Rightarrow> duration \<Rightarrow> db \<Rightarrow> unit result \<times> db" where
  "PostponeTermsCheck e h after d =
     (if db_fault d then (Inl ErrDB, d)
      else (Inr (), d\<lparr>db_licenses := update_where (is_hold h) (\<lambda>r. r\<lparr>lic_TermsCheckAfter := Some (env_clock e + after)\<rparr>) (db_licenses d)\<rparr>))"

definition SettleLapsedHold :: "LapsedTermHold \<Rightarrow> db \<Rightarrow> unit result \<times> db" where
  "SettleLapsedHold h d =
     (if db_fault d then (Inl ErrDB, d) else (Inr (), d\<lparr>db_licenses := clear_hold (is_hold h) (db_licenses d)\<rparr>))"

definition ReleaseLicenseTerms :: "string \<Rightarrow> db \<Rightarrow> unit result \<times> db" where
  "ReleaseLicenseTerms licenseID d =
     (if db_fault d then (Inl ErrDB, d)
      else (Inr (), d\<lparr>db_licenses := clear_hold (\<lambda>r. lic_ID r = licenseID) (db_licenses d)\<rparr>))"

section \<open>Subscription rows\<close>

definition subscriptions_of :: "string \<Rightarrow> db \<Rightarrow> Subscription list" where
  "subscriptions_of licenseID d = filter (\<lambda>s. sub_LicenseID s = licenseID) (db_subscriptions d)"

definition newest_subscription :: "Subscription list \<Rightarrow> Subscription option" where
  "newest_subscription subs = first_by (\<lambda>s. - sub_CreatedAt s) subs"

definition FindSubscriptionByLicense :: "string \<Rightarrow> db \<Rightarrow> Subscription result" where
  "FindSubscriptionByLicense licenseID d =
     (if db_fault d then Inl ErrDB
      else case newest_subscription (subscriptions_of licenseID d) of None \<Rightarrow> Inl ErrNoRows | Some s \<Rightarrow> Inr s)"

definition FindSubscriptionByID :: "string \<Rightarrow> db \<Rightarrow> Subscription result" where
  "FindSubscriptionByID sid d =
     (if db_fault d then Inl ErrDB
      else case select_one (\<lambda>s. sub_ID s = sid) (db_subscriptions d) of None \<Rightarrow> Inl ErrNoRows | Some s \<Rightarrow> Inr s)"

definition FindSubscriptionByExternal :: "string \<Rightarrow> string \<Rightarrow> db \<Rightarrow> Subscription result" where
  "FindSubscriptionByExternal provider externalID d =
     (if db_fault d then Inl ErrDB
      else case select_one (\<lambda>s. sub_PaymentProvider s = provider \<and> sub_ExternalID s = externalID) (db_subscriptions d) of
        None \<Rightarrow> Inl ErrNoRows | Some s \<Rightarrow> Inr s)"

text \<open>The insert: an unset creation or change time takes the column's default, a row that breaks a key is refused.\<close>

definition insert_subscription :: "env \<Rightarrow> Subscription \<Rightarrow> db \<Rightarrow> db result" where
  "insert_subscription e sub d =
     (let now = (\<lambda>t. if t = time_zero then env_dbnow e else t) in
      if exists_where (\<lambda>s. sub_ID s = sub_ID sub) (db_subscriptions d) \<or> license_row d (sub_LicenseID sub) = None \<or>
         \<not> exists_where (\<lambda>p. plan_ID p = sub_PlanID sub) (db_plans d)
      then Inl ErrDB
      else Inr (d\<lparr>db_subscriptions := db_subscriptions d @
             [sub\<lparr>sub_CreatedAt := now (sub_CreatedAt sub), sub_UpdatedAt := now (sub_UpdatedAt sub)\<rparr>]\<rparr>))"

definition CreateSubscription :: "env \<Rightarrow> Subscription \<Rightarrow> db \<Rightarrow> unit result \<times> db" where
  "CreateSubscription e sub d =
     (let sub = (if sub_ID sub = '''' then sub\<lparr>sub_ID := env_newID e 0\<rparr> else sub) in
      if db_fault d then (Inl ErrDB, d)
      else case insert_subscription e sub d of Inl err \<Rightarrow> (Inl err, d) | Inr d' \<Rightarrow> (Inr (), d'))"

definition trial_window :: "env \<Rightarrow> Plan \<Rightarrow> time option \<Rightarrow> Subscription \<Rightarrow> Subscription" where
  "trial_window e plan validUntil sub =
     (if plan_LicenseType plan = ''trial'' \<and> validUntil \<noteq> None then
        (if SameEnd (sub_TrialEnd sub) validUntil then sub
         else sub\<lparr>sub_TrialStart := (if sub_TrialStart sub = None then Some (env_now e) else sub_TrialStart sub),
                  sub_TrialEnd := validUntil\<rparr>)
      else if sub_TrialStart sub \<noteq> None \<or> sub_TrialEnd sub \<noteq> None then sub\<lparr>sub_TrialStart := None, sub_TrialEnd := None\<rparr>
      else sub)"

definition SyncLicenseSubscriptionIn ::
  "env \<Rightarrow> string \<Rightarrow> Plan option \<Rightarrow> string \<Rightarrow> time option \<Rightarrow> db \<Rightarrow> unit result \<times> db" where
  "SyncLicenseSubscriptionIn e licenseID plan status validUntil d =
     (case plan of
        None \<Rightarrow> (Inr (), d)
      | Some plan \<Rightarrow>
          if db_fault d then (Inl ErrDB, d)
          else (case newest_subscription (subscriptions_of licenseID d) of
             None \<Rightarrow>
               if plan_LicenseType plan \<noteq> ''subscription'' \<and> plan_LicenseType plan \<noteq> ''trial'' then (Inr (), d)
               else
                 let sub = zero_Subscription\<lparr>sub_ID := env_newID e 0, sub_LicenseID := licenseID,
                       sub_PlanID := plan_ID plan, sub_Status := status\<rparr>;
                     sub = (if plan_LicenseType plan = ''trial'' \<and> validUntil \<noteq> None
                            then sub\<lparr>sub_TrialStart := Some (env_now e), sub_TrialEnd := validUntil\<rparr> else sub)
                 in (case insert_subscription e sub d of Inl err \<Rightarrow> (Inl err, d) | Inr d' \<Rightarrow> (Inr (), d'))
           | Some sub \<Rightarrow>
               (Inr (), d\<lparr>db_subscriptions := update_where (\<lambda>s. sub_ID s = sub_ID sub)
                  (\<lambda>s. (trial_window e plan validUntil s)\<lparr>sub_PlanID := plan_ID plan, sub_Status := status,
                          sub_UpdatedAt := env_now e\<rparr>) (db_subscriptions d)\<rparr>)))"

section \<open>Whether a subscription renews\<close>

text \<open>The newest recorded state: \<open>None\<close> when nothing has been recorded.\<close>

definition cancelStateSQL :: "db \<Rightarrow> License \<Rightarrow> bool option" where
  "cancelStateSQL d l = map_option sub_CancelAtPeriodEnd
     (newest_subscription (filter (\<lambda>s. sub_CancelStateSyncedAt s \<noteq> None) (subscriptions_of (lic_ID l) d)))"

definition newest_sync :: "Subscription list \<Rightarrow> time option" where
  "newest_sync subs = foldl (\<lambda>m s. case (m, sub_CancelStateSyncedAt s) of
      (None, t) \<Rightarrow> t | (Some a, None) \<Rightarrow> Some a | (Some a, Some b) \<Rightarrow> Some (max a b)) None subs"

definition setCancelState :: "env \<Rightarrow> string \<Rightarrow> bool \<Rightarrow> time \<Rightarrow> bool \<Rightarrow> db \<Rightarrow> unit result \<times> db" where
  "setCancelState e licenseID scheduled asOf onlyIfUnknown d =
     (if db_fault d then (Inl ErrDB, d)
      else case license_row d licenseID of
        None \<Rightarrow> (Inr (), d)
      | Some l \<Rightarrow>
          if (case newest_sync (subscriptions_of licenseID d) of
                Some recorded \<Rightarrow> onlyIfUnknown \<or> \<not> asOf > recorded | None \<Rightarrow> False) then (Inr (), d)
          else if subscriptions_of licenseID d \<noteq> []
          then (Inr (), d\<lparr>db_subscriptions := update_where (\<lambda>s. sub_LicenseID s = licenseID)
            (\<lambda>s. s\<lparr>sub_CancelAtPeriodEnd := scheduled, sub_CancelStateSyncedAt := Some asOf, sub_UpdatedAt := env_dbnow e\<rparr>)
            (db_subscriptions d)\<rparr>)
          else (case insert_subscription e (zero_Subscription\<lparr>sub_ID := env_newID e 0, sub_LicenseID := licenseID,
                  sub_PlanID := lic_PlanID l, sub_Status := lic_Status l, sub_PaymentProvider := ''stripe'',
                  sub_ExternalID := lic_StripeSubscriptionID l, sub_CancelAtPeriodEnd := scheduled,
                  sub_CancelStateSyncedAt := Some asOf\<rparr>) d of
                Inl err \<Rightarrow> (Inl err, d) | Inr d' \<Rightarrow> (Inr (), d')))"

definition SetSubscriptionCancelScheduled :: "env \<Rightarrow> string \<Rightarrow> bool \<Rightarrow> time \<Rightarrow> db \<Rightarrow> unit result \<times> db" where
  "SetSubscriptionCancelScheduled e licenseID scheduled asOf d = setCancelState e licenseID scheduled asOf False d"

definition RecordSubscriptionCancelStateIfUnknown :: "env \<Rightarrow> string \<Rightarrow> bool \<Rightarrow> time \<Rightarrow> db \<Rightarrow> unit result \<times> db" where
  "RecordSubscriptionCancelStateIfUnknown e licenseID scheduled asOf d = setCancelState e licenseID scheduled asOf True d"

definition CancelScheduledLicenses :: "string list \<Rightarrow> db \<Rightarrow> string list result" where
  "CancelScheduledLicenses licenseIDs d =
     (if licenseIDs = [] then Inr []
      else if db_fault d then Inl ErrDB
      else Inr (map lic_ID (filter (\<lambda>l. lic_ID l \<in> set licenseIDs \<and> lic_StripeSubscriptionID l \<noteq> '''' \<and>
             live_status (lic_Status l) \<and> cancelStateSQL d l = Some True) (db_licenses d))))"

text \<open>The place of a target in the walk: its end, \<^verbatim>\<open>infinity\<close> (\<open>None\<close>) last, then its identifier.\<close>

record StripeCancelStateTarget =
  ct_LicenseID :: string
  ct_SubscriptionID :: string
  ct_SortKey :: "time option"

definition walk_before :: "time option \<times> string \<Rightarrow> time option \<times> string \<Rightarrow> bool" where
  "walk_before a b \<longleftrightarrow> (case (fst a, fst b) of
      (Some t, Some u) \<Rightarrow> t < u \<or> (t = u \<and> snd a < snd b)
    | (Some _, None) \<Rightarrow> True
    | (None, Some _) \<Rightarrow> False
    | (None, None) \<Rightarrow> snd a < snd b)"

definition FindStripeCancelStatesToSync ::
  "StripeCancelStateTarget option \<Rightarrow> nat \<Rightarrow> db \<Rightarrow> StripeCancelStateTarget list result" where
  "FindStripeCancelStatesToSync after limit d =
     (let unknown = filter (\<lambda>l. lic_StripeSubscriptionID l \<noteq> '''' \<and> live_status (lic_Status l) \<and>
            \<not> exists_where (\<lambda>s. sub_LicenseID s = lic_ID l \<and> sub_CancelStateSyncedAt s \<noteq> None) (db_subscriptions d) \<and>
            (case after of None \<Rightarrow> True
             | Some t \<Rightarrow> walk_before (ct_SortKey t, ct_LicenseID t) (lic_ValidUntil l, lic_ID l))) (db_licenses d);
          ordered = sort_key (\<lambda>l. JoinKey (case lic_ValidUntil l of None \<Rightarrow> 0 | Some t \<Rightarrow> t) (lic_ID l))
                      (filter (\<lambda>l. lic_ValidUntil l \<noteq> None) unknown) @
                    sort_key lic_ID (filter (\<lambda>l. lic_ValidUntil l = None) unknown)
      in if db_fault d then Inl ErrDB
         else Inr (take limit (map (\<lambda>l. \<lparr>ct_LicenseID = lic_ID l, ct_SubscriptionID = lic_StripeSubscriptionID l,
                ct_SortKey = lic_ValidUntil l\<rparr>) ordered)))"

definition SyncSubscriptionStatuses :: "env \<Rightarrow> db \<Rightarrow> unit result \<times> db" where
  "SyncSubscriptionStatuses e d =
     (let ended = (\<lambda>s. case license_row d (sub_LicenseID s) of
            Some l \<Rightarrow> if sub_Status s \<noteq> lic_Status l \<and>
                        (lic_Status l = StatusExpired \<or> lic_Status l = StatusCanceled \<or> lic_Status l = StatusRevoked)
                     then Some (lic_Status l) else None
          | None \<Rightarrow> None)
      in if db_fault d then (Inl ErrDB, d)
         else (Inr (), d\<lparr>db_subscriptions := update_where (\<lambda>s. ended s \<noteq> None)
                 (\<lambda>s. s\<lparr>sub_Status := (case ended s of Some st \<Rightarrow> st | None \<Rightarrow> sub_Status s), sub_UpdatedAt := env_dbnow e\<rparr>)
                 (db_subscriptions d)\<rparr>))"

section \<open>What a write leaves of the row\<close>

lemma set_cols_Nil [simp]: "set_cols src [] r = r"
  and set_cols_Cons [simp]: "set_cols src (c # cols) r = set_cols src cols (set_col src c r)"
  by (simp_all add: set_cols_def)

lemma set_col_keeps [simp]:
  "lic_ID (set_col src c r) = lic_ID r" "lic_ProductID (set_col src c r) = lic_ProductID r"
  "lic_Email (set_col src c r) = lic_Email r" "lic_KeyHash (set_col src c r) = lic_KeyHash r"
  "lic_TermsHeldUntil (set_col src c r) = lic_TermsHeldUntil r"
  by (cases c; simp)+

lemma set_cols_keeps [simp]:
  "lic_ID (set_cols src cols r) = lic_ID r" "lic_ProductID (set_cols src cols r) = lic_ProductID r"
  "lic_Email (set_cols src cols r) = lic_Email r" "lic_KeyHash (set_cols src cols r) = lic_KeyHash r"
  "lic_TermsHeldUntil (set_cols src cols r) = lic_TermsHeldUntil r"
  by (induction cols arbitrary: r) simp_all

lemma set_cols_written:
  "lic_Status (set_cols src cols r) = (if C_status \<in> set cols then lic_Status src else lic_Status r)"
  "lic_PlanID (set_cols src cols r) = (if C_plan_id \<in> set cols then lic_PlanID src else lic_PlanID r)"
  "lic_Quantity (set_cols src cols r) = (if C_quantity \<in> set cols then lic_Quantity src else lic_Quantity r)"
  "lic_ValidUntil (set_cols src cols r) = (if C_valid_until \<in> set cols then lic_ValidUntil src else lic_ValidUntil r)"
  "lic_SuspendedBy (set_cols src cols r) = (if C_suspended_by \<in> set cols then lic_SuspendedBy src else lic_SuspendedBy r)"
  "lic_PastDueAt (set_cols src cols r) = (if C_past_due_at \<in> set cols then lic_PastDueAt src else lic_PastDueAt r)"
  "lic_StripeSyncedAt (set_cols src cols r) =
     (if C_stripe_synced_at \<in> set cols then lic_StripeSyncedAt src else lic_StripeSyncedAt r)"
  "lic_StripeSubscriptionID (set_cols src cols r) =
     (if C_stripe_subscription_id \<in> set cols then lic_StripeSubscriptionID src else lic_StripeSubscriptionID r)"
proof (induction cols arbitrary: r)
  case (Cons c cols)
  { case 1 show ?case using Cons(1) by (cases c) simp_all }
  { case 2 show ?case using Cons(2) by (cases c) simp_all }
  { case 3 show ?case using Cons(3) by (cases c) simp_all }
  { case 4 show ?case using Cons(4) by (cases c) simp_all }
  { case 5 show ?case using Cons(5) by (cases c) simp_all }
  { case 6 show ?case using Cons(6) by (cases c) simp_all }
  { case 7 show ?case using Cons(7) by (cases c) simp_all }
  { case 8 show ?case using Cons(8) by (cases c) simp_all }
qed simp_all

lemma written_as_keeps [simp]:
  "lic_ID (written_as e d src cols r) = lic_ID r" "lic_ProductID (written_as e d src cols r) = lic_ProductID r"
  "lic_KeyHash (written_as e d src cols r) = lic_KeyHash r" "lic_TermsHeldUntil (written_as e d src cols r) = lic_TermsHeldUntil r"
  by (simp_all add: written_as_def)

lemma written_as_fields [simp]:
  "lic_Status (written_as e d src cols r) = lic_Status (set_cols src cols r)"
  "lic_PlanID (written_as e d src cols r) = lic_PlanID (set_cols src cols r)"
  "lic_Quantity (written_as e d src cols r) = lic_Quantity (set_cols src cols r)"
  "lic_ValidUntil (written_as e d src cols r) = lic_ValidUntil (set_cols src cols r)"
  "lic_SuspendedBy (written_as e d src cols r) = lic_SuspendedBy (set_cols src cols r)"
  "lic_PastDueAt (written_as e d src cols r) = lic_PastDueAt (set_cols src cols r)"
  "lic_StripeSyncedAt (written_as e d src cols r) = lic_StripeSyncedAt (set_cols src cols r)"
  "lic_StripeSubscriptionID (written_as e d src cols r) = lic_StripeSubscriptionID (set_cols src cols r)"
  by (simp_all add: written_as_def)

lemma written_as_terms: "\<exists>u b. written_as e d src cols r = (set_cols src cols r)\<lparr>lic_UpdatesUntil := u, lic_UpdatesTermsSet := b\<rparr>"
  by (intro exI [of _ "lic_UpdatesUntil (written_as e d src cols r)"] exI [of _ "lic_UpdatesTermsSet (written_as e d src cols r)"])
     (simp add: written_as_def licenses_init_updates_until_def)

lemma write_columns_licenses:
  "write_columns e cols hit src d = Some d' \<Longrightarrow> db_licenses d' = update_where hit (written_as e d src cols) (db_licenses d)"
  by (auto simp: write_columns_def written_as_def update_where_def update_plan_rows_licenses [where f = "set_cols src cols"] split: if_splits)

lemma write_columns_frame:
  "write_columns e cols hit src d = Some d' \<Longrightarrow> d' = d\<lparr>db_licenses := db_licenses d', db_renewals := db_renewals d'\<rparr>"
  by (auto simp: write_columns_def split: if_splits dest: update_plan_rows_frame)

lemma write_columns_keeps:
  assumes "write_columns e cols hit src d = Some d'"
  shows "db_upgrades d' = db_upgrades d" "db_plans d' = db_plans d" "db_fault d' = db_fault d"
  using assms by (auto simp: write_columns_def update_plan_rows_keeps split: if_splits)

lemma sync_status_frame [simp]:
  "db_licenses (syncSubscriptionStatus e lid st d) = db_licenses d"
  "db_fault (syncSubscriptionStatus e lid st d) = db_fault d"
  "db_plans (syncSubscriptionStatus e lid st d) = db_plans d"
  by (simp_all add: syncSubscriptionStatus_def)

lemma sync_plan_frame [simp]:
  "db_licenses (syncSubscriptionPlanIn e lid pid d) = db_licenses d"
  "db_fault (syncSubscriptionPlanIn e lid pid d) = db_fault d"
  "db_plans (syncSubscriptionPlanIn e lid pid d) = db_plans d"
  by (simp_all add: syncSubscriptionPlanIn_def)

lemma end_sessions_frame [simp]:
  "db_licenses (snd (endFloatingSessionsIfStoppedIn lid st d)) = db_licenses d"
  "db_fault (snd (endFloatingSessionsIfStoppedIn lid st d)) = db_fault d"
  "db_plans (snd (endFloatingSessionsIfStoppedIn lid st d)) = db_plans d"
  by (simp_all add: endFloatingSessionsIfStoppedIn_def)

text \<open>Either nothing changes, or the licence rows the guard lets through get the prepared columns.\<close>

abbreviation written_row :: "env \<Rightarrow> db \<Rightarrow> License \<Rightarrow> time option \<Rightarrow> lic_column list \<Rightarrow> License option \<Rightarrow> License \<Rightarrow> License" where
  "written_row e d lic asOf cols prior r \<equiv>
     written_as e d (fst (prepare_write e lic asOf cols prior)) (snd (prepare_write e lic asOf cols prior)) r"

lemma write_licenses:
  assumes "updateLicenseAndSubscriptionIn e lic linked asOf cols d = (res, lf, d')"
  shows "(\<exists>err. res = Inl err \<and> d' = d) \<or>
         (res = Inr () \<and> db_licenses d' = update_where (\<lambda>r. lic_ID r = lic_ID lic \<and> write_allowed lic linked asOf cols r)
            (written_row e d lic asOf cols (license_row d (lic_ID lic))) (db_licenses d))"
  using assms
  by (auto simp: updateLicenseAndSubscriptionIn_def Let_def split_beta write_columns_licenses split: if_splits option.splits)

lemma write_row:
  assumes "updateLicenseAndSubscriptionIn e lic linked asOf cols d = (res, lf, d')" and "license_row d lid = Some r"
  shows "license_row d' lid = Some r \<or>
         (lid = lic_ID lic \<and> res = Inr () \<and> write_allowed lic linked asOf cols r \<and>
          license_row d' lid = Some (written_row e d lic asOf cols (Some r) r))"
  using write_licenses [OF assms(1)]
proof (elim disjE exE conjE)
  fix err assume "d' = d" then show ?thesis using assms(2) by simp
next
  let ?P = "\<lambda>r. lic_ID r = lic_ID lic \<and> write_allowed lic linked asOf cols r"
  let ?f = "written_row e d lic asOf cols (license_row d (lic_ID lic))"
  assume res: "res = Inr ()" and "db_licenses d' = update_where ?P ?f (db_licenses d)"
  then have "license_row d' = license_row (d\<lparr>db_licenses := update_where ?P ?f (db_licenses d)\<rparr>)"
    by (intro license_row_frame) simp
  then have row: "license_row d' lid = Some (if ?P r then ?f r else r)"
    using license_row_map [where f = ?f and P = ?P and d = d and lid = lid] assms(2) by simp
  have "lic_ID r = lid" using license_row_SomeD [OF assms(2)] by simp
  then show ?thesis using row assms(2) res by (auto split: if_splits)
qed

lemma prepared [simp]:
  "lic_ID (fst (prepare_write e lic asOf cols prior)) = lic_ID lic"
  "lic_Status (fst (prepare_write e lic asOf cols prior)) = lic_Status lic"
  "lic_PlanID (fst (prepare_write e lic asOf cols prior)) = lic_PlanID lic"
  "lic_Quantity (fst (prepare_write e lic asOf cols prior)) = lic_Quantity lic"
  "lic_StripeSubscriptionID (fst (prepare_write e lic asOf cols prior)) = lic_StripeSubscriptionID lic"
  "lic_ValidUntil (fst (prepare_write e lic asOf cols prior)) = lic_ValidUntil lic"
  "lic_StripeSyncedAt (fst (prepare_write e lic asOf cols prior)) =
     (case asOf of None \<Rightarrow> lic_StripeSyncedAt lic | Some t \<Rightarrow> Some t)"
  by (auto simp: prepare_write_def Let_def split: option.splits)

lemma prepared_cols [simp]:
  "C_status \<in> set (snd (prepare_write e lic asOf cols prior)) \<longleftrightarrow> C_status \<in> set cols"
  "C_plan_id \<in> set (snd (prepare_write e lic asOf cols prior)) \<longleftrightarrow> C_plan_id \<in> set cols"
  "C_updates_until \<in> set (snd (prepare_write e lic asOf cols prior)) \<longleftrightarrow> C_updates_until \<in> set cols"
  "C_quantity \<in> set (snd (prepare_write e lic asOf cols prior)) \<longleftrightarrow> C_quantity \<in> set cols"
  "C_valid_until \<in> set (snd (prepare_write e lic asOf cols prior)) \<longleftrightarrow> C_valid_until \<in> set cols"
  "C_stripe_subscription_id \<in> set (snd (prepare_write e lic asOf cols prior)) \<longleftrightarrow> C_stripe_subscription_id \<in> set cols"
  "C_stripe_synced_at \<in> set (snd (prepare_write e lic asOf cols prior)) \<longleftrightarrow> C_stripe_synced_at \<in> set cols \<or> asOf \<noteq> None"
  by (auto simp: prepare_write_def Let_def)

lemma prepared_suspension:
  assumes "\<not> (lic_Status lic = StatusCanceled \<and> lic_SuspendedBy r = SuspendedByStripe \<and> C_suspended_by \<notin> set cols)"
  shows "C_suspended_by \<in> set (snd (prepare_write e lic asOf cols (Some r))) \<longleftrightarrow> C_suspended_by \<in> set cols"
    and "lic_SuspendedBy (fst (prepare_write e lic asOf cols (Some r))) = lic_SuspendedBy lic"
  using assms by (auto simp: prepare_write_def Let_def found_of_def split: option.splits)

section \<open>What is kept of a licence's row on every run\<close>

abbreviation ids_unique :: "db \<Rightarrow> bool" where
  "ids_unique d \<equiv> distinct (map lic_ID (db_licenses d))"

text \<open>
  The contract of the guards: a set of writes that move no licence's identifier, and a predicate on
  the row of a licence that every one of them keeps.
\<close>

locale kept_row =
  fixes step :: "db \<Rightarrow> db \<Rightarrow> bool"
    and lid :: string
    and kept :: "License \<Rightarrow> bool"
  assumes step_ids: "step d d' \<Longrightarrow> map lic_ID (db_licenses d') = map lic_ID (db_licenses d)"
    and step_kept: "step d d' \<Longrightarrow> ids_unique d \<Longrightarrow> license_row d lid = Some r \<Longrightarrow> kept r \<Longrightarrow>
      \<exists>r'. license_row d' lid = Some r' \<and> kept r'"
begin

lemma run_kept:
  assumes "step\<^sup>*\<^sup>* d d'" and "ids_unique d" and "license_row d lid = Some r" and "kept r"
  obtains r' where "ids_unique d'" "license_row d' lid = Some r'" "kept r'"
proof -
  have "ids_unique d' \<and> (\<exists>r'. license_row d' lid = Some r' \<and> kept r')"
    using assms
  proof (induction rule: rtranclp_induct)
    case (step y z)
    then show ?case using step_ids [of y z] step_kept [of y z] by auto
  qed blast
  then show thesis using that by blast
qed

end

text \<open>The columns the payment code names in a write driven by a subscription, and with which status.\<close>

definition proper_write :: "License \<Rightarrow> lic_column list \<Rightarrow> bool" where
  "proper_write lic cols \<longleftrightarrow>
     C_stripe_synced_at \<notin> set cols \<and> C_stripe_subscription_id \<notin> set cols \<and>
     (C_suspended_by \<in> set cols \<longrightarrow> live_status (lic_Status lic) \<or> lic_Status lic = StatusSuspended) \<and>
     (C_status \<in> set cols \<longrightarrow> live_status (lic_Status lic) \<or>
        lic_Status lic \<in> {StatusSuspended, StatusCanceled, StatusRevoked})"

inductive subscription_write :: "db \<Rightarrow> db \<Rightarrow> bool" where
  payload: "UpdateLicenseFromSubscription e lic cols d = (res, lf, d') \<Longrightarrow> proper_write lic cols \<Longrightarrow> subscription_write d d'"
| reading: "UpdateLicenseFromSubscriptionRead e lic asOf cols d = (res, lf, d') \<Longrightarrow> proper_write lic cols \<Longrightarrow> subscription_write d d'"
| terms: "UpdateLicenseFromSubscriptionReadTerms e lic asOf cols d = (res', lf, d') \<Longrightarrow> proper_write lic cols \<Longrightarrow> subscription_write d d'"
| ended: "UpdateLicenseFromSubscriptionEnded e lic asOf cols d = (res, lf, d') \<Longrightarrow> proper_write lic cols \<Longrightarrow> subscription_write d d'"
| elsewhere: "db_licenses d' = db_licenses d \<Longrightarrow> subscription_write d d'"

lemma write_ids:
  assumes "updateLicenseAndSubscriptionIn e lic linked asOf cols d = (res, lf, d')"
  shows "map lic_ID (db_licenses d') = map lic_ID (db_licenses d)"
  using write_licenses [OF assms] by (elim disjE exE conjE) (simp_all add: map_update_where)

text \<open>With unique identifiers a linked write that went through hit the row.\<close>

lemma write_hits:
  assumes "updateLicenseAndSubscriptionIn e lic True asOf cols d = (Inr (), lf, d')" and "ids_unique d"
    and "license_row d (lic_ID lic) = Some r"
  shows "write_allowed lic True asOf cols r \<and>
         license_row d' (lic_ID lic) = Some (written_row e d lic asOf cols (Some r) r)"
proof -
  let ?hit = "\<lambda>r. lic_ID r = lic_ID lic \<and> write_allowed lic True asOf cols r"
  have "count_where ?hit (db_licenses d) \<noteq> 0"
    using assms(1) by (auto simp: updateLicenseAndSubscriptionIn_def Let_def split_beta split: if_splits)
  then obtain x where x: "x \<in> set (db_licenses d)" "?hit x" by (auto simp: count_where_zero_iff)
  then have "x = r" using unique_column [OF assms(2), of x r] license_row_SomeD [OF assms(3)] by simp
  then have hit: "?hit r" using x by simp
  from write_licenses [OF assms(1)]
  have "db_licenses d' = update_where ?hit (written_row e d lic asOf cols (Some r)) (db_licenses d)"
    using assms(3) by simp
  then have "license_row d' = license_row (d\<lparr>db_licenses := update_where ?hit (written_row e d lic asOf cols (Some r)) (db_licenses d)\<rparr>)"
    by (intro license_row_frame) simp
  then show ?thesis using hit assms(3)
      license_row_map [where f = "written_row e d lic asOf cols (Some r)" and P = ?hit and d = d and lid = "lic_ID lic"] by simp
qed

lemma end_hold_row:
  assumes "license_row d lid = Some r"
  shows "license_row (end_hold lid' d) lid =
    Some (if lid = lid' then r\<lparr>lic_TermsHeldUntil := None,
       lic_TermsCheckAfter := (if lic_TermsHeldUntil r = None then lic_TermsCheckAfter r else None)\<rparr> else r)"
proof -
  have "lic_ID r = lid" using license_row_SomeD [OF assms] by simp
  then show ?thesis using assms by (auto simp: end_hold_def clear_hold_def license_row_map)
qed

lemma end_hold_ids [simp]: "map lic_ID (db_licenses (end_hold lid d)) = map lic_ID (db_licenses d)"
  by (simp add: end_hold_def clear_hold_def map_update_where)

definition terms_taken :: "env \<Rightarrow> License \<Rightarrow> string \<Rightarrow> time \<Rightarrow> License \<Rightarrow> License" where
  "terms_taken e lic planID asOf r = r\<lparr>lic_Quantity := lic_Quantity lic, lic_PlanID := planID,
     lic_StripeSyncedAt := Some asOf, lic_UpdatedAt := env_dbnow e\<rparr>"

lemma take_terms_run:
  assumes "take_terms e lic planID asOf d = Inr (Some d')"
  obtains d1 where "update_plan_rows e (\<lambda>r. lic_ID r = lic_ID lic \<and> lic_StripeSubscriptionID lic \<noteq> '''' \<and>
      lic_StripeSubscriptionID r = lic_StripeSubscriptionID lic \<and>
      (case lic_StripeSyncedAt r of None \<Rightarrow> True | Some s \<Rightarrow> s \<le> asOf)) (terms_taken e lic planID asOf) d = Some d1"
    "d' = syncSubscriptionPlanIn e (lic_ID lic) planID d1"
proof -
  have f: "terms_taken e lic planID asOf = (\<lambda>r. r\<lparr>lic_Quantity := lic_Quantity lic, lic_PlanID := planID,
     lic_StripeSyncedAt := Some asOf, lic_UpdatedAt := env_dbnow e\<rparr>)" by (simp add: fun_eq_iff terms_taken_def)
  show thesis
    using assms that unfolding f take_terms_def Let_def by (simp split: if_splits option.splits del: exists_where_iff)
qed

lemma take_terms_row:
  assumes "take_terms e lic planID asOf d = Inr (Some d')" and "license_row d lid = Some r"
  shows "license_row d' lid = Some r \<or>
    (lid = lic_ID lic \<and> (case lic_StripeSyncedAt r of None \<Rightarrow> True | Some s \<Rightarrow> s \<le> asOf) \<and>
     (\<exists>u b. license_row d' lid = Some (r\<lparr>lic_Quantity := lic_Quantity lic, lic_PlanID := planID,
       lic_StripeSyncedAt := Some asOf, lic_UpdatedAt := env_dbnow e, lic_UpdatesUntil := u, lic_UpdatesTermsSet := b\<rparr>)))"
proof -
  obtain d1 where d1: "update_plan_rows e (\<lambda>r. lic_ID r = lic_ID lic \<and> lic_StripeSubscriptionID lic \<noteq> '''' \<and>
      lic_StripeSubscriptionID r = lic_StripeSubscriptionID lic \<and>
      (case lic_StripeSyncedAt r of None \<Rightarrow> True | Some s \<Rightarrow> s \<le> asOf)) (terms_taken e lic planID asOf) d = Some d1"
    "d' = syncSubscriptionPlanIn e (lic_ID lic) planID d1" using take_terms_run [OF assms(1)] .
  have row: "license_row d' lid = license_row d1 lid" using d1(2) license_row_frame [of d' d1] by simp
  obtain u b where "licenses_init_updates_until e d r (terms_taken e lic planID asOf r) =
      (terms_taken e lic planID asOf r)\<lparr>lic_UpdatesUntil := u, lic_UpdatesTermsSet := b\<rparr>" using trigger_terms by blast
  then show ?thesis
    using row assms(2) license_row_SomeD [OF assms(2)] update_plan_row [OF d1(1), of lid]
    by (auto simp: terms_taken_def)
qed

lemma take_terms_ids:
  assumes "take_terms e lic planID asOf d = Inr (Some d')"
  shows "map lic_ID (db_licenses d') = map lic_ID (db_licenses d)"
proof (rule take_terms_run [OF assms])
  fix d1
  let ?P = "\<lambda>r. lic_ID r = lic_ID lic \<and> lic_StripeSubscriptionID lic \<noteq> '''' \<and>
      lic_StripeSubscriptionID r = lic_StripeSubscriptionID lic \<and>
      (case lic_StripeSyncedAt r of None \<Rightarrow> True | Some s \<Rightarrow> s \<le> asOf)"
  assume "update_plan_rows e ?P (terms_taken e lic planID asOf) d = Some d1" and d': "d' = syncSubscriptionPlanIn e (lic_ID lic) planID d1"
  from update_plan_rows_licenses [OF this(1)] show ?thesis unfolding d' by (simp add: map_update_where terms_taken_def)
qed

text \<open>A read with terms, case by case.\<close>

lemma terms_cases:
  assumes "UpdateLicenseFromSubscriptionReadTerms e lic asOf cols d = ((before, written, res), lf, d')"
  obtains (none) "d' = d" "res \<noteq> Inr ()" "res \<noteq> Inl ErrTermsHeld" "\<not> written"
  | (landed) row cols' d1 where "license_row d (lic_ID lic) = Some row" "\<not> db_fault d"
      "cols' = (if terms_held (env_clock e) row \<and> \<not> shows_terms lic cols row then held_cols cols else cols)"
      "updateLicenseAndSubscriptionIn e lic True (Some asOf) cols' d = (Inr (), lf, d1)"
      "d' = (if C_quantity \<in> set cols' then end_hold (lic_ID lic) d1 else d1)"
      "res = (if terms_held (env_clock e) row \<and> \<not> shows_terms lic cols row then Inl ErrTermsHeld else Inr ())"
      "written \<longleftrightarrow> \<not> (terms_held (env_clock e) row \<and> \<not> shows_terms lic cols row)"
  | (taken) row planID where "license_row d (lic_ID lic) = Some row" "\<not> db_fault d"
      "\<not> (terms_held (env_clock e) row \<and> \<not> shows_terms lic cols row)" "C_quantity \<in> set cols"
      "planID = (if C_plan_id \<in> set cols then lic_PlanID lic else lic_PlanID row)"
      "take_terms e lic planID asOf d = Inr (Some d')" "res = Inl ErrLicenseRestricted"
proof (cases "db_fault d \<or> license_row d (lic_ID lic) = None")
  case True
  then show thesis using none assms
    by (auto simp: UpdateLicenseFromSubscriptionReadTerms_def Let_def split: option.splits if_splits)
next
  case False
  then obtain row where row: "license_row d (lic_ID lic) = Some row" "\<not> db_fault d" by auto
  define held where "held = (terms_held (env_clock e) row \<and> \<not> shows_terms lic cols row)"
  define cols' where "cols' = (if held then held_cols cols else cols)"
  obtain res1 lf1 d1 where w: "updateLicenseAndSubscriptionIn e lic True (Some asOf) cols' d = (res1, lf1, d1)"
    by (metis prod_cases3)
  have heldq: "held \<Longrightarrow> C_quantity \<notin> set cols'" by (simp add: cols'_def held_cols_def)
  have u: "(case updateLicenseAndSubscriptionIn e lic True (Some asOf) cols' d of
       (Inr (), lf, d1) \<Rightarrow> ((\<lparr>lt_PlanID = lic_PlanID row, lt_Quantity = lic_Quantity row\<rparr>,
          \<not> terms_held (env_clock e) row \<or> shows_terms lic cols row, if held then Inl ErrTermsHeld else Inr ()), lf,
          if C_quantity \<in> set cols' then end_hold (lic_ID lic) d1 else d1)
     | (Inl err, lf, _) \<Rightarrow>
         if err = ErrLicenseRestricted \<and> C_quantity \<in> set cols' then
           (case take_terms e lic (if C_plan_id \<in> set cols' then lic_PlanID lic else lic_PlanID row) asOf d of
              Inl qerr \<Rightarrow> ((\<lparr>lt_PlanID = lic_PlanID row, lt_Quantity = lic_Quantity row\<rparr>, False, Inl qerr), lf, d)
            | Inr None \<Rightarrow> ((\<lparr>lt_PlanID = lic_PlanID row, lt_Quantity = lic_Quantity row\<rparr>, False, Inl err), lf, d)
            | Inr (Some d') \<Rightarrow> ((\<lparr>lt_PlanID = lic_PlanID row, lt_Quantity = lic_Quantity row\<rparr>,
                \<not> terms_held (env_clock e) row \<or> shows_terms lic cols row, Inl ErrLicenseRestricted), lf, d'))
         else ((\<lparr>lt_PlanID = lic_PlanID row, lt_Quantity = lic_Quantity row\<rparr>, False, Inl err), lf, d)) =
     ((before, written, res), lf, d')"
    using assms row(2) unfolding held_def cols'_def
    by (simp only: UpdateLicenseFromSubscriptionReadTerms_def Let_def row(1) if_False option.case LicenseTerms.simps)
  show thesis
  proof (cases res1)
    case (Inr x)
    then have w': "updateLicenseAndSubscriptionIn e lic True (Some asOf) cols' d = (Inr (), lf1, d1)" using w by simp
    from u have "lf1 = lf" and "(if C_quantity \<in> set cols' then end_hold (lic_ID lic) d1 else d1) = d'"
      and "(if held then Inl ErrTermsHeld else Inr ()) = res"
      and "(\<not> terms_held (env_clock e) row \<or> shows_terms lic cols row) = written"
      by (simp_all only: w' prod.case sum.case unit.case prod.inject)
    with w' show thesis by (intro landed [of row cols' d1]) (auto simp only: row held_def cols'_def not_False_eq_True)
  next
    case (Inl err)
    have notHeld: "err \<noteq> ErrTermsHeld"
      using w Inl by (auto simp: updateLicenseAndSubscriptionIn_def Let_def split_beta refusal_def split: if_splits option.splits)
    note u = u [unfolded w Inl, unfolded prod.case sum.case]
    show thesis
    proof (cases "err = ErrLicenseRestricted \<and> C_quantity \<in> set cols'")
      case False
      from u have "d = d'" "Inl err = res" "\<not> written" by (simp_all only: False if_False prod.inject) auto
      then show thesis using notHeld by (intro none) auto
    next
      case True
      then have nh: "\<not> held" using heldq by blast
      then have c: "cols' = cols" by (simp add: cols'_def)
      note u = u [unfolded c]
      show thesis
      proof (cases "take_terms e lic (if C_plan_id \<in> set cols then lic_PlanID lic else lic_PlanID row) asOf d")
        case (Inl qerr)
        then have "qerr \<noteq> ErrTermsHeld" by (auto simp: take_terms_def Let_def split: if_splits option.splits)
        moreover from Inl u True c have "d = d'" "Inl qerr = res" "\<not> written" by simp_all
        ultimately show thesis by (intro none) auto
      next
        case (Inr taking)
        show thesis
        proof (cases taking)
        case None
        with Inr u True c have "d = d'" "Inl err = res" "\<not> written" by simp_all
        then show thesis using notHeld by (intro none) auto
      next
        case (Some d2)
        note Some = Inr [unfolded Some]
        with u True c have "d2 = d'" "Inl ErrLicenseRestricted = res" by simp_all
        with Some True c nh show thesis
          by (intro taken [of row "if C_plan_id \<in> set cols then lic_PlanID lic else lic_PlanID row"]) (simp_all add: row held_def)
      qed
      qed
    qed
  qed
qed

text \<open>
  Every subscription-driven write is the guarded write, perhaps of fewer columns and with a hold
  ended, or only takes the terms. A predicate on the row that these keep, every run keeps.
\<close>

lemma ended_write:
  assumes "UpdateLicenseFromSubscriptionEnded e lic asOf cols d = (res, lf, d')"
  obtains stamp where "updateLicenseAndSubscriptionIn e (lic\<lparr>lic_StripeSyncedAt := Some stamp\<rparr>) True None (cols @ [C_stripe_synced_at]) d = (res, lf, d')"
    "\<forall>r s. license_row d (lic_ID lic) = Some r \<longrightarrow> lic_StripeSyncedAt r = Some s \<longrightarrow> s \<le> stamp"
proof -
  define stamp where "stamp = (case (case license_row d (lic_ID lic) of None \<Rightarrow> None | Some r \<Rightarrow> lic_StripeSyncedAt r) of
    Some s \<Rightarrow> if s > asOf then s else asOf | None \<Rightarrow> asOf)"
  show thesis
  proof (rule that [of stamp])
    show "updateLicenseAndSubscriptionIn e (lic\<lparr>lic_StripeSyncedAt := Some stamp\<rparr>) True None (cols @ [C_stripe_synced_at]) d = (res, lf, d')"
      using assms by (simp add: UpdateLicenseFromSubscriptionEnded_def stamp_def)
  qed (simp add: stamp_def split: if_splits)
qed

lemma subscription_write_ids:
  assumes "subscription_write d d'"
  shows "map lic_ID (db_licenses d') = map lic_ID (db_licenses d)"
  using assms
proof cases
  case (terms e lic asOf cols res' lf)
  obtain before written res where res': "res' = (before, written, res)" by (cases res') auto
  from terms(1) [unfolded res'] show ?thesis
  proof (cases rule: terms_cases)
    case (landed row cols' d1)
    then show ?thesis using write_ids [OF landed(4)] by auto
  next
    case (taken row planID)
    then show ?thesis using take_terms_ids by blast
  qed simp
next
  case (ended e lic asOf cols res lf)
  from ended(1) show ?thesis by (rule ended_write) (rule write_ids)
qed (auto simp: UpdateLicenseFromSubscription_def UpdateLicenseFromSubscriptionRead_def dest: write_ids)

lemma subscription_write_kept:
  assumes step: "subscription_write d d'" and ids: "ids_unique d" and row: "license_row d lid = Some r" and kept: "kept r"
    and guard: "\<And>e lic asOf cols. proper_write lic (filter (\<lambda>c. c \<noteq> C_stripe_synced_at) cols) \<Longrightarrow>
      lic_ID lic = lid \<Longrightarrow> write_allowed lic True asOf cols r \<Longrightarrow>
      C_stripe_synced_at \<notin> set cols \<or>
        (\<exists>s. lic_StripeSyncedAt lic = Some s \<and> (case lic_StripeSyncedAt r of None \<Rightarrow> True | Some s' \<Rightarrow> s' \<le> s)) \<Longrightarrow>
      kept (written_row e d lic asOf cols (Some r) r)"
    and unhold: "\<And>r c. kept r \<Longrightarrow> kept (r\<lparr>lic_TermsHeldUntil := None, lic_TermsCheckAfter := c\<rparr>)"
    and take: "\<And>q p t at u b. (case lic_StripeSyncedAt r of None \<Rightarrow> True | Some s \<Rightarrow> s \<le> t) \<Longrightarrow>
      kept (r\<lparr>lic_Quantity := q, lic_PlanID := p, lic_StripeSyncedAt := Some t, lic_UpdatedAt := at,
        lic_UpdatesUntil := u, lic_UpdatesTermsSet := b\<rparr>)"
  shows "\<exists>r'. license_row d' lid = Some r' \<and> kept r'"
proof -
  have proper: "proper_write lic (filter (\<lambda>c. c \<noteq> C_stripe_synced_at) cols)" if "proper_write lic cols" for lic cols
    using that by (simp add: proper_write_def)
  have guarded: "\<exists>r'. license_row d1 lid = Some r' \<and> kept r'"
    if "updateLicenseAndSubscriptionIn e lic True asOf cols d = (res, lf, d1)" "proper_write lic cols" for e lic asOf cols res lf d1
    using write_row [OF that(1) row] guard [OF proper [OF that(2)]] that(2) kept by (auto simp: proper_write_def)
  from step show ?thesis
  proof cases
    case (payload e lic cols res lf)
    then show ?thesis using guarded unfolding UpdateLicenseFromSubscription_def by blast
  next
    case (reading e lic asOf cols res lf)
    then show ?thesis using guarded unfolding UpdateLicenseFromSubscriptionRead_def by blast
  next
    case (terms e lic asOf cols res' lf)
    obtain before written res where res': "res' = (before, written, res)" by (cases res') auto
    from terms(1) [unfolded res'] show ?thesis
    proof (cases rule: terms_cases)
      case none
      then show ?thesis using row kept by blast
    next
      case (landed row' cols' d1)
      have "proper_write lic cols'" using terms(2) landed(3) by (auto simp: proper_write_def held_cols_def)
      with guarded landed(4) obtain r1 where r1: "license_row d1 lid = Some r1" "kept r1" by blast
      then show ?thesis using landed(5) unhold by (auto simp: end_hold_row)
    next
      case (taken row' planID)
      then show ?thesis using take_terms_row [OF taken(6) row] take kept by blast
    qed
  next
    case (ended e lic asOf cols res lf)
    from ended(1) obtain stamp where
      w: "updateLicenseAndSubscriptionIn e (lic\<lparr>lic_StripeSyncedAt := Some stamp\<rparr>) True None (cols @ [C_stripe_synced_at]) d = (res, lf, d')"
      and s: "\<forall>r s. license_row d (lic_ID lic) = Some r \<longrightarrow> lic_StripeSyncedAt r = Some s \<longrightarrow> s \<le> stamp"
      by (rule ended_write)
    have "filter (\<lambda>c. c \<noteq> C_stripe_synced_at) (cols @ [C_stripe_synced_at]) = cols"
      using ended(2) by (auto simp: proper_write_def intro!: filter_True)
    then have "proper_write (lic\<lparr>lic_StripeSyncedAt := Some stamp\<rparr>) (filter (\<lambda>c. c \<noteq> C_stripe_synced_at) (cols @ [C_stripe_synced_at]))"
      using ended(2) by (simp add: proper_write_def)
    from write_row [OF w row] guard [OF this] kept s row
    show ?thesis by (cases "lid = lic_ID lic") (auto split: option.splits)
  next
    case elsewhere
    then show ?thesis using row kept license_row_frame by metis
  qed
qed

section \<open>An operator's decision stands\<close>

definition operator_stopped :: "License \<Rightarrow> bool" where
  "operator_stopped r \<longleftrightarrow> lic_Status r = StatusRevoked \<or>
     (lic_Status r = StatusSuspended \<or> lic_Status r = StatusCanceled) \<and> lic_SuspendedBy r = SuspendedByAdmin"

lemma operator_stopped_kept:
  assumes "operator_stopped r" and "write_allowed lic True asOf cols r"
    and "proper_write lic (filter (\<lambda>c. c \<noteq> C_stripe_synced_at) cols)"
  shows "operator_stopped (written_row e d lic asOf cols (Some r) r)"
proof -
  have r: "lic_SuspendedBy r = SuspendedByAdmin" "lic_Status r = StatusSuspended \<or> lic_Status r = StatusCanceled"
    using assms(1,2) by (auto simp: operator_stopped_def write_allowed_def)
  then have quiet: "\<not> live_status (lic_Status lic)" "lic_Status lic \<noteq> StatusSuspended"
    using assms(2) by (auto simp: write_allowed_def suspended_by_other_def live_status_def)
  have no: "\<not> (lic_Status lic = StatusCanceled \<and> lic_SuspendedBy r = SuspendedByStripe \<and> C_suspended_by \<notin> set cols)"
    using r(1) by simp
  have cols: "C_suspended_by \<notin> set cols" "C_status \<in> set cols \<Longrightarrow> lic_Status lic = StatusCanceled \<or> lic_Status lic = StatusRevoked"
    using assms(3) quiet by (auto simp: proper_write_def)
  show ?thesis using r cols by (auto simp: operator_stopped_def set_cols_written prepared_suspension [OF no])
qed

lemma operator_kept:
  assumes "subscription_write d d'" "ids_unique d" "license_row d lid = Some r" "operator_stopped r"
  shows "\<exists>r'. license_row d' lid = Some r' \<and> operator_stopped r'"
  using assms
proof (rule subscription_write_kept)
  show "operator_stopped (r\<lparr>lic_Quantity := q, lic_PlanID := p, lic_StripeSyncedAt := Some t, lic_UpdatedAt := at,
        lic_UpdatesUntil := u, lic_UpdatesTermsSet := b\<rparr>)" for q p t at u b
    using assms(4) by (simp add: operator_stopped_def)
qed (use assms(4) operator_stopped_kept in \<open>blast, simp add: operator_stopped_def\<close>)

interpretation operator: kept_row subscription_write lid operator_stopped for lid
  by unfold_locales (rule subscription_write_ids operator_kept; assumption)+

lemma revoked_kept:
  assumes "subscription_write d d'" "ids_unique d" "license_row d lid = Some r" "lic_Status r = StatusRevoked"
  shows "\<exists>r'. license_row d' lid = Some r' \<and> lic_Status r' = StatusRevoked"
  using assms by (rule subscription_write_kept [where kept = "\<lambda>r. lic_Status r = StatusRevoked"]) (use assms(4) in \<open>auto simp: write_allowed_def\<close>)

interpretation revoked: kept_row subscription_write lid "\<lambda>r. lic_Status r = StatusRevoked" for lid
  by unfold_locales (rule subscription_write_ids revoked_kept; assumption)+

section \<open>The newest read wins\<close>

definition stamped_from :: "time \<Rightarrow> License \<Rightarrow> bool" where
  "stamped_from t r \<longleftrightarrow> (\<exists>s. lic_StripeSyncedAt r = Some s \<and> t \<le> s)"

lemma stamp_kept:
  assumes "subscription_write d d'" "ids_unique d" "license_row d lid = Some r" "stamped_from t r"
  shows "\<exists>r'. license_row d' lid = Some r' \<and> stamped_from t r'"
  using assms
proof (rule subscription_write_kept)
  fix e lic asOf cols
  assume w: "write_allowed lic True asOf cols r"
    and s: "C_stripe_synced_at \<notin> set cols \<or>
        (\<exists>s. lic_StripeSyncedAt lic = Some s \<and> (case lic_StripeSyncedAt r of None \<Rightarrow> True | Some s' \<Rightarrow> s' \<le> s))"
  obtain u where u: "lic_StripeSyncedAt r = Some u" "t \<le> u" using assms(4) by (auto simp: stamped_from_def)
  have "asOf = Some a \<Longrightarrow> u \<le> a" for a using w u by (simp add: write_allowed_def)
  then show "stamped_from t (written_row e d lic asOf cols (Some r) r)"
    using u s by (cases asOf) (fastforce simp: stamped_from_def set_cols_written)+
qed (use assms(4) in \<open>auto simp: stamped_from_def split: option.splits\<close>)

interpretation stamped: kept_row subscription_write lid "stamped_from t" for lid t
  by unfold_locales (rule subscription_write_ids stamp_kept; assumption)+

lemma stale_refused:
  assumes "updateLicenseAndSubscriptionIn e lic True (Some t') cols d = (res, lf, d')" and "\<not> db_fault d"
    and "ids_unique d" and "license_row d (lic_ID lic) = Some r" and "stamped_from t r" and "t' < t"
  shows "d' = d \<and> (res = Inl ErrStaleSubscriptionRead \<or> res = Inl ErrSubscriptionUnlinked)"
proof -
  have "\<not> write_allowed lic True (Some t') cols r" using assms(5,6) by (auto simp: stamped_from_def write_allowed_def)
  then have "\<not> (lic_ID x = lic_ID lic \<and> write_allowed lic True (Some t') cols x)" if "x \<in> set (db_licenses d)" for x
    using that unique_column [OF assms(3), of x r] license_row_SomeD [OF assms(4)] by auto
  then have "count_where (\<lambda>r. lic_ID r = lic_ID lic \<and> write_allowed lic True (Some t') cols r) (db_licenses d) = 0"
    by (simp add: count_where_zero_iff)
  moreover have "refusal lic (Some t') (Some r) \<in> {ErrStaleSubscriptionRead, ErrSubscriptionUnlinked}"
    using assms(5,6) by (auto simp: refusal_def stamped_from_def)
  ultimately show ?thesis using assms(1,2,4)
    by (auto simp: updateLicenseAndSubscriptionIn_def Let_def split_beta split: if_splits)
qed

section \<open>Terms stay while a downgrade holds them\<close>

text \<open>
  Writes while the hold is on: reads that show other terms than the downgrade's, writes that carry
  no terms, and the settling of holds that lapsed before.
\<close>

inductive held_write :: "string \<Rightarrow> LicenseTerms \<Rightarrow> time \<Rightarrow> db \<Rightarrow> db \<Rightarrow> bool" for lid to until where
  other_terms: "UpdateLicenseFromSubscriptionReadTerms e lic asOf cols d = ((before, written, res), lf, d') \<Longrightarrow>
    env_clock e < until \<Longrightarrow>
    (lic_ID lic = lid \<longrightarrow> \<not> (lic_Quantity lic = lt_Quantity to \<and> (C_plan_id \<notin> set cols \<or> lic_PlanID lic = lt_PlanID to))) \<Longrightarrow>
    held_write lid to until d d'"
| no_terms: "updateLicenseAndSubscriptionIn e lic linked asOf cols d = (res, lf, d') \<Longrightarrow>
    C_plan_id \<notin> set cols \<Longrightarrow> C_quantity \<notin> set cols \<Longrightarrow> held_write lid to until d d'"
| settle: "SettleLapsedHold h d = (r, d') \<Longrightarrow> lh_Until h < until \<Longrightarrow> held_write lid to until d d'"
| postpone: "PostponeTermsCheck e h after d = (r, d') \<Longrightarrow> held_write lid to until d d'"
| elsewhere: "db_licenses d' = db_licenses d \<Longrightarrow> held_write lid to until d d'"

definition holds :: "LicenseTerms \<Rightarrow> time \<Rightarrow> License \<Rightarrow> bool" where
  "holds to until r \<longleftrightarrow> lic_PlanID r = lt_PlanID to \<and> lic_Quantity r = lt_Quantity to \<and>
     (\<exists>u. lic_TermsHeldUntil r = Some u \<and> until \<le> u)"

lemma held_write_ids: "held_write lid to until d d' \<Longrightarrow> map lic_ID (db_licenses d') = map lic_ID (db_licenses d)"
proof (induction rule: held_write.induct)
  case (other_terms e lic asOf cols d before written res lf d')
  from other_terms(1) show ?case
  proof (cases rule: terms_cases)
    case (landed row cols' d1)
    then show ?thesis using write_ids [OF landed(4)] by auto
  qed (simp, rule take_terms_ids)
next
  case (no_terms e lic linked asOf cols d res lf d')
  then show ?case by (rule_tac write_ids)
qed (auto simp: SettleLapsedHold_def PostponeTermsCheck_def clear_hold_def intro!: map_update_where split: if_splits)

lemma terms_not_shown:
  assumes "holds to until row" and "env_clock e < until"
    and "\<not> (lic_Quantity lic = lt_Quantity to \<and> (C_plan_id \<notin> set cols \<or> lic_PlanID lic = lt_PlanID to))"
  shows "terms_held (env_clock e) row \<and> \<not> shows_terms lic cols row"
  using assms by (auto simp: holds_def terms_held_def shows_terms_def)

lemma write_without_terms:
  assumes "updateLicenseAndSubscriptionIn e lic linked asOf cols d = (res, lf, d')" "C_plan_id \<notin> set cols" "C_quantity \<notin> set cols"
    and "license_row d lid = Some r" "holds to until r"
  shows "\<exists>r'. license_row d' lid = Some r' \<and> holds to until r'"
  using write_row [OF assms(1,4)] assms(2,3,5) by (auto simp: holds_def set_cols_written)

lemma held_write_kept:
  assumes "held_write lid to until d d'" and "ids_unique d" and row: "license_row d lid = Some r" and h: "holds to until r"
  shows "\<exists>r'. license_row d' lid = Some r' \<and> holds to until r'"
  using assms(1)
proof cases
  case (other_terms e lic asOf cols before written res lf)
  have hidden: "terms_held (env_clock e) row' \<and> \<not> shows_terms lic cols row'"
    if "lic_ID lic = lid" "license_row d (lic_ID lic) = Some row'" for row'
    using terms_not_shown [of to until row' e lic cols] that other_terms(2,3) h row by simp
  from other_terms(1) show ?thesis
  proof (cases rule: terms_cases)
    case none
    then show ?thesis using row h by blast
  next
    case (landed row' cols' d1)
    show ?thesis
    proof (cases "lic_ID lic = lid")
      case True
      then have c: "cols' = held_cols cols" using landed(1,3) hidden by simp
      then have "d' = d1" using landed(5) by (simp add: held_cols_def)
      then show ?thesis using write_without_terms [OF landed(4) _ _ row h] c by (simp add: held_cols_def)
    next
      case False
      then have "license_row d1 lid = Some r" using write_row [OF landed(4) row] by blast
      then have "license_row d' lid = Some r" using landed(5) False by (simp add: end_hold_row)
      then show ?thesis using h by blast
    qed
  next
    case (taken row' planID)
    then have "lic_ID lic \<noteq> lid" using hidden by blast
    then show ?thesis using take_terms_row [OF taken(6) row] h by blast
  qed
next
  case (no_terms e lic linked asOf cols res lf)
  then show ?thesis using write_without_terms row h by blast
next
  case (settle hold r1)
  then have "\<not> is_hold hold r" using h by (auto simp: holds_def is_hold_def)
  then show ?thesis using settle(1) row h by (auto simp: SettleLapsedHold_def clear_hold_def license_row_map split: if_splits)
next
  case (postpone e hold after r1)
  then show ?thesis using row h by (auto simp: PostponeTermsCheck_def license_row_map holds_def split: if_splits)
next
  case elsewhere
  then show ?thesis using row h license_row_frame by metis
qed

interpretation held: kept_row "held_write lid to until" lid "holds to until" for lid to until
  by unfold_locales (rule held_write_ids held_write_kept; assumption)+

lemma LowerLicenseTerms_holds:
  assumes "LowerLicenseTerms e lid to hold check d = (Inr prev, d')"
  shows "map lic_ID (db_licenses d') = map lic_ID (db_licenses d) \<and>
         (\<exists>r. license_row d' lid = Some r \<and> holds to (env_clock e + hold) r)"
proof -
  obtain l d1 where low: "license_row d lid = Some l"
    "update_plan_rows e (\<lambda>l. lic_ID l = lid) (lowered_row e to hold) d = Some d1" "d' = syncSubscriptionPlanIn e lid (lt_PlanID to) d1"
    by (rule lowered_run [OF assms])
  have "license_row d' lid = Some (licenses_init_updates_until e d l (lowered_row e to hold l))"
    using update_plan_row [OF low(2), of lid] low(1,3) license_row_SomeD [OF low(1)] by simp
  moreover have "map lic_ID (db_licenses d') = map lic_ID (db_licenses d)"
    using update_plan_rows_licenses [OF low(2)] low(3) by (simp add: syncSubscriptionPlanIn_def map_update_where)
  ultimately show ?thesis by (simp add: holds_def)
qed

text \<open>
  An operator's decision stands. Whatever writes a subscription makes on a licence, from event
  payloads, from current reads or at its end, in any order and number, a licence that an operator
  revoked stays revoked, and one an operator suspended never becomes active, trialing or past due,
  and stays recorded as suspended by the operator.
\<close>

theorem operator_decisions_stand:
  assumes "subscription_write\<^sup>*\<^sup>* d d'" and "ids_unique d" and "license_row d lid = Some r"
    and "lic_Status r = StatusRevoked \<or> lic_Status r = StatusSuspended \<and> lic_SuspendedBy r = SuspendedByAdmin"
  shows "\<exists>r'. license_row d' lid = Some r' \<and> \<not> live_status (lic_Status r') \<and>
           (lic_Status r = StatusRevoked \<longrightarrow> lic_Status r' = StatusRevoked) \<and>
           (lic_Status r' = StatusRevoked \<or> lic_SuspendedBy r' = SuspendedByAdmin)"
proof -
  have "operator_stopped r" using assms(4) by (auto simp: operator_stopped_def)
  with assms(1-3) obtain r' where r': "license_row d' lid = Some r'" "operator_stopped r'" by (rule operator.run_kept)
  have "lic_Status r' = StatusRevoked" if "lic_Status r = StatusRevoked"
    using assms(1-3) that by (rule revoked.run_kept) (simp add: r')
  then show ?thesis using r' by (auto simp: operator_stopped_def live_status_def)
qed

definition suspended_db :: db where
  "suspended_db = demo_db\<lparr>db_licenses := [demo_license\<lparr>lic_StripeSubscriptionID := ''sub'', lic_Status := StatusSuspended,
     lic_SuspendedBy := SuspendedByAdmin\<rparr>]\<rparr>"

definition paid_copy :: License where
  "paid_copy = demo_license\<lparr>lic_StripeSubscriptionID := ''sub''\<rparr>"

theorem operator_decisions_stand_witness:
  "\<exists>r'. license_row (snd (snd (UpdateLicenseFromSubscriptionRead demo_env paid_copy 5 [C_status, C_suspended_by] suspended_db))) ''L'' = Some r' \<and>
     \<not> live_status (lic_Status r')"
proof -
  let ?w = "UpdateLicenseFromSubscriptionRead demo_env paid_copy 5 [C_status, C_suspended_by] suspended_db"
  have "subscription_write suspended_db (snd (snd ?w))"
    by (rule subscription_write.reading [of demo_env paid_copy 5 "[C_status, C_suspended_by]" _ "fst ?w" "fst (snd ?w)"])
      (simp_all add: proper_write_def live_status_def paid_copy_def demo_license_def)
  then have run: "subscription_write\<^sup>*\<^sup>* suspended_db (snd (snd ?w))" by simp
  have row: "license_row suspended_db ''L'' = Some (demo_license\<lparr>lic_StripeSubscriptionID := ''sub'', lic_Status := StatusSuspended,
     lic_SuspendedBy := SuspendedByAdmin\<rparr>)" "ids_unique suspended_db"
    by (simp_all add: suspended_db_def license_row_def select_one_def demo_license_def)
  show ?thesis using operator_decisions_stand [OF run row(2,1)] by auto
qed

text \<open>
  C11: the newest read wins. Once what Stripe answered to a read taken after \<open>t\<close> is written to a
  licence, then after any further subscription-driven writes the answer to a read taken before \<open>t\<close>
  changes nothing: it is refused as stale, or as unlinked when the licence has left the
  subscription; so is one that carries terms.
\<close>

theorem newest_read_wins:
  assumes first: "UpdateLicenseFromSubscriptionRead e lic t cols d = (Inr (), lf, d1)" "ids_unique d"
      "license_row d (lic_ID lic) = Some r"
    and run: "subscription_write\<^sup>*\<^sup>* d1 d2" "\<not> db_fault d2"
    and old: "lic_ID lic' = lic_ID lic" "t' < t"
  shows "\<exists>err. err \<in> {ErrStaleSubscriptionRead, ErrSubscriptionUnlinked} \<and>
           (\<exists>lf'. UpdateLicenseFromSubscriptionRead e' lic' t' cols' d2 = (Inl err, lf', d2)) \<and>
           (\<exists>before lf'. UpdateLicenseFromSubscriptionReadTerms e' lic' t' cols' d2 = ((before, False, Inl err), lf', d2))"
proof -
  have w: "updateLicenseAndSubscriptionIn e lic True (Some t) cols d = (Inr (), lf, d1)"
    using first(1) by (simp add: UpdateLicenseFromSubscriptionRead_def)
  have "ids_unique d1" using first(2) write_ids [OF w] by simp
  moreover have "license_row d1 (lic_ID lic) = Some (written_row e d lic (Some t) cols (Some r) r)"
    using write_hits [OF w first(2,3)] by simp
  moreover have "stamped_from t (written_row e d lic (Some t) cols (Some r) r)"
    by (simp add: stamped_from_def set_cols_written)
  ultimately obtain r2 where r2: "ids_unique d2" "license_row d2 (lic_ID lic') = Some r2" "stamped_from t r2"
    using stamped.run_kept [OF run(1)] old(1) by metis
  have refused: "\<exists>lf'. updateLicenseAndSubscriptionIn e' lic' True (Some t') cs d2 = (Inl (refusal lic' (Some t') (Some r2)), lf', d2)" for cs
  proof -
    obtain res lf' d3 where x: "updateLicenseAndSubscriptionIn e' lic' True (Some t') cs d2 = (res, lf', d3)" by (metis prod_cases3)
    from stale_refused [OF x run(2) r2 old(2)] show ?thesis
      using x r2(2) run(2) by (auto simp: updateLicenseAndSubscriptionIn_def Let_def split_beta split: if_splits option.splits)
  qed
  have err: "refusal lic' (Some t') (Some r2) \<in> {ErrStaleSubscriptionRead, ErrSubscriptionUnlinked}"
    using r2(3) old(2) by (auto simp: refusal_def stamped_from_def)
  let ?err = "refusal lic' (Some t') (Some r2)"
  let ?cs = "if terms_held (env_clock e') r2 \<and> \<not> shows_terms lic' cols' r2 then held_cols cols' else cols'"
  have ne: "(?err = ErrLicenseRestricted) = False" using err by auto
  obtain lf' where x: "updateLicenseAndSubscriptionIn e' lic' True (Some t') ?cs d2 = (Inl ?err, lf', d2)" using refused by blast
  have "UpdateLicenseFromSubscriptionReadTerms e' lic' t' cols' d2 =
      ((\<lparr>lt_PlanID = lic_PlanID r2, lt_Quantity = lic_Quantity r2\<rparr>, False, Inl ?err), lf', d2)"
    by (simp only: UpdateLicenseFromSubscriptionReadTerms_def Let_def r2(2) run(2) x ne
        if_False simp_thms option.case prod.case sum.case)
  then show ?thesis using refused err by (auto simp: UpdateLicenseFromSubscriptionRead_def)
qed

definition linked_db :: db where
  "linked_db = demo_db\<lparr>db_licenses := [paid_copy]\<rparr>"

lemma linked_row: "license_row linked_db ''L'' = Some paid_copy" "ids_unique linked_db" "db_fault linked_db = False"
  by (simp_all add: linked_db_def license_row_def select_one_def paid_copy_def demo_license_def)

lemma linked_read_lands: "\<exists>lf d1. UpdateLicenseFromSubscriptionRead demo_env paid_copy 10 [C_status] linked_db = (Inr (), lf, d1) \<and> db_fault d1 = False"
proof -
  have "write_allowed paid_copy True (Some 10) [C_status] paid_copy"
    by (simp add: write_allowed_def paid_copy_def demo_license_def live_status_def suspended_by_other_def zero_License_def)
  then have "count_where (\<lambda>r. lic_ID r = ''L'' \<and> write_allowed paid_copy True (Some 10) [C_status] r) (db_licenses linked_db) \<noteq> 0"
    by (simp add: count_where_zero_iff linked_db_def) (simp add: paid_copy_def demo_license_def)
  moreover have "lic_ID paid_copy = ''L''" by (simp add: paid_copy_def demo_license_def)
  ultimately show ?thesis
    by (simp add: UpdateLicenseFromSubscriptionRead_def updateLicenseAndSubscriptionIn_def linked_row Let_def split_beta
        write_columns_def)
qed

theorem newest_read_wins_witness:
  "\<exists>lf d1 err lf'. UpdateLicenseFromSubscriptionRead demo_env paid_copy 10 [C_status] linked_db = (Inr (), lf, d1) \<and>
     UpdateLicenseFromSubscriptionRead demo_env paid_copy 5 [C_status] d1 = (Inl err, lf', d1)"
proof -
  obtain lf d1 where w: "UpdateLicenseFromSubscriptionRead demo_env paid_copy 10 [C_status] linked_db = (Inr (), lf, d1)" "db_fault d1 = False"
    using linked_read_lands by blast
  have "license_row linked_db (lic_ID paid_copy) = Some paid_copy" using linked_row by (simp add: paid_copy_def demo_license_def)
  from newest_read_wins [OF w(1) linked_row(2) this _ _ refl, of d1 5 demo_env "[C_status]"] w show ?thesis by auto
qed

text \<open>
  C12: held terms stay. After a downgrade lowered a licence's plan and seats, then until its hold
  runs out no read of the subscription that still shows other terms moves them, whatever else the
  reads write in between, and each such read reports that its terms were not written.
\<close>

theorem held_terms_stay:
  assumes lower: "LowerLicenseTerms e lid to hold check d = (Inr prev, d1)" "ids_unique d"
    and run: "(held_write lid to (env_clock e + hold))\<^sup>*\<^sup>* d1 d2"
  shows "\<exists>r. license_row d2 lid = Some r \<and> lic_PlanID r = lt_PlanID to \<and> lic_Quantity r = lt_Quantity to \<and>
           (\<forall>e' lic asOf cols before written res lf d3. lic_ID lic = lid \<and> env_clock e' < env_clock e + hold \<and>
              \<not> (lic_Quantity lic = lt_Quantity to \<and> (C_plan_id \<notin> set cols \<or> lic_PlanID lic = lt_PlanID to)) \<and>
              UpdateLicenseFromSubscriptionReadTerms e' lic asOf cols d2 = ((before, written, res), lf, d3) \<longrightarrow>
              \<not> written \<and> res \<noteq> Inr ())"
proof -
  obtain r1 where r1: "license_row d1 lid = Some r1" "holds to (env_clock e + hold) r1" "ids_unique d1"
    using LowerLicenseTerms_holds [OF lower(1)] lower(2) by auto
  from run r1(3,1,2) obtain r where r: "license_row d2 lid = Some r" "holds to (env_clock e + hold) r" by (rule held.run_kept)
  have late: "\<not> written \<and> res \<noteq> Inr ()"
    if "lic_ID lic = lid" "env_clock e' < env_clock e + hold"
      "\<not> (lic_Quantity lic = lt_Quantity to \<and> (C_plan_id \<notin> set cols \<or> lic_PlanID lic = lt_PlanID to))"
      "UpdateLicenseFromSubscriptionReadTerms e' lic asOf cols d2 = ((before, written, res), lf, d3)"
    for e' lic asOf cols before written res lf d3
  proof -
    have "terms_held (env_clock e') r \<and> \<not> shows_terms lic cols r" using terms_not_shown [OF r(2) that(2,3)] .
    then show ?thesis using that(1) r(1) by (cases rule: terms_cases [OF that(4)]) simp_all
  qed
  have "lic_PlanID r = lt_PlanID to" "lic_Quantity r = lt_Quantity to" using r(2) by (simp_all add: holds_def)
  then show ?thesis using r(1) late by blast
qed

theorem held_terms_stay_witness:
  "\<exists>prev d1 r. LowerLicenseTerms demo_env ''L'' \<lparr>lt_PlanID = ''PL'', lt_Quantity = 3\<rparr> Hour (\<lambda>_. None) linked_db = (Inr prev, d1) \<and>
     license_row (snd (snd (UpdateLicenseFromSubscriptionReadTerms demo_env paid_copy 2000 [C_status, C_quantity] d1))) ''L'' = Some r \<and>
     lic_Quantity r = 3"
proof -
  let ?to = "\<lparr>lt_PlanID = ''PL'', lt_Quantity = 3\<rparr>"
  have "case LowerLicenseTerms demo_env ''L'' ?to Hour (\<lambda>_. None) linked_db of (Inr _, _) \<Rightarrow> True | (Inl _, _) \<Rightarrow> False"
    by code_simp
  then obtain prev d1 where low: "LowerLicenseTerms demo_env ''L'' ?to Hour (\<lambda>_. None) linked_db = (Inr prev, d1)"
    by (cases "LowerLicenseTerms demo_env ''L'' ?to Hour (\<lambda>_. None) linked_db") (auto split: sum.split_asm)
  let ?w = "UpdateLicenseFromSubscriptionReadTerms demo_env paid_copy 2000 [C_status, C_quantity] d1"
  obtain before written res where w: "?w = ((before, written, res), fst (snd ?w), snd (snd ?w))" by (metis prod.collapse)
  have "env_clock demo_env < env_clock demo_env + Hour" by (simp add: duration_defs)
  then have "held_write ''L'' ?to (env_clock demo_env + Hour) d1 (snd (snd ?w))"
    by (rule held_write.other_terms [OF w]) (simp add: paid_copy_def demo_license_def)
  then have "(held_write ''L'' ?to (env_clock demo_env + Hour))\<^sup>*\<^sup>* d1 (snd (snd ?w))" by simp
  from held_terms_stay [OF low linked_row(2) this] low show ?thesis by auto
qed

end
