(* ===== verification/KG_Stripe.thy ===== *)
theory KG_Stripe
  imports KG_Seat_Service KG_Subscription KG_Delivery
begin

text \<open>
  What the payment code (\<^verbatim>\<open>internal/payment\<close>) reads of Stripe: the payloads of invoices and
  subscriptions in both API shapes and what they say of a licence's period, seats and renewal
  (\<^verbatim>\<open>stripe.go\<close>, \<^verbatim>\<open>seats.go\<close>), and the handler with its calls to the API. An answer of the API is an
  argument: \<open>sh_get h i\<close> is what a subscription read answers at the \<open>i\<close>-th place of an operation that
  reads one, already decoded (an unreadable body is a failure). Stripe's times are seconds.
\<close>

section \<open>Payloads\<close>

record subscriptionItemEvent =
  si_CurrentPeriodEnd :: int
  si_Quantity :: int
  si_Price :: "string option"

record pendingUpdate =
  pu_ExpiresAt :: int
  pu_SubscriptionItems :: "subscriptionItemEvent list"

record subscriptionEvent =
  se_ID :: string
  se_Status :: string
  se_CurrentPeriodEnd :: int
  se_TrialEnd :: int
  se_CancelAtPeriodEnd :: bool
  se_CancelAt :: int
  se_Items :: "subscriptionItemEvent list"
  se_PendingUpdate :: "pendingUpdate option"

text \<open>The newer shape of a line's origin: its type and, for an invoice item, whether it is a proration.\<close>

record lineParent =
  lp_Type :: string
  lp_InvoiceItemProration :: "bool option"

record invoiceLine =
  il_PeriodEnd :: int
  il_Amount :: int
  il_Type :: string
  il_Proration :: bool
  il_Parent :: "lineParent option"

text \<open>\<open>ie_ParentSubscription\<close> is the subscription of \<^verbatim>\<open>parent.subscription_details\<close>, when both are there.\<close>

record invoiceEvent =
  ie_Subscription :: string
  ie_PeriodEnd :: int
  ie_Customer :: string
  ie_AmountDue :: int
  ie_AmountPaid :: int
  ie_Total :: int
  ie_Currency :: string
  ie_HostedInvoiceURL :: string
  ie_BillingReason :: string
  ie_ParentSubscription :: "string option"
  ie_Lines :: "invoiceLine list"

definition unix_time :: "int \<Rightarrow> time" where
  "unix_time secs = secs * Second"

definition billsSubscription :: "invoiceLine \<Rightarrow> bool" where
  "billsSubscription l =
     (if il_Amount l < 0 then False
      else if il_Type l = ''subscription'' \<or> il_Proration l then True
      else case il_Parent l of
        None \<Rightarrow> False
      | Some p \<Rightarrow> lp_Type p = ''subscription_item_details'' \<or> lp_InvoiceItemProration p = Some True)"

definition ServiceEnd :: "invoiceEvent \<Rightarrow> int" where
  "ServiceEnd ev =
     (let latest = foldl (\<lambda>m l. if billsSubscription l \<and> il_PeriodEnd l > m then il_PeriodEnd l else m) 0 (ie_Lines ev)
      in if latest = 0 then ie_PeriodEnd ev else latest)"

definition SubscriptionID :: "invoiceEvent \<Rightarrow> string" where
  "SubscriptionID ev =
     (if ie_Subscription ev \<noteq> '''' then ie_Subscription ev
      else case ie_ParentSubscription ev of None \<Rightarrow> '''' | Some s \<Rightarrow> s)"

definition PeriodEnd :: "subscriptionEvent \<Rightarrow> int" where
  "PeriodEnd ev =
     (if se_CurrentPeriodEnd ev > 0 then se_CurrentPeriodEnd ev
      else foldl (\<lambda>m it. if si_CurrentPeriodEnd it > m then si_CurrentPeriodEnd it else m) 0 (se_Items ev))"

definition EndsThisPeriod :: "subscriptionEvent \<Rightarrow> bool" where
  "EndsThisPeriod ev =
     (if se_CancelAtPeriodEnd ev \<or> se_Status ev = ''canceled'' \<or> se_Status ev = ''incomplete_expired'' then True
      else if se_CancelAt ev \<le> 0 then False
      else let until = PeriodEnd ev in until = 0 \<or> se_CancelAt ev \<le> until)"

definition clampQuantity :: "int \<Rightarrow> int" where
  "clampQuantity q = (if q < 1 then 1 else if q > 2 ^ 31 - 1 then 2 ^ 31 - 1 else q)"

definition subscriptionQuantity :: "subscriptionEvent option \<Rightarrow> int" where
  "subscriptionQuantity sub =
     (case sub of
        None \<Rightarrow> 1
      | Some ev \<Rightarrow> (case se_Items ev of [] \<Rightarrow> 1 | it # _ \<Rightarrow> clampQuantity (si_Quantity it)))"

definition heldChangeInvoice :: "invoiceEvent \<Rightarrow> subscriptionEvent option \<Rightarrow> bool" where
  "heldChangeInvoice inv' cur \<longleftrightarrow> ie_BillingReason inv' = ''subscription_update'' \<and>
     (case cur of None \<Rightarrow> False | Some ev \<Rightarrow> se_Status ev = ''active'' \<or> se_Status ev = ''trialing'')"

definition subscriptionLive :: "string \<Rightarrow> bool" where
  "subscriptionLive status \<longleftrightarrow> status = ''active'' \<or> status = ''trialing'' \<or> status = ''past_due''"

section \<open>What a checkout sells\<close>

record lineItem =
  li_Price :: string
  li_Quantity :: "int option"
  li_Adjustable :: "(int \<times> int) option"

definition checkoutLineItem :: "Plan \<Rightarrow> string \<Rightarrow> bool \<Rightarrow> bool \<Rightarrow> int \<Rightarrow> lineItem result" where
  "checkoutLineItem plan priceID subscription metered requested =
     (let item = \<lparr>li_Price = priceID, li_Quantity = Some 1, li_Adjustable = None\<rparr> in
      if requested < 0 then Inl (ErrRefused ''quantity must be 1 or more'')
      else if metered then
        (if plan_PerSeat plan \<or> requested > 1 then Inl (ErrRefused ''this plan is billed by usage, not sold per seat'')
         else Inr (item\<lparr>li_Quantity := None\<rparr>))
      else if \<not> plan_PerSeat plan \<or> \<not> subscription then
        (if requested > 1 then Inl (ErrRefused ''this plan is not sold per seat'') else Inr item)
      else
        let q = (if requested = 0 then plan_MinQuantity plan else requested) in
        if q < plan_MinQuantity plan \<or> q > plan_MaxQuantity plan then Inl (ErrRefused ''quantity must be between'')
        else Inr (item\<lparr>li_Quantity := Some q,
               li_Adjustable := if plan_MinQuantity plan < plan_MaxQuantity plan
                 then Some (plan_MinQuantity plan, plan_MaxQuantity plan) else None\<rparr>))"

section \<open>The handler and its calls\<close>

datatype 'a stripe_answer = Got 'a | StripeNotFound | StripeFailed

record StripeHandler =
  sh_Key :: bool
  sh_get :: "nat \<Rightarrow> string \<Rightarrow> subscriptionEvent stripe_answer"
  sh_cancel :: "string \<Rightarrow> unit stripe_answer"
  sh_webhook :: bool
  sh_email :: bool

definition stripeNotFound :: "'a stripe_answer \<Rightarrow> bool" where
  "stripeNotFound a \<longleftrightarrow> (case a of StripeNotFound \<Rightarrow> True | _ \<Rightarrow> False)"

text \<open>\<open>None\<close>: no key, or Stripe cannot see the subscription.\<close>

definition currentSubscription :: "StripeHandler \<Rightarrow> nat \<Rightarrow> string \<Rightarrow> subscriptionEvent option result" where
  "currentSubscription h place sid =
     (if \<not> sh_Key h then Inr None
      else case sh_get h place sid of
        StripeNotFound \<Rightarrow> Inr None
      | StripeFailed \<Rightarrow> Inl (ErrStripe ''fetch subscription'')
      | Got cur \<Rightarrow> if se_ID cur \<noteq> sid then Inl (ErrStripe ''unreadable response'') else Inr (Some cur))"

definition SubscriptionEnded :: "StripeHandler \<Rightarrow> string \<Rightarrow> bool result" where
  "SubscriptionEnded h sid =
     (case sh_get h 0 sid of
        StripeNotFound \<Rightarrow> Inl (ErrStripe ''STRIPE_NOT_VISIBLE'')
      | StripeFailed \<Rightarrow> Inl (ErrStripe ''fetch subscription'')
      | Got sub \<Rightarrow> Inr (se_Status sub = ''canceled'' \<or> se_Status sub = ''incomplete_expired''))"

definition cancelSubscription :: "StripeHandler \<Rightarrow> string \<Rightarrow> unit result" where
  "cancelSubscription h sid =
     (if \<not> sh_Key h \<or> sid = '''' then Inr ()
      else case sh_cancel h sid of
        Got _ \<Rightarrow> Inr ()
      | StripeNotFound \<Rightarrow> Inr ()
      | StripeFailed \<Rightarrow>
          (case sh_get h 1 sid of
             Got sub \<Rightarrow> if se_Status sub = ''canceled'' \<or> se_Status sub = ''incomplete_expired'' then Inr ()
                        else Inl (ErrStripe ''cancel subscription'')
           | _ \<Rightarrow> Inl (ErrStripe ''cancel subscription'')))"

section \<open>Plans by price, seats that matter\<close>

definition with_entitlements :: "db \<Rightarrow> Plan \<Rightarrow> Plan" where
  "with_entitlements d p = p\<lparr>plan_Entitlements := filter (\<lambda>e. ent_PlanID e = plan_ID p) (db_entitlements d)\<rparr>"

definition FindPlanByIDIn :: "string \<Rightarrow> db \<Rightarrow> Plan result" where
  "FindPlanByIDIn pid d =
     (if db_fault d then Inl ErrDB
      else case select_one (\<lambda>p. plan_ID p = pid) (db_plans d) of
        None \<Rightarrow> Inl ErrNoRows | Some p \<Rightarrow> Inr (with_entitlements d p))"

definition FindPlanByID :: "string \<Rightarrow> db \<Rightarrow> Plan result" where
  "FindPlanByID pid d = FindPlanByIDIn pid d"

definition FindPlanByStripePrice :: "string \<Rightarrow> db \<Rightarrow> Plan result" where
  "FindPlanByStripePrice priceID d =
     (if db_fault d then Inl ErrDB
      else case select_one (\<lambda>p. priceID \<noteq> '''' \<and> plan_StripePriceID p = priceID) (db_plans d) of
        None \<Rightarrow> Inl ErrNoRows | Some p \<Rightarrow> Inr (with_entitlements d p))"

definition FindProductByID :: "string \<Rightarrow> db \<Rightarrow> Product result" where
  "FindProductByID pid d =
     (if db_fault d then Inl ErrDB
      else case select_one (\<lambda>p. prod_ID p = pid) (db_products d) of None \<Rightarrow> Inl ErrNoRows | Some p \<Rightarrow> Inr p)"

definition planForPrice :: "string \<Rightarrow> db \<Rightarrow> Plan option result" where
  "planForPrice priceID d =
     (case FindPlanByStripePrice priceID d of
        Inl err \<Rightarrow> if err = ErrNoRows then Inr None else Inl err
      | Inr plan \<Rightarrow> Inr (Some plan))"

fun productItem :: "string \<Rightarrow> subscriptionItemEvent list \<Rightarrow> db \<Rightarrow> (subscriptionItemEvent \<times> Plan) option result" where
  "productItem productID [] d = Inr None"
| "productItem productID (it # items) d =
     (case si_Price it of
        None \<Rightarrow> productItem productID items d
      | Some price \<Rightarrow>
          if price = '''' then productItem productID items d
          else case planForPrice price d of
            Inl err \<Rightarrow> Inl err
          | Inr None \<Rightarrow> productItem productID items d
          | Inr (Some plan) \<Rightarrow>
              if plan_ProductID plan = productID then Inr (Some (it, plan)) else productItem productID items d)"

definition seatsMatter :: "string list \<Rightarrow> db \<Rightarrow> bool" where
  "seatsMatter planIDs d = list_ex (\<lambda>pid. case FindPlanByID pid d of Inl _ \<Rightarrow> True | Inr plan \<Rightarrow> plan_PerSeat plan) planIDs"

definition provider_audit :: "string \<Rightarrow> string \<Rightarrow> string \<Rightarrow> (string \<times> detail) list \<Rightarrow> AuditLog" where
  "provider_audit licenseID action actor changes = \<lparr>audit_Entity = ''license'', audit_EntityID = licenseID,
     audit_Action = action, audit_ActorID = '''', audit_ActorType = actor, audit_Changes = changes,
     audit_IPAddress = '''', audit_ProductID = ''''\<rparr>"

end
