(* ===== verification/KG_Upgrades.thy ===== *)
theory KG_Upgrades
  imports KG_Stripe
begin

text \<open>
  Paid upgrades of licences Stripe does not bill: the ledger of checkouts
  (\<^verbatim>\<open>internal/store/upgrades.go\<close>), which licence may be upgraded to which plan, and how an applied
  upgrade is undone when it is refunded or its subscription ends (\<^verbatim>\<open>internal/payment/upgrade.go\<close>). An
  upgrade row remembers the licence as it was found. What is told of a revert (audit line,
  webhook, mail) is appended to the logs of \<open>db\<close>.
\<close>

section \<open>The ledger of upgrades\<close>

abbreviation UpgradeExpired :: string where "UpgradeExpired \<equiv> ''expired''"
abbreviation UpgradeRefunded :: string where "UpgradeRefunded \<equiv> ''refunded''"
abbreviation UpgradeVoid :: string where "UpgradeVoid \<equiv> ''void''"

definition findLicenseUpgrade :: "(LicenseUpgrade \<Rightarrow> bool) \<Rightarrow> db \<Rightarrow> LicenseUpgrade result" where
  "findLicenseUpgrade P d =
     (if db_fault d then Inl ErrDB
      else case first_by (\<lambda>u. - up_CreatedAt u) (filter P (db_upgrades d)) of
        None \<Rightarrow> Inl ErrNoRows | Some u \<Rightarrow> Inr u)"

definition FindLicenseUpgradeBySession :: "string \<Rightarrow> db \<Rightarrow> LicenseUpgrade result" where
  "FindLicenseUpgradeBySession sessionID d = findLicenseUpgrade (\<lambda>u. up_StripeCheckoutSessionID u = sessionID) d"

definition LockLicenseUpgradeIn :: "string \<Rightarrow> db \<Rightarrow> LicenseUpgrade result" where
  "LockLicenseUpgradeIn uid d = findLicenseUpgrade (\<lambda>u. up_ID u = uid) d"

definition LockLicenseUpgradeBySessionIn :: "string \<Rightarrow> db \<Rightarrow> LicenseUpgrade result" where
  "LockLicenseUpgradeBySessionIn sessionID d = findLicenseUpgrade (\<lambda>u. up_StripeCheckoutSessionID u = sessionID) d"

definition FindAppliedUpgrade :: "string \<Rightarrow> db \<Rightarrow> LicenseUpgrade result" where
  "FindAppliedUpgrade licenseID d =
     findLicenseUpgrade (\<lambda>u. up_LicenseID u = licenseID \<and> up_State u = UpgradeApplied) d"

definition FindLicenseUpgradeByPaymentIntent :: "string \<Rightarrow> db \<Rightarrow> LicenseUpgrade result" where
  "FindLicenseUpgradeByPaymentIntent pi d = findLicenseUpgrade (\<lambda>u. up_StripePaymentIntentID u = pi) d"

definition FindLicenseUpgradeBySubscription :: "string \<Rightarrow> db \<Rightarrow> LicenseUpgrade result" where
  "FindLicenseUpgradeBySubscription sid d = findLicenseUpgrade (\<lambda>u. up_StripeSubscriptionID u = sid) d"

definition FindLicenseUpgradeByID :: "string \<Rightarrow> db \<Rightarrow> LicenseUpgrade result" where
  "FindLicenseUpgradeByID uid d = findLicenseUpgrade (\<lambda>u. up_ID u = uid) d"

definition ListPendingUpgradesIn :: "string \<Rightarrow> db \<Rightarrow> LicenseUpgrade list result" where
  "ListPendingUpgradesIn licenseID d =
     (if db_fault d then Inl ErrDB
      else Inr (sort_key up_CreatedAt
        (filter (\<lambda>u. up_LicenseID u = licenseID \<and> up_State u = UpgradePending) (db_upgrades d))))"

text \<open>
  The insert: the primary key, the licence and the checkout session's unique index may refuse it, and
  so does the plan it names; the row comes back with its creation time.
\<close>

definition CreateLicenseUpgradeIn :: "env \<Rightarrow> LicenseUpgrade \<Rightarrow> db \<Rightarrow> LicenseUpgrade result \<times> db" where
  "CreateLicenseUpgradeIn e u d =
     (let u = (if up_ID u = '''' then u\<lparr>up_ID := env_newID e 0\<rparr> else u);
          u = (if up_State u = '''' then u\<lparr>up_State := UpgradePending\<rparr> else u);
          u = (if up_CreatedAt u = time_zero then u\<lparr>up_CreatedAt := env_clock e\<rparr> else u);
          u = (if up_FromQuantity u = 0 then u\<lparr>up_FromQuantity := 1\<rparr> else u)
      in if db_fault d \<or> license_row d (up_LicenseID u) = None \<or>
            exists_where (\<lambda>x. up_ID x = up_ID u \<or> up_StripeCheckoutSessionID x = up_StripeCheckoutSessionID u) (db_upgrades d) \<or>
            (up_ToPlanID u \<noteq> '''' \<and> \<not> exists_where (\<lambda>p. plan_ID p = up_ToPlanID u) (db_plans d))
         then (Inl ErrDB, d)
         else (Inr u, d\<lparr>db_upgrades := db_upgrades d @ [u]\<rparr>))"

definition EndLicenseUpgradeIn :: "env \<Rightarrow> LicenseUpgrade \<Rightarrow> string \<Rightarrow> string \<Rightarrow> db \<Rightarrow> unit result \<times> db" where
  "EndLicenseUpgradeIn e u state reason d =
     (if db_fault d then (Inl ErrDB, d)
      else (Inr (), d\<lparr>db_upgrades := update_where (\<lambda>x. up_ID x = up_ID u)
        (\<lambda>x. x\<lparr>up_State := state, up_EndReason := reason, up_EndedAt := Some (env_now e)\<rparr>) (db_upgrades d)\<rparr>))"

definition mark_applied :: "time \<Rightarrow> LicenseUpgrade \<Rightarrow> LicenseUpgrade \<Rightarrow> LicenseUpgrade" where
  "mark_applied now u x = x\<lparr>up_State := UpgradeApplied, up_AppliedAt := Some now, up_ToPlanID := up_ToPlanID u,
               up_StripePaymentIntentID := up_StripePaymentIntentID u, up_StripeSubscriptionID := up_StripeSubscriptionID u,
               up_FromPlanID := up_FromPlanID u, up_FromStatus := up_FromStatus u,
               up_FromValidUntil := up_FromValidUntil u, up_FromUpdatesUntil := up_FromUpdatesUntil u,
               up_FromUpdatesTermsSet := up_FromUpdatesTermsSet u, up_FromPaymentProvider := up_FromPaymentProvider u,
               up_FromStripeCustomerID := up_FromStripeCustomerID u, up_FromCanceledAt := up_FromCanceledAt u,
               up_FromQuantity := up_FromQuantity u\<rparr>"

text \<open>At most one upgrade of a licence is applied: a unique index refuses the second.\<close>

definition MarkLicenseUpgradeAppliedIn :: "env \<Rightarrow> LicenseUpgrade \<Rightarrow> db \<Rightarrow> unit result \<times> db" where
  "MarkLicenseUpgradeAppliedIn e u d =
     (if db_fault d \<or> exists_where (\<lambda>x. up_ID x \<noteq> up_ID u \<and> up_LicenseID x = up_LicenseID u \<and> up_State x = UpgradeApplied) (db_upgrades d)
      then (Inl ErrDB, d)
      else (Inr (), d\<lparr>db_upgrades := update_where (\<lambda>x. up_ID x = up_ID u)
        (mark_applied (env_now e) u) (db_upgrades d)\<rparr>))"

definition ResetSubscriptionCancelStateIn :: "string \<Rightarrow> db \<Rightarrow> unit result \<times> db" where
  "ResetSubscriptionCancelStateIn licenseID d =
     (if db_fault d then (Inl ErrDB, d)
      else (Inr (), d\<lparr>db_subscriptions := update_where (\<lambda>s. sub_LicenseID s = licenseID)
        (\<lambda>s. s\<lparr>sub_CancelAtPeriodEnd := False, sub_CancelStateSyncedAt := None\<rparr>) (db_subscriptions d)\<rparr>))"

definition ListUpgradeTargetPlans :: "string list \<Rightarrow> db \<Rightarrow> Plan list result" where
  "ListUpgradeTargetPlans productIDs d =
     (if productIDs = [] then Inr []
      else if db_fault d then Inl ErrDB
      else Inr (filter (\<lambda>p. plan_ProductID p \<in> set productIDs \<and> plan_Active p \<and> plan_StripePriceID p \<noteq> '''') (db_plans d)))"

definition UpdateLicenseAndSupersedeRenewalsIn :: "env \<Rightarrow> License \<Rightarrow> lic_column list \<Rightarrow> db \<Rightarrow> unit result \<times> db" where
  "UpdateLicenseAndSupersedeRenewalsIn e l cols d =
     (case UpdateLicenseIn e l cols d of
        (Inl err, d1) \<Rightarrow> (Inl err, d1)
      | (Inr (), d1) \<Rightarrow> (Inr (), d1\<lparr>db_renewals := supersede_renewals e (lic_ID l) (db_renewals d1)\<rparr>))"

section \<open>Undoing an upgrade\<close>

record UpgradeRevert =
  ur_Reverted :: bool
  ur_Unlinked :: bool
  ur_FreePlanGone :: bool
  ur_License :: "License option"
  ur_Plan :: "Plan option"
  ur_PrevPlanID :: string
  ur_PrevQuantity :: int

definition no_revert :: UpgradeRevert where
  "no_revert = \<lparr>ur_Reverted = False, ur_Unlinked = False, ur_FreePlanGone = False, ur_License = None,
     ur_Plan = None, ur_PrevPlanID = '''', ur_PrevQuantity = 0\<rparr>"

definition upgrade_linked :: "LicenseUpgrade \<Rightarrow> License \<Rightarrow> bool" where
  "upgrade_linked u lic \<longleftrightarrow> lic_PaymentProvider lic = ''stripe'' \<and>
     ((up_StripeSubscriptionID u \<noteq> '''' \<and> lic_StripeSubscriptionID lic = up_StripeSubscriptionID u) \<or>
      (up_StripeSubscriptionID u = '''' \<and> lic_StripeCheckoutSessionID lic = up_StripeCheckoutSessionID u))"

definition operatorHeld :: "License \<Rightarrow> bool" where
  "operatorHeld lic \<longleftrightarrow> lic_Status lic = StatusRevoked \<or>
     (lic_Status lic = StatusSuspended \<and> lic_SuspendedBy lic \<noteq> SuspendedByStripe)"

definition revert_cols :: "License \<Rightarrow> lic_column list" where
  "revert_cols lic =
     [C_plan_id, C_valid_until, C_canceled_at, C_past_due_at, C_updates_until, C_updates_terms_set,
      C_payment_provider, C_stripe_customer_id, C_stripe_subscription_id, C_stripe_payment_intent_id,
      C_stripe_checkout_session_id, C_quantity, C_stripe_pending_update_expires_at] @
     (if operatorHeld lic then [] else [C_status, C_suspended_at, C_suspended_by])"

text \<open>The licence as the upgrade found it, on the copy of the locked row.\<close>

definition reverted_copy :: "LicenseUpgrade \<Rightarrow> Plan \<Rightarrow> License \<Rightarrow> License" where
  "reverted_copy u plan lic =
     (let l = lic\<lparr>lic_PlanID := plan_ID plan\<rparr>;
          l = (if operatorHeld lic then l
               else l\<lparr>lic_Status := up_FromStatus u, lic_SuspendedAt := None, lic_SuspendedBy := ''''\<rparr>)
      in l\<lparr>lic_ValidUntil := up_FromValidUntil u, lic_CanceledAt := up_FromCanceledAt u, lic_PastDueAt := None,
           lic_UpdatesUntil := up_FromUpdatesUntil u, lic_UpdatesTermsSet := up_FromUpdatesTermsSet u,
           lic_PaymentProvider := up_FromPaymentProvider u, lic_StripeCustomerID := up_FromStripeCustomerID u,
           lic_StripeSubscriptionID := '''', lic_StripePaymentIntentID := '''', lic_StripeCheckoutSessionID := '''',
           lic_Quantity := max (up_FromQuantity u) 1, lic_StripePendingUpdateExpiresAt := None\<rparr>)"

definition RevertLicenseUpgradeIn ::
  "env \<Rightarrow> LicenseUpgrade \<Rightarrow> string \<Rightarrow> db \<Rightarrow> UpgradeRevert result \<times> db" where
  "RevertLicenseUpgradeIn e u reason d =
     (if db_fault d then (Inl ErrDB, d)
      else case license_row d (up_LicenseID u) of
        None \<Rightarrow> (Inr (no_revert\<lparr>ur_Unlinked := True\<rparr>), snd (EndLicenseUpgradeIn e u UpgradeReverted (reason @ '':licence_gone'') d))
      | Some row \<Rightarrow>
          let lic = bare_license row in
          if \<not> upgrade_linked u lic then
            (Inr (no_revert\<lparr>ur_Unlinked := True, ur_License := Some lic\<rparr>),
             snd (EndLicenseUpgradeIn e u UpgradeReverted (reason @ '':unlinked'') d))
          else
            (case (if up_FromPlanID u = '''' then Inl ErrNoRows else FindPlanByIDIn (up_FromPlanID u) d) of
               Inl _ \<Rightarrow> (Inr (no_revert\<lparr>ur_FreePlanGone := True, ur_License := Some lic\<rparr>),
                   snd (EndLicenseUpgradeIn e u UpgradeReverted (reason @ '':free_plan_gone'') d))
             | Inr plan \<Rightarrow>
                 let l = reverted_copy u plan lic in
                 (case UpdateLicenseIn e l (revert_cols lic) d of
                    (Inl err, _) \<Rightarrow> (Inl err, d)
                  | (Inr (), d1) \<Rightarrow>
                  (case SyncLicenseSubscriptionIn e (lic_ID l) (Some plan) (lic_Status l) (lic_ValidUntil l) d1 of
                    (Inl err, _) \<Rightarrow> (Inl err, d)
                  | (Inr (), d2) \<Rightarrow>
                  (case ResetSubscriptionCancelStateIn (lic_ID l) d2 of
                    (Inl err, _) \<Rightarrow> (Inl err, d)
                  | (Inr (), d3) \<Rightarrow>
                  (case EndLicenseUpgradeIn e u UpgradeReverted reason d3 of
                    (Inl err, _) \<Rightarrow> (Inl err, d)
                  | (Inr (), d4) \<Rightarrow>
                      (Inr (no_revert\<lparr>ur_Reverted := True, ur_License := Some (l\<lparr>lic_UpdatedAt := env_now e\<rparr>),
                              ur_Plan := Some plan, ur_PrevPlanID := lic_PlanID lic, ur_PrevQuantity := lic_Quantity lic\<rparr>), d4)))))))"

section \<open>Who may upgrade to what\<close>

definition upgradeable :: "License \<Rightarrow> Plan option \<Rightarrow> bool" where
  "upgradeable lic current \<longleftrightarrow>
     (case current of
        None \<Rightarrow> False
      | Some p \<Rightarrow>
          plan_ID p = lic_PlanID lic \<and> IsFree p \<and>
          \<not> (lic_StripeSubscriptionID lic \<noteq> '''' \<or> lic_PaymentProvider lic = ''stripe'') \<and>
          (lic_Status lic = StatusActive \<or> lic_Status lic = StatusTrialing \<or>
           lic_Status lic = StatusExpired \<or> lic_Status lic = StatusCanceled))"

definition upgradeTarget :: "env \<Rightarrow> License \<Rightarrow> Plan \<Rightarrow> bool" where
  "upgradeTarget e lic plan \<longleftrightarrow>
     plan_Active plan \<and> plan_ProductID plan = lic_ProductID lic \<and> plan_ID plan \<noteq> lic_PlanID lic \<and>
     plan_StripePriceID plan \<noteq> '''' \<and> plan_LicenseType plan \<noteq> ''trial'' \<and>
     InitialUpdatesUntil plan (env_now e) = None"

text \<open>The map the portal reads, as the list of its keys.\<close>

definition UpgradableLicenses :: "env \<Rightarrow> StripeHandler \<Rightarrow> string \<Rightarrow> License list \<Rightarrow> db \<Rightarrow> string list result" where
  "UpgradableLicenses e h email ls d =
     (let candidates = filter (\<lambda>l. equal_fold (lic_Email l) email \<and> upgradeable l (lic_Plan l)) ls in
      if \<not> sh_Key h then Inr []
      else if candidates = [] then Inr []
      else case ListUpgradeTargetPlans (remdups (map lic_ProductID candidates)) d of
        Inl err \<Rightarrow> Inl err
      | Inr plans \<Rightarrow> Inr (map lic_ID (filter (\<lambda>l. list_ex (upgradeTarget e l) plans) candidates)))"

section \<open>Telling of it\<close>

definition mailPlanChanged :: "StripeHandler \<Rightarrow> License \<Rightarrow> string \<Rightarrow> string \<Rightarrow> db \<Rightarrow> db" where
  "mailPlanChanged h lic oldPlanID newPlanName d =
     (if \<not> sh_email h \<or> lic_Email lic = '''' then d
      else send_mail True ''plan_changed'' (lic_Email lic)
        [(''product'', DStr (case FindProductByID (lic_ProductID lic) d of Inr p \<Rightarrow> prod_Name p | Inl _ \<Rightarrow> '''')),
         (''old_plan'', DStr (case FindPlanByID oldPlanID d of Inr p \<Rightarrow> plan_Name p | Inl _ \<Rightarrow> '''')),
         (''new_plan'', DStr newPlanName)] d)"

definition announceUpgradeQuantity :: "StripeHandler \<Rightarrow> License \<Rightarrow> string \<Rightarrow> int \<Rightarrow> string \<Rightarrow> db \<Rightarrow> db" where
  "announceUpgradeQuantity h lic beforePlanID before reason d =
     (if before = lic_Quantity lic \<or> \<not> sh_webhook h \<or> \<not> seatsMatter [beforePlanID, lic_PlanID lic] d then d
      else Dispatch (lic_ProductID lic) ''license.quantity_changed''
        [(''license_id'', DStr (lic_ID lic)), (''email'', DStr (lic_Email lic)), (''plan_id'', DStr (lic_PlanID lic)),
         (''old_quantity'', DInt before), (''new_quantity'', DInt (lic_Quantity lic)), (''reason'', DStr reason)] d)"

definition announce_revert :: "StripeHandler \<Rightarrow> string \<Rightarrow> string \<Rightarrow> string \<Rightarrow> UpgradeRevert \<Rightarrow> db \<Rightarrow> db" where
  "announce_revert h upgradeID reason source res d =
     (case (ur_Reverted res, ur_License res, ur_Plan res) of
        (True, Some lic, Some plan) \<Rightarrow>
          let d = Audit (provider_audit (lic_ID lic) ''upgrade_reverted'' source
                [(''upgrade_id'', DStr upgradeID), (''reason'', DStr reason), (''old_plan_id'', DStr (ur_PrevPlanID res)),
                 (''new_plan_id'', DStr (plan_ID plan)), (''status'', DStr (lic_Status lic)), (''provider'', DStr ''stripe'')]) d;
              d = notify (sh_webhook h) (lic_ProductID lic) ''plan.changed''
                [(''license_id'', DStr (lic_ID lic)), (''old_plan_id'', DStr (ur_PrevPlanID res)),
                 (''new_plan_id'', DStr (plan_ID plan)), (''reason'', DStr reason)] d;
              d = announceUpgradeQuantity h lic (ur_PrevPlanID res) (ur_PrevQuantity res) ''upgrade_reverted'' d
          in mailPlanChanged h lic (ur_PrevPlanID res) (plan_Name plan) d
      | _ \<Rightarrow>
          (case (ur_FreePlanGone res, ur_License res) of
             (True, Some lic) \<Rightarrow> Audit (provider_audit (lic_ID lic) ''upgrade_not_reverted'' source
                [(''upgrade_id'', DStr upgradeID), (''reason'', DStr reason), (''why'', DStr ''free_plan_deleted''),
                 (''provider'', DStr ''stripe'')]) d
           | _ \<Rightarrow> d))"

definition revertUpgrade :: "env \<Rightarrow> StripeHandler \<Rightarrow> string \<Rightarrow> string \<Rightarrow> string \<Rightarrow> db \<Rightarrow> UpgradeRevert result \<times> db" where
  "revertUpgrade e h upgradeID reason source d =
     (case LockLicenseUpgradeIn upgradeID d of
        Inl err \<Rightarrow> (Inl err, d)
      | Inr u \<Rightarrow>
          if up_State u \<noteq> UpgradeApplied then (Inr no_revert, d)
          else case RevertLicenseUpgradeIn e u reason d of
            (Inl err, d1) \<Rightarrow> (Inl err, d1)
          | (Inr res, d1) \<Rightarrow> (Inr res, announce_revert h upgradeID reason source res d1))"

section \<open>A subscription that ends\<close>

text \<open>\<open>None\<close>: no applied upgrade this subscription pays for.\<close>

definition appliedUpgradeFor :: "License \<Rightarrow> string \<Rightarrow> db \<Rightarrow> LicenseUpgrade option result" where
  "appliedUpgradeFor lic subscriptionID d =
     (case FindAppliedUpgrade (lic_ID lic) d of
        Inl err \<Rightarrow> if err = ErrNoRows then Inr None else Inl err
      | Inr u \<Rightarrow> if subscriptionID = '''' \<or> up_StripeSubscriptionID u \<noteq> subscriptionID then Inr None else Inr (Some u))"

text \<open>Handled, and the error; \<open>mid\<close> is what other requests do between the lookup and the revert.\<close>

definition endSubscriptionUpgrade ::
  "env \<Rightarrow> (db \<Rightarrow> db) \<Rightarrow> StripeHandler \<Rightarrow> License \<Rightarrow> string \<Rightarrow> string \<Rightarrow> string \<Rightarrow> bool \<Rightarrow> db
   \<Rightarrow> (bool \<times> error option) \<times> db" where
  "endSubscriptionUpgrade e mid h lic subscriptionID reason source cancelFirst d =
     (case appliedUpgradeFor lic subscriptionID d of
        Inl err \<Rightarrow> ((False, Some err), d)
      | Inr None \<Rightarrow> ((False, None), d)
      | Inr (Some u) \<Rightarrow>
          (case (if cancelFirst then cancelSubscription h subscriptionID else Inr ()) of
             Inl err \<Rightarrow> ((True, Some err), d)
           | Inr () \<Rightarrow>
               (case revertUpgrade e h (up_ID u) reason source (mid d) of
                  (Inl err, d1) \<Rightarrow> ((True, Some err), d1)
                | (Inr res, d1) \<Rightarrow> ((\<not> ur_FreePlanGone res, None), d1))))"

definition CancelForAdmin ::
  "env \<Rightarrow> (db \<Rightarrow> db) \<Rightarrow> StripeHandler \<Rightarrow> License \<Rightarrow> db \<Rightarrow> (bool \<times> error option) \<times> db" where
  "CancelForAdmin e mid h lic d =
     (case endSubscriptionUpgrade e mid h lic (lic_StripeSubscriptionID lic) ''admin_canceled'' ''admin'' True d of
        ((handled, err), d1) \<Rightarrow>
          if handled \<or> err \<noteq> None then ((handled, err), d1)
          else ((False, case cancelSubscription h (lic_StripeSubscriptionID lic) of Inl err \<Rightarrow> Some err | Inr () \<Rightarrow> None), d1))"

definition closeFailedUpgrade :: "env \<Rightarrow> string \<Rightarrow> db \<Rightarrow> unit result \<times> db" where
  "closeFailedUpgrade e sessionID d =
     (case LockLicenseUpgradeBySessionIn sessionID d of
        Inl err \<Rightarrow> if err = ErrNoRows then (Inr (), d) else (Inl err, d)
      | Inr u \<Rightarrow>
          if up_State u \<noteq> UpgradePending \<and> up_State u \<noteq> UpgradeExpired then (Inr (), d)
          else EndLicenseUpgradeIn e u UpgradeVoid ''payment_failed'' d)"

definition upgradeSessionDone :: "string \<Rightarrow> db \<Rightarrow> bool result" where
  "upgradeSessionDone sessionID d =
     (case FindLicenseUpgradeBySession sessionID d of
        Inl err \<Rightarrow> if err = ErrNoRows then Inr False else Inl err
      | Inr u \<Rightarrow> Inr (up_State u \<noteq> UpgradePending \<and> up_State u \<noteq> UpgradeExpired))"

section \<open>Applying a paid upgrade\<close>

definition errUpgradeIneligible :: error where "errUpgradeIneligible = ErrRefused ''upgrade no longer applies''"
definition errUpgradeClosed :: error where "errUpgradeClosed = ErrRefused ''upgrade closed''"

text \<open>What the checkout session says: the payer, what was paid, and the session's metadata.\<close>

record upgradeSession =
  us_ID :: string
  us_Customer :: string
  us_Subscription :: string
  us_PaymentIntent :: string
  us_LicenseID :: string
  us_PlanID :: string
  us_UpgradeID :: string
  us_LicenseType :: string

text \<open>Whether the payment still stands; \<open>refunded pi\<close> is Stripe's answer for a one-time payment.\<close>

definition upgradeStillPaid ::
  "StripeHandler \<Rightarrow> (string \<Rightarrow> bool stripe_answer) \<Rightarrow> string \<Rightarrow> string \<Rightarrow> (string \<times> subscriptionEvent option) result" where
  "upgradeStillPaid h refunded subscriptionID paymentIntentID =
     (if \<not> sh_Key h then Inr ('''', None)
      else if subscriptionID \<noteq> '''' then
        (case currentSubscription h 0 subscriptionID of
           Inl err \<Rightarrow> Inl err
         | Inr None \<Rightarrow> Inr ('''', None)
         | Inr (Some cur) \<Rightarrow>
             if subscriptionLive (se_Status cur) then Inr ('''', Some cur)
             else if se_Status cur \<noteq> ''canceled'' \<and> se_Status cur \<noteq> ''incomplete_expired'' then
               (case cancelSubscription h subscriptionID of
                  Inl err \<Rightarrow> Inl err | Inr () \<Rightarrow> Inr (UpgradeVoid, Some cur))
             else Inr (UpgradeVoid, Some cur))
      else if paymentIntentID = '''' then Inr ('''', None)
      else case refunded paymentIntentID of
        StripeNotFound \<Rightarrow> Inr ('''', None)
      | StripeFailed \<Rightarrow> Inl (ErrStripe ''fetch payment intent'')
      | Got True \<Rightarrow> Inr (UpgradeRefunded, None)
      | Got False \<Rightarrow> Inr ('''', None))"

definition applied_row :: "License \<Rightarrow> Plan \<Rightarrow> upgradeSession \<Rightarrow> LicenseUpgrade \<Rightarrow> LicenseUpgrade" where
  "applied_row locked plan sess u = u\<lparr>up_ToPlanID := plan_ID plan,
     up_StripePaymentIntentID := us_PaymentIntent sess, up_StripeSubscriptionID := us_Subscription sess,
     up_FromPlanID := lic_PlanID locked, up_FromStatus := lic_Status locked,
     up_FromValidUntil := lic_ValidUntil locked, up_FromUpdatesUntil := lic_UpdatesUntil locked,
     up_FromUpdatesTermsSet := lic_UpdatesTermsSet locked, up_FromPaymentProvider := lic_PaymentProvider locked,
     up_FromStripeCustomerID := lic_StripeCustomerID locked, up_FromCanceledAt := lic_CanceledAt locked,
     up_FromQuantity := lic_Quantity locked\<rparr>"

definition upgrade_cols :: "subscriptionEvent option \<Rightarrow> lic_column list" where
  "upgrade_cols cur =
     [C_plan_id, C_status, C_valid_until, C_canceled_at, C_past_due_at, C_updates_until, C_updates_terms_set,
      C_payment_provider, C_stripe_customer_id, C_stripe_subscription_id, C_stripe_payment_intent_id,
      C_stripe_checkout_session_id, C_quantity] @ (if cur = None then [] else [C_stripe_synced_at])"

text \<open>The licence on its new plan; a subscription just read gives it its period, status and seats.\<close>

definition upgraded_copy :: "env \<Rightarrow> time \<Rightarrow> subscriptionEvent option \<Rightarrow> Plan \<Rightarrow> upgradeSession \<Rightarrow> License \<Rightarrow> License" where
  "upgraded_copy e asOf cur plan sess locked =
     (let l = locked\<lparr>lic_PlanID := plan_ID plan, lic_Status := StatusActive, lic_ValidUntil := None,
            lic_CanceledAt := None, lic_PastDueAt := None, lic_UpdatesUntil := None, lic_UpdatesTermsSet := True,
            lic_PaymentProvider := ''stripe'',
            lic_StripeCustomerID := if us_Customer sess \<noteq> '''' then us_Customer sess else lic_StripeCustomerID locked,
            lic_StripeSubscriptionID := us_Subscription sess, lic_StripePaymentIntentID := us_PaymentIntent sess,
            lic_StripeCheckoutSessionID := us_ID sess, lic_Quantity := 1\<rparr>
      in case cur of
        None \<Rightarrow> l
      | Some cur \<Rightarrow>
          let l = (if PeriodEnd cur > 0 then l\<lparr>lic_ValidUntil := Some (unix_time (PeriodEnd cur))\<rparr> else l);
              l = (if se_Status cur = ''trialing'' then l\<lparr>lic_Status := StatusTrialing\<rparr>
                   else if se_Status cur = ''past_due'' then l\<lparr>lic_Status := StatusPastDue, lic_PastDueAt := Some (env_now e)\<rparr>
                   else l);
              l = (case se_Items cur of [] \<Rightarrow> l | it # _ \<Rightarrow> l\<lparr>lic_Quantity := clampQuantity (si_Quantity it)\<rparr>)
          in l\<lparr>lic_StripeSyncedAt := Some asOf\<rparr>)"

text \<open>
  The transaction: the licence's and the upgrade's rows are locked, a payment that no longer stands
  closes the upgrade (\<open>None\<close>), and one that does moves the licence. An error undoes it all.
\<close>

definition applyUpgradeIn ::
  "env \<Rightarrow> upgradeSession \<Rightarrow> string \<Rightarrow> subscriptionEvent option \<Rightarrow> time \<Rightarrow> db
   \<Rightarrow> (LicenseUpgrade \<times> (License \<times> Plan \<times> string \<times> int) option) result \<times> db" where
  "applyUpgradeIn e sess closeAs cur asOf d =
     (if db_fault d then (Inl ErrDB, d)
      else case license_row d (us_LicenseID sess) of
        None \<Rightarrow> (Inl errUpgradeIneligible, d)
      | Some row \<Rightarrow>
          let locked = bare_license row in
          (case (case LockLicenseUpgradeBySessionIn (us_ID sess) d of
                   Inr u \<Rightarrow> (Inr u, d)
                 | Inl _ \<Rightarrow> CreateLicenseUpgradeIn e (zero_LicenseUpgrade\<lparr>up_ID := us_UpgradeID sess,
                     up_LicenseID := us_LicenseID sess, up_ToPlanID := us_PlanID sess,
                     up_StripeCheckoutSessionID := us_ID sess\<rparr>) d) of
             (Inl err, _) \<Rightarrow> (Inl err, d)
           | (Inr u, d1) \<Rightarrow>
               if up_State u \<noteq> UpgradePending \<and> up_State u \<noteq> UpgradeExpired then (Inl errUpgradeClosed, d)
               else if closeAs \<noteq> '''' then
                 (Inr (u\<lparr>up_State := closeAs, up_EndReason := if closeAs = UpgradeVoid then ''subscription_ended_before_applied''
                                   else ''refunded_before_applied''\<rparr>, None),
                  snd (EndLicenseUpgradeIn e u closeAs
                    (if closeAs = UpgradeVoid then ''subscription_ended_before_applied'' else ''refunded_before_applied'') d1))
               else
               (case (FindPlanByIDIn (us_PlanID sess) d1, FindPlanByIDIn (lic_PlanID locked) d1) of
                  (Inl _, _) \<Rightarrow> (Inl errUpgradeIneligible, d)
                | (Inr plan, found) \<Rightarrow>
                    let current = (case found of Inr p \<Rightarrow> Some p | Inl _ \<Rightarrow> None) in
                    if \<not> exists_where (\<lambda>p. prod_ID p = lic_ProductID locked) (db_products d1) then (Inl errUpgradeIneligible, d)
                    else if \<not> upgradeable locked current \<or> plan_ProductID plan \<noteq> lic_ProductID locked \<or>
                       plan_ID plan = lic_PlanID locked \<or> plan_LicenseType plan \<noteq> us_LicenseType sess \<or>
                       InitialUpdatesUntil plan (env_now e) \<noteq> None \<or>
                       (plan_LicenseType plan = ''subscription'') \<noteq> (us_Subscription sess \<noteq> '''')
                    then (Inl errUpgradeIneligible, d)
                    else
                      let u = applied_row locked plan sess u; l = upgraded_copy e asOf cur plan sess locked in
                      (case MarkLicenseUpgradeAppliedIn e u d1 of
                         (Inl err, _) \<Rightarrow> (Inl err, d)
                       | (Inr (), d2) \<Rightarrow>
                       (case (if lic_UpdatesUntil locked \<noteq> None then UpdateLicenseAndSupersedeRenewalsIn e l (upgrade_cols cur) d2
                              else UpdateLicenseIn e l (upgrade_cols cur) d2) of
                         (Inl err, _) \<Rightarrow> (Inl err, d)
                       | (Inr (), d3) \<Rightarrow>
                       (case SyncLicenseSubscriptionIn e (lic_ID l) (Some plan) (lic_Status l) (lic_ValidUntil l) d3 of
                         (Inl err, _) \<Rightarrow> (Inl err, d)
                       | (Inr (), d4) \<Rightarrow>
                       (case ResetSubscriptionCancelStateIn (lic_ID l) d4 of
                         (Inl err, _) \<Rightarrow> (Inl err, d)
                       | (Inr (), d5) \<Rightarrow> (Inr (u, Some (l, plan, lic_PlanID locked, lic_Quantity locked)), d5))))))))"

section \<open>What a revert leaves of the licence\<close>

definition reverted_row :: "env \<Rightarrow> LicenseUpgrade \<Rightarrow> License \<Rightarrow> License" where
  "reverted_row e u r = r\<lparr>lic_PlanID := up_FromPlanID u, lic_ValidUntil := up_FromValidUntil u,
     lic_CanceledAt := up_FromCanceledAt u, lic_PastDueAt := None, lic_UpdatesUntil := up_FromUpdatesUntil u,
     lic_UpdatesTermsSet := up_FromUpdatesTermsSet u, lic_PaymentProvider := up_FromPaymentProvider u,
     lic_StripeCustomerID := up_FromStripeCustomerID u, lic_StripeSubscriptionID := '''',
     lic_StripePaymentIntentID := '''', lic_StripeCheckoutSessionID := '''', lic_Quantity := max (up_FromQuantity u) 1,
     lic_StripePendingUpdateExpiresAt := None,
     lic_Status := (if operatorHeld r then lic_Status r else up_FromStatus u),
     lic_SuspendedAt := (if operatorHeld r then lic_SuspendedAt r else None),
     lic_SuspendedBy := (if operatorHeld r then lic_SuspendedBy r else ''''), lic_UpdatedAt := env_now e\<rparr>"

lemma bare_keeps [simp]:
  "operatorHeld (bare_license r) = operatorHeld r" "upgrade_linked u (bare_license r) = upgrade_linked u r"
  "lic_ID (bare_license r) = lic_ID r"
  by (simp_all add: bare_license_def operatorHeld_def upgrade_linked_def)

lemma reverted_set_cols:
  assumes "plan_ID plan = up_FromPlanID u"
  shows "set_cols ((reverted_copy u plan (bare_license r))\<lparr>lic_UpdatedAt := env_now e\<rparr>) (revert_cols (bare_license r) @ [C_updated_at]) r
       = reverted_row e u r"
  by (simp add: set_cols_def revert_cols_def reverted_copy_def reverted_row_def bare_license_def operatorHeld_def Let_def assms)

lemma reverted_written:
  assumes "plan_ID plan = up_FromPlanID u"
  shows "written_as e d ((reverted_copy u plan (bare_license r))\<lparr>lic_UpdatedAt := env_now e\<rparr>) (revert_cols (bare_license r) @ [C_updated_at]) r
       = licenses_init_updates_until e d r (reverted_row e u r)"
  by (simp only: written_as_def reverted_set_cols [OF assms]) (simp add: revert_cols_def)

lemma sync_subscription_frame:
  assumes "SyncLicenseSubscriptionIn e lid plan st v d = (res, d')"
  shows "db_licenses d' = db_licenses d \<and> db_upgrades d' = db_upgrades d \<and> db_renewals d' = db_renewals d \<and> db_plans d' = db_plans d \<and> db_fault d' = db_fault d"
  using assms by (auto simp: SyncLicenseSubscriptionIn_def insert_subscription_def Let_def split: option.splits if_splits sum.splits)

lemma reset_cancel_frame:
  assumes "ResetSubscriptionCancelStateIn lid d = (res, d')"
  shows "db_licenses d' = db_licenses d \<and> db_upgrades d' = db_upgrades d \<and> db_renewals d' = db_renewals d \<and> db_plans d' = db_plans d \<and> db_fault d' = db_fault d"
  using assms by (auto simp: ResetSubscriptionCancelStateIn_def split: if_splits)

lemma end_upgrade_frame:
  assumes "EndLicenseUpgradeIn e u st reason d = (res, d')"
  shows "db_licenses d' = db_licenses d \<and> db_renewals d' = db_renewals d \<and> db_plans d' = db_plans d \<and> db_fault d' = db_fault d"
  using assms by (auto simp: EndLicenseUpgradeIn_def split: if_splits)

lemma end_upgrade_licenses [simp]: "db_licenses (snd (EndLicenseUpgradeIn e u st reason d)) = db_licenses d"
  by (simp add: EndLicenseUpgradeIn_def)

text \<open>A revert writes the licence as the upgrade found it, or leaves every licence alone.\<close>

lemma revert_licenses:
  assumes "RevertLicenseUpgradeIn e u reason d = (res, d')"
  shows "(db_licenses d' = db_licenses d \<and> (\<forall>x. res = Inr x \<longrightarrow> \<not> ur_Reverted x)) \<or>
    (\<exists>r x. license_row d (up_LicenseID u) = Some r \<and> upgrade_linked u r \<and> res = Inr x \<and> ur_Reverted x \<and>
       db_licenses d' = update_where (\<lambda>y. lic_ID y = lic_ID r)
         (written_as e d ((reverted_copy u (the (ur_Plan x)) (bare_license r))\<lparr>lic_UpdatedAt := env_now e\<rparr>)
            (revert_cols (bare_license r) @ [C_updated_at])) (db_licenses d) \<and>
       plan_ID (the (ur_Plan x)) = up_FromPlanID u)"
proof (cases "db_fault d \<or> license_row d (up_LicenseID u) = None")
  case True
  then show ?thesis using assms
    by (auto simp: RevertLicenseUpgradeIn_def no_revert_def EndLicenseUpgradeIn_def split: option.splits if_splits)
next
  case False
  then obtain r where r: "license_row d (up_LicenseID u) = Some r" and ok: "\<not> db_fault d" by auto
  show ?thesis
  proof (cases "upgrade_linked u r")
    case False
    then show ?thesis using assms r ok
      by (auto simp: RevertLicenseUpgradeIn_def no_revert_def Let_def EndLicenseUpgradeIn_def split: if_splits)
  next
    case linked: True
    have taken: "upgrade_linked u r = True" "db_fault d = False" using linked ok by simp_all
    note step = assms [unfolded RevertLicenseUpgradeIn_def r option.case Let_def bare_keeps taken not_True_eq_False if_False]
    show ?thesis
    proof (cases "if up_FromPlanID u = '''' then Inl ErrNoRows else FindPlanByIDIn (up_FromPlanID u) d")
      case (Inl err)
      then have "(res, d') = (Inr (no_revert\<lparr>ur_FreePlanGone := True, ur_License := Some (bare_license r)\<rparr>),
          snd (EndLicenseUpgradeIn e u UpgradeReverted (reason @ '':free_plan_gone'') d))"
        using step by (simp only: sum.case)
      then show ?thesis by (simp add: no_revert_def)
    next
      case (Inr plan)
      then have "FindPlanByIDIn (up_FromPlanID u) d = Inr plan" by (simp split: if_splits)
      then have pid: "plan_ID plan = up_FromPlanID u"
        by (auto simp: FindPlanByIDIn_def with_entitlements_def dest: select_one_SomeD split: if_splits option.splits)
      note step = step [unfolded Inr sum.case]
      show ?thesis
      proof (cases res)
        case (Inl err)
        then show ?thesis using step by (auto split: sum.splits prod.splits unit.splits)
      next
        case res: (Inr x)
        let ?l = "reverted_copy u plan (bare_license r)"
        obtain d1 d2 d3 where steps: "UpdateLicenseIn e ?l (revert_cols (bare_license r)) d = (Inr (), d1)"
          "SyncLicenseSubscriptionIn e (lic_ID ?l) (Some plan) (lic_Status ?l) (lic_ValidUntil ?l) d1 = (Inr (), d2)"
          "ResetSubscriptionCancelStateIn (lic_ID ?l) d2 = (Inr (), d3)"
          "EndLicenseUpgradeIn e u UpgradeReverted reason d3 = (Inr (), d')" "ur_Reverted x" "ur_Plan x = Some plan"
          using step res by (auto split: sum.splits prod.splits unit.splits)
        have "db_licenses d' = db_licenses d1"
          using sync_subscription_frame [OF steps(2)] reset_cancel_frame [OF steps(3)] end_upgrade_frame [OF steps(4)] by simp
        moreover have "lic_ID ?l = lic_ID r" by (simp add: reverted_copy_def Let_def)
        ultimately show ?thesis using steps(1,5,6) r linked res pid
          by (auto simp: UpdateLicenseIn_def Let_def write_columns_licenses split: if_splits option.splits)
      qed
    qed
  qed
qed

lemma revert_row:
  assumes "RevertLicenseUpgradeIn e u reason d = (Inr x, d')" and "license_row d lid = Some r"
  shows "(license_row d' lid = Some r \<and> (ur_Reverted x \<longrightarrow> lid \<noteq> up_LicenseID u)) \<or>
         (lid = up_LicenseID u \<and> ur_Reverted x \<and> upgrade_linked u r \<and> license_row d' lid = Some (licenses_init_updates_until e d r (reverted_row e u r)))"
proof -
  consider (kept) "db_licenses d' = db_licenses d" "\<not> ur_Reverted x"
    | (undone) q where "license_row d (up_LicenseID u) = Some q" "upgrade_linked u q" "ur_Reverted x"
        "plan_ID (the (ur_Plan x)) = up_FromPlanID u"
        "db_licenses d' = update_where (\<lambda>y. lic_ID y = lic_ID q)
         (written_as e d ((reverted_copy u (the (ur_Plan x)) (bare_license q))\<lparr>lic_UpdatedAt := env_now e\<rparr>)
            (revert_cols (bare_license q) @ [C_updated_at])) (db_licenses d)"
    using revert_licenses [OF assms(1)] by blast
  then show ?thesis
  proof cases
    case kept
    then show ?thesis using assms(2) license_row_frame [OF kept(1)] kept(2) by simp
  next
    case (undone q)
    let ?f = "written_as e d ((reverted_copy u (the (ur_Plan x)) (bare_license q))\<lparr>lic_UpdatedAt := env_now e\<rparr>)
            (revert_cols (bare_license q) @ [C_updated_at])"
    have ids: "lic_ID q = up_LicenseID u" "lic_ID r = lid"
      using license_row_SomeD [OF undone(1)] license_row_SomeD [OF assms(2)] by simp_all
    have "license_row d' = license_row (d\<lparr>db_licenses := update_where (\<lambda>y. lic_ID y = lic_ID q) ?f (db_licenses d)\<rparr>)"
      using undone(5) by (intro license_row_frame) simp
    then have row: "license_row d' lid = Some (if lic_ID r = lic_ID q then ?f r else r)"
      using license_row_map [where f = ?f and P = "\<lambda>y. lic_ID y = lic_ID q" and d = d and lid = lid] assms(2) by simp
    show ?thesis
    proof (cases "lid = up_LicenseID u")
      case True
      then have "q = r" using undone(1) assms(2) by simp
      then show ?thesis using row undone(2,3) True reverted_written [OF undone(4)] by simp
    next
      case False
      then show ?thesis using row ids by simp
    qed
  qed
qed

lemma revert_ids:
  assumes "RevertLicenseUpgradeIn e u reason d = (res, d')"
  shows "map lic_ID (db_licenses d') = map lic_ID (db_licenses d)"
  using revert_licenses [OF assms] by (elim disjE exE conjE) (simp_all add: map_update_where)

lemma provider_audit_frame [simp]: "db_licenses (Audit a d) = db_licenses d" "db_fault (Audit a d) = db_fault d"
  "db_plans (Audit a d) = db_plans d" "db_renewals (Audit a d) = db_renewals d" "db_upgrades (Audit a d) = db_upgrades d" "db_subscriptions (Audit a d) = db_subscriptions d"
  by (simp_all add: Audit_def)

lemma notify_frame [simp]: "db_licenses (notify w p ev x d) = db_licenses d" "db_fault (notify w p ev x d) = db_fault d"
  "db_plans (notify w p ev x d) = db_plans d" "db_renewals (notify w p ev x d) = db_renewals d" "db_upgrades (notify w p ev x d) = db_upgrades d"
  "db_subscriptions (notify w p ev x d) = db_subscriptions d"
  by (simp_all add: notify_def Dispatch_def)

lemma announce_revert_frame [simp]:
  "db_licenses (announce_revert h uid reason source res d) = db_licenses d"
  "db_upgrades (announce_revert h uid reason source res d) = db_upgrades d"
  "db_plans (announce_revert h uid reason source res d) = db_plans d"
  "db_renewals (announce_revert h uid reason source res d) = db_renewals d"
  by (auto simp: announce_revert_def announceUpgradeQuantity_def mailPlanChanged_def send_mail_def Dispatch_def Let_def
      split: option.splits bool.splits)

lemma revertUpgrade_row:
  assumes "revertUpgrade e h uid reason source d = (Inr x, d')" and "license_row d lid = Some r"
  shows "license_row d' lid = Some r \<or>
    (\<exists>u. LockLicenseUpgradeIn uid d = Inr u \<and> up_State u = UpgradeApplied \<and> lid = up_LicenseID u \<and> ur_Reverted x \<and>
         upgrade_linked u r \<and>
         license_row d' lid = Some (licenses_init_updates_until e d r (reverted_row e u r)))"
proof (cases "LockLicenseUpgradeIn uid d")
  case (Inl err)
  then show ?thesis using assms by (simp add: revertUpgrade_def)
next
  case (Inr u)
  show ?thesis
  proof (cases "up_State u = UpgradeApplied")
    case False
    then show ?thesis using assms Inr by (simp add: revertUpgrade_def)
  next
    case True
    obtain d1 where d1: "RevertLicenseUpgradeIn e u reason d = (Inr x, d1)"
      and d': "d' = announce_revert h uid reason source x d1"
      using assms(1) Inr True by (auto simp: revertUpgrade_def split: prod.splits sum.splits)
    have "license_row d' = license_row d1" using d' by (intro license_row_frame) simp
    then show ?thesis using revert_row [OF d1 assms(2)] Inr True by auto
  qed
qed

lemma revertUpgrade_ids:
  assumes "revertUpgrade e h uid reason source d = (res, d')"
  shows "map lic_ID (db_licenses d') = map lic_ID (db_licenses d)"
  using assms by (auto simp: revertUpgrade_def dest!: revert_ids split: sum.splits if_splits prod.splits)

section \<open>What the ledger remembers of an applied upgrade\<close>

definition remembers :: "License \<Rightarrow> LicenseUpgrade \<Rightarrow> bool" where
  "remembers r u \<longleftrightarrow> up_FromPlanID u = lic_PlanID r \<and> up_FromStatus u = lic_Status r \<and>
     up_FromValidUntil u = lic_ValidUntil r \<and> up_FromUpdatesUntil u = lic_UpdatesUntil r \<and>
     up_FromUpdatesTermsSet u = lic_UpdatesTermsSet r \<and> up_FromPaymentProvider u = lic_PaymentProvider r \<and>
     up_FromStripeCustomerID u = lic_StripeCustomerID r \<and> up_FromCanceledAt u = lic_CanceledAt r \<and>
     up_FromQuantity u = lic_Quantity r"

lemma bare_fields [simp]:
  "lic_Status (bare_license r) = lic_Status r" "lic_PlanID (bare_license r) = lic_PlanID r"
  "remembers (bare_license r) u = remembers r u" "upgradeable (bare_license r) p = upgradeable r p"
  by (simp_all add: bare_license_def remembers_def upgradeable_def split: option.splits)

lemma applied_remembers: "remembers locked (applied_row locked plan sess u)"
  by (simp add: remembers_def applied_row_def)

text \<open>What a transaction that applied an upgrade did.\<close>

lemma apply_steps:
  assumes "applyUpgradeIn e sess closeAs cur asOf d = (Inr (u, Some (l, plan, oldPlan, oldQty)), d')"
  obtains row u0 d1 d2 d3 d4 where "license_row d (us_LicenseID sess) = Some row"
    "upgradeable row (case FindPlanByIDIn (lic_PlanID row) d1 of Inr p \<Rightarrow> Some p | Inl _ \<Rightarrow> None)"
    "up_State u0 = UpgradePending \<or> up_State u0 = UpgradeExpired" "closeAs = ''''"
    "u = applied_row (bare_license row) plan sess u0" "l = upgraded_copy e asOf cur plan sess (bare_license row)"
    "MarkLicenseUpgradeAppliedIn e u d1 = (Inr (), d2)"
    "(if lic_UpdatesUntil (bare_license row) \<noteq> None then UpdateLicenseAndSupersedeRenewalsIn e l (upgrade_cols cur) d2
      else UpdateLicenseIn e l (upgrade_cols cur) d2) = (Inr (), d3)"
    "SyncLicenseSubscriptionIn e (lic_ID l) (Some plan) (lic_Status l) (lic_ValidUntil l) d3 = (Inr (), d4)"
    "ResetSubscriptionCancelStateIn (lic_ID l) d4 = (Inr (), d')"
proof -
  have "\<not> db_fault d" using assms by (auto simp: applyUpgradeIn_def)
  moreover obtain row where row: "license_row d (us_LicenseID sess) = Some row"
    using assms \<open>\<not> db_fault d\<close> by (cases "license_row d (us_LicenseID sess)") (simp_all add: applyUpgradeIn_def)
  ultimately have open_: "db_fault d = False" by simp
  note step = assms [unfolded applyUpgradeIn_def row option.case Let_def open_ if_False]
  show thesis
  proof (cases "case LockLicenseUpgradeBySessionIn (us_ID sess) d of
                   Inr u \<Rightarrow> (Inr u, d)
                 | Inl _ \<Rightarrow> CreateLicenseUpgradeIn e (zero_LicenseUpgrade\<lparr>up_ID := us_UpgradeID sess,
                     up_LicenseID := us_LicenseID sess, up_ToPlanID := us_PlanID sess,
                     up_StripeCheckoutSessionID := us_ID sess\<rparr>) d")
    case (Pair ru d1)
    note step = step [unfolded Pair prod.case]
    show thesis
    proof (cases ru)
      case (Inl err)
      then show thesis using step by simp
    next
      case (Inr u0)
      note step = step [unfolded Inr sum.case]
      have st: "up_State u0 = UpgradePending \<or> up_State u0 = UpgradeExpired" and close: "closeAs = ''''"
        using step by (auto split: if_splits)
      show thesis
      proof (cases "FindPlanByIDIn (us_PlanID sess) d1")
        case (Inl err)
        then show thesis using step st close by (auto split: if_splits)
      next
        case plan: (Inr p)
        show thesis
          using step st close plan that [OF row _ st close, of d1]
          by (auto split: if_splits sum.splits prod.splits unit.splits)
      qed
    qed
  qed
qed

lemma update_license_frame:
  assumes "UpdateLicenseIn e l cols d = (Inr (), d')"
  shows "db_upgrades d' = db_upgrades d"
proof -
  have "d' = d\<lparr>db_licenses := db_licenses d', db_renewals := db_renewals d'\<rparr>"
    using assms by (auto simp: UpdateLicenseIn_def Let_def dest: write_columns_frame split: if_splits option.splits)
  then have "db_upgrades d' = db_upgrades (d\<lparr>db_licenses := db_licenses d', db_renewals := db_renewals d'\<rparr>)" by simp
  then show ?thesis by simp
qed

lemma supersede_frame:
  assumes "UpdateLicenseAndSupersedeRenewalsIn e l cols d = (Inr (), d')"
  shows "db_upgrades d' = db_upgrades d"
proof -
  obtain r d1 where u: "UpdateLicenseIn e l cols d = (r, d1)" by (cases "UpdateLicenseIn e l cols d")
  then show ?thesis using assms update_license_frame [of e l cols d d1]
    by (auto simp: UpdateLicenseAndSupersedeRenewalsIn_def split: sum.splits unit.splits)
qed

lemma updated_row:
  assumes "r \<in> set (update_where P f rows)" and "P r"
  shows "\<exists>x. r = f x"
  using assms by (induction rows) (auto simp: update_where_def split: if_splits)

lemma apply_ledger:
  assumes "applyUpgradeIn e sess closeAs cur asOf d = (Inr (u, Some a), d')" and "license_row d (us_LicenseID sess) = Some row"
    and "LockLicenseUpgradeIn (up_ID u) d' = Inr up"
  shows "remembers row up \<and> up_State up = UpgradeApplied"
proof -
  obtain l plan oldPlan oldQty where a: "a = (l, plan, oldPlan, oldQty)" by (cases a) auto
  show ?thesis
  proof (rule apply_steps [OF assms(1) [unfolded a]])
    fix row' u0 d1 d2 d3 d4
    assume s1: "license_row d (us_LicenseID sess) = Some row'" and s2: "u = applied_row (bare_license row') plan sess u0"
      and s3: "MarkLicenseUpgradeAppliedIn e u d1 = (Inr (), d2)"
      and s4: "(if lic_UpdatesUntil (bare_license row') \<noteq> None then UpdateLicenseAndSupersedeRenewalsIn e l (upgrade_cols cur) d2
          else UpdateLicenseIn e l (upgrade_cols cur) d2) = (Inr (), d3)"
      and s5: "SyncLicenseSubscriptionIn e (lic_ID l) (Some plan) (lic_Status l) (lic_ValidUntil l) d3 = (Inr (), d4)"
      and s6: "ResetSubscriptionCancelStateIn (lic_ID l) d4 = (Inr (), d')"
    note s = s1 s2 s3 s4 s5 s6
  have "db_upgrades d3 = db_upgrades d2"
    using s(4) update_license_frame supersede_frame by (metis (no_types, lifting))
  then have up': "db_upgrades d' = db_upgrades d2"
    using sync_subscription_frame [OF s(5)] reset_cancel_frame [OF s(6)] by simp
  have u: "remembers row u" using s(1,2) assms(2) applied_remembers [of "bare_license row'"] by simp
  have "up \<in> set (db_upgrades d2)" "up_ID up = up_ID u"
    using assms(3) up' by (auto simp: LockLicenseUpgradeIn_def findLicenseUpgrade_def dest: first_by_SomeD split: if_splits option.splits)
  moreover have "db_upgrades d2 = update_where (\<lambda>x. up_ID x = up_ID u) (mark_applied (env_now e) u) (db_upgrades d1)"
    using s(3) by (auto simp: MarkLicenseUpgradeAppliedIn_def split: if_splits)
  ultimately obtain x where "up = mark_applied (env_now e) u x"
    using updated_row [of up "\<lambda>x. up_ID x = up_ID u"] by metis
  then show ?thesis using u by (simp add: remembers_def mark_applied_def)
  qed
qed

lemma revert_done:
  assumes "RevertLicenseUpgradeIn e u reason d = (Inr x, d')" and "license_row d (up_LicenseID u) = Some r"
    and "upgrade_linked u r" and "FindPlanByIDIn (up_FromPlanID u) d = Inr plan" and "up_FromPlanID u \<noteq> ''''"
  shows "ur_Reverted x"
proof -
  have open_: "db_fault d = False" using assms(4) by (auto simp: FindPlanByIDIn_def split: if_splits)
  have linked: "upgrade_linked u r = True" "(up_FromPlanID u = '''') = False" using assms(3,5) by simp_all
  show ?thesis
    using assms(1) [unfolded RevertLicenseUpgradeIn_def assms(2) option.case Let_def bare_keeps linked open_
      not_True_eq_False if_False assms(4) sum.case]
    by (auto split: sum.splits prod.splits unit.splits)
qed

text \<open>A plan change across perpetual plans closes the renewals of the period it ends.\<close>

lemma write_closes_renewals:
  assumes "UpdateLicenseIn e l cols d = (Inr (), d')" and "C_plan_id \<in> set cols"
    and "license_row d (lic_ID l) = Some r" and "crosses_perpetual d r (r\<lparr>lic_PlanID := lic_PlanID l\<rparr>)"
  shows "\<forall>x \<in> set (db_renewals d'). ren_LicenseID x = lic_ID l \<longrightarrow> ren_SupersededAt x \<noteq> None"
proof -
  let ?l = "l\<lparr>lic_UpdatedAt := env_now e\<rparr>" and ?cols = "cols @ [C_updated_at]"
  have "update_plan_rows e (\<lambda>r. lic_ID r = lic_ID l) (set_cols ?l ?cols) d = Some d'"
    using assms(1,2) by (auto simp: UpdateLicenseIn_def Let_def write_columns_def split: if_splits option.splits)
  then have rows: "db_renewals d' = close_renewals e (\<lambda>lid. exists_where (\<lambda>r. lic_ID r = lic_ID l \<and> lic_ID r = lid \<and>
      crosses_perpetual d r (set_cols ?l ?cols r)) (db_licenses d)) (db_renewals d)"
    by (auto simp: update_plan_rows_def Let_def split: if_splits)
  have "crosses_perpetual d r (set_cols ?l ?cols r)"
    using assms(2,4) by (simp add: crosses_perpetual_def plan_of_def set_cols_written)
  moreover have "r \<in> set (db_licenses d)" "lic_ID r = lic_ID l" using license_row_SomeD [OF assms(3)] by simp_all
  ultimately have "exists_where (\<lambda>r. lic_ID r = lic_ID l \<and> lic_ID r = lic_ID l \<and>
      crosses_perpetual d r (set_cols ?l ?cols r)) (db_licenses d)" by auto
  then show ?thesis unfolding rows close_renewals_def by (auto simp: ball_update_where simp del: exists_where_iff)
qed

lemma revert_closes:
  assumes "RevertLicenseUpgradeIn e u reason d = (Inr x, d')" and "ur_Reverted x"
    and "license_row d (up_LicenseID u) = Some r" and "crosses_perpetual d r (r\<lparr>lic_PlanID := up_FromPlanID u\<rparr>)"
  shows "\<forall>y \<in> set (db_renewals d'). ren_LicenseID y = up_LicenseID u \<longrightarrow> ren_SupersededAt y \<noteq> None"
proof -
  have ok: "db_fault d = False" and taken: "upgrade_linked u r = True"
    using assms(1,2,3) by (auto simp: RevertLicenseUpgradeIn_def Let_def no_revert_def split: if_splits)
  note step = assms(1) [unfolded RevertLicenseUpgradeIn_def assms(3) option.case Let_def bare_keeps taken ok not_True_eq_False if_False]
  show ?thesis
  proof (cases "if up_FromPlanID u = '''' then Inl ErrNoRows else FindPlanByIDIn (up_FromPlanID u) d")
    case (Inl err)
    then show ?thesis using step assms(2) by (auto simp: no_revert_def)
  next
    case (Inr plan)
    then have "FindPlanByIDIn (up_FromPlanID u) d = Inr plan" by (simp split: if_splits)
    then have pid: "plan_ID plan = up_FromPlanID u"
      by (auto simp: FindPlanByIDIn_def with_entitlements_def dest: select_one_SomeD split: if_splits option.splits)
    let ?l = "reverted_copy u plan (bare_license r)"
    have l: "lic_ID ?l = up_LicenseID u" "lic_PlanID ?l = up_FromPlanID u"
      using license_row_SomeD [OF assms(3)] pid by (simp_all add: reverted_copy_def Let_def)
    obtain d1 d2 d3 where steps: "UpdateLicenseIn e ?l (revert_cols (bare_license r)) d = (Inr (), d1)"
      "SyncLicenseSubscriptionIn e (lic_ID ?l) (Some plan) (lic_Status ?l) (lic_ValidUntil ?l) d1 = (Inr (), d2)"
      "ResetSubscriptionCancelStateIn (lic_ID ?l) d2 = (Inr (), d3)"
      "EndLicenseUpgradeIn e u UpgradeReverted reason d3 = (Inr (), d')"
      using step [unfolded Inr sum.case] by (auto split: sum.splits prod.splits unit.splits)
    have "db_renewals d' = db_renewals d1"
      using sync_subscription_frame [OF steps(2)] reset_cancel_frame [OF steps(3)] end_upgrade_frame [OF steps(4)] by simp
    moreover have "C_plan_id \<in> set (revert_cols (bare_license r))" by (simp add: revert_cols_def)
    ultimately show ?thesis using write_closes_renewals [OF steps(1)] l assms(3,4) by simp
  qed
qed

text \<open>The update terms of a reverted licence, as the trigger leaves them.\<close>

lemma reverted_terms:
  assumes "remembers free up"
  shows "if lic_PlanID paid \<noteq> lic_PlanID free \<and> \<not> perpetual (plan_of d free) then
        lic_UpdatesUntil (licenses_init_updates_until e d paid (reverted_row e up paid)) = None \<and>
        lic_UpdatesTermsSet (licenses_init_updates_until e d paid (reverted_row e up paid))
      else if lic_PlanID paid \<noteq> lic_PlanID free \<and> \<not> perpetual (plan_of d paid) then
        lic_UpdatesUntil (licenses_init_updates_until e d paid (reverted_row e up paid)) = period_from_now e (plan_of d free) \<and>
        lic_UpdatesTermsSet (licenses_init_updates_until e d paid (reverted_row e up paid))
      else
        lic_UpdatesTermsSet (licenses_init_updates_until e d paid (reverted_row e up paid)) = lic_UpdatesTermsSet free \<and>
        lic_UpdatesUntil (licenses_init_updates_until e d paid (reverted_row e up paid)) =
          (if lic_PlanID paid = lic_PlanID free \<and> lic_UpdatesUntil free = None \<and> \<not> lic_UpdatesTermsSet free
           then period_from_now e (plan_of d free) else lic_UpdatesUntil free)"
proof -
  have same: "plan_of d (reverted_row e up paid) = plan_of d free" "lic_PlanID (reverted_row e up paid) = lic_PlanID free"
    "lic_UpdatesUntil (reverted_row e up paid) = lic_UpdatesUntil free"
    "lic_UpdatesTermsSet (reverted_row e up paid) = lic_UpdatesTermsSet free"
    using assms by (simp_all add: plan_of_def reverted_row_def remembers_def)
  show ?thesis
    by (cases "lic_PlanID paid = lic_PlanID free") (simp_all add: licenses_init_updates_until_def same)
qed

text \<open>
  C5: An upgrade undone leaves the licence as it was bought from: whatever happened to the paid
  licence between the payment and its refund or end, as long as it is still the one the payment
  bills and the free plan still exists, reverting puts the plan, dates, provider, customer and seats
  back to what they were when the upgrade was applied, takes every Stripe link off, and keeps the
  key. The status goes back too, unless an operator suspended or revoked the licence meanwhile: then
  that stands. The update terms go back only when the licence does not move in or out of perpetual
  plans: otherwise the database decides them again (none outside perpetual plans, the free plan's
  own period from now into them) and closes every renewal of the licence.
\<close>

theorem upgrade_undone:
  assumes "applyUpgradeIn e sess closeAs cur asOf d = (Inr (u, Some a), d1)"
    and "license_row d (us_LicenseID sess) = Some free"
    and "LockLicenseUpgradeIn (up_ID u) d1 = Inr up" and "up_LicenseID up = us_LicenseID sess"
    and "LockLicenseUpgradeIn (up_ID u) d2 = Inr up"
    and "license_row d2 (us_LicenseID sess) = Some paid" and "upgrade_linked up paid"
    and "FindPlanByIDIn (lic_PlanID free) d2 = Inr plan" and "lic_PlanID free \<noteq> ''''"
    and "revertUpgrade e' h (up_ID u) reason source d2 = (Inr res, d3)"
  shows "\<exists>r. license_row d3 (us_LicenseID sess) = Some r \<and>
     lic_PlanID r = lic_PlanID free \<and> lic_ValidUntil r = lic_ValidUntil free \<and> lic_CanceledAt r = lic_CanceledAt free \<and>
     lic_PaymentProvider r = lic_PaymentProvider free \<and> lic_StripeCustomerID r = lic_StripeCustomerID free \<and>
     lic_Quantity r = max (lic_Quantity free) 1 \<and> lic_PastDueAt r = None \<and>
     lic_StripeSubscriptionID r = '''' \<and> lic_StripePaymentIntentID r = '''' \<and> lic_StripeCheckoutSessionID r = '''' \<and>
     lic_KeyHash r = lic_KeyHash paid \<and> lic_LicenseKey r = lic_LicenseKey paid \<and>
     (if operatorHeld paid then lic_Status r = lic_Status paid \<and> lic_SuspendedBy r = lic_SuspendedBy paid
      else lic_Status r = lic_Status free \<and> lic_SuspendedBy r = '''') \<and>
     (if lic_PlanID paid \<noteq> lic_PlanID free \<and> \<not> perpetual (plan_of d2 free) then
        lic_UpdatesUntil r = None \<and> lic_UpdatesTermsSet r
      else if lic_PlanID paid \<noteq> lic_PlanID free \<and> \<not> perpetual (plan_of d2 paid) then
        lic_UpdatesUntil r = period_from_now e' (plan_of d2 free) \<and> lic_UpdatesTermsSet r
      else
        lic_UpdatesTermsSet r = lic_UpdatesTermsSet free \<and>
        lic_UpdatesUntil r =
          (if lic_PlanID paid = lic_PlanID free \<and> lic_UpdatesUntil free = None \<and> \<not> lic_UpdatesTermsSet free
           then period_from_now e' (plan_of d2 free) else lic_UpdatesUntil free)) \<and>
     (crosses_perpetual d2 paid r \<longrightarrow>
        (\<forall>x \<in> set (db_renewals d3). ren_LicenseID x = us_LicenseID sess \<longrightarrow> ren_SupersededAt x \<noteq> None))"
proof -
  have rem: "remembers free up" "up_State up = UpgradeApplied" using apply_ledger [OF assms(1-3)] by simp_all
  obtain dr where dr: "RevertLicenseUpgradeIn e' up reason d2 = (Inr res, dr)"
    and d3: "d3 = announce_revert h (up_ID u) reason source res dr"
    using assms(10) assms(5) rem(2) by (auto simp: revertUpgrade_def split: prod.splits sum.splits)
  have from_plan: "up_FromPlanID up = lic_PlanID free" using rem(1) by (simp add: remembers_def)
  have undone: "ur_Reverted res"
    using revert_done [OF dr] assms(4,6-9) from_plan by simp
  define r where "r = licenses_init_updates_until e' d2 paid (reverted_row e' up paid)"
  have "license_row dr (us_LicenseID sess) = Some r"
    using revert_row [OF dr assms(6)] assms(4) undone by (auto simp: r_def)
  moreover have "license_row d3 = license_row dr" using d3 by (intro license_row_frame) simp
  ultimately have "license_row d3 (us_LicenseID sess) = Some r" by simp
  moreover have "lic_PlanID r = lic_PlanID free" "lic_ValidUntil r = lic_ValidUntil free" "lic_CanceledAt r = lic_CanceledAt free"
    "lic_PaymentProvider r = lic_PaymentProvider free" "lic_StripeCustomerID r = lic_StripeCustomerID free"
    "lic_Quantity r = max (lic_Quantity free) 1" "lic_PastDueAt r = None" "lic_StripeSubscriptionID r = ''''"
    "lic_StripePaymentIntentID r = ''''" "lic_StripeCheckoutSessionID r = ''''"
    "lic_KeyHash r = lic_KeyHash paid" "lic_LicenseKey r = lic_LicenseKey paid"
    "if operatorHeld paid then lic_Status r = lic_Status paid \<and> lic_SuspendedBy r = lic_SuspendedBy paid
      else lic_Status r = lic_Status free \<and> lic_SuspendedBy r = ''''"
    using rem(1) by (simp_all add: r_def trigger_other reverted_row_def remembers_def)
  moreover have "crosses_perpetual d2 paid r \<longrightarrow>
      (\<forall>x \<in> set (db_renewals d3). ren_LicenseID x = us_LicenseID sess \<longrightarrow> ren_SupersededAt x \<noteq> None)"
    using revert_closes [OF dr undone, of paid] assms(4,6) d3
    by (auto simp: r_def crosses_perpetual_def plan_of_def reverted_row_def)
  moreover note reverted_terms [OF rem(1), where e = e' and d = d2 and paid = paid, folded r_def]
  ultimately show ?thesis by (intro exI [of _ r] conjI)
qed

definition pro_plan :: Plan where
  "pro_plan = demo_plan\<lparr>plan_ID := ''PRO'', plan_StripePriceID := ''price''\<rparr>"

definition upgrade_session :: upgradeSession where
  "upgrade_session = \<lparr>us_ID = ''cs'', us_Customer = ''cus'', us_Subscription = '''', us_PaymentIntent = ''pi'',
     us_LicenseID = ''L'', us_PlanID = ''PRO'', us_UpgradeID = ''U'', us_LicenseType = plan_LicenseType demo_plan\<rparr>"

definition upgrading_db :: db where
  "upgrading_db = demo_db\<lparr>db_plans := [demo_plan, pro_plan]\<rparr>"

definition quiet_stripe :: StripeHandler where
  "quiet_stripe = \<lparr>sh_Key = False, sh_get = (\<lambda>_ _. StripeNotFound), sh_cancel = (\<lambda>_. StripeNotFound),
     sh_webhook = False, sh_email = False\<rparr>"

lemma upgrading_runs:
  "case applyUpgradeIn demo_env upgrade_session '''' None 0 upgrading_db of
     (Inr applied, d1) \<Rightarrow> up_ID (fst applied) = ''U'' \<and> snd applied \<noteq> None \<and>
       (case LockLicenseUpgradeIn ''U'' d1 of Inl _ \<Rightarrow> False
        | Inr up \<Rightarrow> up_LicenseID up = ''L'' \<and>
            (case license_row d1 ''L'' of None \<Rightarrow> False
             | Some paid \<Rightarrow> upgrade_linked up paid \<and> \<not> operatorHeld paid \<and> lic_PlanID paid = ''PRO'')) \<and>
       (case FindPlanByIDIn ''PL'' d1 of Inr _ \<Rightarrow> True | Inl _ \<Rightarrow> False) \<and>
       (case revertUpgrade demo_env quiet_stripe ''U'' ''refund'' ''webhook'' d1 of (Inr _, _) \<Rightarrow> True | _ \<Rightarrow> False)
   | (Inl _, _) \<Rightarrow> False"
  by code_simp

theorem upgrade_undone_witness:
  "\<exists>u a d1 res d3 paid r. applyUpgradeIn demo_env upgrade_session '''' None 0 upgrading_db = (Inr (u, Some a), d1) \<and>
     license_row d1 ''L'' = Some paid \<and> lic_PlanID paid = ''PRO'' \<and>
     revertUpgrade demo_env quiet_stripe ''U'' ''refund'' ''webhook'' d1 = (Inr res, d3) \<and>
     license_row d3 ''L'' = Some r \<and> lic_PlanID r = ''PL'' \<and> lic_Status r = StatusActive \<and> lic_PaymentProvider r = ''''"
proof -
  obtain u a d1 up paid plan res d3 where run: "applyUpgradeIn demo_env upgrade_session '''' None 0 upgrading_db = (Inr (u, Some a), d1)"
    "up_ID u = ''U''" "LockLicenseUpgradeIn ''U'' d1 = Inr up" "up_LicenseID up = ''L''" "license_row d1 ''L'' = Some paid"
    "upgrade_linked up paid" "\<not> operatorHeld paid" "lic_PlanID paid = ''PRO''" "FindPlanByIDIn ''PL'' d1 = Inr plan"
    "revertUpgrade demo_env quiet_stripe ''U'' ''refund'' ''webhook'' d1 = (Inr res, d3)"
    using upgrading_runs by (auto split: prod.split_asm sum.split_asm option.split_asm)
  have free: "license_row upgrading_db (us_LicenseID upgrade_session) = Some demo_license"
    by (simp add: upgrading_db_def upgrade_session_def license_row_def select_one_def)
  have sess: "us_LicenseID upgrade_session = ''L''" by (simp add: upgrade_session_def)
  show ?thesis
    using upgrade_undone [OF run(1) free, unfolded run(2) sess demo_rows, OF run(3,4,3,5,6,9) _ run(10)] run
    by (cases a) (auto simp: demo_license_def zero_License_def)
qed

end
