(* ===== verification/KG_Stripe_Events.thy ===== *)
theory KG_Stripe_Events
  imports KG_Upgrades
begin

text \<open>
  What Stripe's subscription and invoice events do to a licence (\<^verbatim>\<open>internal/payment/stripe.go\<close>,
  \<^verbatim>\<open>seats.go\<close>): the subscription is read as it stands now and applied under the store's guards,
  and what the write did is told, in the audit log, to webhooks and by mail, once. A malformed payload
  is \<open>None\<close>; \<open>e\<close> is the clock when the subscription is read, \<open>e'\<close> when it is written, and \<open>mid i\<close> is
  what other requests do to the database in the \<open>i\<close>-th gap between two steps.
\<close>

section \<open>What a write tells\<close>

definition int_string :: "int \<Rightarrow> string" where
  "int_string n = (if n < 0 then ''-'' @ dec_digits (nat (- n)) else dec_digits (nat n))"

definition announceCanceled :: "StripeHandler \<Rightarrow> License \<Rightarrow> string \<Rightarrow> string \<Rightarrow> db \<Rightarrow> db" where
  "announceCanceled h lic actor reason d =
     notify (sh_webhook h) (lic_ProductID lic) ''license.canceled''
       [(''license_id'', DStr (lic_ID lic)), (''email'', DStr (lic_Email lic)), (''reason'', DStr reason)]
       (Audit (provider_audit (lic_ID lic) ''canceled'' actor [(''provider'', DStr ''stripe''), (''reason'', DStr reason)]) d)"

definition announceSuspension :: "StripeHandler \<Rightarrow> License \<Rightarrow> string \<Rightarrow> string \<Rightarrow> string \<Rightarrow> db \<Rightarrow> db" where
  "announceSuspension h lic action event reason d =
     notify (sh_webhook h) (lic_ProductID lic) event
       ([(''license_id'', DStr (lic_ID lic)), (''email'', DStr (lic_Email lic))] @
        (if action = ''suspended'' then [(''reason'', DStr reason)] else []))
       (Audit (provider_audit (lic_ID lic) action ''webhook'' [(''reason'', DStr reason), (''provider'', DStr ''stripe'')]) d)"

definition product_name :: "string \<Rightarrow> db \<Rightarrow> string" where
  "product_name productID d = (case FindProductByID productID d of Inr p \<Rightarrow> prod_Name p | Inl _ \<Rightarrow> '''')"

definition notifyPaymentRecovered :: "env \<Rightarrow> StripeHandler \<Rightarrow> License \<Rightarrow> time option \<Rightarrow> db \<Rightarrow> db" where
  "notifyPaymentRecovered e h lic since d =
     (let tag = (case since of None \<Rightarrow> ''payment_recovered''
                 | Some t \<Rightarrow> ''payment_recovered:'' @ int_string (unix_seconds t)) in
      case TryRecordNotification e (lic_ID lic) tag d of
        (Inr False, d1) \<Rightarrow> d1
      | (_, d1) \<Rightarrow>
          notify (sh_webhook h) (lic_ProductID lic) ''license.payment_recovered''
            [(''license_id'', DStr (lic_ID lic)), (''email'', DStr (lic_Email lic))]
            (send_mail (sh_email h) ''payment_recovered'' (lic_Email lic)
              [(''product'', DStr (product_name (lic_ProductID lic) d1))] d1))"

definition notifyPaymentFailed :: "env \<Rightarrow> StripeHandler \<Rightarrow> License \<Rightarrow> time \<Rightarrow> string \<Rightarrow> db \<Rightarrow> error option \<times> db" where
  "notifyPaymentFailed e h lic pastDueAt subscriptionID d =
     (case TryRecordPastDueNotification e (lic_ID lic) subscriptionID pastDueAt
             (''payment_failed:'' @ int_string (unix_seconds pastDueAt)) d of
        (Inl err, d1) \<Rightarrow> (Some err, d1)
      | (Inr False, d1) \<Rightarrow> (None, d1)
      | (Inr True, d1) \<Rightarrow>
          (None, notify (sh_webhook h) (lic_ProductID lic) ''license.payment_failed''
             [(''license_id'', DStr (lic_ID lic)), (''email'', DStr (lic_Email lic))]
             (Audit (provider_audit (lic_ID lic) ''payment_failed'' ''webhook'' [(''provider'', DStr ''stripe'')]) d1)))"

definition announceTermsChanged :: "StripeHandler \<Rightarrow> License \<Rightarrow> LicenseTerms \<Rightarrow> lic_column list \<Rightarrow> string \<Rightarrow> db \<Rightarrow> db" where
  "announceTermsChanged h lic before cols source d =
     (let d = (if C_plan_id \<in> set cols \<and> lt_PlanID before \<noteq> lic_PlanID lic then
            notify (sh_webhook h) (lic_ProductID lic) ''plan.changed''
              [(''license_id'', DStr (lic_ID lic)), (''old_plan_id'', DStr (lt_PlanID before)), (''new_plan_id'', DStr (lic_PlanID lic))]
              (Audit (provider_audit (lic_ID lic) ''plan_changed'' ''webhook''
                [(''old_plan_id'', DStr (lt_PlanID before)), (''new_plan_id'', DStr (lic_PlanID lic)),
                 (''provider'', DStr ''stripe''), (''source'', DStr source)]) d) else d)
      in if C_quantity \<in> set cols \<and> lt_Quantity before \<noteq> lic_Quantity lic \<and> seatsMatter [lt_PlanID before, lic_PlanID lic] d then
            notify (sh_webhook h) (lic_ProductID lic) ''license.quantity_changed''
              [(''license_id'', DStr (lic_ID lic)), (''email'', DStr (lic_Email lic)), (''plan_id'', DStr (lic_PlanID lic)),
               (''old_quantity'', DInt (lt_Quantity before)), (''new_quantity'', DInt (lic_Quantity lic))]
              (Audit (provider_audit (lic_ID lic) ''quantity_changed'' ''webhook''
                [(''old_quantity'', DInt (lt_Quantity before)), (''new_quantity'', DInt (lic_Quantity lic)),
                 (''provider'', DStr ''stripe''), (''source'', DStr source)]) d)
         else d)"

section \<open>Writes from events\<close>

text \<open>Whether the write landed, and the error of one that failed; a refused one has none.\<close>

definition subscriptionWriteLanded :: "unit result \<Rightarrow> bool \<times> error option" where
  "subscriptionWriteLanded r =
     (case r of
        Inr () \<Rightarrow> (True, None)
      | Inl err \<Rightarrow>
          if err = ErrSubscriptionUnlinked \<or> err = ErrStaleSubscriptionRead \<or> err = ErrLicenseRestricted then (False, None)
          else (False, Some err))"

definition applyLicenseFromSubscription ::
  "env \<Rightarrow> License \<Rightarrow> time option \<Rightarrow> lic_column list \<Rightarrow> db \<Rightarrow> (bool \<times> error option) \<times> (License \<times> Found) \<times> db" where
  "applyLicenseFromSubscription e lic asOf cols d =
     (case asOf of
        Some t \<Rightarrow> (case UpdateLicenseFromSubscriptionRead e lic t cols d of (r, lf, d') \<Rightarrow> (subscriptionWriteLanded r, lf, d'))
      | None \<Rightarrow> (case UpdateLicenseFromSubscription e lic cols d of
          (r, lf, d') \<Rightarrow> ((fst (subscriptionWriteLanded r), None), lf, d')))"

definition endLicenseFromSubscription ::
  "env \<Rightarrow> License \<Rightarrow> lic_column list \<Rightarrow> db \<Rightarrow> (bool \<times> error option) \<times> (License \<times> Found) \<times> db" where
  "endLicenseFromSubscription e lic cols d =
     (case StripeReadStamp e d of
        Inl err \<Rightarrow> ((False, Some err), (lic, nothing_found), d)
      | Inr asOf \<Rightarrow>
          (case UpdateLicenseFromSubscriptionEnded e lic asOf cols d of
             (Inr (), lf, d') \<Rightarrow> ((True, None), lf, d')
           | (Inl err, lf, d') \<Rightarrow>
               ((False, if err = ErrSubscriptionUnlinked \<or> err = ErrLicenseRestricted then None else Some err), lf, d')))"

definition endAccessNow :: "env \<Rightarrow> License \<Rightarrow> bool \<times> License" where
  "endAccessNow e lic =
     (case lic_ValidUntil lic of
        Some t \<Rightarrow> if t > env_now e then (True, lic\<lparr>lic_ValidUntil := Some (env_now e)\<rparr>) else (False, lic)
      | None \<Rightarrow> (True, lic\<lparr>lic_ValidUntil := Some (env_now e)\<rparr>))"

section \<open>A subscription's state, applied\<close>

definition usable_status :: "string \<Rightarrow> bool" where
  "usable_status st \<longleftrightarrow> st = ''active'' \<or> st = ''past_due'' \<or> st = ''trialing''"

definition ended_status :: "string \<Rightarrow> bool" where
  "ended_status st \<longleftrightarrow> st = ''canceled'' \<or> st = ''unpaid''"

text \<open>The status the subscription's state gives the licence, with the columns it writes.\<close>

definition status_copy :: "env \<Rightarrow> string \<Rightarrow> License \<Rightarrow> License \<times> lic_column list" where
  "status_copy e st lic =
     (let cols = [C_status, C_canceled_at, C_past_due_at]; lifts = [C_suspended_at, C_suspended_by];
          lifted = (\<lambda>l. l\<lparr>lic_CanceledAt := None, lic_SuspendedAt := None, lic_SuspendedBy := ''''\<rparr>) in
      if st = ''active'' then (lifted (lic\<lparr>lic_Status := StatusActive, lic_PastDueAt := None\<rparr>), cols @ lifts)
      else if st = ''past_due'' then (lifted (lic\<lparr>lic_Status := StatusPastDue, lic_PastDueAt := Some (env_now e)\<rparr>), cols @ lifts)
      else if st = ''trialing'' then (lifted (lic\<lparr>lic_Status := StatusTrialing\<rparr>), cols @ lifts)
      else if st = ''paused'' then
        (lic\<lparr>lic_Status := StatusSuspended, lic_SuspendedAt := Some (env_now e), lic_SuspendedBy := SuspendedByStripe\<rparr>, cols @ lifts)
      else if ended_status st then
        (case endAccessNow e (lic\<lparr>lic_Status := StatusCanceled,
               lic_CanceledAt := (if lic_CanceledAt lic = None then Some (env_now e) else lic_CanceledAt lic),
               lic_PastDueAt := None, lic_StripePendingUpdateExpiresAt := None\<rparr>) of
           (moved, lic) \<Rightarrow> (lic, cols @ [C_stripe_pending_update_expires_at] @ (if moved then [C_valid_until] else [])))
      else (lic, cols))"

definition period_copy :: "subscriptionEvent \<Rightarrow> License \<times> lic_column list \<Rightarrow> License \<times> lic_column list" where
  "period_copy data lc =
     (if PeriodEnd data > 0 \<and> lic_Status (fst lc) \<noteq> StatusCanceled
      then ((fst lc)\<lparr>lic_ValidUntil := Some (unix_time (PeriodEnd data))\<rparr>, snd lc @ [C_valid_until]) else lc)"

definition subscriptionTerms :: "License \<Rightarrow> subscriptionEvent \<Rightarrow> db \<Rightarrow> (License \<times> lic_column list) result" where
  "subscriptionTerms lic data d =
     (if se_Items data = [] then Inr (lic, [])
      else
        let lic = lic\<lparr>lic_StripePendingUpdateExpiresAt :=
              (case se_PendingUpdate data of None \<Rightarrow> None
               | Some p \<Rightarrow> if pu_ExpiresAt p > 0 then Some (unix_time (pu_ExpiresAt p)) else None)\<rparr>;
            cols = [C_stripe_pending_update_expires_at]
        in case productItem (lic_ProductID lic) (se_Items data) d of
          Inl err \<Rightarrow> Inl err
        | Inr (Some (item, plan)) \<Rightarrow>
            Inr (lic\<lparr>lic_Quantity := clampQuantity (si_Quantity item), lic_PlanID := plan_ID plan\<rparr>, cols @ [C_quantity, C_plan_id])
        | Inr None \<Rightarrow>
            (case se_Items data of
               [item] \<Rightarrow> Inr (lic\<lparr>lic_Quantity := clampQuantity (si_Quantity item)\<rparr>, cols @ [C_quantity])
             | _ \<Rightarrow> Inr (lic, cols)))"

text \<open>What a landed write is told as, from the row as it was found under the lock.\<close>

definition tell_state :: "env \<Rightarrow> StripeHandler \<Rightarrow> string \<Rightarrow> License \<times> Found \<Rightarrow> db \<Rightarrow> db" where
  "tell_state e h st lf d =
     (let lic = fst lf; found = snd lf;
          d = (if fd_WasPastDue found \<and> lic_Status lic = StatusActive
               then notifyPaymentRecovered e h lic (fd_PriorPastDueAt found) d else d);
          d = (if st = ''paused'' \<and> \<not> fd_WasStripePaused found
               then announceSuspension h lic ''suspended'' ''license.suspended'' ''subscription_paused'' d
               else if usable_status st \<and> fd_WasStripePaused found
               then announceSuspension h lic ''reinstated'' ''license.reinstated'' ''subscription_resumed'' d
               else if usable_status st \<and> (fd_WasCanceled found \<or> fd_WasExpired found)
               then announceSuspension h lic ''reinstated'' ''license.reinstated'' ''subscription_revived'' d
               else d)
      in if lic_Status lic = StatusCanceled \<and> \<not> fd_WasCanceled found
         then announceCanceled h lic ''webhook'' (if st = ''unpaid'' then ''subscription_unpaid'' else ''subscription_deleted'') d
         else d)"

definition applySubscriptionState ::
  "env \<Rightarrow> (nat \<Rightarrow> db \<Rightarrow> db) \<Rightarrow> StripeHandler \<Rightarrow> License \<Rightarrow> subscriptionEvent \<Rightarrow> time option \<Rightarrow> string \<Rightarrow> db
   \<Rightarrow> error option \<times> db" where
  "applySubscriptionState e mid h lic data readAt event d =
     (let st = se_Status data in
      case (if ended_status st
            then endSubscriptionUpgrade e (mid 0) h lic (lic_StripeSubscriptionID lic)
                   (if st = ''unpaid'' then ''subscription_unpaid'' else ''subscription_ended'') ''webhook'' (st = ''unpaid'') d
            else ((False, None), d)) of
        ((handled, err), d1) \<Rightarrow>
          if handled \<or> err \<noteq> None then (err, d1)
          else
            let (lic1, cols) = period_copy data (status_copy e st lic); d1 = mid 1 d1 in
            (case (if readAt \<noteq> None \<and> usable_status st then subscriptionTerms lic1 data d1 else Inr (lic1, [])) of
               Inl err \<Rightarrow> (Some err, d1)
             | Inr (lic2, termCols) \<Rightarrow>
                 let d1 = mid 2 d1 in
                 if termCols = [] then
                   (case applyLicenseFromSubscription e lic2 readAt cols d1 of
                      ((landed, err), lf, d2) \<Rightarrow> if landed then (None, tell_state e h st lf d2) else (err, d2))
                 else
                   (case UpdateLicenseFromSubscriptionReadTerms e lic2 (the readAt) (cols @ termCols) d1 of
                      ((before, written, res), lf, d2) \<Rightarrow>
                        let termsHeld = (res = Inl ErrTermsHeld);
                            (landed, werr) = subscriptionWriteLanded (if termsHeld then Inr () else res);
                            d3 = (if written then announceTermsChanged h (fst lf) before termCols event d2 else d2)
                        in if \<not> landed then (werr, d3)
                           else (if termsHeld then Some ErrTermsHeld else None, tell_state e h st lf d3))))"

definition syncFromCurrent ::
  "env \<Rightarrow> (nat \<Rightarrow> db \<Rightarrow> db) \<Rightarrow> StripeHandler \<Rightarrow> License \<Rightarrow> subscriptionEvent \<Rightarrow> time \<Rightarrow> string \<Rightarrow> db \<Rightarrow> error option \<times> db" where
  "syncFromCurrent e mid h lic cur asOf event d =
     (case SetSubscriptionCancelScheduled e (lic_ID lic) (EndsThisPeriod cur) asOf d of
        (Inl err, d1) \<Rightarrow> (Some err, d1)
      | (Inr (), d1) \<Rightarrow> applySubscriptionState e mid h lic cur (Some asOf) event (mid 3 d1))"

section \<open>The events\<close>

text \<open>
  A licence the event is about, or the answer when there is none: a subscription of nobody is
  no error, a failed lookup is retried.
\<close>

definition for_subscription :: "string \<Rightarrow> db \<Rightarrow> License option result" where
  "for_subscription sid d =
     (case FindLicenseByStripeSubscription sid d of
        Inr lic \<Rightarrow> Inr (Some lic)
      | Inl err \<Rightarrow> if err = ErrNoRows then Inr None else Inl err)"

text \<open>The stamp is taken before Stripe is asked.\<close>

definition read_stamped :: "env \<Rightarrow> StripeHandler \<Rightarrow> nat \<Rightarrow> string \<Rightarrow> db \<Rightarrow> (time \<times> subscriptionEvent option) result" where
  "read_stamped e h place sid d =
     (case StripeReadStamp e d of
        Inl err \<Rightarrow> Inl err
      | Inr asOf \<Rightarrow> (case currentSubscription h place sid of Inl err \<Rightarrow> Inl err | Inr cur \<Rightarrow> Inr (asOf, cur)))"

text \<open>What an invoice alone says, when the subscription cannot be read: \<open>None\<close> when nothing is written.\<close>

definition invoice_lifts :: "invoiceEvent \<Rightarrow> License \<Rightarrow> bool" where
  "invoice_lifts data lic \<longleftrightarrow> ie_AmountPaid data > 0 \<or> ie_Total data > 0 \<or>
     (lic_Status lic \<noteq> StatusTrialing \<and> lic_Status lic \<noteq> StatusSuspended)"

definition invoice_copy :: "invoiceEvent \<Rightarrow> License \<Rightarrow> (License \<times> lic_column list) option" where
  "invoice_copy data lic =
     (let until = unix_time (ServiceEnd data); lifts = invoice_lifts data lic;
          lic' = (if ServiceEnd data > 0 \<and> (case lic_ValidUntil lic of None \<Rightarrow> True | Some t \<Rightarrow> until > t)
                  then lic\<lparr>lic_ValidUntil := Some until\<rparr> else lic)
      in if \<not> lifts \<and> lic_Status lic = StatusSuspended then None
         else if lifts then
           Some (lic'\<lparr>lic_Status := StatusActive, lic_PastDueAt := None, lic_SuspendedAt := None, lic_SuspendedBy := ''''\<rparr>,
                 [C_valid_until, C_status, C_past_due_at, C_suspended_at, C_suspended_by])
         else Some (lic', [C_valid_until]))"

definition onInvoicePaid ::
  "env \<Rightarrow> env \<Rightarrow> (nat \<Rightarrow> db \<Rightarrow> db) \<Rightarrow> StripeHandler \<Rightarrow> invoiceEvent option \<Rightarrow> db \<Rightarrow> error option \<times> db" where
  "onInvoicePaid e e' mid h raw d =
     (case raw of
        None \<Rightarrow> (None, d)
      | Some data \<Rightarrow>
          if SubscriptionID data = '''' then (None, d)
          else case for_subscription (SubscriptionID data) d of
            Inl err \<Rightarrow> (Some err, d)
          | Inr None \<Rightarrow> (None, d)
          | Inr (Some lic) \<Rightarrow>
              let d1 = mid 4 d in
              (case read_stamped e h 0 (SubscriptionID data) d1 of
                 Inl err \<Rightarrow> (Some err, d1)
               | Inr (asOf, Some cur) \<Rightarrow> syncFromCurrent e' mid h lic cur asOf ''invoice.paid'' (mid 5 d1)
               | Inr (asOf, None) \<Rightarrow>
                   (case invoice_copy data lic of
                      None \<Rightarrow> (None, d1)
                    | Some (lic', cols) \<Rightarrow>
                        let d1 = mid 5 d1 in
                        (case applyLicenseFromSubscription e' lic' None cols d1 of
                           ((False, err), lf, d2) \<Rightarrow> (err, d2)
                         | ((True, _), lf, d2) \<Rightarrow>
                             let lifts = invoice_lifts data lic;
                                 d3 = (if lifts \<and> fd_WasStripePaused (snd lf)
                                       then announceSuspension h (fst lf) ''reinstated'' ''license.reinstated'' ''subscription_resumed'' d2
                                       else if lifts \<and> fd_WasExpired (snd lf)
                                       then announceSuspension h (fst lf) ''reinstated'' ''license.reinstated'' ''subscription_revived'' d2
                                       else d2)
                             in (None, if lifts \<and> fd_WasPastDue (snd lf)
                                       then notifyPaymentRecovered e' h (fst lf) (fd_PriorPastDueAt (snd lf)) d3 else d3)))))"

definition onSubscriptionUpdated ::
  "env \<Rightarrow> env \<Rightarrow> (nat \<Rightarrow> db \<Rightarrow> db) \<Rightarrow> StripeHandler \<Rightarrow> subscriptionEvent option \<Rightarrow> db \<Rightarrow> error option \<times> db" where
  "onSubscriptionUpdated e e' mid h raw d =
     (case raw of
        None \<Rightarrow> (None, d)
      | Some data \<Rightarrow>
          (case for_subscription (se_ID data) d of
            Inl err \<Rightarrow> (Some err, d)
          | Inr None \<Rightarrow> (None, d)
          | Inr (Some lic) \<Rightarrow>
              let d1 = mid 4 d in
              (case read_stamped e h 0 (se_ID data) d1 of
                 Inl err \<Rightarrow> (Some err, d1)
               | Inr (asOf, Some cur) \<Rightarrow> syncFromCurrent e' mid h lic cur asOf ''customer.subscription.updated'' (mid 5 d1)
               | Inr (asOf, None) \<Rightarrow>
                   applySubscriptionState e' mid h lic data None ''customer.subscription.updated'' (mid 5 d1))))"

definition onSubscriptionDeleted ::
  "env \<Rightarrow> (nat \<Rightarrow> db \<Rightarrow> db) \<Rightarrow> StripeHandler \<Rightarrow> string option \<Rightarrow> db \<Rightarrow> error option \<times> db" where
  "onSubscriptionDeleted e mid h raw d =
     (case raw of
        None \<Rightarrow> (None, d)
      | Some sid \<Rightarrow>
          (case for_subscription sid d of
            Inl err \<Rightarrow> (Some err, d)
          | Inr None \<Rightarrow> (None, d)
          | Inr (Some lic) \<Rightarrow>
              (case endSubscriptionUpgrade e (mid 0) h lic sid ''subscription_ended'' ''webhook'' False (mid 4 d) of
                 ((handled, err), d1) \<Rightarrow>
                   if handled \<or> err \<noteq> None then (err, d1)
                   else
                     let (lic', cols) = status_copy e ''canceled'' lic in
                     (case endLicenseFromSubscription e lic' cols (mid 1 d1) of
                        ((landed, err), lf, d2) \<Rightarrow>
                          if \<not> landed then (err, d2)
                          else (None, if fd_WasCanceled (snd lf) then d2
                                      else announceCanceled h (fst lf) ''webhook'' ''subscription_deleted'' d2)))))"

text \<open>A failure reported if the licence, as it reads now, is past due.\<close>

definition report_if_past_due :: "env \<Rightarrow> StripeHandler \<Rightarrow> string \<Rightarrow> string \<Rightarrow> error option \<Rightarrow> db \<Rightarrow> error option \<times> db" where
  "report_if_past_due e h licenseID subscriptionID serr d =
     (case FindLicenseByID licenseID d of
        Inl err \<Rightarrow> (if err = ErrNoRows then None else Some err, d)
      | Inr now \<Rightarrow>
          (case lic_PastDueAt now of
             Some t \<Rightarrow>
               if lic_Status now = StatusPastDue then
                 (case notifyPaymentFailed e h now t subscriptionID d of
                    (Some err, d1) \<Rightarrow> (Some err, d1) | (None, d1) \<Rightarrow> (serr, d1))
               else (serr, d)
           | None \<Rightarrow> (serr, d)))"

definition onPaymentFailed ::
  "env \<Rightarrow> env \<Rightarrow> (nat \<Rightarrow> db \<Rightarrow> db) \<Rightarrow> StripeHandler \<Rightarrow> invoiceEvent option \<Rightarrow> db \<Rightarrow> error option \<times> db" where
  "onPaymentFailed e e' mid h raw d =
     (case raw of
        None \<Rightarrow> (None, d)
      | Some data \<Rightarrow>
          if SubscriptionID data = '''' then (None, d)
          else case for_subscription (SubscriptionID data) d of
            Inl err \<Rightarrow> (Some err, d)
          | Inr None \<Rightarrow> (None, d)
          | Inr (Some lic) \<Rightarrow>
              let d1 = mid 4 d in
              (case read_stamped e h 0 (SubscriptionID data) d1 of
                 Inl err \<Rightarrow> (Some err, d1)
               | Inr (asOf, cur) \<Rightarrow>
                   if heldChangeInvoice data cur then (None, d1)
                   else (case cur of
                     Some cur \<Rightarrow>
                       (case syncFromCurrent e' mid h lic cur asOf ''invoice.payment_failed'' (mid 5 d1) of
                          (serr, d2) \<Rightarrow>
                            if serr \<noteq> None \<and> serr \<noteq> Some ErrTermsHeld then (serr, d2)
                            else report_if_past_due e' h (lic_ID lic) (SubscriptionID data) serr (mid 6 d2))
                   | None \<Rightarrow>
                       let reported = (\<lambda>lic d. case lic_PastDueAt lic of
                               None \<Rightarrow> (None, d) | Some t \<Rightarrow> (None, snd (notifyPaymentFailed e' h lic t (SubscriptionID data) d))) in
                       if lic_Status lic = StatusActive \<or> lic_Status lic = StatusTrialing then
                         (case applyLicenseFromSubscription e' (lic\<lparr>lic_Status := StatusPastDue, lic_PastDueAt := Some (env_now e')\<rparr>)
                                 None [C_status, C_past_due_at] (mid 5 d1) of
                            ((landed, err), lf, d2) \<Rightarrow> if landed then reported (fst lf) (mid 6 d2) else (err, d2))
                       else if lic_Status lic = StatusPastDue then reported lic (mid 5 d1)
                       else (None, d1))))"

section \<open>Licences handed back to their subscription\<close>

definition readForFollow :: "env \<Rightarrow> StripeHandler \<Rightarrow> nat \<Rightarrow> string \<Rightarrow> db \<Rightarrow> (subscriptionEvent \<times> time) result" where
  "readForFollow e h place sid d =
     (case read_stamped e h place sid d of
        Inl err \<Rightarrow> Inl err
      | Inr (asOf, None) \<Rightarrow> Inl (ErrStripe ''STRIPE_NOT_VISIBLE'')
      | Inr (asOf, Some cur) \<Rightarrow> Inr (cur, asOf))"

text \<open>The closure the operator's handler runs once the suspension is lifted, with the first read it holds.\<close>

definition follow_lifted ::
  "env \<Rightarrow> env \<Rightarrow> (nat \<Rightarrow> db \<Rightarrow> db) \<Rightarrow> StripeHandler \<Rightarrow> License \<Rightarrow> subscriptionEvent \<times> time \<Rightarrow> db \<Rightarrow> error option \<times> db" where
  "follow_lifted e e' mid h lic first d =
     (let (cur, asOf) = (case readForFollow e h 2 (lic_StripeSubscriptionID lic) d of Inl _ \<Rightarrow> first | Inr r \<Rightarrow> r);
          d1 = mid 4 d in
      case FindLicenseByID (lic_ID lic) d1 of
        Inl err \<Rightarrow> (Some err, d1)
      | Inr fresh \<Rightarrow>
          (case syncFromCurrent e' mid h fresh cur asOf ''admin.reinstate'' (mid 5 d1) of
             (serr, d2) \<Rightarrow>
               if serr \<noteq> None \<and> serr \<noteq> Some ErrTermsHeld then (serr, d2)
               else case FindLicenseByID (lic_ID lic) (mid 6 d2) of
                 Inl err \<Rightarrow> (Some err, mid 6 d2)
               | Inr _ \<Rightarrow> report_if_past_due e' h (lic_ID lic) (lic_StripeSubscriptionID lic) None (mid 6 d2)))"

definition FollowSubscription ::
  "env \<Rightarrow> StripeHandler \<Rightarrow> License \<Rightarrow> db
   \<Rightarrow> (env \<Rightarrow> env \<Rightarrow> (nat \<Rightarrow> db \<Rightarrow> db) \<Rightarrow> db \<Rightarrow> error option \<times> db) result" where
  "FollowSubscription e h lic d =
     (case readForFollow e h 0 (lic_StripeSubscriptionID lic) d of
        Inl err \<Rightarrow> Inl err
      | Inr first \<Rightarrow> Inr (\<lambda>e1 e2 mid. follow_lifted e1 e2 mid h lic first))"

section \<open>The background syncs\<close>

definition heldTermsSyncBatch :: nat where "heldTermsSyncBatch = 50"
definition heldTermsRetry :: duration where "heldTermsRetry = 10 * Minute"
definition heldTermsUnseenRetry :: duration where "heldTermsUnseenRetry = Hour"

text \<open>\<open>locked\<close>: the licence's change lock was had at once.\<close>

definition settleLapsedHold ::
  "env \<Rightarrow> env \<Rightarrow> (nat \<Rightarrow> db \<Rightarrow> db) \<Rightarrow> StripeHandler \<Rightarrow> bool \<Rightarrow> LapsedTermHold \<Rightarrow> db \<Rightarrow> db" where
  "settleLapsedHold e e' mid h locked hold d =
     (let postpone = (\<lambda>after d. snd (PostponeTermsCheck e' hold after d)); settle = (\<lambda>d. snd (SettleLapsedHold hold d)) in
      if \<not> locked then d
      else case FindLicenseByID (lh_LicenseID hold) d of
        Inl _ \<Rightarrow> postpone heldTermsRetry d
      | Inr lic \<Rightarrow>
          let d1 = mid 4 d in
          if lic_StripeSubscriptionID lic = '''' then settle d1
          else case read_stamped e h 0 (lic_StripeSubscriptionID lic) d1 of
            Inl _ \<Rightarrow> postpone heldTermsRetry d1
          | Inr (asOf, None) \<Rightarrow> postpone heldTermsUnseenRetry d1
          | Inr (asOf, Some cur) \<Rightarrow>
              (case syncFromCurrent e' mid h lic cur asOf ''held_terms_sync'' (mid 5 d1) of
                 (Some _, d2) \<Rightarrow> postpone heldTermsRetry (mid 6 d2)
               | (None, d2) \<Rightarrow> settle (mid 6 d2)))"

definition SyncLapsedTermHolds ::
  "env \<Rightarrow> env \<Rightarrow> (nat \<Rightarrow> db \<Rightarrow> db) \<Rightarrow> StripeHandler \<Rightarrow> (LapsedTermHold \<Rightarrow> bool) \<Rightarrow> db \<Rightarrow> db" where
  "SyncLapsedTermHolds e e' mid h locked d =
     (case FindLapsedTermHolds e heldTermsSyncBatch d of
        Inl _ \<Rightarrow> d
      | Inr lapsed \<Rightarrow> fold (\<lambda>hold d. settleLapsedHold e e' mid h (locked hold) hold d) lapsed d)"

definition cancelStateSyncBatch :: nat where "cancelStateSyncBatch = 100"

text \<open>Whether the walk may move past the subscription.\<close>

definition syncCancelState :: "env \<Rightarrow> env \<Rightarrow> StripeHandler \<Rightarrow> StripeCancelStateTarget \<Rightarrow> db \<Rightarrow> bool \<times> db" where
  "syncCancelState e e' h tg d =
     (case StripeReadStamp e d of
        Inl _ \<Rightarrow> (False, d)
      | Inr asOf \<Rightarrow>
          (case sh_get h 0 (ct_SubscriptionID tg) of
             StripeNotFound \<Rightarrow> (True, d)
           | StripeFailed \<Rightarrow> (False, d)
           | Got sub \<Rightarrow>
               (case RecordSubscriptionCancelStateIfUnknown e' (ct_LicenseID tg) (EndsThisPeriod sub) asOf d of
                  (Inl _, d1) \<Rightarrow> (False, d1) | (Inr (), d1) \<Rightarrow> (True, d1))))"

text \<open>The walk: where it stands after the targets, and whether it got to the last of them.\<close>

fun walk_targets ::
  "env \<Rightarrow> env \<Rightarrow> StripeHandler \<Rightarrow> StripeCancelStateTarget list \<Rightarrow> StripeCancelStateTarget option \<times> db
   \<Rightarrow> (StripeCancelStateTarget option \<times> db) \<times> bool" where
  "walk_targets e e' h [] s = (s, True)"
| "walk_targets e e' h (tg # tgs) (after, d) =
     (case syncCancelState e e' h tg d of
        (False, d1) \<Rightarrow> ((after, d1), False)
      | (True, d1) \<Rightarrow> walk_targets e e' h tgs (Some tg, d1))"

definition SyncCancelStates ::
  "env \<Rightarrow> env \<Rightarrow> StripeHandler \<Rightarrow> StripeCancelStateTarget option \<times> db \<Rightarrow> StripeCancelStateTarget option \<times> db" where
  "SyncCancelStates e e' h s =
     (case FindStripeCancelStatesToSync (fst s) cancelStateSyncBatch (snd s) of
        Inl _ \<Rightarrow> s
      | Inr targets \<Rightarrow>
          (case walk_targets e e' h targets s of
             (s1, False) \<Rightarrow> s1
           | ((after, d1), True) \<Rightarrow> (if length targets < cancelStateSyncBatch then None else after, d1)))"

section \<open>An upgrade whose subscription lapsed\<close>

definition endLapsedUpgrade ::
  "env \<Rightarrow> env \<Rightarrow> (nat \<Rightarrow> db \<Rightarrow> db) \<Rightarrow> StripeHandler \<Rightarrow> License \<Rightarrow> string \<Rightarrow> (License \<Rightarrow> bool) \<Rightarrow> db
   \<Rightarrow> (bool \<times> error option) \<times> db" where
  "endLapsedUpgrade e e' mid h lic reason qualifies d =
     (case appliedUpgradeFor lic (lic_StripeSubscriptionID lic) d of
        Inl err \<Rightarrow> ((False, Some err), d)
      | Inr None \<Rightarrow> ((False, None), d)
      | Inr (Some u) \<Rightarrow>
          let d1 = mid 4 d in
          (case FindLicenseByID (lic_ID lic) d1 of
             Inl err \<Rightarrow> ((True, Some err), d1)
           | Inr now \<Rightarrow>
               if \<not> qualifies now \<or> lic_StripeSubscriptionID now \<noteq> up_StripeSubscriptionID u then ((True, None), d1)
               else
                 (case (if sh_Key h then read_stamped e h 0 (up_StripeSubscriptionID u) d1 else Inr (0, None)) of
                    Inl err \<Rightarrow> ((True, Some err), d1)
                  | Inr (asOf, cur) \<Rightarrow>
                      (case (case cur of Some c \<Rightarrow> if se_Status c = ''active'' \<or> se_Status c = ''trialing'' then Some c else None | None \<Rightarrow> None) of
                         Some c \<Rightarrow> (case syncFromCurrent e' mid h now c asOf ''expiry_sweep'' (mid 5 d1) of (err, d2) \<Rightarrow> ((True, err), d2))
                       | None \<Rightarrow> endSubscriptionUpgrade e' (mid 0) h now (up_StripeSubscriptionID u) reason ''system'' True (mid 5 d1)))))"

definition EndPastDueUpgrade ::
  "env \<Rightarrow> env \<Rightarrow> (nat \<Rightarrow> db \<Rightarrow> db) \<Rightarrow> StripeHandler \<Rightarrow> License \<Rightarrow> time \<Rightarrow> db \<Rightarrow> (bool \<times> error option) \<times> db" where
  "EndPastDueUpgrade e e' mid h lic threshold d =
     endLapsedUpgrade e e' mid h lic ''past_due_timeout'' (\<lambda>l.
       lic_Status l = StatusPastDue \<and> (case lic_PastDueAt l of None \<Rightarrow> lic_UpdatedAt l | Some t \<Rightarrow> t) < threshold) d"

definition EndGraceExpiredUpgrade ::
  "env \<Rightarrow> env \<Rightarrow> (nat \<Rightarrow> db \<Rightarrow> db) \<Rightarrow> StripeHandler \<Rightarrow> License \<Rightarrow> db \<Rightarrow> (bool \<times> error option) \<times> db" where
  "EndGraceExpiredUpgrade e e' mid h lic d =
     endLapsedUpgrade e e' mid h lic ''grace_period_ended'' (\<lambda>l.
       (lic_Status l = StatusActive \<or> lic_Status l = StatusPastDue) \<and>
       (case lic_ValidUntil l of None \<Rightarrow> False | Some t \<Rightarrow> t < time_add (env_now e) (- days_dur (license_grace_days l)))) d"

section \<open>A checkout whose delayed payment failed\<close>

text \<open>
  The session's subscription, and whether the plan it sells is known by its metadata or, when that
  does not say, by its price (\<open>by_price\<close>, the answer of Stripe and the plans).
\<close>

definition onAsyncPaymentFailed ::
  "env \<Rightarrow> (nat \<Rightarrow> db \<Rightarrow> db) \<Rightarrow> StripeHandler \<Rightarrow> (string \<Rightarrow> db \<Rightarrow> bool result) \<Rightarrow> (string \<times> string \<times> string) option \<Rightarrow> db
   \<Rightarrow> error option \<times> db" where
  "onAsyncPaymentFailed e mid h by_price raw d =
     (case raw of
        None \<Rightarrow> (None, d)
      | Some (sessionID, subID, planID) \<Rightarrow>
          if sessionID = '''' then (None, d)
          else case closeFailedUpgrade e sessionID d of
            (Inl err, d1) \<Rightarrow> (Some err, d1)
          | (Inr (), d1) \<Rightarrow>
              let d2 = mid 0 d1;
                  dropped = (\<lambda>d. (None, snd (DeleteProcessedEvent ''stripe_pending_session'' sessionID d)));
                  ours = (if planID = '''' then by_price subID d2
                          else case FindPlanByID planID d2 of
                            Inr _ \<Rightarrow> Inr True
                          | Inl err \<Rightarrow> if err \<noteq> ErrNoRows then Inl err else by_price subID d2)
              in if \<not> sh_Key h \<or> subID = '''' then dropped d2
                 else (case for_subscription subID d2 of
                   Inl err \<Rightarrow> (Some err, d2)
                 | Inr (Some _) \<Rightarrow> dropped d2
                 | Inr None \<Rightarrow>
                     (case ours of
                        Inl err \<Rightarrow> (Some err, d2)
                      | Inr False \<Rightarrow> dropped d2
                      | Inr True \<Rightarrow> (case cancelSubscription h subID of Inl err \<Rightarrow> (Some err, d2) | Inr () \<Rightarrow> dropped (mid 1 d2)))))"

section \<open>What telling and asking leave alone\<close>

text \<open>Neither a licence nor an upgrade is touched.\<close>

definition untouched :: "db \<Rightarrow> db \<Rightarrow> bool" where
  "untouched d d' \<longleftrightarrow> db_licenses d' = db_licenses d \<and> db_upgrades d' = db_upgrades d"

lemma untouched_refl [intro]: "untouched d d"
  and untouched_trans: "untouched d d1 \<Longrightarrow> untouched d1 d2 \<Longrightarrow> untouched d d2"
  by (simp_all add: untouched_def)

lemma try_record_frame:
  assumes "TryRecordNotification e lid tag d = (r, d')"
  shows "untouched d d'"
  using assms by (auto simp: TryRecordNotification_def insert_notification_def untouched_def split: if_splits sum.splits)

lemma mail_frame [simp]: "db_licenses (send_mail w t to x d) = db_licenses d" "db_upgrades (send_mail w t to x d) = db_upgrades d"
  by (simp_all add: send_mail_def)

lemma recovered_frame: "untouched d (notifyPaymentRecovered e h lic since d)"
  by (auto simp: notifyPaymentRecovered_def untouched_def Let_def split: prod.splits sum.splits bool.splits option.splits
      dest!: try_record_frame)

lemma failed_frame: "untouched d (snd (notifyPaymentFailed e h lic t sid d))"
  by (auto simp: notifyPaymentFailed_def TryRecordPastDueNotification_def untouched_def
      split: prod.splits sum.splits bool.splits if_splits dest!: try_record_frame)

lemma announce_frame:
  "untouched d (announceCanceled h lic actor reason d)"
  "untouched d (announceSuspension h lic action event reason d)"
  "untouched d (announceTermsChanged h lic before cols source d)"
  by (simp_all add: announceCanceled_def announceSuspension_def announceTermsChanged_def untouched_def Let_def)

lemma tell_frame: "untouched d (tell_state e h st lf d)"
proof -
  note f = recovered_frame [unfolded untouched_def] announce_frame [unfolded untouched_def]
  show ?thesis unfolding tell_state_def Let_def untouched_def by (simp add: f)
qed

lemma cancel_state_frame: "untouched d (snd (SetSubscriptionCancelScheduled e lid b asOf d))"
  by (auto simp: SetSubscriptionCancelScheduled_def setCancelState_def insert_subscription_def untouched_def Let_def
      split: option.splits sum.splits)

lemma report_frame: "untouched d (snd (report_if_past_due e h l sid serr d))"
proof -
  have "untouched d d1" if "notifyPaymentFailed e h now t sid d = (x, d1)" for now t x d1
    using failed_frame [of d e h now t sid] that by simp
  then show ?thesis by (auto simp: report_if_past_due_def split: sum.splits option.splits prod.splits)
qed

section \<open>The contract of an event\<close>

text \<open>
  What an event keeps, stated once for every handler: \<open>pre\<close> is what it finds and what reverting an
  upgrade and every gap keep, \<open>post\<close> what its guarded writes keep, \<open>good\<close> what is known of the copy
  it reads, and \<open>fits\<close> what its writes carry.
\<close>

text \<open>One event, delivered with other requests in between.\<close>

inductive stripe_event :: "(nat \<Rightarrow> db \<Rightarrow> db) \<Rightarrow> db \<Rightarrow> db \<Rightarrow> bool" for mid where
  paid: "onInvoicePaid e e' mid h raw d = (err, d') \<Longrightarrow> stripe_event mid d d'"
| updated: "onSubscriptionUpdated e e' mid h raw d = (err, d') \<Longrightarrow> stripe_event mid d d'"
| deleted: "onSubscriptionDeleted e mid h raw d = (err, d') \<Longrightarrow> stripe_event mid d d'"
| unpaid: "onPaymentFailed e e' mid h raw d = (err, d') \<Longrightarrow> stripe_event mid d d'"

text \<open>No gap between two steps takes away what an event relies on.\<close>

definition gaps_keep :: "(db \<Rightarrow> bool) \<Rightarrow> (db \<Rightarrow> bool) \<Rightarrow> (nat \<Rightarrow> db \<Rightarrow> db) \<Rightarrow> bool" where
  "gaps_keep pre post mid \<longleftrightarrow> (\<forall>i d. (pre d \<longrightarrow> pre (mid i d)) \<and> (post d \<longrightarrow> post (mid i d)))"

lemma gap: "gaps_keep pre post mid \<Longrightarrow> pre d \<Longrightarrow> pre (mid i d)"
  and post_gap: "gaps_keep pre post mid \<Longrightarrow> post d \<Longrightarrow> post (mid i d)"
  by (simp_all add: gaps_keep_def)

locale event_contract =
  fixes pre post :: "db \<Rightarrow> bool"
    and good :: "License \<Rightarrow> bool"
    and fits :: "License \<Rightarrow> lic_column list \<Rightarrow> bool"
  assumes weaken: "pre d \<Longrightarrow> post d"
    and pre_frame: "untouched d d' \<Longrightarrow> pre d \<Longrightarrow> pre d'"
    and post_frame: "untouched d d' \<Longrightarrow> post d \<Longrightarrow> post d'"
    and reverts: "revertUpgrade e h uid reason source d = (x, d') \<Longrightarrow> pre d \<Longrightarrow> pre d'"
    and copies: "for_subscription sid d = Inr (Some lic) \<Longrightarrow> pre d \<Longrightarrow> good lic"
    and state_fits: "good lic \<Longrightarrow> status_copy e st lic = (lic', cols) \<Longrightarrow> fits lic' cols"
    and period_fits: "fits lic cols \<Longrightarrow> fits (lic\<lparr>lic_ValidUntil := v\<rparr>) (cols @ [C_valid_until])"
    and terms_fit: "subscriptionTerms lic data d = Inr (lic', tc) \<Longrightarrow> fits lic cols \<Longrightarrow> fits lic' (cols @ tc)"
    and invoice_fits: "good lic \<Longrightarrow> invoice_copy paid lic = Some (lic', cols) \<Longrightarrow> fits lic' cols"
    and failed_fits: "good lic \<Longrightarrow> fits (lic\<lparr>lic_Status := StatusPastDue, lic_PastDueAt := since\<rparr>) [C_status, C_past_due_at]"
    and payload_keeps: "UpdateLicenseFromSubscription e lic cols d = (res, lf, d') \<Longrightarrow> fits lic cols \<Longrightarrow> post d \<Longrightarrow> post d'"
    and read_keeps: "UpdateLicenseFromSubscriptionRead e lic t cols d = (res, lf, d') \<Longrightarrow> fits lic cols \<Longrightarrow> post d \<Longrightarrow> post d'"
    and terms_keep: "UpdateLicenseFromSubscriptionReadTerms e lic t cols d = (res', lf, d') \<Longrightarrow> fits lic cols \<Longrightarrow> post d \<Longrightarrow> post d'"
    and ended_keeps: "UpdateLicenseFromSubscriptionEnded e lic t cols d = (res, lf, d') \<Longrightarrow> fits lic cols \<Longrightarrow> post d \<Longrightarrow> post d'"
begin

lemma period_copy_fits:
  assumes "good lic" and "period_copy data (status_copy e st lic) = (lic', cols)"
  shows "fits lic' cols"
  using assms state_fits [OF assms(1), of e st] period_fits
  by (cases "status_copy e st lic") (auto simp: period_copy_def split: if_splits)

lemma apply_kept:
  assumes "applyLicenseFromSubscription e lic asOf cols d = (x, lf, d')" "fits lic cols" "post d"
  shows "post d'"
  using assms payload_keeps read_keeps
  by (auto simp: applyLicenseFromSubscription_def split: option.split_asm prod.split_asm)

lemma end_kept:
  assumes "endLicenseFromSubscription e lic cols d = (x, lf, d')" "fits lic cols" "post d"
  shows "post d'"
  using assms ended_keeps
  by (auto simp: endLicenseFromSubscription_def split: sum.split_asm prod.split_asm unit.split_asm)

lemma told_post:
  "post d \<Longrightarrow> post (tell_state e h st lf d)"
  "post d \<Longrightarrow> post (announceCanceled h lic actor reason d)"
  "post d \<Longrightarrow> post (announceSuspension h lic action event reason d)"
  "post d \<Longrightarrow> post (announceTermsChanged h lic before cols source d)"
  "post d \<Longrightarrow> post (notifyPaymentRecovered e h lic since d)"
  "post d \<Longrightarrow> post (snd (notifyPaymentFailed e h lic t sid d))"
  "post d \<Longrightarrow> post (snd (report_if_past_due e h l sid serr d))"
  by (blast intro: post_frame tell_frame announce_frame recovered_frame failed_frame report_frame)+

lemma end_upgrade_kept:
  assumes "endSubscriptionUpgrade e (mid i) h lic sid reason source first d = (x, d')" and "pre d" and "gaps_keep pre post mid"
  shows "pre d'"
proof (cases "appliedUpgradeFor lic sid d")
  case (Inl err)
  then show ?thesis using assms(1,2) by (simp add: endSubscriptionUpgrade_def)
next
  case (Inr found)
  show ?thesis
  proof (cases found)
    case None
    then show ?thesis using assms(1,2) Inr by (simp add: endSubscriptionUpgrade_def)
  next
    case (Some u)
    obtain res d1 where rv: "revertUpgrade e h (up_ID u) reason source (mid i d) = (res, d1)" by fastforce
    note step = assms(1) [unfolded endSubscriptionUpgrade_def Inr Some sum.case option.case rv prod.case]
    have "d' = d \<or> d' = d1"
      using step by (cases "if first then cancelSubscription h sid else Inr ()"; cases res) (simp_all split: unit.split_asm)
    then show ?thesis using reverts [OF rv gap [OF assms(3,2)]] assms(2) by blast
  qed
qed

lemma apply_state_kept:
  assumes "applySubscriptionState e mid h lic data readAt event d = (err, d')" and "good lic"
    and "pre d" and "gaps_keep pre post mid"
  shows "post d'"
proof -
  let ?st = "se_Status data"
  obtain handled uerr d1 where up: "(if ended_status ?st
            then endSubscriptionUpgrade e (mid 0) h lic (lic_StripeSubscriptionID lic)
                   (if ?st = ''unpaid'' then ''subscription_unpaid'' else ''subscription_ended'') ''webhook'' (?st = ''unpaid'') d
            else ((False, None), d)) = ((handled, uerr), d1)" by (metis surj_pair)
  have d1: "pre d1"
    using up assms(3,4) end_upgrade_kept by (auto split: if_split_asm)
  note step = assms(1) [unfolded applySubscriptionState_def Let_def up prod.case]
  show ?thesis
  proof (cases "handled \<or> uerr \<noteq> None")
    case True
    then show ?thesis using step weaken [OF d1] by simp
  next
    case False
    obtain lic1 cols where pc: "period_copy data (status_copy e ?st lic) = (lic1, cols)" by fastforce
    note w1 = period_copy_fits [OF assms(2) pc]
    have m1: "pre (mid 1 d1)" using gap [OF assms(4) d1] .
    then have m2: "pre (mid 2 (mid 1 d1))" by (rule gap [OF assms(4)])
    have unhandled: "(handled \<or> uerr \<noteq> None) = False" using False by simp
    note step = step [unfolded unhandled if_False pc prod.case]
    show ?thesis
    proof (cases "if readAt \<noteq> None \<and> usable_status ?st then subscriptionTerms lic1 data (mid 1 d1) else Inr (lic1, [])")
      case (Inl err')
      then show ?thesis using step weaken [OF m1] by simp
    next
      case (Inr lt)
      obtain lic2 tc where lt: "lt = (lic2, tc)" by fastforce
      have w2: "fits lic2 (cols @ tc)"
        using Inr lt w1 terms_fit [of lic1 data "mid 1 d1" lic2 tc cols] by (auto split: if_splits)
      note step = step [unfolded Inr lt sum.case prod.case]
      show ?thesis
      proof (cases "tc = []")
        case True
        obtain landed aerr lf d2 where a: "applyLicenseFromSubscription e lic2 readAt cols (mid 2 (mid 1 d1)) = ((landed, aerr), lf, d2)"
          by (metis surj_pair)
        have "post d2" using apply_kept [OF a] w2 True weaken [OF m2] by simp
        then show ?thesis using step [unfolded if_P [OF True] a prod.case] by (cases landed) (auto intro: told_post)
      next
        case False
        obtain before written res lf d2 where t: "UpdateLicenseFromSubscriptionReadTerms e lic2 (the readAt) (cols @ tc) (mid 2 (mid 1 d1)) = ((before, written, res), lf, d2)"
          by (metis surj_pair)
        have "post d2" using terms_keep [OF t w2] weaken [OF m2] by simp
        then show ?thesis using step [unfolded if_not_P [OF False] t prod.case]
          by (auto split: if_split_asm prod.split_asm intro: told_post)
      qed
    qed
  qed
qed

lemma sync_kept:
  assumes "syncFromCurrent e mid h lic cur asOf event d = (err, d')" and "good lic"
    and "pre d" and "gaps_keep pre post mid"
  shows "post d'"
proof -
  obtain r d1 where c: "SetSubscriptionCancelScheduled e (lic_ID lic) (EndsThisPeriod cur) asOf d = (r, d1)" by fastforce
  have d1: "pre d1"
    using pre_frame [OF _ assms(3)] cancel_state_frame [of d e "lic_ID lic" "EndsThisPeriod cur" asOf] c by simp
  show ?thesis
  proof (cases r)
    case (Inl err')
    then show ?thesis using assms(1) c weaken [OF d1] by (simp add: syncFromCurrent_def)
  next
    case (Inr u)
    have "pre (mid 3 d1)" using gap [OF assms(4) d1] .
    moreover have "applySubscriptionState e mid h lic cur (Some asOf) event (mid 3 d1) = (err, d')"
      using assms(1) c Inr by (auto simp: syncFromCurrent_def split: unit.split_asm)
    ultimately show ?thesis using apply_state_kept [OF _ assms(2) _ assms(4)] by blast
  qed
qed

lemma paid_kept:
  assumes "onInvoicePaid e e' mid h raw d = (err, d')" "pre d" "gaps_keep pre post mid"
  shows "post d'"
proof (cases "d' = d")
  case True then show ?thesis using weaken [OF assms(2)] by simp
next
  case False
  have m4: "pre (mid 4 d)" using gap [OF assms(3,2)] .
  have m5: "pre (mid 5 (mid 4 d))" using gap [OF assms(3) m4] .
  obtain data lic where found: "raw = Some data" "for_subscription (SubscriptionID data) d = Inr (Some lic)"
    and neq: "(SubscriptionID data = '''') = False"
    using assms(1) False by (auto simp: onInvoicePaid_def split: option.split_asm if_split_asm sum.split_asm)
  note copy = copies [OF found(2) assms(2)]
  note step = assms(1) [unfolded onInvoicePaid_def found option.case sum.case neq if_False Let_def]
  show ?thesis
  proof (cases "read_stamped e h 0 (SubscriptionID data) (mid 4 d)")
    case (Inl err')
    then show ?thesis using step weaken [OF m4] by simp
  next
    case (Inr ac)
    obtain asOf cur where ac: "ac = (asOf, cur)" by fastforce
    note step = step [unfolded Inr ac sum.case prod.case]
    show ?thesis
    proof (cases cur)
      case (Some c)
      then show ?thesis using step sync_kept [OF _ copy m5 assms(3)] by simp
    next
      case None
      note step = step [unfolded None option.case]
      show ?thesis
      proof (cases "invoice_copy data lic")
        case None
        then show ?thesis using step weaken [OF m4] by simp
      next
        case (Some lc)
        obtain lic' cols where lc: "lc = (lic', cols)" by fastforce
        obtain landed aerr lf d2 where a: "applyLicenseFromSubscription e' lic' None cols (mid 5 (mid 4 d)) = ((landed, aerr), lf, d2)"
          by (metis surj_pair)
        have "post d2"
          using apply_kept [OF a invoice_fits [OF copy Some [unfolded lc]] weaken [OF m5]] .
        then show ?thesis using step [unfolded Some lc option.case prod.case a Let_def]
          by (cases landed) (auto split: if_split_asm intro: told_post)
      qed
    qed
  qed
qed

lemma updated_kept:
  assumes "onSubscriptionUpdated e e' mid h raw d = (err, d')" "pre d" "gaps_keep pre post mid"
  shows "post d'"
proof (cases "d' = d")
  case True then show ?thesis using weaken [OF assms(2)] by simp
next
  case False
  have m4: "pre (mid 4 d)" using gap [OF assms(3,2)] .
  have m5: "pre (mid 5 (mid 4 d))" using gap [OF assms(3) m4] .
  obtain data lic where found: "raw = Some data" "for_subscription (se_ID data) d = Inr (Some lic)"
    using assms(1) False by (auto simp: onSubscriptionUpdated_def split: option.split_asm sum.split_asm)
  note copy = copies [OF found(2) assms(2)]
  note step = assms(1) [unfolded onSubscriptionUpdated_def found option.case sum.case Let_def]
  show ?thesis
  proof (cases "read_stamped e h 0 (se_ID data) (mid 4 d)")
    case (Inl err')
    then show ?thesis using step weaken [OF m4] by simp
  next
    case (Inr ac)
    obtain asOf cur where ac: "ac = (asOf, cur)" by fastforce
    note step = step [unfolded Inr ac sum.case prod.case]
    show ?thesis
      using step sync_kept [OF _ copy m5 assms(3)] apply_state_kept [OF _ copy m5 assms(3)]
      by (cases cur) auto
  qed
qed

lemma deleted_kept:
  assumes "onSubscriptionDeleted e mid h raw d = (err, d')" "pre d" "gaps_keep pre post mid"
  shows "post d'"
proof (cases "d' = d")
  case True then show ?thesis using weaken [OF assms(2)] by simp
next
  case False
  obtain sid lic where found: "raw = Some sid" "for_subscription sid d = Inr (Some lic)"
    using assms(1) False by (auto simp: onSubscriptionDeleted_def split: option.split_asm sum.split_asm)
  note copy = copies [OF found(2) assms(2)]
  obtain handled uerr d1 where up: "endSubscriptionUpgrade e (mid 0) h lic sid ''subscription_ended'' ''webhook'' False (mid 4 d) = ((handled, uerr), d1)"
    by (metis surj_pair)
  have d1: "pre d1"
    using end_upgrade_kept [OF up gap [OF assms(3,2)] assms(3)] .
  note step = assms(1) [unfolded onSubscriptionDeleted_def found option.case sum.case Let_def up prod.case]
  obtain lic' cols where sc: "status_copy e ''canceled'' lic = (lic', cols)" by fastforce
  obtain landed eerr lf d2 where en: "endLicenseFromSubscription e lic' cols (mid 1 d1) = ((landed, eerr), lf, d2)" by (metis surj_pair)
  have "post d2"
    using end_kept [OF en state_fits [OF copy sc] weaken [OF gap [OF assms(3) d1]]] .
  then show ?thesis using step [unfolded sc prod.case en] weaken [OF d1]
    by (auto split: if_split_asm intro: told_post)
qed

lemma unpaid_kept:
  assumes "onPaymentFailed e e' mid h raw d = (err, d')" "pre d" "gaps_keep pre post mid"
  shows "post d'"
proof (cases "d' = d")
  case True then show ?thesis using weaken [OF assms(2)] by simp
next
  case False
  have m4: "pre (mid 4 d)" using gap [OF assms(3,2)] .
  have m5: "pre (mid 5 (mid 4 d))" using gap [OF assms(3) m4] .
  obtain data lic where found: "raw = Some data" "for_subscription (SubscriptionID data) d = Inr (Some lic)"
    and neq: "(SubscriptionID data = '''') = False"
    using assms(1) False by (auto simp: onPaymentFailed_def split: option.split_asm if_split_asm sum.split_asm)
  note copy = copies [OF found(2) assms(2)]
  note step = assms(1) [unfolded onPaymentFailed_def found option.case sum.case neq if_False Let_def]
  show ?thesis
  proof (cases "read_stamped e h 0 (SubscriptionID data) (mid 4 d)")
    case (Inl err')
    then show ?thesis using step weaken [OF m4] by simp
  next
    case (Inr ac)
    obtain asOf cur where ac: "ac = (asOf, cur)" by fastforce
    note step = step [unfolded Inr ac sum.case prod.case]
    show ?thesis
    proof (cases "heldChangeInvoice data cur")
      case True
      then show ?thesis using step weaken [OF m4] by simp
    next
      case False
      note step = step [unfolded if_not_P [OF False]]
      show ?thesis
      proof (cases cur)
        case (Some c)
        obtain serr d2 where sy: "syncFromCurrent e' mid h lic c asOf ''invoice.payment_failed'' (mid 5 (mid 4 d)) = (serr, d2)" by fastforce
        have d2: "post d2" using sync_kept [OF sy copy m5 assms(3)] .
        then have "post (mid 6 d2)" by (rule post_gap [OF assms(3)])
        then show ?thesis using step [unfolded Some option.case sy prod.case] d2
            told_post(7) [of "mid 6 d2" e' h "lic_ID lic" "SubscriptionID data" serr]
          by (auto split: if_split_asm)
      next
        case None
        note step = step [unfolded None option.case]
        let ?copy = "lic\<lparr>lic_Status := StatusPastDue, lic_PastDueAt := Some (env_now e')\<rparr>"
        let ?rep = "\<lambda>lic d. case lic_PastDueAt lic of None \<Rightarrow> (None, d)
            | Some t \<Rightarrow> (None :: error option, snd (notifyPaymentFailed e' h lic t (SubscriptionID data) d))"
        have rep: "post d1 \<Longrightarrow> post (snd (?rep l d1))" for l d1
          by (cases "lic_PastDueAt l") (simp_all add: told_post)
        obtain landed aerr lf d2 where a: "applyLicenseFromSubscription e' ?copy None [C_status, C_past_due_at] (mid 5 (mid 4 d)) = ((landed, aerr), lf, d2)"
          by (metis surj_pair)
        have d2: "post d2" using apply_kept [OF a failed_fits [OF copy] weaken [OF m5]] .
        then have m6: "post (mid 6 d2)" by (rule post_gap [OF assms(3)])
        consider (fresh) "lic_Status lic = StatusActive \<or> lic_Status lic = StatusTrialing"
          | (due) "\<not> (lic_Status lic = StatusActive \<or> lic_Status lic = StatusTrialing)" "lic_Status lic = StatusPastDue"
          | (neither) "\<not> (lic_Status lic = StatusActive \<or> lic_Status lic = StatusTrialing)" "lic_Status lic \<noteq> StatusPastDue"
          by blast
        then show ?thesis
        proof cases
          case fresh
          from step [unfolded if_P [OF fresh] a prod.case] show ?thesis
            using d2 rep [OF m6, of "fst lf"] by (cases landed; cases "lic_PastDueAt (fst lf)") auto
        next
          case due
          from step [unfolded if_not_P [OF due(1)] if_P [OF due(2)]] show ?thesis
            using rep [OF weaken [OF m5], of lic] by (cases "lic_PastDueAt lic") auto
        next
          case neither
          from step [unfolded if_not_P [OF neither(1)] if_not_P [OF neither(2)]] show ?thesis
            using weaken [OF m4] by simp
        qed
      qed
    qed
  qed
qed

lemma event_kept:
  assumes "stripe_event mid d d'" and "pre d" and "gaps_keep pre post mid"
  shows "post d'"
  using assms(1)
proof cases
  case paid then show ?thesis using paid_kept assms(2,3) by metis
next
  case updated then show ?thesis using updated_kept assms(2,3) by metis
next
  case deleted then show ?thesis using deleted_kept assms(2,3) by metis
next
  case unpaid then show ?thesis using unpaid_kept assms(2,3) by metis
qed

end

section \<open>An operator's decision through an event\<close>

text \<open>Revoked, or suspended by an operator: what an event finds, and what it may leave of it.\<close>

definition operator_decided :: "License \<Rightarrow> bool" where
  "operator_decided r \<longleftrightarrow> lic_Status r = StatusRevoked \<or> (lic_Status r = StatusSuspended \<and> lic_SuspendedBy r = SuspendedByAdmin)"

definition row_is :: "(License \<Rightarrow> bool) \<Rightarrow> string \<Rightarrow> db \<Rightarrow> bool" where
  "row_is P lid d \<longleftrightarrow> ids_unique d \<and> (\<exists>r. license_row d lid = Some r \<and> P r)"

lemma row_is_frame: "db_licenses d' = db_licenses d \<Longrightarrow> row_is P lid d' = row_is P lid d"
  by (simp add: row_is_def license_row_frame [of d' d])

lemma row_is_untouched: "untouched d d' \<Longrightarrow> row_is P lid d \<Longrightarrow> row_is P lid d'"
proof -
  assume "untouched d d'" and "row_is P lid d"
  then have "db_licenses d' = db_licenses d" by (simp add: untouched_def)
  from row_is_frame [OF this] \<open>row_is P lid d\<close> show "row_is P lid d'" by (rule iffD2)
qed

lemma decided_stopped: "row_is operator_decided lid d \<Longrightarrow> row_is operator_stopped lid d"
  by (auto simp: row_is_def operator_decided_def operator_stopped_def)

lemma decided_held: "operator_decided r \<Longrightarrow> operatorHeld r"
  by (auto simp: operator_decided_def operatorHeld_def)

lemma revert_decided:
  assumes "revertUpgrade e h uid reason source d = (res, d')" and "row_is operator_decided lid d"
  shows "row_is operator_decided lid d'"
proof (cases res)
  case (Inl err)
  then have "db_licenses d' = db_licenses d"
    using assms(1) by (auto simp: revertUpgrade_def dest!: revert_licenses split: sum.splits if_splits prod.splits)
  then show ?thesis using assms(2) row_is_frame by blast
next
  case (Inr x)
  obtain r where r: "license_row d lid = Some r" "operator_decided r" and ids: "ids_unique d"
    using assms(2) by (auto simp: row_is_def)
  have "operator_decided (licenses_init_updates_until e d r (reverted_row e u r))" for u
    using r(2) decided_held [OF r(2)] by (auto simp: reverted_row_def operator_decided_def)
  moreover have "ids_unique d'" using revertUpgrade_ids [OF assms(1)] ids by simp
  ultimately show ?thesis using revertUpgrade_row [OF assms(1) [unfolded Inr] r(1)] r by (auto simp: row_is_def)
qed

text \<open>A write for another licence leaves the row; one for this licence answers to the guards.\<close>

definition write_of :: "string \<Rightarrow> License \<Rightarrow> lic_column list \<Rightarrow> bool" where
  "write_of lid lic cols \<longleftrightarrow> lic_ID lic \<noteq> lid \<or> proper_write lic cols"

lemma other_terms:
  assumes "UpdateLicenseFromSubscriptionReadTerms e lic asOf cols d = (res', lf, d')" and "license_row d lid = Some r"
    and "lic_ID lic \<noteq> lid"
  shows "license_row d' lid = Some r"
proof -
  obtain before written res where res': "res' = (before, written, res)" by (cases res') auto
  from assms(1) [unfolded res'] show ?thesis
  proof (cases rule: terms_cases)
    case (landed row cols' d1)
    then show ?thesis using write_row [OF landed(4) assms(2)] assms(3) by (auto simp: end_hold_row)
  next
    case (taken row planID)
    then show ?thesis using take_terms_row [OF taken(6) assms(2)] assms(3) by auto
  qed (use assms(2) in simp)
qed

lemma kept_by_write:
  assumes "subscription_write d d' \<or> (map lic_ID (db_licenses d') = map lic_ID (db_licenses d) \<and> license_row d' lid = license_row d lid)"
    and "row_is operator_stopped lid d"
  shows "row_is operator_stopped lid d'"
  using assms operator_kept [of d d' lid] subscription_write_ids [of d d'] by (auto simp: row_is_def)

lemma payload_kept:
  assumes "UpdateLicenseFromSubscription e lic cols d = (res, lf, d')" "write_of lid lic cols" "row_is operator_stopped lid d"
  shows "row_is operator_stopped lid d'"
proof (rule kept_by_write [OF _ assms(3)])
  show "subscription_write d d' \<or> (map lic_ID (db_licenses d') = map lic_ID (db_licenses d) \<and> license_row d' lid = license_row d lid)"
    using assms write_row [of e lic True None cols d res lf d' lid] write_ids [of e lic True None cols d res lf d']
    by (auto simp: write_of_def row_is_def UpdateLicenseFromSubscription_def intro: subscription_write.payload)
qed

lemma read_kept:
  assumes "UpdateLicenseFromSubscriptionRead e lic asOf cols d = (res, lf, d')" "write_of lid lic cols" "row_is operator_stopped lid d"
  shows "row_is operator_stopped lid d'"
proof (rule kept_by_write [OF _ assms(3)])
  show "subscription_write d d' \<or> (map lic_ID (db_licenses d') = map lic_ID (db_licenses d) \<and> license_row d' lid = license_row d lid)"
    using assms write_row [of e lic True "Some asOf" cols d res lf d' lid] write_ids [of e lic True "Some asOf" cols d res lf d']
    by (auto simp: write_of_def row_is_def UpdateLicenseFromSubscriptionRead_def intro: subscription_write.reading)
qed

lemma terms_ids:
  assumes "UpdateLicenseFromSubscriptionReadTerms e lic asOf cols d = (res', lf, d')"
  shows "map lic_ID (db_licenses d') = map lic_ID (db_licenses d)"
proof -
  obtain before written res where res': "res' = (before, written, res)" by (cases res') auto
  from assms [unfolded res'] show ?thesis
  proof (cases rule: terms_cases)
    case (landed row cols' d1)
    then show ?thesis using write_ids [OF landed(4)] by auto
  next
    case (taken row planID)
    then show ?thesis using take_terms_ids by blast
  qed simp
qed

lemma terms_kept:
  assumes "UpdateLicenseFromSubscriptionReadTerms e lic asOf cols d = (res', lf, d')" "write_of lid lic cols" "row_is operator_stopped lid d"
  shows "row_is operator_stopped lid d'"
proof (rule kept_by_write [OF _ assms(3)])
  show "subscription_write d d' \<or> (map lic_ID (db_licenses d') = map lic_ID (db_licenses d) \<and> license_row d' lid = license_row d lid)"
    using assms other_terms [OF assms(1)] terms_ids [OF assms(1)]
    by (auto simp: write_of_def row_is_def intro: subscription_write.terms)
qed

lemma ended_kept:
  assumes "UpdateLicenseFromSubscriptionEnded e lic asOf cols d = (res, lf, d')" "write_of lid lic cols" "row_is operator_stopped lid d"
  shows "row_is operator_stopped lid d'"
proof (rule kept_by_write [OF _ assms(3)])
  obtain stamp where w: "updateLicenseAndSubscriptionIn e (lic\<lparr>lic_StripeSyncedAt := Some stamp\<rparr>) True None
      (cols @ [C_stripe_synced_at]) d = (res, lf, d')" using assms(1) by (rule ended_write)
  have "lic_ID lic \<noteq> lid \<Longrightarrow> license_row d' lid = license_row d lid"
    using assms(3) write_row [OF w, of lid] by (auto simp: row_is_def)
  then show "subscription_write d d' \<or> (map lic_ID (db_licenses d') = map lic_ID (db_licenses d) \<and> license_row d' lid = license_row d lid)"
    using assms write_ids [OF w] by (auto simp: write_of_def intro: subscription_write.ended)
qed

definition copy_decided :: "string \<Rightarrow> License \<Rightarrow> bool" where
  "copy_decided lid lic \<longleftrightarrow> lic_ID lic = lid \<longrightarrow> lic_Status lic = StatusRevoked \<or> lic_Status lic = StatusSuspended"

lemma status_copy_status:
  "lic_Status (fst (status_copy e st lic)) =
     (if st = ''active'' then StatusActive else if st = ''past_due'' then StatusPastDue
      else if st = ''trialing'' then StatusTrialing else if st = ''paused'' then StatusSuspended
      else if ended_status st then StatusCanceled else lic_Status lic)"
  by (simp add: status_copy_def Let_def endAccessNow_def split: option.split)

lemma status_copy_cols:
  "C_stripe_synced_at \<notin> set (snd (status_copy e st lic))" "C_stripe_subscription_id \<notin> set (snd (status_copy e st lic))"
  "C_suspended_by \<in> set (snd (status_copy e st lic)) \<longleftrightarrow> usable_status st \<or> st = ''paused''"
  by (simp_all add: status_copy_def Let_def endAccessNow_def usable_status_def split: option.split)

lemma status_copy_proper:
  assumes "lic_Status lic = StatusRevoked \<or> lic_Status lic = StatusSuspended" and "status_copy e st lic = (lic', cols)"
  shows "proper_write lic' cols"
proof -
  have "lic_Status lic' \<in> {StatusActive, StatusPastDue, StatusTrialing, StatusSuspended, StatusCanceled, StatusRevoked}"
    using status_copy_status [of e st lic] assms by (auto split: if_split_asm)
  moreover have "usable_status st \<or> st = ''paused'' \<Longrightarrow> live_status (lic_Status lic') \<or> lic_Status lic' = StatusSuspended"
    using status_copy_status [of e st lic] assms(2) by (auto simp: usable_status_def live_status_def)
  ultimately show ?thesis using status_copy_cols [of e st lic] assms(2)
    by (auto simp: proper_write_def live_status_def)
qed

lemma status_copy_ID: "lic_ID (fst (status_copy e st lic)) = lic_ID lic"
  by (auto simp: status_copy_def endAccessNow_def Let_def split: option.splits)

lemma status_copy_write:
  assumes "copy_decided lid lic" and "status_copy e st lic = (lic', cols)"
  shows "write_of lid lic' cols"
  using assms status_copy_proper [of lic e st lic' cols] status_copy_ID [of e st lic]
  by (auto simp: write_of_def copy_decided_def)

lemma terms_copy_write:
  assumes "subscriptionTerms lic data d = Inr (lic', tc)" and "write_of lid lic cols"
  shows "write_of lid lic' (cols @ tc)"
proof -
  have "lic_ID lic' = lic_ID lic \<and> lic_Status lic' = lic_Status lic \<and> set tc \<subseteq> {C_stripe_pending_update_expires_at, C_quantity, C_plan_id}"
    using assms(1) by (auto simp: subscriptionTerms_def Let_def split: if_splits sum.splits option.splits prod.splits list.splits)
  then show ?thesis using assms(2) by (auto simp: write_of_def proper_write_def)
qed

lemma found_copy:
  assumes "for_subscription sid d = Inr (Some lic)" and "row_is operator_decided lid d"
  shows "copy_decided lid lic"
proof -
  obtain l where l: "lic = bare_license l" "l \<in> set (db_licenses d)"
    using assms(1)
    by (auto simp: for_subscription_def FindLicenseByStripeSubscription_def dest: select_one_SomeD split: if_splits option.splits)
  show ?thesis
  proof (cases "lic_ID l = lid")
    case True
    obtain r where r: "license_row d lid = Some r" "operator_decided r" "ids_unique d" using assms(2) by (auto simp: row_is_def)
    then have "l = r" using unique_column [OF r(3) l(2), of r] license_row_SomeD [OF r(1)] True by simp
    then show ?thesis using r(2) l(1) by (auto simp: copy_decided_def operator_decided_def)
  qed (simp add: copy_decided_def l(1))
qed

lemma invoice_copy_write:
  assumes "copy_decided lid lic" and "invoice_copy data lic = Some (lic', cols)"
  shows "write_of lid lic' cols"
  using assms by (auto simp: invoice_copy_def Let_def write_of_def proper_write_def live_status_def split: if_splits)

text \<open>No other request takes the operator's decision back meanwhile.\<close>

definition keeps_decision :: "string \<Rightarrow> (nat \<Rightarrow> db \<Rightarrow> db) \<Rightarrow> bool" where
  "keeps_decision lid mid \<longleftrightarrow> gaps_keep (row_is operator_decided lid) (row_is operator_stopped lid) mid"

lemma write_of_period: "write_of lid lic cols \<Longrightarrow> write_of lid (lic\<lparr>lic_ValidUntil := v\<rparr>) (cols @ [C_valid_until])"
  by (auto simp: write_of_def proper_write_def)

lemma write_of_failed: "write_of lid (lic\<lparr>lic_Status := StatusPastDue, lic_PastDueAt := t\<rparr>) [C_status, C_past_due_at]"
  by (simp add: write_of_def proper_write_def live_status_def)

interpretation decided: event_contract "row_is operator_decided lid" "row_is operator_stopped lid" "copy_decided lid" "write_of lid" for lid
  by unfold_locales (rule decided_stopped row_is_untouched revert_decided found_copy status_copy_write write_of_period
      terms_copy_write invoice_copy_write write_of_failed payload_kept read_kept terms_kept ended_kept; assumption)+


section \<open>Well-formed rows\<close>

definition known_status :: "string \<Rightarrow> bool" where
  "known_status st \<longleftrightarrow> st \<in> {StatusActive, StatusTrialing, StatusPastDue, StatusCanceled, StatusExpired, StatusSuspended, StatusRevoked}"

definition quantity_ok :: "int \<Rightarrow> bool" where
  "quantity_ok q \<longleftrightarrow> 1 \<le> q \<and> q \<le> 2 ^ 31 - 1"

definition license_wf :: "License \<Rightarrow> bool" where
  "license_wf r \<longleftrightarrow> known_status (lic_Status r) \<and> quantity_ok (lic_Quantity r)"

definition upgrade_wf :: "LicenseUpgrade \<Rightarrow> bool" where
  "upgrade_wf u \<longleftrightarrow> (up_State u = UpgradeApplied \<longrightarrow> known_status (up_FromStatus u) \<and> quantity_ok (max (up_FromQuantity u) 1))"

definition rows_wf :: "db \<Rightarrow> bool" where
  "rows_wf d \<longleftrightarrow> (\<forall>r \<in> set (db_licenses d). license_wf r) \<and> (\<forall>u \<in> set (db_upgrades d). upgrade_wf u)"

definition cols_wf :: "License \<Rightarrow> lic_column list \<Rightarrow> bool" where
  "cols_wf lic cols \<longleftrightarrow> (C_status \<in> set cols \<longrightarrow> known_status (lic_Status lic)) \<and> (C_quantity \<in> set cols \<longrightarrow> quantity_ok (lic_Quantity lic))"

lemma clamp_ok: "quantity_ok (clampQuantity q)"
  by (simp add: clampQuantity_def quantity_ok_def)

lemma written_wf:
  assumes "cols_wf lic cols" and "license_wf r"
  shows "license_wf (written_row e d lic asOf cols prior r)"
  using assms by (simp add: license_wf_def cols_wf_def set_cols_written)

lemma write_upgrades:
  assumes "updateLicenseAndSubscriptionIn e lic linked asOf cols d = (res, lf, d')"
  shows "db_upgrades d' = db_upgrades d"
  using assms
  by (auto simp: updateLicenseAndSubscriptionIn_def Let_def split_beta syncSubscriptionStatus_def syncSubscriptionPlanIn_def
      endFloatingSessionsIfStoppedIn_def write_columns_keeps split: if_splits option.splits)

lemma write_wf:
  assumes "updateLicenseAndSubscriptionIn e lic linked asOf cols d = (res, lf, d')" and "cols_wf lic cols" and "rows_wf d"
  shows "rows_wf d'"
proof -
  have "\<forall>r \<in> set (db_licenses d'). license_wf r"
    using write_licenses [OF assms(1)]
  proof (elim disjE exE conjE)
    assume l: "db_licenses d' = update_where (\<lambda>r. lic_ID r = lic_ID lic \<and> write_allowed lic linked asOf cols r)
      (written_row e d lic asOf cols (license_row d (lic_ID lic))) (db_licenses d)"
    show ?thesis
    proof
      fix x assume "x \<in> set (db_licenses d')"
      from updated_row_of [OF this [unfolded l]] show "license_wf x"
        using assms(3) written_wf [OF assms(2)] by (auto simp: rows_wf_def split: if_split_asm)
    qed
  qed (use assms(3) in \<open>simp add: rows_wf_def\<close>)
  then show ?thesis using assms(3) write_upgrades [OF assms(1)] by (simp add: rows_wf_def)
qed

lemma end_hold_wf: "rows_wf d \<Longrightarrow> rows_wf (end_hold lid d)"
  by (auto simp: rows_wf_def end_hold_def clear_hold_def license_wf_def dest!: updated_row_of split: if_split_asm)

lemma take_terms_wf:
  assumes "take_terms e lic planID asOf d = Inr (Some d')" and "quantity_ok (lic_Quantity lic)" and "rows_wf d"
  shows "rows_wf d'"
proof (rule take_terms_run [OF assms(1)])
  fix d1
  let ?P = "\<lambda>r. lic_ID r = lic_ID lic \<and> lic_StripeSubscriptionID lic \<noteq> '''' \<and>
      lic_StripeSubscriptionID r = lic_StripeSubscriptionID lic \<and>
      (case lic_StripeSyncedAt r of None \<Rightarrow> True | Some s \<Rightarrow> s \<le> asOf)"
  assume d1: "update_plan_rows e ?P (terms_taken e lic planID asOf) d = Some d1" and d': "d' = syncSubscriptionPlanIn e (lic_ID lic) planID d1"
  have "license_wf (licenses_init_updates_until e d r (terms_taken e lic planID asOf r))" if "license_wf r" for r
    using that assms(2) by (simp add: license_wf_def terms_taken_def)
  moreover have "db_licenses d1 = update_where ?P (\<lambda>r. licenses_init_updates_until e d r (terms_taken e lic planID asOf r)) (db_licenses d)"
    by (rule update_plan_rows_licenses [OF d1])
  moreover have "db_upgrades d1 = db_upgrades d" by (rule update_plan_rows_keeps [OF d1])
  ultimately show ?thesis using assms(3)
    by (auto simp: d' syncSubscriptionPlanIn_def rows_wf_def ball_update_where)
qed

lemma payload_wf:
  assumes "UpdateLicenseFromSubscription e lic cols d = (res, lf, d')" "cols_wf lic cols" "rows_wf d"
  shows "rows_wf d'"
  using write_wf [OF assms(1) [unfolded UpdateLicenseFromSubscription_def] assms(2,3)] .

lemma read_wf:
  assumes "UpdateLicenseFromSubscriptionRead e lic asOf cols d = (res, lf, d')" "cols_wf lic cols" "rows_wf d"
  shows "rows_wf d'"
  using write_wf [OF assms(1) [unfolded UpdateLicenseFromSubscriptionRead_def] assms(2,3)] .

lemma terms_wf:
  assumes "UpdateLicenseFromSubscriptionReadTerms e lic asOf cols d = (res', lf, d')" "cols_wf lic cols" "rows_wf d"
  shows "rows_wf d'"
proof -
  obtain before written res where res': "res' = (before, written, res)" by (cases res') auto
  from assms(1) [unfolded res'] show ?thesis
  proof (cases rule: terms_cases)
    case (landed row cols' d1)
    have "cols_wf lic cols'" using assms(2) landed(3) by (auto simp: cols_wf_def held_cols_def)
    then show ?thesis using write_wf [OF landed(4)] assms(3) landed(5) end_hold_wf by auto
  next
    case (taken row planID)
    then show ?thesis using take_terms_wf [OF taken(6)] assms(2,3) by (simp add: cols_wf_def)
  qed (use assms(3) in simp)
qed

lemma ended_wf:
  assumes "UpdateLicenseFromSubscriptionEnded e lic asOf cols d = (res, lf, d')" "cols_wf lic cols" "rows_wf d"
  shows "rows_wf d'"
proof -
  obtain stamp where w: "updateLicenseAndSubscriptionIn e (lic\<lparr>lic_StripeSyncedAt := Some stamp\<rparr>) True None
      (cols @ [C_stripe_synced_at]) d = (res, lf, d')" using assms(1) by (rule ended_write)
  show ?thesis by (rule write_wf [OF w _ assms(3)]) (use assms(2) in \<open>simp add: cols_wf_def\<close>)
qed

lemma revert_upgrades:
  assumes "RevertLicenseUpgradeIn e u reason d = (res, d')"
  shows "db_upgrades d' = db_upgrades d \<or>
    (\<exists>why. db_upgrades d' = update_where (\<lambda>x. up_ID x = up_ID u)
       (\<lambda>x. x\<lparr>up_State := UpgradeReverted, up_EndReason := why, up_EndedAt := Some (env_now e)\<rparr>) (db_upgrades d))"
proof -
  have ended: "EndLicenseUpgradeIn e u UpgradeReverted why d1 = (x, d2) \<Longrightarrow> db_upgrades d2 = db_upgrades d1 \<or>
     db_upgrades d2 = update_where (\<lambda>x. up_ID x = up_ID u)
       (\<lambda>x. x\<lparr>up_State := UpgradeReverted, up_EndReason := why, up_EndedAt := Some (env_now e)\<rparr>) (db_upgrades d1)" for why d1 x d2
    by (auto simp: EndLicenseUpgradeIn_def split: if_split_asm)
  have snd_ended: "db_upgrades (snd (EndLicenseUpgradeIn e u UpgradeReverted why d)) = db_upgrades d \<or>
     db_upgrades (snd (EndLicenseUpgradeIn e u UpgradeReverted why d)) = update_where (\<lambda>x. up_ID x = up_ID u)
       (\<lambda>x. x\<lparr>up_State := UpgradeReverted, up_EndReason := why, up_EndedAt := Some (env_now e)\<rparr>) (db_upgrades d)" for why
    using ended [of why d] by (metis surj_pair snd_conv)
  show ?thesis
  proof (cases "db_fault d \<or> license_row d (up_LicenseID u) = None \<or> \<not> upgrade_linked u (the (license_row d (up_LicenseID u)))")
    case True
    then show ?thesis using assms snd_ended
      by (auto simp: RevertLicenseUpgradeIn_def Let_def split: if_split_asm option.split_asm)
  next
    case False
    then obtain r where r: "license_row d (up_LicenseID u) = Some r" and taken: "upgrade_linked u r = True" "db_fault d = False" by auto
    note step = assms [unfolded RevertLicenseUpgradeIn_def r option.case Let_def bare_keeps taken not_True_eq_False if_False]
    show ?thesis
    proof (cases "if up_FromPlanID u = '''' then Inl ErrNoRows else FindPlanByIDIn (up_FromPlanID u) d")
      case (Inl err)
      then show ?thesis using step [unfolded Inl sum.case] snd_ended by auto
    next
      case (Inr plan)
      let ?l = "reverted_copy u plan (bare_license r)"
      consider (undone) err where "d' = d"
        | (through) d1 d2 d3 where "UpdateLicenseIn e ?l (revert_cols (bare_license r)) d = (Inr (), d1)"
          "SyncLicenseSubscriptionIn e (lic_ID ?l) (Some plan) (lic_Status ?l) (lic_ValidUntil ?l) d1 = (Inr (), d2)"
          "ResetSubscriptionCancelStateIn (lic_ID ?l) d2 = (Inr (), d3)"
          "EndLicenseUpgradeIn e u UpgradeReverted reason d3 = (Inr (), d')"
        using step [unfolded Inr sum.case] by (auto split: sum.splits prod.splits unit.splits)
      then show ?thesis
      proof cases
        case through
        have "db_upgrades d3 = db_upgrades d"
          using update_license_frame [OF through(1)] sync_subscription_frame [OF through(2)] reset_cancel_frame [OF through(3)] by simp
        then show ?thesis using ended [OF through(4)] by auto
      qed simp
    qed
  qed
qed

lemma revert_wf:
  assumes "revertUpgrade e h uid reason source d = (res, d')" and "rows_wf d"
  shows "rows_wf d'"
proof (cases "\<exists>u. LockLicenseUpgradeIn uid d = Inr u \<and> up_State u = UpgradeApplied")
  case False
  then have "d' = d" using assms(1) by (auto simp: revertUpgrade_def split: sum.split_asm if_split_asm)
  then show ?thesis using assms(2) by simp
next
  case True
  then obtain u where u: "LockLicenseUpgradeIn uid d = Inr u" "up_State u = UpgradeApplied" by blast
  obtain res1 d1 where rv: "RevertLicenseUpgradeIn e u reason d = (res1, d1)" by fastforce
  have same: "db_licenses d' = db_licenses d1 \<and> db_upgrades d' = db_upgrades d1"
    using assms(1) u rv by (auto simp: revertUpgrade_def split: sum.split_asm)
  have "u \<in> set (db_upgrades d)"
    using u(1) by (auto simp: LockLicenseUpgradeIn_def findLicenseUpgrade_def dest: first_by_SomeD split: if_split_asm option.split_asm)
  then have from_ok: "known_status (up_FromStatus u)" "quantity_ok (max (up_FromQuantity u) 1)"
    using assms(2) u(2) by (auto simp: rows_wf_def upgrade_wf_def)
  have lic: "\<forall>r \<in> set (db_licenses d1). license_wf r"
    using revert_licenses [OF rv]
  proof (elim disjE exE conjE)
    fix r x
    assume plan: "plan_ID (the (ur_Plan x)) = up_FromPlanID u"
      and l: "db_licenses d1 = update_where (\<lambda>y. lic_ID y = lic_ID r)
         (written_as e d ((reverted_copy u (the (ur_Plan x)) (bare_license r))\<lparr>lic_UpdatedAt := env_now e\<rparr>)
            (revert_cols (bare_license r) @ [C_updated_at])) (db_licenses d)"
    show ?thesis
    proof
      fix y assume "y \<in> set (db_licenses d1)"
      from updated_row_of [OF this [unfolded l]] obtain z where z: "z \<in> set (db_licenses d)"
        "y = (if lic_ID z = lic_ID r then written_as e d ((reverted_copy u (the (ur_Plan x)) (bare_license r))\<lparr>lic_UpdatedAt := env_now e\<rparr>)
            (revert_cols (bare_license r) @ [C_updated_at]) z else z)" by blast
      have "license_wf z" using assms(2) z(1) by (simp add: rows_wf_def)
      then show "license_wf y" using z(2) from_ok
        by (auto simp: license_wf_def written_as_def set_cols_written revert_cols_def reverted_copy_def Let_def)
    qed
  qed (use assms(2) in \<open>simp add: rows_wf_def\<close>)
  have "\<forall>x \<in> set (db_upgrades d1). upgrade_wf x"
    using revert_upgrades [OF rv] assms(2)
    by (auto simp: rows_wf_def upgrade_wf_def dest!: updated_row_of split: if_split_asm)
  then show ?thesis using lic same by (simp add: rows_wf_def)
qed

lemma rows_wf_untouched: "untouched d d' \<Longrightarrow> rows_wf d \<Longrightarrow> rows_wf d'"
  by (simp add: rows_wf_def untouched_def)

lemma copy_wf:
  assumes "for_subscription sid d = Inr (Some lic)" and "rows_wf d"
  shows "license_wf lic"
proof -
  obtain l where "lic = bare_license l" "l \<in> set (db_licenses d)"
    using assms(1)
    by (auto simp: for_subscription_def FindLicenseByStripeSubscription_def dest: select_one_SomeD split: if_splits option.splits)
  then show ?thesis using assms(2) by (auto simp: rows_wf_def license_wf_def bare_license_def)
qed

lemma status_copy_quantity: "C_quantity \<notin> set (snd (status_copy e st lic))"
  by (simp add: status_copy_def Let_def endAccessNow_def split: option.split)

lemma status_copy_wf: "license_wf lic \<Longrightarrow> status_copy e st lic = (lic', cols) \<Longrightarrow> cols_wf lic' cols"
  using status_copy_status [of e st lic] status_copy_quantity [of e st lic]
  by (auto simp: cols_wf_def license_wf_def known_status_def split: if_split_asm)

lemma terms_copy_wf:
  assumes "subscriptionTerms lic data d = Inr (lic', tc)" and "cols_wf lic cols"
  shows "cols_wf lic' (cols @ tc)"
proof -
  have "lic_Status lic' = lic_Status lic \<and> C_status \<notin> set tc \<and>
        (lic_Quantity lic' = lic_Quantity lic \<and> C_quantity \<notin> set tc \<or> (\<exists>q. lic_Quantity lic' = clampQuantity q))"
    using assms(1) by (auto simp: subscriptionTerms_def Let_def split: if_splits sum.splits option.splits prod.splits list.splits)
  then show ?thesis using assms(2) clamp_ok by (auto simp: cols_wf_def)
qed

lemma invoice_copy_wf: "license_wf lic \<Longrightarrow> invoice_copy data lic = Some (lic', cols) \<Longrightarrow> cols_wf lic' cols"
  by (auto simp: invoice_copy_def Let_def cols_wf_def known_status_def split: if_splits)

lemma period_wf: "cols_wf lic cols \<Longrightarrow> cols_wf (lic\<lparr>lic_ValidUntil := v\<rparr>) (cols @ [C_valid_until])"
  by (simp add: cols_wf_def)

lemma failed_wf: "cols_wf (lic\<lparr>lic_Status := StatusPastDue, lic_PastDueAt := t\<rparr>) [C_status, C_past_due_at]"
  by (simp add: cols_wf_def known_status_def)

interpretation typed: event_contract rows_wf rows_wf license_wf cols_wf
  by unfold_locales (assumption | (rule rows_wf_untouched revert_wf copy_wf status_copy_wf period_wf
      terms_copy_wf invoice_copy_wf failed_wf payload_wf read_wf terms_wf ended_wf; assumption))+




end
