(* ===== verification/KG_Event_Claims.thy ===== *)
theory KG_Event_Claims
  imports KG_Upgrades
begin

text \<open>
  How a delivery of a Stripe event, or a caller fulfilling a checkout session, makes sure that it is
  the one that handles it: the reservation and the in-flight marker of \<^verbatim>\<open>internal/payment/stripe.go\<close>,
  two rows of \<^verbatim>\<open>processed_events\<close> written and removed together, the take-over of a marker left
  behind, and the webhook endpoint around them. \<open>env_at n\<close> is the clock and the new identifier of a
  caller's \<open>n\<close>-th statement, \<open>mid n\<close> what other requests do before it.
\<close>

section \<open>Signing secrets and versions\<close>

record webhookSecrets =
  ws_webhookSecret :: string
  ws_prevWebhookSecret :: string
  ws_prevSecretUntil :: time

definition SetPreviousWebhookSecret :: "string \<Rightarrow> time \<Rightarrow> webhookSecrets \<Rightarrow> webhookSecrets" where
  "SetPreviousWebhookSecret secret until s = s\<lparr>ws_prevWebhookSecret := secret, ws_prevSecretUntil := until\<rparr>"

definition SetWebhookSecret :: "string \<Rightarrow> webhookSecrets \<Rightarrow> webhookSecrets" where
  "SetWebhookSecret secret s = s\<lparr>ws_webhookSecret := secret\<rparr>"

definition previousWebhookSecret :: "time \<Rightarrow> webhookSecrets \<Rightarrow> string option" where
  "previousWebhookSecret now s =
     (if ws_prevWebhookSecret s = '''' \<or> now > ws_prevSecretUntil s then None else Some (ws_prevWebhookSecret s))"

text \<open>What follows the first dot.\<close>

definition after_dot :: "string \<Rightarrow> string option" where
  "after_dot v = (case dropWhile (\<lambda>c. c \<noteq> CHR ''.'') v of [] \<Rightarrow> None | _ # rest \<Rightarrow> Some rest)"

definition sameReleaseTrain :: "string \<Rightarrow> string \<Rightarrow> bool" where
  "sameReleaseTrain have_v want =
     (case (after_dot have_v, after_dot want) of (Some h, Some w) \<Rightarrow> h = w | _ \<Rightarrow> False)"

definition supportedAPIVersion :: "string \<Rightarrow> string \<Rightarrow> bool" where
  "supportedAPIVersion sdk v =
     (if v = '''' then False
      else case after_dot v of
        None \<Rightarrow> True
      | Some train \<Rightarrow> if train = ''acacia'' then True else sameReleaseTrain v sdk)"

section \<open>The two rows\<close>

abbreviation processedEventClaimProvider :: string where "processedEventClaimProvider \<equiv> ''stripe_claim''"
abbreviation processedEventDoneProvider :: string where "processedEventDoneProvider \<equiv> ''stripe''"
abbreviation sessionClaimProvider :: string where "sessionClaimProvider \<equiv> ''stripe_fulfill_claim''"
abbreviation fulfilledSessionProvider :: string where "fulfilledSessionProvider \<equiv> ''stripe_fulfill''"

definition staleClaimAge :: duration where "staleClaimAge = 10 * Minute"

definition errClaimTaken :: error where "errClaimTaken = ErrRefused ''in-flight marker taken''"

text \<open>The transaction: both rows or neither.\<close>

definition reserve_rows :: "(nat \<Rightarrow> env) \<Rightarrow> string \<Rightarrow> string \<Rightarrow> string \<Rightarrow> db \<Rightarrow> bool result \<times> db" where
  "reserve_rows env_at doneProvider claimProvider evID d =
     (case ClaimProcessedEvent (env_at 0) doneProvider evID d of
        (Inl err, _) \<Rightarrow> (Inl err, d)
      | (Inr False, d1) \<Rightarrow> (Inr False, d1)
      | (Inr True, d1) \<Rightarrow>
          (case DeleteProcessedEvent claimProvider evID d1 of
             (Inl err, _) \<Rightarrow> (Inl err, d)
           | (Inr (), d2) \<Rightarrow>
               (case ClaimProcessedEvent (env_at 1) claimProvider evID d2 of
                  (Inl err, _) \<Rightarrow> (Inl err, d)
                | (Inr False, _) \<Rightarrow> (Inl errClaimTaken, d)
                | (Inr True, d3) \<Rightarrow> (Inr True, d3))))"

text \<open>A marker whose owner died is removed and, in a second statement, written again as this caller's.\<close>

definition take_over :: "(nat \<Rightarrow> env) \<Rightarrow> (nat \<Rightarrow> db \<Rightarrow> db) \<Rightarrow> string \<Rightarrow> string \<Rightarrow> db \<Rightarrow> ((bool \<times> bool) \<times> error option) \<times> db" where
  "take_over env_at mid claimProvider evID d =
     (case ReleaseStaleProcessedEvent (env_at 2) claimProvider evID staleClaimAge d of
        (Inl err, d1) \<Rightarrow> (((False, False), Some err), d1)
      | (Inr False, d1) \<Rightarrow> (((False, False), None), d1)
      | (Inr True, d1) \<Rightarrow>
          (case ClaimProcessedEvent (env_at 3) claimProvider evID (mid 2 d1) of
             (Inl err, d2) \<Rightarrow> (((False, False), Some err), d2)
           | (Inr claimed, d2) \<Rightarrow> (((claimed, False), None), d2)))"

text \<open>Whether this caller handles it, whether there is nothing left to do, and the error.\<close>

definition reserve ::
  "(nat \<Rightarrow> env) \<Rightarrow> (nat \<Rightarrow> db \<Rightarrow> db) \<Rightarrow> string \<Rightarrow> string \<Rightarrow> string \<Rightarrow> (db \<Rightarrow> bool result \<times> db) option \<Rightarrow> db
   \<Rightarrow> ((bool \<times> bool) \<times> error option) \<times> db" where
  "reserve env_at mid doneProvider claimProvider evID fulfilled d =
     (case reserve_rows env_at doneProvider claimProvider evID d of
        (Inl err, d1) \<Rightarrow> (((False, False), if err = errClaimTaken then None else Some err), d1)
      | (Inr True, d1) \<Rightarrow> (((True, False), None), d1)
      | (Inr False, d1) \<Rightarrow>
          let d2 = mid 0 d1 in
          (case HasProcessedEvent claimProvider evID d2 of
             Inl err \<Rightarrow> (((False, False), Some err), d2)
           | Inr False \<Rightarrow> (((False, True), None), d2)
           | Inr True \<Rightarrow>
               (case fulfilled of
                  None \<Rightarrow> take_over env_at mid claimProvider evID (mid 1 d2)
                | Some f \<Rightarrow>
                    (case f d2 of
                       (Inl err, d3) \<Rightarrow> (((False, False), Some err), d3)
                     | (Inr True, d3) \<Rightarrow> (((False, True), None), d3)
                     | (Inr False, d3) \<Rightarrow> take_over env_at mid claimProvider evID (mid 1 d3)))))"

definition claimEvent :: "(nat \<Rightarrow> env) \<Rightarrow> (nat \<Rightarrow> db \<Rightarrow> db) \<Rightarrow> string \<Rightarrow> db \<Rightarrow> ((bool \<times> bool) \<times> error option) \<times> db" where
  "claimEvent env_at mid eventID d =
     reserve env_at mid processedEventDoneProvider processedEventClaimProvider eventID None d"

definition release :: "string \<Rightarrow> string \<Rightarrow> string \<Rightarrow> db \<Rightarrow> unit result \<times> db" where
  "release doneProvider claimProvider evID d =
     (case DeleteProcessedEvent doneProvider evID d of
        (Inl err, _) \<Rightarrow> (Inl err, d)
      | (Inr _, d1) \<Rightarrow>
          (case DeleteProcessedEvent claimProvider evID d1 of (Inl err, _) \<Rightarrow> (Inl err, d) | (Inr _, d2) \<Rightarrow> (Inr (), d2)))"

section \<open>Checkout sessions\<close>

definition FindLicenseByStripeCheckoutSession :: "string \<Rightarrow> db \<Rightarrow> License result" where
  "FindLicenseByStripeCheckoutSession sessionID d =
     (if db_fault d then Inl ErrDB
      else case select_one (\<lambda>l. lic_StripeCheckoutSessionID l = sessionID) (db_licenses d) of
        None \<Rightarrow> Inl ErrNoRows | Some l \<Rightarrow> Inr (bare_license l))"

text \<open>A session a licence or an upgrade records is fulfilled, whatever its marker says.\<close>

definition session_recorded :: "(nat \<Rightarrow> db \<Rightarrow> db) \<Rightarrow> string \<Rightarrow> db \<Rightarrow> bool result \<times> db" where
  "session_recorded mid sessionID d =
     (case FindLicenseByStripeCheckoutSession sessionID d of
        Inr _ \<Rightarrow> (Inr True, d)
      | Inl err \<Rightarrow>
          if err \<noteq> ErrNoRows then (Inl err, d)
          else (upgradeSessionDone sessionID (mid 3 d), mid 3 d))"

definition claimSession :: "(nat \<Rightarrow> env) \<Rightarrow> (nat \<Rightarrow> db \<Rightarrow> db) \<Rightarrow> string \<Rightarrow> db \<Rightarrow> bool result \<times> db" where
  "claimSession env_at mid sessionID d =
     (case reserve env_at mid fulfilledSessionProvider sessionClaimProvider sessionID (Some (session_recorded mid sessionID)) d of
        ((_, Some err), d1) \<Rightarrow> (Inl err, d1)
      | (((claimed, _), None), d1) \<Rightarrow> (Inr claimed, d1))"

definition FindLicenseRenewalBySession :: "string \<Rightarrow> db \<Rightarrow> LicenseRenewal result" where
  "FindLicenseRenewalBySession sessionID d =
     (if db_fault d then Inl ErrDB
      else case select_one (\<lambda>r. ren_StripeCheckoutSessionID r = sessionID) (db_renewals d) of None \<Rightarrow> Inl ErrNoRows | Some r \<Rightarrow> Inr r)"

definition FindLicenseRenewalByPaymentIntentIn :: "string \<Rightarrow> db \<Rightarrow> LicenseRenewal result" where
  "FindLicenseRenewalByPaymentIntentIn paymentIntentID d =
     (if db_fault d then Inl ErrDB
      else case select_one (\<lambda>r. ren_StripePaymentIntentID r = paymentIntentID) (db_renewals d) of None \<Rightarrow> Inl ErrNoRows | Some r \<Rightarrow> Inr r)"

definition FindLicenseByStripePaymentIntent :: "string \<Rightarrow> db \<Rightarrow> License result" where
  "FindLicenseByStripePaymentIntent paymentIntentID d =
     (if db_fault d then Inl ErrDB
      else case select_one (\<lambda>l. lic_StripePaymentIntentID l = paymentIntentID) (db_licenses d) of
        None \<Rightarrow> Inl ErrNoRows | Some l \<Rightarrow> Inr (bare_license l))"

text \<open>Whether a caller's session is fulfilled: a licence, a renewal or an upgrade records it, or its claim is completed.\<close>

definition sessionFulfilled :: "(nat \<Rightarrow> db \<Rightarrow> db) \<Rightarrow> string \<Rightarrow> db \<Rightarrow> bool result \<times> db" where
  "sessionFulfilled mid sessionID d =
     (case FindLicenseByStripeCheckoutSession sessionID d of
        Inr _ \<Rightarrow> (Inr True, d)
      | Inl err \<Rightarrow>
          if err \<noteq> ErrNoRows then (Inl err, d)
          else
            let d1 = mid 0 d in
            case FindLicenseRenewalBySession sessionID d1 of
              Inr _ \<Rightarrow> (Inr True, d1)
            | Inl err \<Rightarrow>
                if err \<noteq> ErrNoRows then (Inl err, d1)
                else
                  let d2 = mid 1 d1 in
                  case upgradeSessionDone sessionID d2 of
                    Inl err \<Rightarrow> (Inl err, d2)
                  | Inr True \<Rightarrow> (Inr True, d2)
                  | Inr False \<Rightarrow>
                      let d3 = mid 2 d2 in
                      (case HasProcessedEvent fulfilledSessionProvider sessionID d3 of
                         Inl err \<Rightarrow> (Inl err, d3)
                       | Inr False \<Rightarrow> (Inr False, d3)
                       | Inr True \<Rightarrow>
                           let d4 = mid 3 d3 in
                           (case HasProcessedEvent sessionClaimProvider sessionID d4 of
                              Inl err \<Rightarrow> (Inl err, d4) | Inr inflight \<Rightarrow> (Inr (\<not> inflight), d4))))"

section \<open>The webhook endpoint\<close>

text \<open>
  A delivery: \<open>verify secret\<close> is the event the body and its signature make under a secret, if any;
  \<open>handle\<close> is the handler of the event's type. The answer is the status and whether the event was
  skipped as done.
\<close>

record stripeEvent =
  ev_ID :: string
  ev_Type :: string
  ev_APIVersion :: string
  ev_Livemode :: bool
  ev_Created :: int

definition stripe_Webhook ::
  "(nat \<Rightarrow> env) \<Rightarrow> (nat \<Rightarrow> db \<Rightarrow> db) \<Rightarrow> string \<Rightarrow> bool \<Rightarrow> webhookSecrets \<Rightarrow> (string \<Rightarrow> stripeEvent option) \<Rightarrow>
   (stripeEvent \<Rightarrow> db \<Rightarrow> error option \<times> db) \<Rightarrow> db \<Rightarrow> (int \<times> bool) \<times> db" where
  "stripe_Webhook env_at mid sdk livemode secrets verify handle d =
     (if ws_webhookSecret secrets = '''' then ((400, False), d)
      else
        let verified = (case verify (ws_webhookSecret secrets) of
              Some ev \<Rightarrow> Some ev
            | None \<Rightarrow> (case previousWebhookSecret (env_now (env_at 0)) secrets of None \<Rightarrow> None | Some prev \<Rightarrow> verify prev))
        in case verified of
          None \<Rightarrow> ((400, False), d)
        | Some ev \<Rightarrow>
            if \<not> supportedAPIVersion sdk (ev_APIVersion ev) then ((400, False), d)
            else if ev_Livemode ev \<noteq> livemode then ((400, False), d)
            else case claimEvent env_at mid (ev_ID ev) d of
              ((_, Some err), d1) \<Rightarrow> ((500, False), d1)
            | (((False, True), None), d1) \<Rightarrow> ((200, True), d1)
            | (((False, False), None), d1) \<Rightarrow> ((503, False), d1)
            | (((True, _), None), d1) \<Rightarrow>
                (case handle ev (mid 4 d1) of
                   (Some herr, d2) \<Rightarrow>
                     ((500, False), snd (release processedEventDoneProvider processedEventClaimProvider (ev_ID ev) (mid 5 d2)))
                 | (None, d2) \<Rightarrow>
                     (case CompleteProcessedEvent processedEventClaimProvider (ev_ID ev) (mid 5 d2) of
                        (Inl err, d3) \<Rightarrow> ((500, False), d3)
                      | (Inr (), d3) \<Rightarrow> ((200, False), d3))))"

section \<open>Deliveries of one event\<close>

text \<open>
  Any number of deliveries of an event, each statement a step: a delivery reserves the event, or finds
  it reserved and looks for the marker; the one that has it runs the handler and completes, or
  releases it when the handler failed. Take-overs of stale markers are left to the last theorem.
\<close>

abbreviation marked :: "string \<Rightarrow> string \<Rightarrow> db \<Rightarrow> bool" where
  "marked p ev d \<equiv> exists_where (is_event p ev) (db_processed_events d)"

datatype phase = Arrived | Looking | Handling | Completing | Failing | Skipped | Delivered200 | Told_retry

record deliveries =
  dv_db :: db
  dv_phase :: "nat \<Rightarrow> phase"
  dv_handled :: bool
  dv_failed :: bool

definition in_phase :: "nat \<Rightarrow> phase \<Rightarrow> deliveries \<Rightarrow> deliveries" where
  "in_phase p f s = s\<lparr>dv_phase := (dv_phase s)(p := f)\<rparr>"

inductive delivery_move :: "string \<Rightarrow> deliveries \<Rightarrow> deliveries \<Rightarrow> bool" for ev where
  won: "dv_phase s p = Arrived \<Longrightarrow>
    reserve_rows env_at processedEventDoneProvider processedEventClaimProvider ev (dv_db s) = (Inr True, d') \<Longrightarrow>
    delivery_move ev s (in_phase p Handling (s\<lparr>dv_db := d'\<rparr>))"
| lost: "dv_phase s p = Arrived \<Longrightarrow> env_newID (env_at 0) 0 \<noteq> '''' \<Longrightarrow>
    reserve_rows env_at processedEventDoneProvider processedEventClaimProvider ev (dv_db s) = (Inr False, d') \<Longrightarrow>
    delivery_move ev s (in_phase p Looking (s\<lparr>dv_db := d'\<rparr>))"
| skipped: "dv_phase s p = Looking \<Longrightarrow> HasProcessedEvent processedEventClaimProvider ev (dv_db s) = Inr False \<Longrightarrow>
    delivery_move ev s (in_phase p Skipped s)"
| busy: "dv_phase s p = Looking \<Longrightarrow> HasProcessedEvent processedEventClaimProvider ev (dv_db s) = Inr True \<Longrightarrow>
    delivery_move ev s (in_phase p Told_retry s)"
| handled: "dv_phase s p = Handling \<Longrightarrow> db_processed_events d' = db_processed_events (dv_db s) \<Longrightarrow>
    delivery_move ev s (in_phase p Completing (s\<lparr>dv_db := d', dv_handled := True\<rparr>))"
| failed: "dv_phase s p = Handling \<Longrightarrow> db_processed_events d' = db_processed_events (dv_db s) \<Longrightarrow>
    delivery_move ev s (in_phase p Failing (s\<lparr>dv_db := d', dv_failed := True\<rparr>))"
| completed: "dv_phase s p = Completing \<Longrightarrow> CompleteProcessedEvent processedEventClaimProvider ev (dv_db s) = (r, d') \<Longrightarrow>
    delivery_move ev s (in_phase p (if r = Inr () then Delivered200 else Told_retry) (s\<lparr>dv_db := d'\<rparr>))"
| released: "dv_phase s p = Failing \<Longrightarrow>
    release processedEventDoneProvider processedEventClaimProvider ev (dv_db s) = (r, d') \<Longrightarrow>
    delivery_move ev s (in_phase p Told_retry (s\<lparr>dv_db := d'\<rparr>))"
| elsewhere: "marked processedEventDoneProvider ev d' = marked processedEventDoneProvider ev (dv_db s) \<Longrightarrow>
    marked processedEventClaimProvider ev d' = marked processedEventClaimProvider ev (dv_db s) \<Longrightarrow>
    delivery_move ev s (s\<lparr>dv_db := d'\<rparr>)"

lemma claim_rows:
  assumes "ClaimProcessedEvent e p ev d = (Inr b, d')" and "env_newID e 0 \<noteq> '''' \<or> b"
  shows "b = (\<not> marked p ev d)" "marked p ev d'" "(q, ev') \<noteq> (p, ev) \<Longrightarrow> marked q ev' d' = marked q ev' d" "\<not> b \<Longrightarrow> d' = d"
  using assms by (auto simp: ClaimProcessedEvent_def is_event_def exists_where_iff split: if_splits)

lemma delete_rows:
  assumes "DeleteProcessedEvent p ev d = (r, d')"
  shows "r = Inr () \<Longrightarrow> \<not> marked p ev d'" "(q, ev') \<noteq> (p, ev) \<Longrightarrow> marked q ev' d' = marked q ev' d" "r \<noteq> Inr () \<Longrightarrow> d' = d"
  using assms by (auto simp: DeleteProcessedEvent_def is_event_def exists_where_iff delete_where_def split: if_splits)

lemma reserved_rows:
  assumes "reserve_rows env_at p q ev d = (Inr True, d')" and "p \<noteq> q"
  shows "\<not> marked p ev d" "marked p ev d'" "marked q ev d'"
proof -
  obtain d1 d2 where s: "ClaimProcessedEvent (env_at 0) p ev d = (Inr True, d1)" "DeleteProcessedEvent q ev d1 = (Inr (), d2)"
    "ClaimProcessedEvent (env_at 1) q ev d2 = (Inr True, d')"
    using assms(1) by (auto simp: reserve_rows_def split: prod.splits sum.splits bool.splits unit.splits)
  show "\<not> marked p ev d" using claim_rows(1) [OF s(1)] by simp
  show "marked q ev d'" using claim_rows(2) [OF s(3)] by simp
  show "marked p ev d'"
    using claim_rows(2) [OF s(1)] delete_rows(2) [OF s(2), of p ev] claim_rows(3) [OF s(3), of p ev] assms(2) by simp
qed

lemma lost_rows:
  assumes "reserve_rows env_at p q ev d = (Inr False, d')" and "env_newID (env_at 0) 0 \<noteq> ''''"
  shows "marked p ev d" "d' = d"
  using assms claim_rows [of "env_at 0" p ev d False]
  by (auto simp: reserve_rows_def split: prod.splits sum.splits bool.splits unit.splits)

lemma reserved_standing:
  assumes "\<not> db_fault d" and "marked p ev d"
  shows "reserve_rows env_at p q ev d = (Inr False, d)"
  using assms by (simp add: reserve_rows_def ClaimProcessedEvent_def)

lemma release_removes:
  assumes "\<not> db_fault d"
  shows "\<not> db_fault (snd (release p q ev d)) \<and> \<not> marked p ev (snd (release p q ev d)) \<and> \<not> marked q ev (snd (release p q ev d))"
proof -
  let ?rows = "\<lambda>q. delete_where (is_event q ev)"
  let ?d1 = "d\<lparr>db_processed_events := ?rows p (db_processed_events d)\<rparr>"
  let ?d2 = "?d1\<lparr>db_processed_events := ?rows q (?rows p (db_processed_events d))\<rparr>"
  have "DeleteProcessedEvent p ev d = (Inr (), ?d1)" "DeleteProcessedEvent q ev ?d1 = (Inr (), ?d2)"
    using assms by (simp_all add: DeleteProcessedEvent_def)
  then have "snd (release p q ev d) = ?d2" by (simp add: release_def)
  then show ?thesis using assms by (simp add: exists_where_iff delete_where_def)
qed

lemma reserve_skips:
  assumes "\<not> db_fault d" and "marked p ev d" and "\<not> db_fault (mid 0 d)" and "\<not> marked q ev (mid 0 d)"
  shows "reserve env_at mid p q ev f d = (((False, True), None), mid 0 d)"
proof -
  have "HasProcessedEvent q ev (mid 0 d) = Inr False" using assms(3,4) by (simp add: HasProcessedEvent_def)
  then show ?thesis by (simp add: reserve_def reserved_standing [OF assms(1,2)] Let_def)
qed

lemma released_rows:
  assumes "release p q ev d = (r, d')" and "p \<noteq> q"
  shows "d' = d \<or> \<not> marked p ev d' \<and> \<not> marked q ev d'"
proof (cases "r = Inr ()")
  case True
  then obtain d1 where d1: "DeleteProcessedEvent p ev d = (Inr (), d1)" "DeleteProcessedEvent q ev d1 = (Inr (), d')"
    using assms(1) by (auto simp: release_def split: prod.splits sum.splits unit.splits)
  show ?thesis using delete_rows(1) [OF d1(1)] delete_rows(1) [OF d1(2)] delete_rows(2) [OF d1(2), of p ev] assms(2) by simp
next
  case False
  with assms(1) show ?thesis by (auto simp: release_def split: prod.splits sum.splits unit.splits)
qed

definition owns :: "deliveries \<Rightarrow> nat \<Rightarrow> bool" where
  "owns s p \<longleftrightarrow> dv_phase s p \<in> {Handling, Completing, Failing}"

definition delivery_inv :: "string \<Rightarrow> deliveries \<Rightarrow> bool" where
  "delivery_inv ev s \<longleftrightarrow>
     (\<forall>p q. owns s p \<longrightarrow> owns s q \<longrightarrow> p = q) \<and>
     (\<forall>p. owns s p \<longrightarrow> marked processedEventDoneProvider ev (dv_db s) \<and> marked processedEventClaimProvider ev (dv_db s)) \<and>
     (marked processedEventDoneProvider ev (dv_db s) \<and> \<not> marked processedEventClaimProvider ev (dv_db s) \<longrightarrow> dv_handled s) \<and>
     (\<forall>p. dv_phase s p = Completing \<or> dv_phase s p = Delivered200 \<longrightarrow> dv_handled s) \<and>
     (\<forall>p. dv_phase s p = Failing \<longrightarrow> dv_failed s) \<and>
     (\<not> dv_failed s \<longrightarrow> (\<forall>p. (dv_phase s p = Skipped \<longrightarrow> dv_handled s) \<and>
        (dv_phase s p = Looking \<longrightarrow> marked processedEventDoneProvider ev (dv_db s))))"

lemma in_phase_simps [simp]:
  "dv_db (in_phase p f s) = dv_db s" "dv_handled (in_phase p f s) = dv_handled s" "dv_failed (in_phase p f s) = dv_failed s"
  "dv_phase (in_phase p f s) q = (if q = p then f else dv_phase s q)"
  by (simp_all add: in_phase_def)

lemma delivery_move_inv:
  assumes move: "delivery_move ev s s'" and keeps: "delivery_inv ev s"
  shows "delivery_inv ev s'"
  using move
proof cases
  case (won p env_at d')
  have "\<not> owns s q" for q using keeps reserved_rows(1) [OF won(3)] by (auto simp: delivery_inv_def)
  with keeps reserved_rows [OF won(3)] won(1) show ?thesis by (auto simp: delivery_inv_def owns_def)
next
  case (lost p env_at d')
  with keeps lost_rows [OF lost(4,3)] show ?thesis by (auto simp: delivery_inv_def owns_def)
next
  case (skipped p)
  then have "\<not> marked processedEventClaimProvider ev (dv_db s)" by (auto simp: HasProcessedEvent_def split: if_splits)
  with keeps skipped show ?thesis by (auto simp: delivery_inv_def owns_def)
next
  case (busy p)
  with keeps show ?thesis by (auto simp: delivery_inv_def owns_def)
next
  case (handled p d')
  with keeps show ?thesis by (auto simp: delivery_inv_def owns_def)
next
  case (failed p d')
  with keeps show ?thesis by (auto simp: delivery_inv_def owns_def)
next
  case (completed p r d')
  have alone: "\<not> owns s q" if "q \<noteq> p" for q using keeps that completed(2) by (auto simp: delivery_inv_def owns_def)
  have h: "dv_handled s" using keeps completed(2) by (auto simp: delivery_inv_def)
  note rows = delete_rows [OF completed(3) [unfolded CompleteProcessedEvent_def]]
  have "marked processedEventDoneProvider ev d' = marked processedEventDoneProvider ev (dv_db s)"
    by (rule rows(2)) simp
  moreover have idle: "\<not> owns s' q" for q using alone [of q] completed(1) by (simp add: owns_def)
  moreover have "marked processedEventDoneProvider ev (dv_db s)" "\<And>q. dv_phase s q = Failing \<Longrightarrow> dv_failed s"
    using keeps completed(2) by (auto simp: delivery_inv_def owns_def)
  ultimately show ?thesis
    using h completed(1) idle [unfolded owns_def] by (simp add: delivery_inv_def owns_def)
next
  case (released p r d')
  have alone: "\<not> owns s q" if "q \<noteq> p" for q using keeps that released(2) by (auto simp: delivery_inv_def owns_def)
  have f: "dv_failed s" using keeps released(2) by (auto simp: delivery_inv_def)
  have idle: "\<not> owns s' q" for q using alone [of q] released(1) by (simp add: owns_def)
  have "marked processedEventDoneProvider ev (dv_db s) \<and> marked processedEventClaimProvider ev (dv_db s)"
    using keeps released(2) by (auto simp: delivery_inv_def owns_def)
  with released_rows [OF released(3)]
  have "\<not> (marked processedEventDoneProvider ev d' \<and> \<not> marked processedEventClaimProvider ev d')" by auto
  moreover have "dv_handled s" if "dv_phase s q = Completing \<or> dv_phase s q = Delivered200" for q
    using keeps that by (auto simp: delivery_inv_def)
  ultimately show ?thesis using f released(1) idle by (auto simp: delivery_inv_def)
next
  case (elsewhere d')
  with keeps show ?thesis by (auto simp: delivery_inv_def owns_def)
qed

text \<open>Once a handler returned without an error, its reservation stands and no delivery can win it again.\<close>

definition handled_stays :: "string \<Rightarrow> deliveries \<Rightarrow> bool" where
  "handled_stays ev s \<longleftrightarrow> (dv_handled s \<longrightarrow> marked processedEventDoneProvider ev (dv_db s) \<and>
     (\<forall>p. dv_phase s p \<noteq> Handling \<and> dv_phase s p \<noteq> Failing))"

lemma handled_staysD:
  "handled_stays ev s \<Longrightarrow> dv_handled s \<Longrightarrow>
     marked processedEventDoneProvider ev (dv_db s) \<and> dv_phase s p \<noteq> Handling \<and> dv_phase s p \<noteq> Failing"
  by (simp add: handled_stays_def)

lemma delivery_owner:
  assumes "delivery_inv ev s" "owns s p"
  shows "marked processedEventDoneProvider ev (dv_db s)" "q \<noteq> p \<Longrightarrow> \<not> owns s q"
  using assms unfolding delivery_inv_def by blast+

lemma handled_move:
  assumes "delivery_move ev s s'" and inv: "delivery_inv ev s" and stays: "handled_stays ev s"
  shows "handled_stays ev s'"
  using assms(1)
proof cases
  case (won p env_at d')
  then have "\<not> dv_handled s" using reserved_rows(1) [OF won(3)] handled_staysD [OF stays] by auto
  then show ?thesis using won(1) by (simp add: handled_stays_def)
next
  case (lost p env_at d')
  then show ?thesis using stays lost_rows [OF lost(4,3)] by (simp add: handled_stays_def del: exists_where_iff)
next
  case (skipped p)
  then show ?thesis using stays by (simp add: handled_stays_def del: exists_where_iff)
next
  case (busy p)
  then show ?thesis using stays by (simp add: handled_stays_def del: exists_where_iff)
next
  case (handled p d')
  have own: "owns s p" using handled(2) by (simp add: owns_def)
  have "dv_phase s q \<noteq> Handling \<and> dv_phase s q \<noteq> Failing" if "q \<noteq> p" for q
    using delivery_owner(2) [OF inv own that] by (simp add: owns_def)
  then show ?thesis using delivery_owner(1) [OF inv own] handled(1,3) by (simp add: handled_stays_def del: exists_where_iff)
next
  case (failed p d')
  then have "\<not> dv_handled s" using handled_staysD [OF stays] by blast
  then show ?thesis using failed(1) by (simp add: handled_stays_def)
next
  case (completed p r d')
  have "marked processedEventDoneProvider ev d' = marked processedEventDoneProvider ev (dv_db s)"
    by (rule delete_rows(2) [OF completed(3) [unfolded CompleteProcessedEvent_def]]) simp
  then show ?thesis using stays completed(1) by (simp add: handled_stays_def del: exists_where_iff)
next
  case (released p r d')
  then have "\<not> dv_handled s" using handled_staysD [OF stays] by blast
  then show ?thesis using released(1) by (simp add: handled_stays_def)
next
  case (elsewhere d')
  then show ?thesis using stays by (simp add: handled_stays_def del: exists_where_iff)
qed

lemma delivery_run_inv:
  "(delivery_move ev)\<^sup>*\<^sup>* s s' \<Longrightarrow> delivery_inv ev s \<and> handled_stays ev s \<Longrightarrow> delivery_inv ev s' \<and> handled_stays ev s'"
  by (induction rule: rtranclp_induct) (blast intro: delivery_move_inv handled_move)+

lemma delivery_run_handled:
  assumes "(delivery_move ev)\<^sup>*\<^sup>* s s'" and "dv_handled s"
  shows "dv_handled s'"
  using assms by (induction rule: rtranclp_induct) (auto elim!: delivery_move.cases)

lemma delivery_inv_read:
  assumes "delivery_inv ev s"
  shows "dv_phase s p = Handling \<Longrightarrow> dv_phase s q = Handling \<Longrightarrow> p = q"
    "dv_phase s p = Completing \<or> dv_phase s p = Delivered200 \<Longrightarrow> dv_handled s"
    "\<not> dv_failed s \<Longrightarrow> dv_phase s p = Skipped \<Longrightarrow> dv_handled s"
  using assms unfolding delivery_inv_def owns_def by blast+

text \<open>
  C6: an event is handled by one delivery at a time, and not again once it has been. However the
  statements of any number of deliveries of an event interleave, the marker of none going stale, no
  two of them run its handler at once; once one has run it without an error, and so from its 200 on,
  the reservation stands and no delivery runs the handler again, however long the run goes on; one
  that completed it was handled without an error; and while no handler of the event has failed, the
  deliveries answered 200 without running it are those that come after it was handled.
\<close>

theorem event_handled_once:
  assumes "(delivery_move ev)\<^sup>*\<^sup>* s s'" and "(delivery_move ev)\<^sup>*\<^sup>* s' s''"
    and "\<not> marked processedEventDoneProvider ev (dv_db s)" and "\<forall>p. dv_phase s p = Arrived" and "\<not> dv_handled s"
  shows "(dv_phase s' p = Handling \<and> dv_phase s' q = Handling \<longrightarrow> p = q) \<and>
         (dv_phase s' r = Completing \<or> dv_phase s' r = Delivered200 \<longrightarrow>
            dv_phase s'' p \<noteq> Handling \<and> marked processedEventDoneProvider ev (dv_db s'')) \<and>
         (dv_phase s' p = Delivered200 \<longrightarrow> dv_handled s') \<and>
         (\<not> dv_failed s' \<and> dv_phase s' p = Skipped \<longrightarrow> dv_handled s')"
proof -
  have "\<not> owns s p" for p using assms(4) by (simp add: owns_def)
  then have start: "delivery_inv ev s \<and> handled_stays ev s"
    using assms(3-5) unfolding delivery_inv_def handled_stays_def by auto
  have mid: "delivery_inv ev s'" and later: "handled_stays ev s''"
    using delivery_run_inv [OF assms(1) start] delivery_run_inv [OF assms(2)] by blast+
  have "dv_phase s'' p \<noteq> Handling \<and> marked processedEventDoneProvider ev (dv_db s'')"
    if "dv_phase s' r = Completing \<or> dv_phase s' r = Delivered200"
    using handled_staysD [OF later delivery_run_handled [OF assms(2) delivery_inv_read(2) [OF mid that]]] by blast
  then show ?thesis using delivery_inv_read [OF mid] by blast
qed

definition demo_statement :: "nat \<Rightarrow> env" where
  "demo_statement n = demo_env\<lparr>env_newID := \<lambda>_. if n = 0 then ''A'' else ''B''\<rparr>"

definition arriving :: deliveries where
  "arriving = \<lparr>dv_db = demo_db, dv_phase = \<lambda>_. Arrived, dv_handled = False, dv_failed = False\<rparr>"

definition demo_mark :: "string \<Rightarrow> string \<Rightarrow> ProcessedEvent" where
  "demo_mark i p = \<lparr>pe_ID = i, pe_Provider = p, pe_EventID = ''evt'', pe_CreatedAt = env_dbnow demo_env\<rparr>"

abbreviation demo_reserved :: db where
  "demo_reserved \<equiv> demo_db\<lparr>db_processed_events := [demo_mark ''A'' ''stripe'', demo_mark ''B'' ''stripe_claim'']\<rparr>"

abbreviation demo_completed :: db where
  "demo_completed \<equiv> demo_db\<lparr>db_processed_events := [demo_mark ''A'' ''stripe'']\<rparr>"

lemmas mark_evaluation = demo_mark_def is_event_def exists_where_iff delete_where_def demo_statement_def demo_env_def demo_db_def empty_db_def

lemma demo_reserve:
  "reserve_rows demo_statement processedEventDoneProvider processedEventClaimProvider ''evt'' demo_db = (Inr True, demo_reserved)"
  "reserve_rows demo_statement processedEventDoneProvider processedEventClaimProvider ''evt'' demo_completed = (Inr False, demo_completed)"
  "CompleteProcessedEvent processedEventClaimProvider ''evt'' demo_reserved = (Inr (), demo_completed)"
  "HasProcessedEvent processedEventClaimProvider ''evt'' demo_completed = Inr False"
  by code_simp+

theorem event_handled_once_witness:
  "\<exists>s. (delivery_move ''evt'')\<^sup>*\<^sup>* arriving s \<and> dv_phase s 0 = Delivered200 \<and> dv_phase s 1 = Skipped \<and> dv_handled s \<and>
     (\<forall>s'. (delivery_move ''evt'')\<^sup>*\<^sup>* s s' \<longrightarrow> dv_phase s' 2 \<noteq> Handling)"
proof -
  let ?s1 = "in_phase 0 Handling (arriving\<lparr>dv_db := demo_reserved\<rparr>)"
  let ?s2 = "in_phase 0 Completing (?s1\<lparr>dv_db := demo_reserved, dv_handled := True\<rparr>)"
  let ?s3 = "in_phase 0 Delivered200 (?s2\<lparr>dv_db := demo_completed\<rparr>)"
  let ?s4 = "in_phase 1 Looking (?s3\<lparr>dv_db := demo_completed\<rparr>)"
  let ?s5 = "in_phase 1 Skipped ?s4"
  have "delivery_move ''evt'' arriving ?s1" by (rule delivery_move.won [of _ _ demo_statement]) (simp_all add: arriving_def demo_reserve)
  moreover have "delivery_move ''evt'' ?s1 ?s2" by (rule delivery_move.handled) simp_all
  moreover have "delivery_move ''evt'' ?s2 ?s3"
    using delivery_move.completed [of ?s2 0 "''evt''" "Inr ()" demo_completed] by (simp add: demo_reserve)
  moreover have "delivery_move ''evt'' ?s3 ?s4"
    by (rule delivery_move.lost [of _ _ demo_statement]) (simp_all add: arriving_def demo_reserve demo_statement_def)
  moreover have "delivery_move ''evt'' ?s4 ?s5" by (rule delivery_move.skipped) (simp_all add: demo_reserve)
  ultimately have run: "(delivery_move ''evt'')\<^sup>*\<^sup>* arriving ?s5" by (meson rtranclp.rtrancl_into_rtrancl rtranclp.rtrancl_refl)
  have "\<not> marked processedEventDoneProvider ''evt'' (dv_db arriving)" "\<forall>p. dv_phase arriving p = Arrived" "\<not> dv_handled arriving"
    by (simp_all add: arriving_def exists_where_iff demo_db_def empty_db_def)
  note once = event_handled_once [OF run _ this]
  have "dv_phase s' 2 \<noteq> Handling" if "(delivery_move ''evt'')\<^sup>*\<^sup>* ?s5 s'" for s'
    using once [OF that, of 2 2 0] by simp
  then show ?thesis using run by (intro exI [of _ ?s5]) simp
qed

text \<open>
  C33: what a skip does not mean. A stale marker is taken over in two statements. After the first one,
  and for good if the process dies there, the reservation stands without a marker, and every delivery
  of the event is answered 200 as skipped and changes nothing, though no handler completed it. And a
  delivery that found the event reserved, and looks for the marker after the failed handler's release
  removed both rows, is told that the event is done as well.
\<close>

theorem unhandled_event_skipped:
  assumes d: "\<not> db_fault d" "marked processedEventDoneProvider (ev_ID ev) d" "marked processedEventClaimProvider (ev_ID ev) d"
    and stale: "\<forall>p \<in> set (db_processed_events d). is_event processedEventClaimProvider (ev_ID ev) p \<longrightarrow>
                  pe_CreatedAt p < env_dbnow (env_at 2) - whole_seconds staleClaimAge"
    and delivered: "ws_webhookSecret secrets \<noteq> ''''" "verify (ws_webhookSecret secrets) = Some ev"
      "supportedAPIVersion sdk (ev_APIVersion ev)" "ev_Livemode ev = livemode"
  shows "(\<exists>d1. ReleaseStaleProcessedEvent (env_at 2) processedEventClaimProvider (ev_ID ev) staleClaimAge d = (Inr True, d1) \<and>
            (\<forall>env_at'. stripe_Webhook env_at' (\<lambda>_ x. x) sdk livemode secrets verify handle d1 = ((200, True), d1))) \<and>
         (\<exists>d2. claimEvent env_at (\<lambda>n x. if n = 0 then snd (release processedEventDoneProvider processedEventClaimProvider (ev_ID ev) x) else x)
            (ev_ID ev) d = (((False, True), None), d2) \<and> \<not> marked processedEventDoneProvider (ev_ID ev) d2)"
proof
  let ?stale = "\<lambda>p. is_event processedEventClaimProvider (ev_ID ev) p \<and> pe_CreatedAt p < env_dbnow (env_at 2) - whole_seconds staleClaimAge"
  let ?d1 = "d\<lparr>db_processed_events := delete_where ?stale (db_processed_events d)\<rparr>"
  have "ReleaseStaleProcessedEvent (env_at 2) processedEventClaimProvider (ev_ID ev) staleClaimAge d = (Inr True, ?d1)"
    using d(1,3) stale by (auto simp: ReleaseStaleProcessedEvent_def exists_where_iff Let_def)
  moreover have rows: "marked processedEventDoneProvider (ev_ID ev) ?d1" "\<not> marked processedEventClaimProvider (ev_ID ev) ?d1"
    using d(2) stale by (auto simp: exists_where_iff delete_where_def is_event_def)
  have "claimEvent env_at' (\<lambda>_ x. x) (ev_ID ev) ?d1 = (((False, True), None), ?d1)" for env_at'
    unfolding claimEvent_def by (rule reserve_skips) (use d(1) rows in simp_all)
  then have "stripe_Webhook env_at' (\<lambda>_ x. x) sdk livemode secrets verify handle ?d1 = ((200, True), ?d1)" for env_at'
    using delivered by (simp add: stripe_Webhook_def Let_def)
  ultimately show "\<exists>d1. ReleaseStaleProcessedEvent (env_at 2) processedEventClaimProvider (ev_ID ev) staleClaimAge d = (Inr True, d1) \<and>
            (\<forall>env_at'. stripe_Webhook env_at' (\<lambda>_ x. x) sdk livemode secrets verify handle d1 = ((200, True), d1))" by blast
next
  let ?d2 = "snd (release processedEventDoneProvider processedEventClaimProvider (ev_ID ev) d)"
  have "\<not> db_fault ?d2" and "\<not> marked processedEventDoneProvider (ev_ID ev) ?d2 \<and> \<not> marked processedEventClaimProvider (ev_ID ev) ?d2"
    using release_removes [OF d(1), of processedEventDoneProvider processedEventClaimProvider "ev_ID ev"] by simp_all
  then show "\<exists>d2. claimEvent env_at (\<lambda>n x. if n = 0 then snd (release processedEventDoneProvider processedEventClaimProvider (ev_ID ev) x) else x)
            (ev_ID ev) d = (((False, True), None), d2) \<and> \<not> marked processedEventDoneProvider (ev_ID ev) d2"
    using reserve_skips [OF d(1,2), of "\<lambda>n x. if n = 0 then snd (release processedEventDoneProvider processedEventClaimProvider (ev_ID ev) x) else x"]
    by (intro exI [of _ ?d2]) (simp add: claimEvent_def)
qed

definition demo_event :: stripeEvent where
  "demo_event = \<lparr>ev_ID = ''evt'', ev_Type = ''charge.refunded'', ev_APIVersion = ''2025-03-31.basil'', ev_Livemode = True, ev_Created = 0\<rparr>"

definition demo_secrets :: webhookSecrets where
  "demo_secrets = \<lparr>ws_webhookSecret = ''whsec'', ws_prevWebhookSecret = '''', ws_prevSecretUntil = 0\<rparr>"

theorem unhandled_event_skipped_witness:
  "\<exists>d1. ReleaseStaleProcessedEvent (demo_env\<lparr>env_dbnow := Hour\<rparr>) processedEventClaimProvider ''evt'' staleClaimAge demo_reserved = (Inr True, d1) \<and>
     stripe_Webhook demo_statement (\<lambda>_ x. x) ''2025-06-30.basil'' True demo_secrets (\<lambda>_. Some demo_event) (\<lambda>_ x. (Some ErrDB, x)) d1 = ((200, True), d1)"
proof -
  have d: "\<not> db_fault demo_reserved" "marked processedEventDoneProvider (ev_ID demo_event) demo_reserved"
    "marked processedEventClaimProvider (ev_ID demo_event) demo_reserved"
    by (simp_all add: mark_evaluation demo_event_def)
  have stale: "\<forall>p \<in> set (db_processed_events demo_reserved). is_event processedEventClaimProvider (ev_ID demo_event) p \<longrightarrow>
      pe_CreatedAt p < env_dbnow ((\<lambda>_. demo_env\<lparr>env_dbnow := Hour\<rparr>) 2) - whole_seconds staleClaimAge"
    by (simp add: mark_evaluation demo_event_def staleClaimAge_def whole_seconds_def time_simps)
  have delivered: "ws_webhookSecret demo_secrets \<noteq> ''''" "(\<lambda>_. Some demo_event) (ws_webhookSecret demo_secrets) = Some demo_event"
    "supportedAPIVersion ''2025-06-30.basil'' (ev_APIVersion demo_event)" "ev_Livemode demo_event = True"
    by code_simp+
  from unhandled_event_skipped [OF d stale delivered, of "\<lambda>_ x. (Some ErrDB, x)"]
  show ?thesis by (auto simp: demo_event_def)
qed

end
