(* ===== verification/KG_Settings.thy ===== *)
theory KG_Settings
  imports KG_Login
begin

text \<open>
  The settings table (\<^verbatim>\<open>internal/store/settings.go\<close>): the operator's switches, the settings that are
  credentials and are stored encrypted, and the durations a rollout waits for, which a starting
  replica may only raise. Padded base64 (\<^verbatim>\<open>base64.StdEncoding\<close>) is built on the codec of the tokens;
  printing and parsing a duration are arguments.
\<close>

section \<open>Reading and writing\<close>

abbreviation SettingMaintenanceFeatures :: string where "SettingMaintenanceFeatures \<equiv> ''maintenance_features_enabled''"
abbreviation SettingFeedURLTTLBound :: string where "SettingFeedURLTTLBound \<equiv> ''feed_url_ttl_bound''"

definition MaintenanceFeaturesEnabled :: "db \<Rightarrow> bool result" where
  "MaintenanceFeaturesEnabled d =
     (case GetSetting SettingMaintenanceFeatures d of
        Inl err \<Rightarrow> if err = ErrNoRows then Inr False else Inl err
      | Inr v \<Rightarrow> Inr (v = ''true''))"

text \<open>The same question on a transaction that holds the row until it commits.\<close>

definition MaintenanceFeaturesEnabledForWriteIn :: "db \<Rightarrow> bool result" where
  "MaintenanceFeaturesEnabledForWriteIn d =
     (if db_fault d then Inl ErrDB
      else case map_of (db_settings d) SettingMaintenanceFeatures of None \<Rightarrow> Inr False | Some v \<Rightarrow> Inr (v = ''true''))"

text \<open>One row per key: an upsert replaces the value in place.\<close>

definition put_setting :: "string \<Rightarrow> string \<Rightarrow> db \<Rightarrow> db" where
  "put_setting key v d = d\<lparr>db_settings :=
     (if exists_where (\<lambda>kv. fst kv = key) (db_settings d)
      then update_where (\<lambda>kv. fst kv = key) (\<lambda>kv. (fst kv, v)) (db_settings d) else db_settings d @ [(key, v)])\<rparr>"

definition DeleteSetting :: "string \<Rightarrow> db \<Rightarrow> unit result \<times> db" where
  "DeleteSetting key d =
     (if db_fault d then (Inl ErrDB, d) else (Inr (), d\<lparr>db_settings := delete_where (\<lambda>kv. fst kv = key) (db_settings d)\<rparr>))"

definition GetPublicSettings :: "db \<Rightarrow> (string \<times> string) list result" where
  "GetPublicSettings d =
     (if db_fault d then Inl ErrDB
      else Inr (filter (\<lambda>kv. fst kv \<in> {''site_name'', ''timezone'', ''brand_color'', ''language'', ''logo_url''}) (db_settings d)))"

section \<open>Secrets\<close>

definition settingSecretKeys :: "string list" where
  "settingSecretKeys = [''cloudflare_api_token'', ''smtp_password'']"

definition settingEncPrefix :: string where "settingEncPrefix = ''enc:v1:''"

definition std_char :: "char \<Rightarrow> char" where
  "std_char c = (if c = CHR ''-'' then CHR ''+'' else if c = CHR ''_'' then CHR ''/'' else c)"

definition url_char :: "char \<Rightarrow> char option" where
  "url_char c = (if c = CHR ''+'' then Some (CHR ''-'') else if c = CHR ''/'' then Some (CHR ''_'')
     else if c = CHR ''-'' \<or> c = CHR ''_'' then None else Some c)"

definition pad_to_four :: "nat \<Rightarrow> string" where
  "pad_to_four n = replicate ((4 - n mod 4) mod 4) (CHR ''='')"

definition std_encode :: "string \<Rightarrow> string" where
  "std_encode s = (let b = map std_char (b64_encode s) in b @ pad_to_four (length b))"

text \<open>Up to two padding characters at the end of a text of whole quanta; line breaks are passed over.\<close>

definition std_decode :: "string \<Rightarrow> string option" where
  "std_decode s =
     (let s = filter (\<lambda>c. char_code c \<noteq> 10 \<and> char_code c \<noteq> 13) s; body = takeWhile (\<lambda>c. c \<noteq> CHR ''='') s in
      if s = body @ pad_to_four (length body) \<and> length body mod 4 \<noteq> 1
      then (case those (map url_char body) of None \<Rightarrow> None | Some b \<Rightarrow> b64_decode b)
      else None)"

definition encodeSettingValue :: "env \<Rightarrow> string \<Rightarrow> string \<Rightarrow> string result" where
  "encodeSettingValue e key v =
     (if v = '''' \<or> key \<notin> set settingSecretKeys then Inr v
      else case env_aead e of
        None \<Rightarrow> Inl ErrSecretEncryptionUnavailable
      | Some c \<Rightarrow>
          (case aead_Encrypt c v (''setting:'' @ key) of
             None \<Rightarrow> Inl ErrEncrypt
           | Some ct \<Rightarrow> Inr (settingEncPrefix @ std_encode ct)))"

definition SetSetting :: "env \<Rightarrow> string \<Rightarrow> string \<Rightarrow> db \<Rightarrow> unit result \<times> db" where
  "SetSetting e key v d =
     (case encodeSettingValue e key v of
        Inl err \<Rightarrow> (Inl err, d)
      | Inr encoded \<Rightarrow> if db_fault d then (Inl ErrDB, d) else (Inr (), put_setting key encoded d))"

text \<open>All keys in one transaction; the order is that of the list the map is walked in.\<close>

fun set_all :: "env \<Rightarrow> (string \<times> string) list \<Rightarrow> db \<Rightarrow> unit result \<times> db" where
  "set_all e [] d = (Inr (), d)"
| "set_all e ((key, v) # kvs) d =
     (case SetSetting e key v d of (Inl err, d1) \<Rightarrow> (Inl err, d1) | (Inr _, d1) \<Rightarrow> set_all e kvs d1)"

definition SetSettings :: "env \<Rightarrow> (string \<times> string) list \<Rightarrow> db \<Rightarrow> unit result \<times> db" where
  "SetSettings e kvs d =
     (if kvs = [] then (Inr (), d)
      else if db_fault d then (Inl ErrDB, d)
      else case set_all e kvs d of (Inl err, _) \<Rightarrow> (Inl err, d) | (Inr _, d') \<Rightarrow> (Inr (), d'))"

definition GetSecretSetting :: "env \<Rightarrow> string \<Rightarrow> db \<Rightarrow> string result" where
  "GetSecretSetting e key d =
     (case GetSetting key d of
        Inl err \<Rightarrow> if err = ErrNoRows then Inr '''' else Inl err
      | Inr raw \<Rightarrow>
          if raw = '''' then Inr ''''
          else if take (length settingEncPrefix) raw \<noteq> settingEncPrefix then Inr raw
          else case env_aead e of
            None \<Rightarrow> Inl ErrSecretEncryptionUnavailable
          | Some c \<Rightarrow>
              (case std_decode (drop (length settingEncPrefix) raw) of
                 None \<Rightarrow> Inl (ErrRefused ''illegal base64 data'')
               | Some ct \<Rightarrow>
                   (case aead_Decrypt c ct (''setting:'' @ key) of None \<Rightarrow> Inl ErrEncrypt | Some pt \<Rightarrow> Inr pt)))"

section \<open>Durations\<close>

definition MaxDurationSetting :: duration where "MaxDurationSetting = 7 * (24 * Hour)"

text \<open>\<open>parse\<close> is \<^verbatim>\<open>time.ParseDuration\<close>.\<close>

definition ParseDurationSetting :: "(string \<Rightarrow> duration option) \<Rightarrow> string \<Rightarrow> duration result" where
  "ParseDurationSetting parse v =
     (case parse (trim_space v) of
        None \<Rightarrow> Inl (ErrRefused ''not a duration'')
      | Some t \<Rightarrow>
          if t \<le> 0 then Inl (ErrRefused ''must be a positive duration'')
          else if t > MaxDurationSetting then Inl (ErrRefused ''too long'')
          else Inr t)"

definition DurationSettingIn :: "(string \<Rightarrow> duration option) \<Rightarrow> string \<Rightarrow> duration \<Rightarrow> db \<Rightarrow> duration result" where
  "DurationSettingIn parse key fallback d =
     (case GetSetting key d of
        Inl err \<Rightarrow> if err = ErrNoRows then Inr fallback else Inl err
      | Inr v \<Rightarrow> ParseDurationSetting parse v)"

text \<open>The value in force: the recorded one when it is the longer.\<close>

definition RaiseDurationSetting ::
  "(string \<Rightarrow> duration option) \<Rightarrow> (duration \<Rightarrow> string) \<Rightarrow> string \<Rightarrow> duration \<Rightarrow> db \<Rightarrow> duration result \<times> db" where
  "RaiseDurationSetting parse prnt key t d =
     (case ParseDurationSetting parse (prnt t) of
        Inl err \<Rightarrow> (Inl err, d)
      | Inr _ \<Rightarrow>
          if db_fault d then (Inl ErrDB, d)
          else
            let d1 = (if exists_where (\<lambda>kv. fst kv = key) (db_settings d) then d
                      else d\<lparr>db_settings := db_settings d @ [(key, prnt t)]\<rparr>)
            in case map_of (db_settings d1) key of
              None \<Rightarrow> (Inl ErrNoRows, d)
            | Some current \<Rightarrow>
                (case ParseDurationSetting parse current of
                   Inl err \<Rightarrow> (Inl err, d)
                 | Inr recorded \<Rightarrow>
                     if recorded \<ge> t then (Inr recorded, d1)
                     else (Inr t, put_setting key (prnt t) d1)))"

section \<open>A secret comes back, and a wait is never shortened\<close>

lemma std_alphabet:
  "\<forall>c \<in> set b64_alphabet. url_char (std_char c) = Some c \<and> std_char c \<noteq> CHR ''='' \<and>
     char_code (std_char c) \<noteq> 10 \<and> char_code (std_char c) \<noteq> 13"
  by code_simp

lemma b64_encode_chars: "c \<in> set (b64_encode s) \<Longrightarrow> c \<in> set b64_alphabet"
  unfolding b64_encode_def b64_char_def by (auto intro!: nth_mem)

lemma b64_groups_length: "length (b64_groups bs) mod 4 \<noteq> 1"
  by (induction bs rule: b64_groups.induct) (simp_all add: mod_simps)

lemma those_map_Some: "\<forall>x \<in> set xs. f x = Some (g x) \<Longrightarrow> those (map f xs) = Some (map g xs)"
  by (induction xs) simp_all

lemma std_roundtrip: "std_decode (std_encode s) = Some s"
proof -
  let ?b = "map std_char (b64_encode s)"
  have chars: "\<forall>c \<in> set ?b. c \<noteq> CHR ''='' \<and> char_code c \<noteq> 10 \<and> char_code c \<noteq> 13"
    using b64_encode_chars std_alphabet by auto
  have pad: "\<forall>c \<in> set (pad_to_four n). c = CHR ''=''" for n by (simp add: pad_to_four_def)
  have pad_plain: "\<forall>c \<in> set (pad_to_four n). char_code c \<noteq> 10 \<and> char_code c \<noteq> 13" for n
    by (simp add: pad_to_four_def char_code_def)
  have plain: "filter (\<lambda>c. char_code c \<noteq> 10 \<and> char_code c \<noteq> 13) (std_encode s) = std_encode s"
    using chars pad_plain [of "length ?b"] by (auto simp: std_encode_def Let_def filter_id_conv)
  have body: "takeWhile (\<lambda>c. c \<noteq> CHR ''='') (std_encode s) = ?b"
  proof (cases "pad_to_four (length ?b)")
    case Nil
    with chars show ?thesis by (simp add: std_encode_def Let_def takeWhile_eq_all_conv)
  next
    case (Cons c cs)
    moreover have "c = CHR ''=''" using pad [of "length ?b"] Cons by simp
    ultimately show ?thesis using chars by (simp add: std_encode_def Let_def takeWhile_append)
  qed
  have "those (map url_char ?b) = Some (map id (b64_encode s))"
    unfolding map_map by (rule those_map_Some) (use b64_encode_chars std_alphabet in auto)
  moreover have "length ?b mod 4 \<noteq> 1" using b64_groups_length [of "map char_code s"] by (simp add: b64_encode_def)
  moreover have "std_encode s = ?b @ pad_to_four (length ?b)" by (simp add: std_encode_def Let_def)
  ultimately show ?thesis
    unfolding std_decode_def Let_def plain body by (simp add: b64_roundtrip)
qed

lemma upsert_read_back:
  "exists_where (\<lambda>kv. fst kv = key) rows \<Longrightarrow> map_of (update_where (\<lambda>kv. fst kv = key) (\<lambda>kv. (fst kv, v)) rows) key = Some v"
  by (induction rows) (auto simp: exists_where_iff update_where_def)

lemma setting_read_back [simp]: "map_of (db_settings (put_setting key v d)) key = Some v"
proof (cases "exists_where (\<lambda>kv. fst kv = key) (db_settings d)")
  case True
  then show ?thesis using upsert_read_back [OF True] by (simp add: put_setting_def)
next
  case False
  then show ?thesis by (auto simp: put_setting_def exists_where_iff map_of_append map_add_def split: option.split dest!: map_of_SomeD)
qed

lemma put_setting_fault [simp]: "db_fault (put_setting key v d) = db_fault d"
  by (simp add: put_setting_def)

text \<open>
  C20: a secret is stored encrypted and comes back. Under the law of the cipher, a credential that could
  be saved reads back as it was, whatever it is, and what the settings table holds of it is the
  prefix and the base64 of a ciphertext, never the text itself.
\<close>

theorem secret_setting_roundtrip:
  assumes "key \<in> set settingSecretKeys" and "SetSetting e key v d = (Inr (), d')"
    and "\<forall>c pt ct aad. env_aead e = Some c \<and> aead_Encrypt c pt aad = Some ct \<longrightarrow> aead_Decrypt c ct aad = Some pt"
  shows "GetSecretSetting e key d' = Inr v \<and>
         (v \<noteq> '''' \<longrightarrow> (\<exists>c ct. env_aead e = Some c \<and> aead_Encrypt c v (''setting:'' @ key) = Some ct \<and>
            map_of (db_settings d') key = Some (settingEncPrefix @ std_encode ct)))"
proof (cases "v = ''''")
  case True
  with assms(2) have "d' = put_setting key '''' d" "\<not> db_fault d"
    by (auto simp: SetSetting_def encodeSettingValue_def split: if_splits)
  with True show ?thesis by (simp add: GetSecretSetting_def GetSetting_def)
next
  case False
  with assms(1,2) obtain c ct where c: "env_aead e = Some c" "aead_Encrypt c v (''setting:'' @ key) = Some ct"
    and d': "d' = put_setting key (settingEncPrefix @ std_encode ct) d" "\<not> db_fault d"
    by (auto simp: SetSetting_def encodeSettingValue_def split: if_splits option.splits sum.splits)
  moreover have "settingEncPrefix \<noteq> ''''" by (simp add: settingEncPrefix_def)
  moreover have "aead_Decrypt c ct (''setting:'' @ key) = Some v" using assms(3) c by blast
  ultimately show ?thesis by (simp add: GetSecretSetting_def GetSetting_def std_roundtrip)
qed

definition demo_cipher :: AEAD where
  "demo_cipher = \<lparr>aead_Encrypt = \<lambda>pt _. Some (rev pt), aead_Decrypt = \<lambda>ct _. Some (rev ct)\<rparr>"

theorem secret_setting_roundtrip_witness:
  "\<exists>d'. SetSetting (demo_env\<lparr>env_aead := Some demo_cipher\<rparr>) ''smtp_password'' ''hunter2'' demo_db = (Inr (), d') \<and>
     GetSecretSetting (demo_env\<lparr>env_aead := Some demo_cipher\<rparr>) ''smtp_password'' d' = Inr ''hunter2''"
proof -
  let ?e = "demo_env\<lparr>env_aead := Some demo_cipher\<rparr>"
  have key: "''smtp_password'' \<in> set settingSecretKeys" by (simp add: settingSecretKeys_def)
  obtain d' where d': "SetSetting ?e ''smtp_password'' ''hunter2'' demo_db = (Inr (), d')"
    by (simp add: SetSetting_def encodeSettingValue_def settingSecretKeys_def demo_cipher_def)
  have "\<forall>c pt ct aad. env_aead ?e = Some c \<and> aead_Encrypt c pt aad = Some ct \<longrightarrow> aead_Decrypt c ct aad = Some pt"
    by (auto simp: demo_cipher_def)
  from secret_setting_roundtrip [OF key d' this] d' show ?thesis by blast
qed

definition bound_covers :: "(string \<Rightarrow> duration option) \<Rightarrow> duration \<Rightarrow> db \<Rightarrow> bool" where
  "bound_covers parse t d \<longleftrightarrow> (case map_of (db_settings d) SettingFeedURLTTLBound of
     None \<Rightarrow> False | Some v \<Rightarrow> (case ParseDurationSetting parse v of Inl _ \<Rightarrow> False | Inr b \<Rightarrow> t \<le> b))"

lemma covers_less: "bound_covers parse r d \<Longrightarrow> t \<le> r \<Longrightarrow> bound_covers parse t d"
  by (auto simp: bound_covers_def split: option.splits sum.splits)

lemma recorded_or_not: "exists_where (\<lambda>kv. fst kv = key) rows \<longleftrightarrow> map_of rows key \<noteq> None"
  by (induction rows) (auto simp: exists_where_iff)

lemma raise_covers:
  assumes raised: "RaiseDurationSetting parse prnt SettingFeedURLTTLBound t d = (Inr r, d')"
    and law: "\<forall>t. parse (trim_space (prnt t)) = Some t"
  shows "bound_covers parse r d' \<and> t \<le> r \<and> (bound_covers parse t0 d \<longrightarrow> t0 \<le> r)"
proof -
  let ?key = SettingFeedURLTTLBound
  have pt: "ParseDurationSetting parse (prnt t) = Inr t" and up: "\<not> db_fault d"
    using raised law by (auto simp: RaiseDurationSetting_def ParseDurationSetting_def split: if_splits)
  show ?thesis
  proof (cases "map_of (db_settings d) ?key")
    case None
    then have "RaiseDurationSetting parse prnt ?key t d = (Inr t, d\<lparr>db_settings := db_settings d @ [(?key, prnt t)]\<rparr>)"
      by (simp add: RaiseDurationSetting_def pt up recorded_or_not Let_def map_add_def del: exists_where_iff)
    with raised have "r = t" "d' = d\<lparr>db_settings := db_settings d @ [(?key, prnt t)]\<rparr>" by auto
    with None show ?thesis by (simp add: bound_covers_def pt map_add_def)
  next
    case (Some v)
    then obtain b where b: "ParseDurationSetting parse v = Inr b"
      using raised by (auto simp: RaiseDurationSetting_def pt up recorded_or_not simp del: exists_where_iff split: sum.splits)
    with Some have "RaiseDurationSetting parse prnt ?key t d = (if b \<ge> t then (Inr b, d) else (Inr t, put_setting ?key (prnt t) d))"
      by (simp add: RaiseDurationSetting_def pt up recorded_or_not del: exists_where_iff)
    with raised Some b pt show ?thesis by (auto simp: bound_covers_def split: if_splits)
  qed
qed

lemma refused_raise:
  assumes "RaiseDurationSetting parse prnt key t d = (Inl err, d')"
  shows "d' = d"
  using assms by (auto simp: RaiseDurationSetting_def Let_def split: sum.splits if_splits option.splits)

inductive bound_step :: "(string \<Rightarrow> duration option) \<Rightarrow> (duration \<Rightarrow> string) \<Rightarrow> db \<Rightarrow> db \<Rightarrow> bool" for parse prnt where
  started: "RaiseDurationSetting parse prnt SettingFeedURLTTLBound t d = (r, d') \<Longrightarrow> bound_step parse prnt d d'"
| elsewhere: "map_of (db_settings d') SettingFeedURLTTLBound = map_of (db_settings d) SettingFeedURLTTLBound \<Longrightarrow> bound_step parse prnt d d'"

text \<open>
  C35: a drain never waits for less than a running replica's links live. Once a replica started with a
  lifetime \<open>t\<close> for its feed links, then whatever replicas start after it, with shorter lifetimes or
  with longer ones, the bound every drain check reads is at least \<open>t\<close>.
\<close>

theorem feed_bound_covers_starts:
  assumes "RaiseDurationSetting parse prnt SettingFeedURLTTLBound t d = (Inr r, d1)"
    and "(bound_step parse prnt)\<^sup>*\<^sup>* d1 d2" and "\<not> db_fault d2"
    and law: "\<forall>t. parse (trim_space (prnt t)) = Some t"
  shows "\<exists>b. DurationSettingIn parse SettingFeedURLTTLBound fallback d2 = Inr b \<and> t \<le> b"
proof -
  from assms(2) have "bound_covers parse t d2"
  proof induction
    case base
    from raise_covers [OF assms(1) law] show ?case by (blast intro: covers_less)
  next
    case (step y z)
    from step(2) show ?case
    proof cases
      case (started t' res)
      show ?thesis
      proof (cases res)
        case (Inl err)
        with started refused_raise step(3) show ?thesis by blast
      next
        case (Inr r')
        with started have "bound_covers parse r' z \<and> t' \<le> r' \<and> (bound_covers parse t y \<longrightarrow> t \<le> r')"
          using raise_covers [OF _ law] by blast
        with step(3) show ?thesis by (blast intro: covers_less)
      qed
    next
      case elsewhere
      with step(3) show ?thesis by (simp add: bound_covers_def)
    qed
  qed
  with assms(3) show ?thesis
    by (auto simp: bound_covers_def DurationSettingIn_def GetSetting_def split: option.splits sum.splits)
qed

text \<open>A notation for durations with the law: as many letters, after a sign.\<close>

definition demo_print :: "duration \<Rightarrow> string" where
  "demo_print t = (if t < 0 then CHR ''-'' # replicate (nat (- t)) (CHR ''n'') else replicate (nat t) (CHR ''n''))"

definition demo_parse :: "string \<Rightarrow> duration option" where
  "demo_parse s = Some (case s of [] \<Rightarrow> 0 | c # cs \<Rightarrow> if c = CHR ''-'' then - int (length cs) else int (length s))"

lemma trim_plain:
  assumes "\<forall>c \<in> set s. \<not> is_space c"
  shows "trim_space s = s"
proof -
  have "dropWhile is_space s = s" using assms by (simp add: dropWhile_eq_self_iff)
  moreover have "dropWhile is_space (rev s) = rev s" using assms by (cases s rule: rev_cases) simp_all
  ultimately show ?thesis by (simp add: trim_space_def)
qed

lemma demo_duration_law: "\<forall>t. demo_parse (trim_space (demo_print t)) = Some t"
proof
  fix t
  have "\<not> is_space (CHR ''n'')" "\<not> is_space (CHR ''-'')" by (simp_all add: is_space_def char_code_def)
  then have "trim_space (demo_print t) = demo_print t" by (intro trim_plain) (auto simp: demo_print_def)
  then show "demo_parse (trim_space (demo_print t)) = Some t"
    by (cases "nat t") (auto simp: demo_print_def demo_parse_def)
qed

theorem feed_bound_covers_starts_witness:
  "\<exists>d1 d2 b. RaiseDurationSetting demo_parse demo_print SettingFeedURLTTLBound 5 demo_db = (Inr 5, d1) \<and>
     RaiseDurationSetting demo_parse demo_print SettingFeedURLTTLBound 3 d1 = (Inr 5, d2) \<and>
     DurationSettingIn demo_parse SettingFeedURLTTLBound 3 d2 = Inr b \<and> 5 \<le> b"
proof -
  let ?first = "RaiseDurationSetting demo_parse demo_print SettingFeedURLTTLBound 5 demo_db"
  let ?second = "RaiseDurationSetting demo_parse demo_print SettingFeedURLTTLBound 3 (snd ?first)"
  have "fst ?first = Inr 5 \<and> fst ?second = Inr 5 \<and> \<not> db_fault (snd ?second)" by code_simp
  then have runs: "?first = (Inr 5, snd ?first)" "?second = (Inr 5, snd ?second)" "\<not> db_fault (snd ?second)"
    by (metis prod.collapse)+
  have "(bound_step demo_parse demo_print)\<^sup>*\<^sup>* (snd ?first) (snd ?second)"
    by (rule r_into_rtranclp) (rule bound_step.started [OF runs(2)])
  from feed_bound_covers_starts [OF runs(1) this runs(3) demo_duration_law] runs show ?thesis by blast
qed

end
