(* ===== verification/KG_Issue.thy ===== *)
theory KG_Issue
  imports KG_Settings KG_Team KG_Seat_Service KG_Stripe
begin

text \<open>
  Issuing a licence: the row prepared and written with its subscription in one transaction, checked
  there against the plan as it reads now and against what the product's feeds can enforce
  (\<^verbatim>\<open>internal/store/store.go\<close>, \<^verbatim>\<open>release.go\<close>), and the licences people claim themselves on a free plan
  (\<^verbatim>\<open>internal/store/self_signup.go\<close>, \<^verbatim>\<open>internal/handler/self_signup.go\<close>). \<open>feedTTL\<close> is how long this
  replica signs feed links for, \<open>parse\<close> reads a duration setting; the seconds a drain lasts are exact
  here and a float in the code.
\<close>

section \<open>What a plan sold, and what feeds can enforce\<close>

definition FindPlanByCheckoutID :: "string \<Rightarrow> db \<Rightarrow> Plan result" where
  "FindPlanByCheckoutID checkoutID d =
     (if db_fault d then Inl ErrDB
      else case select_one (\<lambda>p. plan_CheckoutID p = checkoutID) (db_plans d) of
        None \<Rightarrow> Inl ErrNoRows | Some p \<Rightarrow> Inr (with_entitlements d p))"

text \<open>\<^verbatim>\<open>ORDER BY effective_from DESC, recorded_at DESC\<close>; nothing known before the first row.\<close>

definition PlanTermsAt :: "string \<Rightarrow> time \<Rightarrow> db \<Rightarrow> (int \<times> string) option result" where
  "PlanTermsAt planID t d =
     (if db_fault d then Inl ErrDB
      else case sort_key (\<lambda>r. - pt_EffectiveFrom r) (sort_key (\<lambda>r. - pt_RecordedAt r)
             (filter (\<lambda>r. pt_PlanID r = planID \<and> pt_EffectiveFrom r \<le> t) (db_plan_terms d))) of
        [] \<Rightarrow> Inr None
      | r # _ \<Rightarrow> Inr (Some (pt_UpdatesDays r, pt_LicenseType r)))"

definition LockReferencedRowsIn :: "string \<Rightarrow> string \<Rightarrow> db \<Rightarrow> unit result" where
  "LockReferencedRowsIn planID productID d =
     (if db_fault d \<and> (planID \<noteq> '''' \<or> productID \<noteq> '''') then Inl ErrDB
      else if planID \<noteq> '''' \<and> \<not> exists_where (\<lambda>p. plan_ID p = planID) (db_plans d) then Inl ErrNoRows
      else if productID \<noteq> '''' \<and> \<not> exists_where (\<lambda>p. prod_ID p = productID) (db_products d) then Inl ErrNoRows
      else Inr ())"

definition ProductHasEverPublishedReleaseIn :: "string \<Rightarrow> db \<Rightarrow> bool result" where
  "ProductHasEverPublishedReleaseIn productID d =
     (if db_fault d then Inl ErrDB
      else Inr (exists_where (\<lambda>r. rel_ProductID r = productID \<and>
             (rel_Status r = ReleaseStatusPublished \<or> rel_Status r = ReleaseStatusYanked)) (db_releases d)))"

definition FeedPublicMaxAge :: duration where "FeedPublicMaxAge = 60 * Second"

text \<open>The full drain and how much of it is left.\<close>

definition FeedDrainLeftIn ::
  "env \<Rightarrow> (string \<Rightarrow> duration option) \<Rightarrow> Product \<Rightarrow> duration \<Rightarrow> db \<Rightarrow> (duration \<times> duration) result" where
  "FeedDrainLeftIn e parse pr ttl d =
     (case prod_FeedGatedAt pr of
        None \<Rightarrow> Inr (0, 0)
      | Some gated \<Rightarrow>
          (case ProductHasEverPublishedReleaseIn (prod_ID pr) d of
             Inl err \<Rightarrow> Inl err
           | Inr False \<Rightarrow> Inr (0, 0)
           | Inr True \<Rightarrow>
               (case DurationSettingIn parse SettingFeedURLTTLBound ttl d of
                  Inl err \<Rightarrow> Inl err
                | Inr recorded \<Rightarrow>
                    let drain = max (max recorded ttl) FeedPublicMaxAge in Inr (drain, drain - (env_clock e - gated)))))"

definition FeedsCanEnforcePeriodsIn ::
  "env \<Rightarrow> (string \<Rightarrow> duration option) \<Rightarrow> string \<Rightarrow> duration \<Rightarrow> db \<Rightarrow> bool result" where
  "FeedsCanEnforcePeriodsIn e parse productID ttl d =
     (case FindProductByID productID d of
        Inl err \<Rightarrow> Inl err
      | Inr pr \<Rightarrow>
          if \<not> ProductSupports (prod_Type pr) CapReleases then Inr True
          else if \<not> prod_FeedLicenseRequired pr then Inr False
          else case FeedDrainLeftIn e parse pr ttl d of
            Inl err \<Rightarrow> Inl err | Inr (_, left) \<Rightarrow> Inr (left \<le> 0))"

section \<open>The licence row\<close>

definition DecryptLicenseKey :: "env \<Rightarrow> License \<Rightarrow> string" where
  "DecryptLicenseKey e l =
     (case (env_aead e, lic_LicenseKeyEncrypted l) of
        (Some c, Some ct) \<Rightarrow>
          if ct \<noteq> '''' then (case aead_Decrypt c ct (lic_ID l) of Some pt \<Rightarrow> pt | None \<Rightarrow> lic_LicenseKey l)
          else lic_LicenseKey l
      | _ \<Rightarrow> lic_LicenseKey l)"

definition prepareLicenseForInsert :: "env \<Rightarrow> License \<Rightarrow> License result" where
  "prepareLicenseForInsert e l =
     (let l = (if lic_ID l = '''' then l\<lparr>lic_ID := env_newID e 0\<rparr> else l);
          l = l\<lparr>lic_KeyHash := HashKey (env_sha256 e) (lic_LicenseKey l)\<rparr>
      in case env_aead e of
        None \<Rightarrow> Inr l
      | Some c \<Rightarrow>
          if lic_LicenseKey l = '''' then Inr l
          else case aead_Encrypt c (lic_LicenseKey l) (lic_ID l) of
            None \<Rightarrow> Inl ErrEncrypt | Some ct \<Rightarrow> Inr (l\<lparr>lic_LicenseKeyEncrypted := Some ct\<rparr>))"

definition NewLicenseKey :: "env \<Rightarrow> string \<Rightarrow> db \<Rightarrow> string result" where
  "NewLicenseKey e productID d =
     (case FindProductByID productID d of Inl err \<Rightarrow> Inl err | Inr p \<Rightarrow> Inr (GenerateKey (env_rand e) (prod_LicensePrefix p)))"

text \<open>Column defaults stand in for zero values.\<close>

definition license_defaults :: "env \<Rightarrow> License \<Rightarrow> License" where
  "license_defaults e l =
     (let now = (\<lambda>t. if t = time_zero then env_dbnow e else t) in
      l\<lparr>lic_Status := (if lic_Status l = '''' then StatusActive else lic_Status l),
        lic_Quantity := (if lic_Quantity l = 0 then 1 else lic_Quantity l),
        lic_ValidFrom := now (lic_ValidFrom l), lic_CreatedAt := now (lic_CreatedAt l), lic_UpdatedAt := now (lic_UpdatedAt l)\<rparr>)"

abbreviation SignupSourceSelf :: string where "SignupSourceSelf \<equiv> ''self_signup''"

definition insert_license :: "env \<Rightarrow> License \<Rightarrow> db \<Rightarrow> (License \<times> db) result" where
  "insert_license e l d =
     (let l = license_defaults e l; clash = (\<lambda>P. exists_where P (db_licenses d)) in
      if clash (\<lambda>x. lic_ID x = lic_ID l) \<or> clash (\<lambda>x. lic_LicenseKey x = lic_LicenseKey l) \<or>
         (lic_StripeSubscriptionID l \<noteq> '''' \<and> clash (\<lambda>x. lic_StripeSubscriptionID x = lic_StripeSubscriptionID l)) \<or>
         (lic_KeyHash l \<noteq> '''' \<and> clash (\<lambda>x. lic_KeyHash x = lic_KeyHash l)) \<or>
         \<not> exists_where (\<lambda>p. plan_ID p = lic_PlanID l) (db_plans d) \<or>
         \<not> exists_where (\<lambda>p. prod_ID p = lic_ProductID l) (db_products d) \<or>
         (lic_UpdatesUntil l \<noteq> None \<and> feed_gating_required (lic_ProductID l) d)
      then Inl ErrDB
      else if lic_StripeCheckoutSessionID l \<noteq> '''' \<and> clash (\<lambda>x. lic_StripeCheckoutSessionID x = lic_StripeCheckoutSessionID l)
      then Inl ErrCheckoutSessionConflict
      else if lic_SignupSource l = SignupSourceSelf \<and>
         clash (\<lambda>x. lic_SignupSource x = SignupSourceSelf \<and> lic_ProductID x = lic_ProductID l \<and> to_lower (lic_Email x) = to_lower (lic_Email l))
      then Inl ErrSelfSignupConflict
      else Inr (l, d\<lparr>db_licenses := db_licenses d @ [bare_license l]\<rparr>))"

definition CreateLicense :: "env \<Rightarrow> License \<Rightarrow> db \<Rightarrow> License result \<times> db" where
  "CreateLicense e l d =
     (case prepareLicenseForInsert e l of
        Inl err \<Rightarrow> (Inl err, d)
      | Inr l \<Rightarrow> if db_fault d then (Inl ErrDB, d)
                 else case insert_license e l d of Inl err \<Rightarrow> (Inl err, d) | Inr (l, d') \<Rightarrow> (Inr l, d'))"

text \<open>The plan must still be what the caller built the licence from.\<close>

definition plan_unchanged :: "Plan option \<Rightarrow> db \<Rightarrow> unit result" where
  "plan_unchanged plan d =
     (case plan of
        None \<Rightarrow> Inr ()
      | Some p \<Rightarrow>
          (case select_one (\<lambda>x. plan_ID x = plan_ID p) (db_plans d) of
             None \<Rightarrow> Inl ErrNoRows
           | Some x \<Rightarrow>
               if plan_LicenseType x \<noteq> plan_LicenseType p \<or> plan_UpdatesDays x \<noteq> plan_UpdatesDays p \<or>
                  (plan_LicenseType x = ''trial'' \<and> plan_TrialDays x \<noteq> plan_TrialDays p)
               then Inl ErrPlanChanged else Inr ()))"

text \<open>A finite update period is only written while it can be enforced.\<close>

definition period_enforceable :: "env \<Rightarrow> (string \<Rightarrow> duration option) \<Rightarrow> duration \<Rightarrow> License \<Rightarrow> db \<Rightarrow> unit result" where
  "period_enforceable e parse feedTTL l d =
     (if lic_UpdatesUntil l = None then Inr ()
      else case MaintenanceFeaturesEnabledForWriteIn d of
        Inl err \<Rightarrow> Inl err
      | Inr on \<Rightarrow>
          if \<not> on then Inl ErrUpdatePeriodNotEnforceable
          else case FeedsCanEnforcePeriodsIn e parse (lic_ProductID l) feedTTL d of
            Inl err \<Rightarrow> Inl err | Inr ok \<Rightarrow> if ok then Inr () else Inl ErrUpdatePeriodNotEnforceable)"

definition new_subscription :: "env \<Rightarrow> License \<Rightarrow> Plan \<Rightarrow> Subscription" where
  "new_subscription e l p =
     (let s = zero_Subscription\<lparr>sub_ID := env_newID e 1, sub_LicenseID := lic_ID l, sub_PlanID := plan_ID p, sub_Status := lic_Status l\<rparr> in
      if plan_LicenseType p = ''trial'' \<and> plan_TrialDays p > 0
      then s\<lparr>sub_TrialStart := Some (env_now e), sub_TrialEnd := Some (time_add (env_now e) (days_dur (plan_TrialDays p)))\<rparr>
      else s)"

definition createLicenseWithSubscription ::
  "env \<Rightarrow> (string \<Rightarrow> duration option) \<Rightarrow> duration \<Rightarrow> License \<Rightarrow> Plan option \<Rightarrow> (db \<Rightarrow> unit result) \<Rightarrow> db \<Rightarrow> License result \<times> db" where
  "createLicenseWithSubscription e parse feedTTL l plan guard d =
     (case prepareLicenseForInsert e l of
        Inl err \<Rightarrow> (Inl err, d)
      | Inr l \<Rightarrow>
      if db_fault d then (Inl ErrDB, d)
      else case LockReferencedRowsIn (lic_PlanID l) (lic_ProductID l) d of
        Inl err \<Rightarrow> (Inl err, d)
      | Inr _ \<Rightarrow>
      (case guard d of
        Inl err \<Rightarrow> (Inl err, d)
      | Inr _ \<Rightarrow>
      (case plan_unchanged plan d of
        Inl err \<Rightarrow> (Inl err, d)
      | Inr _ \<Rightarrow>
      (case period_enforceable e parse feedTTL l d of
        Inl err \<Rightarrow> (Inl err, d)
      | Inr _ \<Rightarrow>
      (case insert_license e l d of
        Inl err \<Rightarrow> (Inl err, d)
      | Inr (l, d1) \<Rightarrow>
          (case plan of
             None \<Rightarrow> (Inr l, d1)
           | Some p \<Rightarrow>
               if plan_LicenseType p = ''subscription'' \<or> plan_LicenseType p = ''trial''
               then (case insert_subscription e (new_subscription e l p) d1 of
                       Inl err \<Rightarrow> (Inl err, d) | Inr d2 \<Rightarrow> (Inr l, d2))
               else (Inr l, d1)))))))"

definition CreateLicenseWithSubscription ::
  "env \<Rightarrow> (string \<Rightarrow> duration option) \<Rightarrow> duration \<Rightarrow> License \<Rightarrow> Plan \<Rightarrow> db \<Rightarrow> License result \<times> db" where
  "CreateLicenseWithSubscription e parse feedTTL l plan d =
     createLicenseWithSubscription e parse feedTTL l (Some plan) (\<lambda>_. Inr ()) d"

section \<open>Self sign-up\<close>

definition FindSelfSignupLicense :: "string \<Rightarrow> string \<Rightarrow> db \<Rightarrow> License result" where
  "FindSelfSignupLicense productID email d =
     (if db_fault d then Inl ErrDB
      else case select_one (\<lambda>l. lic_ProductID l = productID \<and> to_lower (lic_Email l) = to_lower email \<and>
                              lic_SignupSource l = SignupSourceSelf) (db_licenses d) of
        None \<Rightarrow> Inl ErrNoRows | Some l \<Rightarrow> Inr ((bare_license l)\<lparr>lic_Plan := plan_of d l\<rparr>))"

text \<open>\<^verbatim>\<open>date_trunc('day', now(), 'UTC')\<close>.\<close>

definition utc_midnight :: "time \<Rightarrow> time" where
  "utc_midnight t = t div (24 * Hour) * (24 * Hour)"

definition countSelfSignupsToday :: "env \<Rightarrow> string \<Rightarrow> db \<Rightarrow> int result" where
  "countSelfSignupsToday e planID d =
     (if db_fault d then Inl ErrDB
      else Inr (count_where (\<lambda>l. lic_SignupPlanID l = planID \<and> planID \<noteq> '''' \<and> lic_SignupSource l = SignupSourceSelf \<and>
                                lic_CreatedAt l \<ge> utc_midnight (env_dbnow e)) (db_licenses d)))"

text \<open>Run on the transaction, under the product's lock.\<close>

definition self_signup_guard :: "env \<Rightarrow> License \<Rightarrow> db \<Rightarrow> unit result" where
  "self_signup_guard e l d =
     (if db_fault d then Inl ErrDB
      else case select_one (\<lambda>p. plan_ID p = lic_PlanID l) (db_plans d) of
        None \<Rightarrow> Inl ErrNoRows
      | Some p \<Rightarrow>
          if \<not> (plan_SelfSignup p \<and> plan_Active p) \<or> plan_StripePriceID p \<noteq> '''' then Inl ErrSelfSignupClosed
          else if count_where (\<lambda>x. lic_ProductID x = lic_ProductID l \<and> to_lower (lic_Email x) = to_lower (lic_Email l) \<and>
                                lic_SignupSource x = SignupSourceSelf) (db_licenses d) > 0 then Inl ErrSelfSignupExists
          else if plan_SignupDailyCap p > 0 then
            (case countSelfSignupsToday e (lic_PlanID l) d of
               Inl err \<Rightarrow> Inl err
             | Inr n \<Rightarrow> if n \<ge> plan_SignupDailyCap p then Inl ErrSignupCapReached else Inr ())
          else Inr ())"

definition CreateSelfSignupLicense ::
  "env \<Rightarrow> (string \<Rightarrow> duration option) \<Rightarrow> duration \<Rightarrow> License \<Rightarrow> Plan \<Rightarrow> db \<Rightarrow> License result \<times> db" where
  "CreateSelfSignupLicense e parse feedTTL l plan d =
     (let l = l\<lparr>lic_SignupSource := SignupSourceSelf, lic_SignupPlanID := lic_PlanID l\<rparr>
      in createLicenseWithSubscription e parse feedTTL l (Some plan) (self_signup_guard e l) d)"

definition selfSignupOpen :: "env \<Rightarrow> Plan \<Rightarrow> bool" where
  "selfSignupOpen e plan \<longleftrightarrow> plan_Active plan \<and> plan_SelfSignup plan \<and> plan_StripePriceID plan = '''' \<and>
     InitialUpdatesUntil plan (env_now e) = None"

definition signup_unavailable :: AppError where
  "signup_unavailable = app_New 404 ''SIGNUP_UNAVAILABLE'' ''sign-up is not available for this plan''"

definition signupPlan :: "env \<Rightarrow> string \<Rightarrow> db \<Rightarrow> Plan app_result" where
  "signupPlan e checkoutID d =
     (if length checkoutID = 8 then
        (case FindPlanByCheckoutID checkoutID d of
           Inl err \<Rightarrow> if err \<noteq> ErrNoRows then Inl (app_Internal err) else Inl signup_unavailable
         | Inr plan \<Rightarrow> if selfSignupOpen e plan then Inr plan else Inl signup_unavailable)
      else Inl signup_unavailable)"

definition signupEmail :: "(string \<Rightarrow> string option) \<Rightarrow> string \<Rightarrow> string app_result" where
  "signupEmail ParseAddress raw =
     (let email = to_lower (trim_space raw) in
      case ValidateEmail ParseAddress email of
        Some err \<Rightarrow> Inl (app_BadRequest (ae_Message err)) | None \<Rightarrow> Inr email)"

definition signupFull :: AppError where
  "signupFull = app_New 429 ''SIGNUP_LIMIT_REACHED''
     ''this plan has taken all the sign-ups it accepts today; try again tomorrow, or sign in if you already have a license''"

definition SignupSend ::
  "(string \<Rightarrow> string option) \<Rightarrow> env \<Rightarrow> (nat \<Rightarrow> nat \<Rightarrow> db \<Rightarrow> db) \<Rightarrow> bool \<Rightarrow> nat \<Rightarrow> string \<Rightarrow> string \<Rightarrow> db \<Rightarrow> unit app_result \<times> db" where
  "SignupSend ParseAddress e mid configured draw checkoutID reqEmail d =
     (case signupEmail ParseAddress reqEmail of
        Inl err \<Rightarrow> (Inl err, d)
      | Inr email \<Rightarrow>
          (case signupPlan e checkoutID d of
             Inl err \<Rightarrow> (Inl err, d)
           | Inr plan \<Rightarrow>
               let d1 = mid 0 0 d in
               (case (if plan_SignupDailyCap plan > 0 then countSelfSignupsToday e (plan_ID plan) d1 else Inr (-1)) of
                  Inl err \<Rightarrow> (Inl (app_Internal err), d1)
                | Inr n \<Rightarrow>
                    if n \<ge> plan_SignupDailyCap plan \<and> plan_SignupDailyCap plan > 0 then (Inl signupFull, d1)
                    else sendCode e (mid 1) configured draw email False (mid 0 1 d1))))"

text \<open>The licence a visitor's confirmed address is given; consent only to the wording the plan holds now.\<close>

definition signup_license :: "env \<Rightarrow> Plan \<Rightarrow> string \<Rightarrow> string \<Rightarrow> bool \<Rightarrow> string \<Rightarrow> License" where
  "signup_license e plan email key consent consentText =
     (let l = zero_License\<lparr>lic_ProductID := plan_ProductID plan, lic_PlanID := plan_ID plan, lic_Email := email,
            lic_LicenseKey := key, lic_Status := (if plan_LicenseType plan = ''trial'' then StatusTrialing else StatusActive),
            lic_UpdatesTermsSet := True\<rparr>;
          l = (if plan_LicenseType plan = ''trial'' \<and> plan_TrialDays plan > 0
               then l\<lparr>lic_ValidUntil := Some (time_add (env_now e) (days_dur (plan_TrialDays plan)))\<rparr> else l)
      in if plan_SignupConsentText plan \<noteq> '''' \<and> consent \<and> consentText = plan_SignupConsentText plan
         then l\<lparr>lic_MarketingConsent := True, lic_MarketingConsentAt := Some (env_now e)\<rparr> else l)"

definition issueSession :: "env \<Rightarrow> string \<Rightarrow> User \<Rightarrow> db \<Rightarrow> db" where
  "issueSession e rawRefresh user d =
     snd (CreateRefreshToken e (user_ID user) (hashToken e rawRefresh) (time_add (env_now e) refreshTokenTTL) d)"

definition startSession :: "env \<Rightarrow> string \<Rightarrow> string \<Rightarrow> User \<Rightarrow> db \<Rightarrow> db" where
  "startSession e rawRefresh ip user d =
     Audit \<lparr>audit_Entity = ''session'', audit_EntityID = user_ID user, audit_Action = ''login'', audit_ActorID = user_ID user,
        audit_ActorType = ''otp'', audit_Changes = [(''email'', DStr (user_Email user))], audit_IPAddress = ip, audit_ProductID = ''''\<rparr>
       (issueSession e rawRefresh user d)"

text \<open>Signed in to the licence the address already holds, with whether it still works, or a new one.\<close>

datatype signup_answer = Existing License bool | SignupCreated License

text \<open>The mail of a new licence: product, plan, key and download page, as the template renders them.\<close>

definition mail_new_license ::
  "(string \<Rightarrow> string \<Rightarrow> string \<Rightarrow> string \<Rightarrow> string \<times> string) \<Rightarrow> env \<Rightarrow> bool \<Rightarrow> License \<Rightarrow> Plan \<Rightarrow> db \<Rightarrow> db" where
  "mail_new_license render e mailer l plan d =
     (if \<not> mailer then d
      else
        let (productName, downloadURL) = (case FindProductByID (lic_ProductID l) d of
               Inr p \<Rightarrow> (prod_Name p, prod_DownloadURL p) | Inl _ \<Rightarrow> ('''', ''''));
            (subject, body) = render productName (plan_Name plan) (DecryptLicenseKey e l) downloadURL
        in snd (EnqueueEmail e (lic_Email l) subject body d))"

definition UpdateLicenseUser :: "string \<Rightarrow> string \<Rightarrow> db \<Rightarrow> unit result \<times> db" where
  "UpdateLicenseUser licenseID userID d =
     (if db_fault d then (Inl ErrDB, d)
      else (Inr (), d\<lparr>db_licenses := update_where (\<lambda>l. lic_ID l = licenseID) (\<lambda>l. l\<lparr>lic_UserID := userID\<rparr>) (db_licenses d)\<rparr>))"

record signupRequest =
  sr_CheckoutID :: string
  sr_Email :: string
  sr_Code :: string
  sr_MarketingConsent :: bool
  sr_ConsentText :: string
  sr_rawRefresh :: string
  sr_ip :: string

record authHandler =
  ah_adminEmails :: "string list"
  ah_mailer :: bool
  ah_webhook :: bool
  ah_ParseAddress :: "string \<Rightarrow> string option"
  ah_render :: "string \<Rightarrow> string \<Rightarrow> string \<Rightarrow> string \<Rightarrow> string \<times> string"
  ah_parseDuration :: "string \<Rightarrow> duration option"
  ah_feedTTL :: duration

definition signInExisting ::
  "authHandler \<Rightarrow> env \<Rightarrow> (nat \<Rightarrow> db \<Rightarrow> db) \<Rightarrow> signupRequest \<Rightarrow> string \<Rightarrow> License \<Rightarrow> db \<Rightarrow> signup_answer app_result \<times> db" where
  "signInExisting h e mid req email l d =
     (case loginUser e mid (ah_adminEmails h) email d of
        (Inl err, d1) \<Rightarrow> (Inl (app_Internal err), d1)
      | (Inr user, d1) \<Rightarrow>
          (Inr (Existing l (LicenseUsable e l = None)), startSession e (sr_rawRefresh req) (sr_ip req) user d1))"

text \<open>What follows the write: the account, the mail, the audit line, the event and the session.\<close>

definition signup_written ::
  "authHandler \<Rightarrow> env \<Rightarrow> (nat \<Rightarrow> db \<Rightarrow> db) \<Rightarrow> signupRequest \<Rightarrow> string \<Rightarrow> Plan \<Rightarrow> License \<Rightarrow> db \<Rightarrow> signup_answer app_result \<times> db" where
  "signup_written h e mid req email plan l d =
     (let (user, d1) = loginUser e mid (ah_adminEmails h) email d;
          d2 = (case user of Inl _ \<Rightarrow> d1 | Inr u \<Rightarrow> snd (UpdateLicenseUser (lic_ID l) (user_ID u) d1));
          d3 = mail_new_license (ah_render h) e (ah_mailer h) l plan d2;
          d4 = Audit \<lparr>audit_Entity = ''license'', audit_EntityID = lic_ID l, audit_Action = ''created'',
                 audit_ActorID = (case user of Inl _ \<Rightarrow> '''' | Inr u \<Rightarrow> user_ID u), audit_ActorType = SignupSourceSelf,
                 audit_Changes = [(''email'', DStr email), (''plan_id'', DStr (plan_ID plan)), (''marketing_consent'', DBool (lic_MarketingConsent l))] @
                   (if lic_MarketingConsent l then [(''consent_text'', DStr (plan_SignupConsentText plan))] else []),
                 audit_IPAddress = sr_ip req, audit_ProductID = ''''\<rparr> d3;
          d5 = (if ah_webhook h then Dispatch (lic_ProductID l) ''license.created''
                  [(''license_id'', DStr (lic_ID l)), (''email'', DStr (lic_Email l)), (''plan_id'', DStr (lic_PlanID l)),
                   (''signup_source'', DStr (lic_SignupSource l)), (''marketing_consent'', DBool (lic_MarketingConsent l))] d4 else d4)
      in case user of
        Inl _ \<Rightarrow> (Inl (app_Internal (ErrRefused ''licence created but sign-in failed'')), d5)
      | Inr u \<Rightarrow> (Inr (SignupCreated l), startSession e (sr_rawRefresh req) (sr_ip req) u d5))"

definition SignupVerify ::
  "authHandler \<Rightarrow> (nat \<Rightarrow> env) \<Rightarrow> (nat \<Rightarrow> nat \<Rightarrow> db \<Rightarrow> db) \<Rightarrow> signupRequest \<Rightarrow> db \<Rightarrow> signup_answer app_result \<times> db" where
  "SignupVerify h env_at mid req d =
     (case signupEmail (ah_ParseAddress h) (sr_Email req) of
        Inl err \<Rightarrow> (Inl err, d)
      | Inr email \<Rightarrow>
      (case signupPlan (env_at 0) (sr_CheckoutID req) d of
        Inl err \<Rightarrow> (Inl err, d)
      | Inr plan \<Rightarrow>
      (case checkCode (env_at 1) (mid 0) email (trim_space (sr_Code req)) (mid 1 0 d) of
        (Inl err, d1) \<Rightarrow> (Inl err, d1)
      | (Inr _, d1) \<Rightarrow>
          let d2 = mid 1 1 d1 in
          (case FindSelfSignupLicense (plan_ProductID plan) email d2 of
            Inr existing \<Rightarrow> signInExisting h (env_at 2) (mid 2) req email existing d2
          | Inl err \<Rightarrow>
              if err \<noteq> ErrNoRows then (Inl (app_Internal err), d2)
              else
                let d3 = mid 1 2 d2 in
                (case NewLicenseKey (env_at 3) (plan_ProductID plan) d3 of
                  Inl err \<Rightarrow> (Inl (app_Internal err), d3)
                | Inr key \<Rightarrow>
                    let l = signup_license (env_at 3) plan email key (sr_MarketingConsent req) (sr_ConsentText req) in
                    (case CreateSelfSignupLicense (env_at 4) (ah_parseDuration h) (ah_feedTTL h) l plan (mid 1 3 d3) of
                      (Inr l, d4) \<Rightarrow> signup_written h (env_at 5) (mid 3) req email plan l (mid 1 4 d4)
                    | (Inl err, d4) \<Rightarrow>
                        if err = ErrSelfSignupExists \<or> err = ErrSelfSignupConflict then
                          (case FindSelfSignupLicense (plan_ProductID plan) email (mid 1 4 d4) of
                             Inl ferr \<Rightarrow> (Inl (app_Internal ferr), mid 1 4 d4)
                           | Inr existing \<Rightarrow> signInExisting h (env_at 5) (mid 3) req email existing (mid 1 4 d4))
                        else if err = ErrSelfSignupClosed then (Inl signup_unavailable, d4)
                        else if err = ErrSignupCapReached then (Inl signupFull, d4)
                        else if err = ErrPlanChanged then (Inl (app_Conflict ''PLAN_CHANGED''
                          ''the plan's license type changed while this license was being created; reload and try again''), d4)
                        else (Inl (app_Internal err), d4)))))))"

section \<open>The daily cap\<close>

text \<open>How an issued row relates to the licence it was asked for.\<close>

lemma prepared_keeps:
  "prepareLicenseForInsert e l = Inr l' \<Longrightarrow>
     lic_PlanID l' = lic_PlanID l \<and> lic_SignupPlanID l' = lic_SignupPlanID l \<and> lic_SignupSource l' = lic_SignupSource l \<and>
     lic_CreatedAt l' = lic_CreatedAt l \<and> lic_Email l' = lic_Email l \<and> lic_ProductID l' = lic_ProductID l \<and>
     lic_StripeCheckoutSessionID l' = lic_StripeCheckoutSessionID l \<and> lic_Status l' = lic_Status l"
  by (auto simp: prepareLicenseForInsert_def Let_def split: option.splits if_splits)

lemma inserted_row:
  "insert_license e l d = Inr (l', d') \<Longrightarrow>
     l' = license_defaults e l \<and> d' = d\<lparr>db_licenses := db_licenses d @ [bare_license l']\<rparr>"
  by (auto simp: insert_license_def Let_def split: if_splits)

lemma insert_subscription_frame:
  "insert_subscription e s d = Inr d' \<Longrightarrow> db_licenses d' = db_licenses d \<and> db_plans d' = db_plans d"
  by (auto simp: insert_subscription_def Let_def split: if_splits)

lemma issued_row:
  assumes "createLicenseWithSubscription e parse ttl l plan guard d = (res, d')"
  shows "d' = d \<or> (\<exists>p. guard d = Inr () \<and> prepareLicenseForInsert e l = Inr p \<and> db_plans d' = db_plans d \<and>
           db_licenses d' = db_licenses d @ [bare_license (license_defaults e p)] \<and> res = Inr (license_defaults e p))"
  using assms unfolding createLicenseWithSubscription_def
  by (auto split: sum.splits if_splits option.splits prod.splits dest!: inserted_row insert_subscription_frame)

lemma created_row:
  assumes "CreateLicense e l d = (res, d')"
  shows "d' = d \<or> (\<exists>p. prepareLicenseForInsert e l = Inr p \<and> db_plans d' = db_plans d \<and>
           db_licenses d' = db_licenses d @ [bare_license (license_defaults e p)])"
  using assms unfolding CreateLicense_def
  by (auto split: sum.splits if_splits prod.splits dest!: inserted_row)

text \<open>The licences of a plan that people gave themselves on the day that begins at \<open>midnight\<close>.\<close>

definition signed_up_on :: "string \<Rightarrow> time \<Rightarrow> License \<Rightarrow> bool" where
  "signed_up_on planID midnight l \<longleftrightarrow>
     lic_SignupPlanID l = planID \<and> lic_SignupSource l = SignupSourceSelf \<and> utc_midnight (lic_CreatedAt l) = midnight"

definition signups_on :: "string \<Rightarrow> time \<Rightarrow> db \<Rightarrow> int" where
  "signups_on planID midnight d = count_where (signed_up_on planID midnight) (db_licenses d)"

definition daily_cap :: "string \<Rightarrow> db \<Rightarrow> int" where
  "daily_cap planID d =
     (case select_one (\<lambda>p. plan_ID p = planID) (db_plans d) of None \<Rightarrow> 0 | Some p \<Rightarrow> plan_SignupDailyCap p)"

text \<open>
  What happens to licences while the plan's terms stand: visitors sign up, vendors and checkouts issue
  licences, an account is linked, and any change or removal that leaves who signed up, for which
  plan and when.
\<close>

inductive issue_step :: "db \<Rightarrow> db \<Rightarrow> bool" where
  signed_up: "lic_CreatedAt l = time_zero \<Longrightarrow> issue_step d (snd (CreateSelfSignupLicense e parse ttl l plan d))"
| issued: "lic_SignupSource l \<noteq> SignupSourceSelf \<Longrightarrow> issue_step d (snd (CreateLicenseWithSubscription e parse ttl l plan d))"
| granted: "lic_SignupSource l \<noteq> SignupSourceSelf \<Longrightarrow> issue_step d (snd (CreateLicense e l d))"
| linked: "issue_step d (snd (UpdateLicenseUser licenseID userID d))"
| changed: "db_plans d' = db_plans d \<Longrightarrow> db_licenses d' = map f (filter P (db_licenses d)) \<Longrightarrow>
    (\<And>l. lic_SignupPlanID (f l) = lic_SignupPlanID l \<and> lic_SignupSource (f l) = lic_SignupSource l \<and> lic_CreatedAt (f l) = lic_CreatedAt l) \<Longrightarrow>
    issue_step d d'"

lemma signups_append:
  "db_licenses d' = db_licenses d @ [l] \<Longrightarrow>
     signups_on planID m d' = signups_on planID m d + (if signed_up_on planID m l then 1 else 0)"
  by (simp add: signups_on_def count_where_def)

lemma signups_map:
  assumes "\<And>l. lic_SignupPlanID (f l) = lic_SignupPlanID l \<and> lic_SignupSource (f l) = lic_SignupSource l \<and> lic_CreatedAt (f l) = lic_CreatedAt l"
  shows "count_where (signed_up_on planID m) (map f (filter P ls)) \<le> count_where (signed_up_on planID m) ls"
proof -
  have "signed_up_on planID m (f l) = signed_up_on planID m l" for l by (simp add: signed_up_on_def assms)
  then show ?thesis by (induction ls) (auto simp: count_where_def)
qed

lemma utc_midnight_le: "utc_midnight t \<le> t"
  by (simp add: utc_midnight_def time_simps)

lemma signups_counted:
  assumes "planID \<noteq> ''''" and "utc_midnight (env_dbnow e) = m" and "countSelfSignupsToday e planID d = Inr n"
  shows "signups_on planID m d \<le> n"
proof -
  have "length (filter (signed_up_on planID m) ls) \<le> length (filter (\<lambda>l. lic_SignupPlanID l = planID \<and> planID \<noteq> '''' \<and>
      lic_SignupSource l = SignupSourceSelf \<and> lic_CreatedAt l \<ge> m) ls)" for ls
    using assms(1) utc_midnight_le by (induction ls) (auto simp: signed_up_on_def)
  then show ?thesis using assms(2,3)
    by (auto simp: countSelfSignupsToday_def signups_on_def count_where_def split: if_splits)
qed

lemma signup_guarded:
  assumes g: "self_signup_guard e l d = Inr ()" and pl: "lic_PlanID l = planID" "planID \<noteq> ''''"
    and cap: "daily_cap planID d > 0" and m: "utc_midnight (env_dbnow e) = m"
  shows "signups_on planID m d < daily_cap planID d"
proof -
  obtain p where p: "select_one (\<lambda>p. plan_ID p = planID) (db_plans d) = Some p" and c: "daily_cap planID d = plan_SignupDailyCap p"
    using cap by (auto simp: daily_cap_def split: option.splits)
  obtain n where "countSelfSignupsToday e planID d = Inr n" "n < plan_SignupDailyCap p"
    using g cap pl(1) p c by (auto simp: self_signup_guard_def split: if_splits sum.splits)
  then show ?thesis using signups_counted [OF pl(2) m] c by fastforce
qed

lemma default_source: "lic_SignupPlanID (bare_license (license_defaults e l)) = lic_SignupPlanID l"
  "lic_SignupSource (bare_license (license_defaults e l)) = lic_SignupSource l"
  "lic_CreatedAt (bare_license (license_defaults e l)) = (if lic_CreatedAt l = time_zero then env_dbnow e else lic_CreatedAt l)"
  by (simp_all add: license_defaults_def bare_license_def Let_def)

lemma daily_cap_frame: "db_plans d' = db_plans d \<Longrightarrow> daily_cap planID d' = daily_cap planID d"
  by (simp add: daily_cap_def)

lemma signup_bounded:
  assumes c: "CreateSelfSignupLicense e parse ttl l plan d = (res, d')" and t: "lic_CreatedAt l = time_zero"
    and pl: "planID \<noteq> ''''" "daily_cap planID d > 0"
  shows "daily_cap planID d' = daily_cap planID d \<and>
     (signups_on planID m d' \<le> signups_on planID m d \<or> signups_on planID m d' \<le> daily_cap planID d')"
  using issued_row [OF c [unfolded CreateSelfSignupLicense_def Let_def]]
proof
  assume "\<exists>p. self_signup_guard e (l\<lparr>lic_SignupSource := SignupSourceSelf, lic_SignupPlanID := lic_PlanID l\<rparr>) d = Inr () \<and>
      prepareLicenseForInsert e (l\<lparr>lic_SignupSource := SignupSourceSelf, lic_SignupPlanID := lic_PlanID l\<rparr>) = Inr p \<and>
      db_plans d' = db_plans d \<and> db_licenses d' = db_licenses d @ [bare_license (license_defaults e p)] \<and>
      res = Inr (license_defaults e p)"
  then obtain p where g: "self_signup_guard e (l\<lparr>lic_SignupSource := SignupSourceSelf, lic_SignupPlanID := lic_PlanID l\<rparr>) d = Inr ()"
    and p: "prepareLicenseForInsert e (l\<lparr>lic_SignupSource := SignupSourceSelf, lic_SignupPlanID := lic_PlanID l\<rparr>) = Inr p"
    and d': "db_plans d' = db_plans d" "db_licenses d' = db_licenses d @ [bare_license (license_defaults e p)]" by blast
  have cap: "daily_cap planID d' = daily_cap planID d" using daily_cap_frame [OF d'(1)] .
  have new: "signed_up_on planID m (bare_license (license_defaults e p)) \<longleftrightarrow> lic_PlanID l = planID \<and> utc_midnight (env_dbnow e) = m"
    using prepared_keeps [OF p] t by (simp add: signed_up_on_def default_source)
  show ?thesis
  proof (cases "lic_PlanID l = planID \<and> utc_midnight (env_dbnow e) = m")
    case True
    have "signups_on planID m d < daily_cap planID d" using signup_guarded [OF g _ pl] True by simp
    then show ?thesis using signups_append [OF d'(2)] new True cap by simp
  next
    case False
    then show ?thesis using signups_append [OF d'(2), of planID m] new cap by (simp only: False) simp
  qed
qed simp

lemma other_issue:
  assumes "lic_SignupSource l \<noteq> SignupSourceSelf" and "prepareLicenseForInsert e l = Inr p"
    and "db_plans d' = db_plans d" and "db_licenses d' = db_licenses d @ [bare_license (license_defaults e p)]"
  shows "daily_cap planID d' = daily_cap planID d \<and> signups_on planID m d' = signups_on planID m d"
  using signups_append [OF assms(4), of planID m] prepared_keeps [OF assms(2)] assms(1) daily_cap_frame [OF assms(3)]
  by (simp add: signed_up_on_def default_source)

lemma unissued_step:
  assumes "db_plans d' = db_plans d" and "db_licenses d' = map f (filter P (db_licenses d))"
    and "\<And>l. lic_SignupPlanID (f l) = lic_SignupPlanID l \<and> lic_SignupSource (f l) = lic_SignupSource l \<and> lic_CreatedAt (f l) = lic_CreatedAt l"
  shows "daily_cap planID d' = daily_cap planID d \<and> signups_on planID m d' \<le> signups_on planID m d"
  using signups_map [of f planID m P "db_licenses d"] assms daily_cap_frame [OF assms(1)] by (simp add: signups_on_def)

lemma issue_step_bound:
  assumes "issue_step d d'" and pl: "planID \<noteq> ''''" "daily_cap planID d > 0"
  shows "daily_cap planID d' = daily_cap planID d \<and>
     (signups_on planID m d' \<le> signups_on planID m d \<or> signups_on planID m d' \<le> daily_cap planID d')"
  using assms(1)
proof cases
  case (signed_up l e parse ttl plan)
  show ?thesis by (rule signup_bounded [OF surjective_pairing [of "CreateSelfSignupLicense e parse ttl l plan d", folded signed_up(1)] signed_up(2) pl])
next
  case (issued l e parse ttl plan)
  show ?thesis
    using issued_row [OF surjective_pairing [of "CreateLicenseWithSubscription e parse ttl l plan d", unfolded CreateLicenseWithSubscription_def]]
      other_issue [OF issued(2), of e _ d' d planID m]
    unfolding issued(1) CreateLicenseWithSubscription_def by fastforce
next
  case (granted l e)
  show ?thesis
    using created_row [OF surjective_pairing [of "CreateLicense e l d"]] other_issue [OF granted(2), of e _ d' d planID m]
    unfolding granted(1) by fastforce
next
  case (linked licenseID userID)
  have t: "db_plans d' = db_plans d \<and> (db_licenses d' = db_licenses d \<or>
      db_licenses d' = map (\<lambda>l. if lic_ID l = licenseID then l\<lparr>lic_UserID := userID\<rparr> else l) (filter (\<lambda>_. True) (db_licenses d)))"
    unfolding linked by (simp add: UpdateLicenseUser_def update_where_def)
  show ?thesis
  proof (cases "db_licenses d' = db_licenses d")
    case True
    then show ?thesis using t by (simp add: signups_on_def daily_cap_def)
  next
    case False
    then show ?thesis
      using t unissued_step [of d' d "\<lambda>l. if lic_ID l = licenseID then l\<lparr>lic_UserID := userID\<rparr> else l" "\<lambda>_. True" planID m] by fastforce
  qed
next
  case (changed f P)
  then show ?thesis using unissued_step [of d' d f P planID m] by blast
qed

interpretation signups: bounded_resource
  "\<lambda>d. planID \<noteq> '''' \<and> daily_cap planID d > 0" "signups_on planID m" "daily_cap planID" issue_step for planID m
  by unfold_locales (use issue_step_bound in \<open>fastforce+\<close>)

text \<open>
  C13: a capped plan gives away no more than its cap a day. However visitors' sign-ups, sales and
  grants of licences, changes and removals of licences interleave, and whichever day's clock each of them reads, the licences
  people gave themselves on a plan within one UTC day stay within the plan's daily cap.
\<close>

theorem daily_cap_holds:
  assumes "issue_step\<^sup>*\<^sup>* d d'" and "planID \<noteq> ''''" and "daily_cap planID d > 0"
    and "signups_on planID midnight d \<le> daily_cap planID d"
  shows "signups_on planID midnight d' \<le> daily_cap planID d' \<and> daily_cap planID d' = daily_cap planID d"
  using signups.never_exceeded [OF assms(1)] signups.run_bound [OF assms(1)] assms(2-4) by blast

definition demo_signup_plan :: Plan where
  "demo_signup_plan = demo_plan\<lparr>plan_SelfSignup := True, plan_SignupDailyCap := 1\<rparr>"

definition demo_signup_db :: db where
  "demo_signup_db = demo_db\<lparr>db_plans := [demo_signup_plan]\<rparr>"

definition demo_visitor :: "string \<Rightarrow> db \<Rightarrow> License result \<times> db" where
  "demo_visitor email = CreateSelfSignupLicense (demo_env\<lparr>env_newID := \<lambda>n. email\<rparr>) (\<lambda>_. None) 0
     (signup_license demo_env demo_signup_plan email email False '''') demo_signup_plan"

theorem daily_cap_holds_witness:
  "let d1 = snd (demo_visitor ''a@x'' demo_signup_db); d2 = snd (demo_visitor ''b@x'' d1) in
   signups_on ''PL'' 0 d1 = 1 \<and> fst (demo_visitor ''b@x'' d1) = Inl ErrSignupCapReached \<and> signups_on ''PL'' 0 d2 \<le> daily_cap ''PL'' d2"
proof -
  let ?d1 = "snd (demo_visitor ''a@x'' demo_signup_db)" and ?d2 = "snd (demo_visitor ''b@x'' (snd (demo_visitor ''a@x'' demo_signup_db)))"
  have s: "issue_step d (snd (demo_visitor x d))" for x d
    unfolding demo_visitor_def
    by (rule issue_step.signed_up) (simp add: signup_license_def Let_def zero_License_def demo_signup_plan_def demo_defs)
  have run: "issue_step\<^sup>*\<^sup>* demo_signup_db ?d2"
    using s [of demo_signup_db "''a@x''"] s [of ?d1 "''b@x''"] by simp
  have start: "''PL'' \<noteq> ''''" "daily_cap ''PL'' demo_signup_db > 0" "signups_on ''PL'' 0 demo_signup_db \<le> daily_cap ''PL'' demo_signup_db"
    by code_simp+
  have eval: "signups_on ''PL'' 0 ?d1 = 1" "fst (demo_visitor ''b@x'' ?d1) = Inl ErrSignupCapReached" by code_simp+
  show ?thesis unfolding Let_def using daily_cap_holds [OF run start] eval by blast
qed

end
