(* ===== verification/KG_Fulfillment.thy ===== *)
theory KG_Fulfillment
  imports KG_Event_Claims KG_Issue KG_Stripe_Events KG_Renewals
begin

text \<open>
  Fulfilling a paid checkout session (\<^verbatim>\<open>internal/payment/stripe.go\<close>): the webhook, the success page and
  the syncs all hand a session to \<open>fulfillCheckout\<close>, which issues the licence it bought, extends the
  update period of one (\<open>fulfillRenewal\<close>) or moves one to the plan it paid for (\<open>fulfillUpgrade\<close>,
  \<^verbatim>\<open>internal/payment/upgrade.go\<close>). The metadata of a session is a map; what Stripe answers about
  customers, line items and sessions is in \<open>checkoutIO\<close>, with the template of the licence mail.
\<close>

section \<open>Sessions and their metadata\<close>

type_synonym metadata = "string \<rightharpoonup> string"

definition meta :: "metadata \<Rightarrow> string \<Rightarrow> string" where
  "meta m k = (case m k of None \<Rightarrow> '''' | Some v \<Rightarrow> v)"

record checkoutSession =
  cs_ID :: string
  cs_CustomerEmail :: string
  cs_DetailsEmail :: "string option"
  cs_Customer :: string
  cs_Subscription :: string
  cs_PaymentIntent :: string
  cs_PaymentStatus :: string
  cs_Status :: string
  cs_Created :: int
  cs_Metadata :: metadata

record checkoutIO =
  io_customer :: "string \<Rightarrow> string stripe_answer"
  io_first_price :: "string \<Rightarrow> string option stripe_answer"
  io_session :: "string \<Rightarrow> checkoutSession stripe_answer"
  io_recent :: "checkoutSession list"
  io_refunded :: "string \<Rightarrow> bool stripe_answer"
  io_render :: "string \<Rightarrow> string \<Rightarrow> string \<Rightarrow> string \<Rightarrow> string \<times> string"
  io_parseDuration :: "string \<Rightarrow> duration option"
  io_feedTTL :: duration

abbreviation pendingSessionProvider :: string where "pendingSessionProvider \<equiv> ''stripe_pending_session''"
abbreviation renewalRefundProvider :: string where "renewalRefundProvider \<equiv> ''stripe_renewal_refunded''"
abbreviation renewalIneligibleProvider :: string where "renewalIneligibleProvider \<equiv> ''stripe_renewal_ineligible''"
abbreviation upgradeIneligibleProvider :: string where "upgradeIneligibleProvider \<equiv> ''stripe_upgrade_ineligible''"

definition sessionPaid :: "string \<Rightarrow> bool" where
  "sessionPaid status \<longleftrightarrow> status = ''paid'' \<or> status = ''no_payment_required''"

definition sessionEmail :: "checkoutSession \<Rightarrow> string" where
  "sessionEmail s =
     (if cs_CustomerEmail s \<noteq> '''' then cs_CustomerEmail s
      else case cs_DetailsEmail s of Some email \<Rightarrow> email | None \<Rightarrow> '''')"

text \<open>\<^verbatim>\<open>strconv.ParseInt\<close> in base ten, at 64 bits: nothing for what is no number or does not fit.\<close>

definition parse_int :: "string \<Rightarrow> int option" where
  "parse_int s =
     (let (neg, ds) = (case s of c # cs \<Rightarrow> if c = CHR ''-'' then (True, cs) else if c = CHR ''+'' then (False, cs) else (False, s)
                       | [] \<Rightarrow> (False, []));
          v = (if neg then - digits_value ds else digits_value ds)
      in if ds = [] \<or> \<not> list_all is_digit ds \<or> v < - (2 ^ 63) \<or> v > MaxInt64 then None else Some v)"

definition sessionCreatedAt :: "metadata \<Rightarrow> time option" where
  "sessionCreatedAt m =
     (case parse_int (meta m ''session_created'') of
        None \<Rightarrow> None | Some sec \<Rightarrow> if sec \<le> 0 then None else Some (unix_time sec))"

section \<open>What a session bought\<close>

text \<open>The first item whose price a plan sells.\<close>

fun priced_item :: "subscriptionItemEvent list \<Rightarrow> db \<Rightarrow> (Plan \<times> int) option result" where
  "priced_item [] d = Inr None"
| "priced_item (it # items) d =
     (case si_Price it of
        None \<Rightarrow> priced_item items d
      | Some price \<Rightarrow>
          (case planForPrice price d of
             Inl err \<Rightarrow> Inl err
           | Inr (Some plan) \<Rightarrow> Inr (Some (plan, clampQuantity (si_Quantity it)))
           | Inr None \<Rightarrow> priced_item items d))"

definition resolvePlan ::
  "StripeHandler \<Rightarrow> string \<Rightarrow> db \<Rightarrow> (Plan option \<times> int \<times> subscriptionEvent option) result" where
  "resolvePlan h subID d =
     (case sh_get h 0 subID of
        StripeNotFound \<Rightarrow> Inr (None, 1, None)
      | StripeFailed \<Rightarrow> Inl (ErrStripe ''fetch subscription'')
      | Got sub \<Rightarrow>
          if se_Items sub = [] then Inr (None, 1, Some sub)
          else case priced_item (se_Items sub) d of
            Inl err \<Rightarrow> Inl err
          | Inr (Some (plan, quantity)) \<Rightarrow> Inr (Some plan, quantity, Some sub)
          | Inr None \<Rightarrow> Inr (None, if length (se_Items sub) = 1 then subscriptionQuantity (Some sub) else 1, Some sub))"

definition resolvePlanFromLineItems :: "checkoutIO \<Rightarrow> string \<Rightarrow> db \<Rightarrow> Plan option result" where
  "resolvePlanFromLineItems io sessionID d =
     (case io_first_price io sessionID of
        StripeFailed \<Rightarrow> Inl (ErrStripe ''list line items'')
      | StripeNotFound \<Rightarrow> Inr None
      | Got None \<Rightarrow> Inr None
      | Got (Some price) \<Rightarrow> if price = '''' then Inr None else planForPrice price d)"

text \<open>The subscription's price decides, then the plan the metadata names, then the first line item.\<close>

definition checkout_plan ::
  "checkoutIO \<Rightarrow> StripeHandler \<Rightarrow> (nat \<Rightarrow> db \<Rightarrow> db) \<Rightarrow> metadata \<Rightarrow> string \<Rightarrow> string \<Rightarrow> db
   \<Rightarrow> (Plan \<times> int \<times> subscriptionEvent option) option result \<times> db" where
  "checkout_plan io h mid m subID sessionID d =
     (case (if subID \<noteq> '''' then resolvePlan h subID d else Inr (None, 1, None)) of
        Inl err \<Rightarrow> (Inl err, d)
      | Inr (Some plan, quantity, sub) \<Rightarrow> (Inr (Some (plan, quantity, sub)), d)
      | Inr (None, quantity, sub) \<Rightarrow>
          let d1 = mid 0 d in
          (case (if meta m ''plan_id'' = '''' then Inr None
                 else case FindPlanByID (meta m ''plan_id'') d1 of
                   Inr plan \<Rightarrow> Inr (Some plan) | Inl err \<Rightarrow> if err = ErrNoRows then Inr None else Inl err) of
             Inl err \<Rightarrow> (Inl err, d1)
           | Inr (Some plan) \<Rightarrow> (Inr (Some (plan, quantity, sub)), d1)
           | Inr None \<Rightarrow>
               let d2 = mid 1 d1 in
               (case (if sessionID \<noteq> '''' then resolvePlanFromLineItems io sessionID d2 else Inr None) of
                  Inl err \<Rightarrow> (Inl err, d2)
                | Inr None \<Rightarrow> (Inr None, d2)
                | Inr (Some plan) \<Rightarrow> (Inr (Some (plan, quantity, sub)), d2))))"

definition checkout_email :: "checkoutIO \<Rightarrow> string \<Rightarrow> string \<Rightarrow> string result" where
  "checkout_email io customerID email =
     (if customerID = '''' then Inr email
      else case io_customer io customerID of
        Got address \<Rightarrow> Inr (if address \<noteq> '''' then address else email)
      | StripeNotFound \<Rightarrow> Inr email
      | StripeFailed \<Rightarrow> Inl (ErrStripe ''fetch customer''))"

text \<open>
  The kind of licence the session sold: what its metadata froze, what the plan was selling when it
  was opened, or what its shape tells. \<open>None\<close> when nothing says otherwise than the plan.
\<close>

definition sold_type :: "metadata \<Rightarrow> Plan \<Rightarrow> string \<Rightarrow> db \<Rightarrow> string option result" where
  "sold_type m plan subID d =
     (let frozen = trim_space (meta m ''license_type'') in
      if frozen \<noteq> '''' then Inr (Some frozen)
      else case (case sessionCreatedAt m of None \<Rightarrow> Inr None | Some created \<Rightarrow> PlanTermsAt (plan_ID plan) created d) of
        Inl err \<Rightarrow> Inl err
      | Inr terms \<Rightarrow>
          let sold = (case terms of None \<Rightarrow> '''' | Some (_, sold) \<Rightarrow> sold);
              recurringSold = (subID \<noteq> '''');
              recurringNow = (plan_LicenseType plan = ''subscription'' \<or> plan_LicenseType plan = ''trial'')
          in if sold \<noteq> '''' then Inr (Some sold)
             else if recurringSold \<noteq> recurringNow then Inr (Some (if recurringSold then ''subscription'' else ''perpetual''))
             else Inr None)"

text \<open>The update period on offer at checkout.\<close>

definition sold_days :: "metadata \<Rightarrow> Plan \<Rightarrow> db \<Rightarrow> int result" where
  "sold_days m plan d =
     (case m ''updates_days'' of
        Some v \<Rightarrow> Inr (case parse_int v of Some days \<Rightarrow> days | None \<Rightarrow> plan_UpdatesDays plan)
      | None \<Rightarrow>
          (case sessionCreatedAt m of
             None \<Rightarrow> Inr (plan_UpdatesDays plan)
           | Some created \<Rightarrow>
               (case PlanTermsAt (plan_ID plan) created d of
                  Inl err \<Rightarrow> Inl err
                | Inr None \<Rightarrow> Inr (plan_UpdatesDays plan)
                | Inr (Some (sold, _)) \<Rightarrow> Inr sold)))"

section \<open>Issuing the licence\<close>

definition subscriptionStart :: "subscriptionEvent option \<Rightarrow> License \<Rightarrow> License" where
  "subscriptionStart sub lic =
     (case sub of
        None \<Rightarrow> lic
      | Some s \<Rightarrow>
          let lic = (if se_Status s = ''trialing'' then lic\<lparr>lic_Status := StatusTrialing\<rparr>
                     else if se_Status s = ''active'' then lic\<lparr>lic_Status := StatusActive\<rparr> else lic);
              until = foldl (\<lambda>m it. if si_CurrentPeriodEnd it > m then si_CurrentPeriodEnd it else m) 0 (se_Items s)
          in if until > 0 then lic\<lparr>lic_ValidUntil := Some (unix_time until)\<rparr> else lic)"

text \<open>A call of \<^verbatim>\<open>fulfillCheckout\<close>.\<close>

record checkoutCall =
  cc_email :: string
  cc_customer :: string
  cc_subscription :: string
  cc_paymentIntent :: string
  cc_metadata :: metadata
  cc_source :: string

definition cc_session :: "checkoutCall \<Rightarrow> string" where
  "cc_session c = meta (cc_metadata c) ''session_id''"

definition checkout_license ::
  "env \<Rightarrow> checkoutCall \<Rightarrow> Plan \<Rightarrow> int \<Rightarrow> subscriptionEvent option \<Rightarrow> string \<Rightarrow> string \<Rightarrow> License" where
  "checkout_license e c plan quantity sub email key =
     (let lic = zero_License\<lparr>lic_ProductID := plan_ProductID plan, lic_PlanID := plan_ID plan, lic_Email := email,
            lic_LicenseKey := key, lic_PaymentProvider := ''stripe'', lic_StripeCustomerID := cc_customer c,
            lic_Status := (if plan_LicenseType plan = ''trial'' then StatusTrialing else StatusActive), lic_Quantity := quantity\<rparr>;
          lic = (if plan_LicenseType plan = ''trial'' \<and> plan_TrialDays plan > 0
                 then lic\<lparr>lic_ValidUntil := Some (time_add (env_now e) (days_dur (plan_TrialDays plan)))\<rparr> else lic)
      in subscriptionStart sub lic)"

definition give_back :: "string \<Rightarrow> db \<Rightarrow> db" where
  "give_back sessionID d =
     (if sessionID = '''' then d else snd (release fulfilledSessionProvider sessionClaimProvider sessionID d))"

text \<open>
  From the claim to the licence: an answer for the caller, or the licence written. The plan must
  still be of the kind sold and its period enforceable, or the sale waits with its claim given back.
\<close>

definition issue_checkout ::
  "checkoutIO \<Rightarrow> (nat \<Rightarrow> env) \<Rightarrow> (nat \<Rightarrow> db \<Rightarrow> db) \<Rightarrow> checkoutCall \<Rightarrow> Plan \<Rightarrow> int \<Rightarrow> subscriptionEvent option \<Rightarrow> string \<Rightarrow> string \<Rightarrow> db
   \<Rightarrow> ((bool \<times> error option) + License) \<times> db" where
  "issue_checkout io env_at mid c plan quantity sub email key d =
     (let sid = cc_session c in
      case sold_type (cc_metadata c) plan (cc_subscription c) d of
        Inl err \<Rightarrow> (Inl (False, Some err), d)
      | Inr sold \<Rightarrow>
      if sold \<noteq> None \<and> sold \<noteq> Some (plan_LicenseType plan) then (Inl (False, Some ErrPlanChanged), give_back sid (mid 0 d))
      else
        let d1 = mid 1 d in
        (case sold_days (cc_metadata c) plan d1 of
           Inl err \<Rightarrow> (Inl (False, Some err), d1)
         | Inr days \<Rightarrow>
             let d2 = mid 2 d1; until = UpdatesUntilFor (plan_LicenseType plan) days (env_now (env_at 0)) in
             (case (if until = None then Inr True else MaintenanceFeaturesEnabled d2) of
                Inl err \<Rightarrow> (Inl (False, Some err), d2)
              | Inr False \<Rightarrow> (Inl (False, Some ErrUpdatePeriodNotEnforceable), give_back sid (mid 3 d2))
              | Inr True \<Rightarrow>
                  let lic = (checkout_license (env_at 0) c plan quantity sub email key)\<lparr>lic_UpdatesUntil := until,
                        lic_UpdatesTermsSet := True, lic_StripeSubscriptionID := cc_subscription c,
                        lic_StripePaymentIntentID := cc_paymentIntent c, lic_StripeCheckoutSessionID := sid\<rparr>;
                      d3 = snd (UpsertUser (env_at 1) (zero_User\<lparr>user_Email := email\<rparr>) (mid 3 d2))
                  in (case CreateLicenseWithSubscription (env_at 2) (io_parseDuration io) (io_feedTTL io) lic plan (mid 4 d3) of
                        (Inr lic, d4) \<Rightarrow> (Inr lic, d4)
                      | (Inl err, d4) \<Rightarrow>
                          if err = ErrCheckoutSessionConflict then (Inl (True, None), d4)
                          else (Inl (False, Some err), give_back sid (mid 5 d4))))))"

section \<open>After the licence is written\<close>

definition html_escape :: "string \<Rightarrow> string" where
  "html_escape s = concat (map (\<lambda>c. if c = CHR ''<'' then ''&lt;'' else if c = CHR ''>'' then ''&gt;''
     else if c = CHR ''&'' then ''&amp;'' else if c = CHR 0x27 then ''&#39;'' else if c = CHR 0x22 then ''&#34;'' else [c]) s)"

definition attr :: "string \<Rightarrow> string \<Rightarrow> string" where
  "attr name v = name @ ''='' @ [CHR 0x22] @ v @ [CHR 0x22]"

text \<open>The mail of a server with no mail service, built in place.\<close>

definition plain_license_mail :: "string \<Rightarrow> string \<Rightarrow> string \<Rightarrow> string" where
  "plain_license_mail productName planName key =
     concat (map (\<lambda>line. line @ [CHR 0x0A])
      [''<!DOCTYPE html>'',
       ''<html><body '' @ attr ''style'' ''font-family: -apple-system, sans-serif; max-width: 600px; margin: 0 auto; padding: 20px;'' @ ''>'',
       ''<h2 '' @ attr ''style'' ''color: #111;'' @ ''>Your '' @ html_escape productName @ '' License</h2>'',
       ''<p>Your <strong>'' @ html_escape planName @ ''</strong> license is ready.</p>'',
       ''<div '' @ attr ''style'' ''background: #f4f4f5; border-radius: 8px; padding: 16px; margin: 16px 0; font-family: monospace; font-size: 18px; text-align: center; letter-spacing: 2px;''
         @ ''>'' @ html_escape key @ ''</div>'',
       ''<p '' @ attr ''style'' ''color: #666; font-size: 14px;'' @ ''>Keep this key safe. You'll need it to activate your software.</p>''])
     @ ''</body></html>''"

definition checkout_mail :: "checkoutIO \<Rightarrow> StripeHandler \<Rightarrow> env \<Rightarrow> License \<Rightarrow> Plan \<Rightarrow> string \<Rightarrow> db \<Rightarrow> db" where
  "checkout_mail io h e lic plan email d =
     (let (productName, downloadURL) = (case FindProductByID (plan_ProductID plan) d of
            Inr p \<Rightarrow> (if prod_Name p \<noteq> '''' then prod_Name p else ''Your Software'', prod_DownloadURL p)
          | Inl _ \<Rightarrow> (''Your Software'', ''''));
          key = DecryptLicenseKey e lic;
          (subject, body) = (if sh_email h then io_render io productName (plan_Name plan) key downloadURL
            else (''Your license for '' @ productName, plain_license_mail productName (plan_Name plan) key))
      in if email = '''' then d else snd (EnqueueEmail e email subject body d))"

definition followNewSubscription ::
  "(nat \<Rightarrow> env) \<Rightarrow> (nat \<Rightarrow> db \<Rightarrow> db) \<Rightarrow> StripeHandler \<Rightarrow> License \<Rightarrow> db \<Rightarrow> db" where
  "followNewSubscription env_at mid h lic d =
     (if lic_StripeSubscriptionID lic = '''' then d
      else case read_stamped (env_at 0) h 1 (lic_StripeSubscriptionID lic) d of
        Inr (asOf, Some cur) \<Rightarrow> snd (syncFromCurrent (env_at 1) mid h lic cur asOf ''checkout.session.completed'' (mid 4 d))
      | _ \<Rightarrow> d)"

definition issued_checkout ::
  "checkoutIO \<Rightarrow> StripeHandler \<Rightarrow> (nat \<Rightarrow> env) \<Rightarrow> (nat \<Rightarrow> nat \<Rightarrow> db \<Rightarrow> db) \<Rightarrow> checkoutCall \<Rightarrow> Plan \<Rightarrow> string \<Rightarrow> License \<Rightarrow> db \<Rightarrow> db" where
  "issued_checkout io h env_at mid c plan email lic d =
     (let sid = cc_session c;
          d1 = (if sid = '''' then d
                else snd (DeleteProcessedEvent pendingSessionProvider sid
                  (mid 0 0 (snd (CompleteProcessedEvent sessionClaimProvider sid d)))));
          d2 = mid 0 1 d1;
          found = FindUserByEmail email d2;
          lic = (case found of Inl _ \<Rightarrow> lic | Inr u \<Rightarrow> lic\<lparr>lic_UserID := user_ID u\<rparr>);
          d3 = (case found of Inl _ \<Rightarrow> d2 | Inr u \<Rightarrow> snd (UpdateLicenseUser (lic_ID lic) (user_ID u) (mid 0 2 d2)));
          d4 = checkout_mail io h (env_at 0) lic plan email (mid 0 3 d3);
          d5 = Audit (provider_audit (lic_ID lic) ''created'' (cc_source c)
                 [(''provider'', DStr ''stripe''), (''email'', DStr email), (''plan'', DStr (plan_Name plan))]) (mid 0 4 d4);
          d6 = notify (sh_webhook h) (lic_ProductID lic) ''license.created''
                 [(''license_id'', DStr (lic_ID lic)), (''email'', DStr (lic_Email lic)), (''plan_id'', DStr (lic_PlanID lic))] d5
      in followNewSubscription (\<lambda>n. env_at (Suc n)) (mid 1) h lic (mid 0 5 d6))"

section \<open>A paid renewal\<close>

definition rfc3339 :: "time \<Rightarrow> string" where
  "rfc3339 t =
     (let secs = unix_seconds t; (y, m, dd) = civil_from_days (secs div 86400); r = secs mod 86400
      in pad4 y @ ''-'' @ pad2 m @ ''-'' @ pad2 dd @ ''T'' @ pad2 (r div 3600) @ '':'' @ pad2 (r div 60 mod 60) @ '':'' @ pad2 (r mod 60) @ ''Z'')"

text \<open>No period is told as an empty string here, as a null in the code.\<close>

definition notifyUpdatesChanged :: "StripeHandler \<Rightarrow> string \<Rightarrow> string \<Rightarrow> db \<Rightarrow> db" where
  "notifyUpdatesChanged h licenseID reason d =
     (if \<not> sh_webhook h then d
      else case FindLicenseByID licenseID d of
        Inl _ \<Rightarrow> d
      | Inr lic \<Rightarrow> Dispatch (lic_ProductID lic) ''license.updates_changed''
          [(''license_id'', DStr (lic_ID lic)), (''email'', DStr (lic_Email lic)),
           (''updates_until'', DStr (case EffectiveUpdatesUntil lic of None \<Rightarrow> '''' | Some t \<Rightarrow> rfc3339 t)), (''reason'', DStr reason)] d)"

text \<open>Marker, eligibility and write in one transaction under the renewal lock; whether a refund came first.\<close>

definition renewal_tx :: "env \<Rightarrow> LicenseRenewal \<Rightarrow> db \<Rightarrow> (bool \<times> unit result) \<times> LicenseRenewal \<times> db" where
  "renewal_tx e r d =
     (case (if ren_StripePaymentIntentID r = '''' then Inr False else HasProcessedEvent renewalRefundProvider (ren_StripePaymentIntentID r) d) of
        Inl err \<Rightarrow> ((False, Inl err), r, d)
      | Inr True \<Rightarrow>
          (case RecordRefundedRenewalIn e r d of
             (Inl err, r', _) \<Rightarrow> ((True, Inl err), r', d)
           | (Inr _, r', d1) \<Rightarrow>
               (case DeleteProcessedEvent renewalRefundProvider (ren_StripePaymentIntentID r) d1 of
                  (Inl err, _) \<Rightarrow> ((True, Inl err), r', d) | (Inr _, d2) \<Rightarrow> ((True, Inr ()), r', d2)))
      | Inr False \<Rightarrow> (case ApplyLicenseRenewalIn e r d of (res, r', d1) \<Rightarrow> ((False, res), r', d1)))"

definition renewal_recorded :: "string \<Rightarrow> db \<Rightarrow> bool result \<times> db" where
  "renewal_recorded sessionID d =
     (case FindLicenseRenewalBySession sessionID d of
        Inr _ \<Rightarrow> (Inr True, d) | Inl err \<Rightarrow> if err = ErrNoRows then (Inr False, d) else (Inl err, d))"

definition renewal_settled ::
  "StripeHandler \<Rightarrow> (nat \<Rightarrow> db \<Rightarrow> db) \<Rightarrow> string \<Rightarrow> string \<Rightarrow> string \<Rightarrow> int \<Rightarrow> bool \<Rightarrow> LicenseRenewal \<Rightarrow> db \<Rightarrow> db" where
  "renewal_settled h mid source licenseID sessionID days refundedFirst r d =
     (let d1 = snd (CompleteProcessedEvent sessionClaimProvider sessionID d);
          d2 = snd (DeleteProcessedEvent pendingSessionProvider sessionID (mid 0 d1));
          d3 = snd (DeleteProcessedEvent renewalIneligibleProvider sessionID (mid 1 d2));
          d4 = Audit (provider_audit licenseID (if refundedFirst then ''updates_renewal_refunded'' else ''updates_renewed'') ''webhook''
                 [(''days'', DInt days),
                  (''updates_until'', DStr (case ren_UpdatesUntil r of Some t \<Rightarrow> if refundedFirst then '''' else rfc3339 t | None \<Rightarrow> '''')),
                  (''session_id'', DStr sessionID), (''provider'', DStr ''stripe''), (''source'', DStr source)]) (mid 2 d3)
      in if refundedFirst then d4 else notifyUpdatesChanged h licenseID ''renewal'' (mid 3 d4))"

definition renewal_refused ::
  "env \<Rightarrow> (nat \<Rightarrow> db \<Rightarrow> db) \<Rightarrow> string \<Rightarrow> string \<Rightarrow> string \<Rightarrow> string \<Rightarrow> int \<Rightarrow> db \<Rightarrow> db" where
  "renewal_refused e mid source licenseID sessionID paymentIntentID days d =
     (let d1 = mid 0 (snd (release fulfilledSessionProvider sessionClaimProvider sessionID d)) in
      case ClaimProcessedEvent e renewalIneligibleProvider sessionID d1 of
        (Inr True, d2) \<Rightarrow> Audit (provider_audit licenseID ''updates_renewal_ineligible'' ''webhook''
          [(''session_id'', DStr sessionID), (''payment_intent'', DStr paymentIntentID), (''days'', DInt days),
           (''provider'', DStr ''stripe''), (''source'', DStr source)]) (mid 1 d2)
      | (_, d2) \<Rightarrow> d2)"

definition fulfillRenewal ::
  "StripeHandler \<Rightarrow> (nat \<Rightarrow> env) \<Rightarrow> (nat \<Rightarrow> nat \<Rightarrow> db \<Rightarrow> db) \<Rightarrow> checkoutCall \<Rightarrow> db \<Rightarrow> (bool \<times> error option) \<times> db" where
  "fulfillRenewal h env_at mid c d =
     (let sid = cc_session c; licenseID = meta (cc_metadata c) ''license_id'';
          days = parse_int64 (meta (cc_metadata c) ''renewal_days'') in
      if sid = '''' \<or> licenseID = '''' \<or> days \<le> 0 then ((False, None), d)
      else case renewal_recorded sid d of
        (Inl err, d1) \<Rightarrow> ((False, Some err), d1)
      | (Inr True, d1) \<Rightarrow> ((True, None), d1)
      | (Inr False, d1) \<Rightarrow>
          let d2 = mid 0 0 d1 in
          (case FindLicenseByID licenseID d2 of
             Inl err \<Rightarrow> ((False, if err = ErrNoRows then None else Some err), d2)
           | Inr lic \<Rightarrow>
               (case reserve env_at (mid 1) fulfilledSessionProvider sessionClaimProvider sid (Some (renewal_recorded sid)) (mid 0 1 d2) of
                  ((_, Some err), d3) \<Rightarrow> ((False, Some err), d3)
                | (((False, True), None), d3) \<Rightarrow> ((True, None), d3)
                | (((False, False), None), d3) \<Rightarrow>
                    (case sessionFulfilled (mid 2) sid (mid 0 2 d3) of
                       (Inl err, d4) \<Rightarrow> ((False, Some err), d4) | (Inr f, d4) \<Rightarrow> ((f, None), d4))
                | (((True, _), None), d3) \<Rightarrow>
                    let r = zero_LicenseRenewal\<lparr>ren_LicenseID := lic_ID lic, ren_StripeCheckoutSessionID := sid,
                          ren_StripePaymentIntentID := cc_paymentIntent c, ren_Days := days\<rparr> in
                    (case renewal_tx (env_at 4) r (mid 0 3 d3) of
                       ((refundedFirst, Inr _), r', d4) \<Rightarrow>
                         ((True, None), renewal_settled h (mid 3) (cc_source c) (lic_ID lic) sid days refundedFirst r' (mid 0 4 d4))
                     | ((refundedFirst, Inl err), _, d4) \<Rightarrow>
                         if err = ErrRenewalSessionConflict then ((True, None), d4)
                         else if err = ErrRenewalIneligible then
                           ((False, None), renewal_refused (env_at 5) (mid 3) (cc_source c) (lic_ID lic) sid (cc_paymentIntent c) days (mid 0 4 d4))
                         else ((False, Some err), snd (release fulfilledSessionProvider sessionClaimProvider sid (mid 0 4 d4)))))))"

section \<open>A paid upgrade\<close>

definition session_upgrade :: "checkoutCall \<Rightarrow> upgradeSession" where
  "session_upgrade c =
     \<lparr>us_ID = cc_session c, us_Customer = cc_customer c, us_Subscription = cc_subscription c, us_PaymentIntent = cc_paymentIntent c,
      us_LicenseID = meta (cc_metadata c) ''license_id'', us_PlanID = meta (cc_metadata c) ''plan_id'',
      us_UpgradeID = meta (cc_metadata c) ''upgrade_id'', us_LicenseType = meta (cc_metadata c) ''license_type''\<rparr>"

text \<open>A session nothing will ever apply for is done; one closed just now is told of.\<close>

definition upgrade_closed :: "(nat \<Rightarrow> db \<Rightarrow> db) \<Rightarrow> checkoutCall \<Rightarrow> LicenseUpgrade option \<Rightarrow> db \<Rightarrow> db" where
  "upgrade_closed mid c closed d =
     (let d1 = snd (CompleteProcessedEvent sessionClaimProvider (cc_session c) d);
          d2 = snd (DeleteProcessedEvent pendingSessionProvider (cc_session c) (mid 0 d1))
      in case closed of
        None \<Rightarrow> d2
      | Some u \<Rightarrow> Audit (provider_audit (us_LicenseID (session_upgrade c)) ''upgrade_not_applied'' (cc_source c)
          [(''session_id'', DStr (cc_session c)), (''plan_id'', DStr (us_PlanID (session_upgrade c))), (''state'', DStr (up_State u)),
           (''reason'', DStr (up_EndReason u)), (''provider'', DStr ''stripe'')]) (mid 1 d2))"

definition upgrade_refused :: "env \<Rightarrow> (nat \<Rightarrow> db \<Rightarrow> db) \<Rightarrow> checkoutCall \<Rightarrow> db \<Rightarrow> db" where
  "upgrade_refused e mid c d =
     (let d1 = mid 0 (snd (release fulfilledSessionProvider sessionClaimProvider (cc_session c) d)) in
      case ClaimProcessedEvent e upgradeIneligibleProvider (cc_session c) d1 of
        (Inr True, d2) \<Rightarrow> Audit (provider_audit (us_LicenseID (session_upgrade c)) ''upgrade_ineligible'' (cc_source c)
          [(''session_id'', DStr (cc_session c)), (''plan_id'', DStr (us_PlanID (session_upgrade c))),
           (''payment_intent'', DStr (cc_paymentIntent c)), (''subscription'', DStr (cc_subscription c)),
           (''provider'', DStr ''stripe'')]) (mid 1 d2)
      | (_, d2) \<Rightarrow> d2)"

definition upgrade_applied ::
  "env \<Rightarrow> StripeHandler \<Rightarrow> (nat \<Rightarrow> db \<Rightarrow> db) \<Rightarrow> checkoutCall \<Rightarrow> LicenseUpgrade \<Rightarrow> License \<Rightarrow> Plan \<Rightarrow> string \<Rightarrow> int \<Rightarrow>
   subscriptionEvent option \<Rightarrow> time \<Rightarrow> db \<Rightarrow> db" where
  "upgrade_applied e h mid c u lic newPlan oldPlanID oldQuantity cur asOf d =
     (let d1 = snd (CompleteProcessedEvent sessionClaimProvider (cc_session c) d);
          d2 = snd (DeleteProcessedEvent pendingSessionProvider (cc_session c) (mid 0 d1));
          d3 = snd (DeleteProcessedEvent upgradeIneligibleProvider (cc_session c) (mid 1 d2));
          d4 = (case cur of None \<Rightarrow> d3
                | Some s \<Rightarrow> snd (SetSubscriptionCancelScheduled e (lic_ID lic) (EndsThisPeriod s) asOf (mid 2 d3)));
          d5 = Audit (provider_audit (lic_ID lic) ''plan_changed'' (cc_source c)
                 [(''old_plan_id'', DStr oldPlanID), (''new_plan_id'', DStr (plan_ID newPlan)), (''kind'', DStr ''upgrade''),
                  (''upgrade_id'', DStr (up_ID u)), (''session_id'', DStr (cc_session c)), (''provider'', DStr ''stripe'')]) (mid 3 d4);
          d6 = notify (sh_webhook h) (lic_ProductID lic) ''plan.changed''
                 [(''license_id'', DStr (lic_ID lic)), (''old_plan_id'', DStr oldPlanID), (''new_plan_id'', DStr (plan_ID newPlan))] d5;
          d7 = announceUpgradeQuantity h lic oldPlanID oldQuantity ''upgrade'' (mid 4 d6)
      in mailPlanChanged h lic oldPlanID (plan_Name newPlan) (mid 5 d7))"

definition fulfillUpgrade ::
  "checkoutIO \<Rightarrow> StripeHandler \<Rightarrow> (nat \<Rightarrow> env) \<Rightarrow> (nat \<Rightarrow> nat \<Rightarrow> db \<Rightarrow> db) \<Rightarrow> checkoutCall \<Rightarrow> db \<Rightarrow> (bool \<times> error option) \<times> db" where
  "fulfillUpgrade io h env_at mid c d =
     (let sess = session_upgrade c; sid = us_ID sess in
      if sid = '''' \<or> us_LicenseID sess = '''' \<or> us_PlanID sess = '''' then ((False, None), d)
      else case StripeReadStamp (env_at 4) d of
        Inl err \<Rightarrow> ((False, Some err), d)
      | Inr asOf \<Rightarrow>
      (case upgradeStillPaid h (io_refunded io) (us_Subscription sess) (us_PaymentIntent sess) of
        Inl err \<Rightarrow> ((False, Some err), d)
      | Inr (closeAs, cur) \<Rightarrow>
      (case claimSession env_at (mid 1) sid (mid 0 0 d) of
        (Inl err, d1) \<Rightarrow> ((False, Some err), d1)
      | (Inr False, d1) \<Rightarrow>
          (case sessionFulfilled (mid 2) sid (mid 0 1 d1) of
             (Inl err, d2) \<Rightarrow> ((False, Some err), d2) | (Inr f, d2) \<Rightarrow> ((f, None), d2))
      | (Inr True, d1) \<Rightarrow>
          (case applyUpgradeIn (env_at 5) sess closeAs cur asOf (mid 0 2 d1) of
             (Inr (u, None), d2) \<Rightarrow> ((True, None), upgrade_closed (mid 3) c (Some u) (mid 0 3 d2))
           | (Inr (u, Some (lic, plan, oldPlanID, oldQuantity)), d2) \<Rightarrow>
               ((True, None), upgrade_applied (env_at 6) h (mid 3) c u lic plan oldPlanID oldQuantity cur asOf (mid 0 3 d2))
           | (Inl err, d2) \<Rightarrow>
               if err = ErrCheckoutSessionConflict then ((True, None), d2)
               else if err = errUpgradeClosed then ((True, None), upgrade_closed (mid 3) c None (mid 0 3 d2))
               else if err = errUpgradeIneligible then ((False, None), upgrade_refused (env_at 6) (mid 3) c (mid 0 3 d2))
               else ((False, Some err), snd (release fulfilledSessionProvider sessionClaimProvider sid (mid 0 3 d2)))))))"

section \<open>Any paid session\<close>

text \<open>A purchase: plan, address and key before the claim, the licence after it.\<close>

definition fulfillPurchase ::
  "checkoutIO \<Rightarrow> StripeHandler \<Rightarrow> (nat \<Rightarrow> env) \<Rightarrow> (nat \<Rightarrow> nat \<Rightarrow> db \<Rightarrow> db) \<Rightarrow> checkoutCall \<Rightarrow> db \<Rightarrow> (bool \<times> error option) \<times> db" where
  "fulfillPurchase io h env_at mid c d =
     (let sid = cc_session c in
      case checkout_plan io h (mid 1) (cc_metadata c) (cc_subscription c) sid d of
        (Inl err, d1) \<Rightarrow> ((False, Some err), d1)
      | (Inr None, d1) \<Rightarrow> ((False, None), d1)
      | (Inr (Some (plan, quantity, sub)), d1) \<Rightarrow>
      (case checkout_email io (cc_customer c) (cc_email c) of
        Inl err \<Rightarrow> ((False, Some err), d1)
      | Inr email \<Rightarrow>
      if email = '''' then ((False, None), d1)
      else
        let d2 = mid 0 0 d1 in
        (case NewLicenseKey (env_at 4) (plan_ProductID plan) d2 of
           Inl err \<Rightarrow> ((False, Some err), d2)
         | Inr key \<Rightarrow>
             (case (if sid = '''' then (Inr True, mid 0 1 d2) else claimSession env_at (mid 2) sid (mid 0 1 d2)) of
                (Inl err, d3) \<Rightarrow> ((False, Some err), d3)
              | (Inr False, d3) \<Rightarrow>
                  (case sessionFulfilled (mid 3) sid (mid 0 2 d3) of
                     (Inl err, d4) \<Rightarrow> ((False, Some err), d4) | (Inr f, d4) \<Rightarrow> ((f, None), d4))
              | (Inr True, d3) \<Rightarrow>
                  (case issue_checkout io (\<lambda>n. env_at (5 + n)) (mid 3) c plan quantity sub email key (mid 0 2 d3) of
                     (Inl answer, d4) \<Rightarrow> (answer, d4)
                   | (Inr lic, d4) \<Rightarrow>
                       ((True, None), issued_checkout io h (\<lambda>n. env_at (8 + n)) (\<lambda>n. mid (4 + n)) c plan email lic (mid 0 3 d4)))))))"

definition fulfillCheckout ::
  "checkoutIO \<Rightarrow> StripeHandler \<Rightarrow> (nat \<Rightarrow> env) \<Rightarrow> (nat \<Rightarrow> nat \<Rightarrow> db \<Rightarrow> db) \<Rightarrow> checkoutCall \<Rightarrow> db \<Rightarrow> (bool \<times> error option) \<times> db" where
  "fulfillCheckout io h env_at mid c d =
     (case (if cc_session c = '''' then (Inr False, d) else sessionFulfilled (mid 0) (cc_session c) d) of
        (Inl err, d1) \<Rightarrow> ((False, Some err), d1)
      | (Inr True, d1) \<Rightarrow> ((True, None), d1)
      | (Inr False, d1) \<Rightarrow>
          if meta (cc_metadata c) ''kind'' = ''renewal'' then fulfillRenewal h env_at (\<lambda>n. mid (Suc n)) c (mid 0 4 d1)
          else if meta (cc_metadata c) ''kind'' = ''upgrade'' then fulfillUpgrade io h env_at (\<lambda>n. mid (Suc n)) c (mid 0 4 d1)
          else fulfillPurchase io h env_at (\<lambda>n. mid (Suc n)) c (mid 0 4 d1))"

section \<open>Who hands sessions in\<close>

definition session_call :: "string \<Rightarrow> checkoutSession \<Rightarrow> checkoutCall" where
  "session_call source s =
     \<lparr>cc_email = sessionEmail s, cc_customer = cs_Customer s, cc_subscription = cs_Subscription s,
      cc_paymentIntent = cs_PaymentIntent s,
      cc_metadata = (cs_Metadata s)(''session_id'' \<mapsto> cs_ID s, ''session_created'' \<mapsto> int_string (cs_Created s)), cc_source = source\<rparr>"

definition fulfillSession ::
  "checkoutIO \<Rightarrow> StripeHandler \<Rightarrow> (nat \<Rightarrow> env) \<Rightarrow> (nat \<Rightarrow> nat \<Rightarrow> db \<Rightarrow> db) \<Rightarrow> checkoutSession \<Rightarrow> string \<Rightarrow> db \<Rightarrow> (bool \<times> error option) \<times> db" where
  "fulfillSession io h env_at mid s source d = fulfillCheckout io h env_at mid (session_call source s) d"

text \<open>The event of a completed checkout; \<open>None\<close> for a payload that cannot be read.\<close>

definition onCheckoutCompleted ::
  "checkoutIO \<Rightarrow> StripeHandler \<Rightarrow> (nat \<Rightarrow> env) \<Rightarrow> (nat \<Rightarrow> nat \<Rightarrow> db \<Rightarrow> db) \<Rightarrow> checkoutSession option \<Rightarrow> db \<Rightarrow> error option \<times> db" where
  "onCheckoutCompleted io h env_at mid raw d =
     (case raw of
        None \<Rightarrow> (None, d)
      | Some s \<Rightarrow>
          if \<not> sessionPaid (cs_PaymentStatus s) then
            (case ClaimProcessedEvent (env_at 0) pendingSessionProvider (cs_ID s) d of
               (Inl err, d1) \<Rightarrow> (Some err, d1) | (Inr _, d1) \<Rightarrow> (None, d1))
          else
            (case fulfillCheckout io h (\<lambda>n. env_at (Suc n)) mid (session_call ''webhook'' s) d of
               ((True, err), d1) \<Rightarrow> (err, d1)
             | ((False, err), d1) \<Rightarrow>
                 (case ClaimProcessedEvent (env_at 0) pendingSessionProvider (cs_ID s) (mid 0 5 d1) of
                    (Inl perr, d2) \<Rightarrow> (Some perr, d2) | (Inr _, d2) \<Rightarrow> (err, d2))))"

section \<open>The periodic syncs\<close>

definition syncPendingSession ::
  "checkoutIO \<Rightarrow> StripeHandler \<Rightarrow> (nat \<Rightarrow> env) \<Rightarrow> (nat \<Rightarrow> nat \<Rightarrow> db \<Rightarrow> db) \<Rightarrow> string \<Rightarrow> db \<Rightarrow> db" where
  "syncPendingSession io h env_at mid sid d =
     (case io_session io sid of
        Got s \<Rightarrow>
          if sessionPaid (cs_PaymentStatus s) then
            (case fulfillSession io h env_at mid s ''sync'' d of
               ((True, None), d1) \<Rightarrow> snd (DeleteProcessedEvent pendingSessionProvider sid (mid 0 5 d1))
             | (_, d1) \<Rightarrow> d1)
          else if cs_Status s = ''expired'' then snd (DeleteProcessedEvent pendingSessionProvider sid d)
          else d
      | _ \<Rightarrow> d)"

text \<open>Completed sessions nothing was issued for, oldest first, from a position on.\<close>

definition ListPendingCheckoutSessions ::
  "env \<Rightarrow> duration \<Rightarrow> (time \<times> string) option \<Rightarrow> nat \<Rightarrow> db \<Rightarrow> (string \<times> time) list result" where
  "ListPendingCheckoutSessions e maxAge after limit d =
     (if db_fault d then Inl ErrDB
      else Inr (take limit (map (\<lambda>p. (pe_EventID p, pe_CreatedAt p))
        (sort_key (\<lambda>p. JoinKey (pe_CreatedAt p) (pe_EventID p))
          (filter (\<lambda>p. pe_Provider p = pendingSessionProvider \<and> pe_CreatedAt p > env_dbnow e - whole_seconds maxAge \<and>
                     \<not> exists_where (\<lambda>l. lic_StripeCheckoutSessionID l = pe_EventID p) (db_licenses d) \<and>
                     (case after of None \<Rightarrow> True | Some (t, s) \<Rightarrow> JoinKey (pe_CreatedAt p) (pe_EventID p) > JoinKey t s))
            (db_processed_events d))))))"

definition DeleteFulfilledPendingSessions :: "db \<Rightarrow> unit result \<times> db" where
  "DeleteFulfilledPendingSessions d =
     (if db_fault d then (Inl ErrDB, d)
      else (Inr (), d\<lparr>db_processed_events := delete_where
        (\<lambda>p. pe_Provider p = pendingSessionProvider \<and>
             (exists_where (\<lambda>l. lic_StripeCheckoutSessionID l = pe_EventID p) (db_licenses d) \<or>
              exists_where (\<lambda>r. ren_StripeCheckoutSessionID r = pe_EventID p) (db_renewals d)))
        (db_processed_events d)\<rparr>))"

definition sync_page ::
  "checkoutIO \<Rightarrow> StripeHandler \<Rightarrow> (nat \<Rightarrow> env) \<Rightarrow> (nat \<Rightarrow> nat \<Rightarrow> db \<Rightarrow> db) \<Rightarrow> (string \<times> time) list \<Rightarrow> db \<Rightarrow> db" where
  "sync_page io h env_at mid rows d = foldl (\<lambda>d (sid, _). syncPendingSession io h env_at mid sid (mid 0 6 d)) d rows"

text \<open>
  A round walks at most \<open>maxPerRound\<close> sessions, page by page, from where the last round stopped; the
  answer is where the next one goes on. \<open>seen\<close> grows by at least one a page.
\<close>

function sync_rounds ::
  "checkoutIO \<Rightarrow> StripeHandler \<Rightarrow> (nat \<Rightarrow> env) \<Rightarrow> (nat \<Rightarrow> nat \<Rightarrow> db \<Rightarrow> db) \<Rightarrow> nat \<Rightarrow> nat \<Rightarrow> nat \<Rightarrow> (time \<times> string) option \<Rightarrow>
   (time \<times> string) option \<Rightarrow> db \<Rightarrow> (time \<times> string) option \<times> db" where
  "sync_rounds io h env_at mid pageSize maxPerRound seen start after d =
     (if seen \<ge> maxPerRound then (after, d)
      else case ListPendingCheckoutSessions (env_at 0) (30 * (24 * Hour)) after pageSize d of
        Inl _ \<Rightarrow> (start, d)
      | Inr [] \<Rightarrow> (None, d)
      | Inr (r # rows) \<Rightarrow>
          sync_rounds io h env_at mid pageSize maxPerRound (seen + length (r # rows)) start
            (Some (snd (last (r # rows)), fst (last (r # rows)))) (sync_page io h env_at mid (r # rows) (mid 0 7 d)))"
  by pat_completeness auto
termination
  by (relation "measure (\<lambda>(io, h, env_at, mid, pageSize, maxPerRound, seen, start, after, d). maxPerRound - seen)") auto

definition SyncPendingCheckouts ::
  "checkoutIO \<Rightarrow> StripeHandler \<Rightarrow> (nat \<Rightarrow> env) \<Rightarrow> (nat \<Rightarrow> nat \<Rightarrow> db \<Rightarrow> db) \<Rightarrow> nat \<Rightarrow> (time \<times> string) option \<Rightarrow> db
   \<Rightarrow> (time \<times> string) option \<times> db" where
  "SyncPendingCheckouts io h env_at mid batchLimit pendingAfter d =
     (let maxPerRound = (if batchLimit > 0 then batchLimit else 1000); pageSize = min 100 maxPerRound;
          d1 = snd (DeleteFulfilledPendingSessions d)
      in sync_rounds io h env_at mid pageSize maxPerRound 0 pendingAfter pendingAfter (mid 0 8 d1))"

definition SyncRecentCheckouts ::
  "checkoutIO \<Rightarrow> StripeHandler \<Rightarrow> (nat \<Rightarrow> env) \<Rightarrow> (nat \<Rightarrow> nat \<Rightarrow> db \<Rightarrow> db) \<Rightarrow> db \<Rightarrow> db" where
  "SyncRecentCheckouts io h env_at mid d =
     foldl (\<lambda>d s.
       if \<not> sessionPaid (cs_PaymentStatus s) then snd (TryRecordProcessedEvent (env_at 0) pendingSessionProvider (cs_ID s) (mid 0 6 d))
       else case fulfillSession io h (\<lambda>n. env_at (Suc n)) mid s ''sync'' (mid 0 6 d) of
         ((True, _), d1) \<Rightarrow> d1
       | ((False, _), d1) \<Rightarrow> snd (TryRecordProcessedEvent (env_at 0) pendingSessionProvider (cs_ID s) (mid 0 5 d1)))
       d (io_recent io)"

section \<open>What is issued is what was sold\<close>

lemma created_steps:
  assumes "createLicenseWithSubscription e parse ttl l (Some plan) (\<lambda>_. Inr ()) d = (Inr lic, d')"
  shows "\<exists>p d1. prepareLicenseForInsert e l = Inr p \<and> plan_unchanged (Some plan) d = Inr () \<and>
     period_enforceable e parse ttl p d = Inr () \<and> insert_license e p d = Inr (lic, d1) \<and>
     (d' = d1 \<or> (\<exists>s. insert_subscription e s d1 = Inr d'))"
proof (cases "prepareLicenseForInsert e l")
  case (Inr p)
  have ok: "\<not> db_fault d" "LockReferencedRowsIn (lic_PlanID p) (lic_ProductID p) d = Inr ()" "plan_unchanged (Some plan) d = Inr ()"
    "period_enforceable e parse ttl p d = Inr ()"
    using assms Inr by (auto simp: createLicenseWithSubscription_def split: if_splits sum.split_asm)
  show ?thesis
  proof (cases "insert_license e p d")
    case (Inr w)
    obtain l' d1 where w: "w = (l', d1)" by (cases w)
    show ?thesis
    proof (cases "plan_LicenseType plan = ''subscription'' \<or> plan_LicenseType plan = ''trial''")
      case True
      then show ?thesis
        using assms ok Inr w \<open>prepareLicenseForInsert e l = Inr p\<close>
        by (cases "insert_subscription e (new_subscription e l' plan) d1") (auto simp: createLicenseWithSubscription_def)
    next
      case False
      then show ?thesis
        using assms ok Inr w \<open>prepareLicenseForInsert e l = Inr p\<close> by (auto simp: createLicenseWithSubscription_def)
    qed
  qed (use assms ok Inr in \<open>simp add: createLicenseWithSubscription_def\<close>)
qed (use assms in \<open>simp add: createLicenseWithSubscription_def\<close>)

lemma new_row_checked:
  assumes "createLicenseWithSubscription e parse ttl l (Some plan) (\<lambda>_. Inr ()) d = (Inr lic, d')"
  shows "\<exists>p. prepareLicenseForInsert e l = Inr p \<and> lic = license_defaults e p \<and>
     db_licenses d' = db_licenses d @ [bare_license lic] \<and> plan_unchanged (Some plan) d = Inr () \<and>
     period_enforceable e parse ttl p d = Inr () \<and> (\<exists>d1. insert_license e p d = Inr (lic, d1))"
proof -
  from created_steps [OF assms] obtain p d1 where p: "prepareLicenseForInsert e l = Inr p" "plan_unchanged (Some plan) d = Inr ()"
    "period_enforceable e parse ttl p d = Inr ()" "insert_license e p d = Inr (lic, d1)"
    and d': "d' = d1 \<or> (\<exists>s. insert_subscription e s d1 = Inr d')" by blast
  from inserted_row [OF p(4)] have row: "lic = license_defaults e p" "db_licenses d1 = db_licenses d @ [bare_license lic]" by simp_all
  moreover have "db_licenses d' = db_licenses d1" using d' insert_subscription_frame by blast
  ultimately show ?thesis using p by auto
qed

lemma first_of_session:
  "insert_license e p d = Inr (lic, d1) \<Longrightarrow> lic_StripeCheckoutSessionID p \<noteq> '''' \<Longrightarrow>
     \<forall>x \<in> set (db_licenses d). lic_StripeCheckoutSessionID x \<noteq> lic_StripeCheckoutSessionID p"
  by (auto simp: insert_license_def license_defaults_def Let_def split: if_splits)

lemma same_kind:
  "plan_unchanged (Some plan) d = Inr () \<Longrightarrow>
     \<exists>x. select_one (\<lambda>x. plan_ID x = plan_ID plan) (db_plans d) = Some x \<and> plan_LicenseType x = plan_LicenseType plan"
  by (auto simp: plan_unchanged_def split: option.splits if_splits)

lemma enforceable_period:
  "period_enforceable e parse ttl p d = Inr () \<Longrightarrow> lic_UpdatesUntil p \<noteq> None \<Longrightarrow>
     MaintenanceFeaturesEnabledForWriteIn d = Inr True \<and> FeedsCanEnforcePeriodsIn e parse (lic_ProductID p) ttl d = Inr True"
  by (auto simp: period_enforceable_def split: sum.splits if_splits)

lemma prepared_terms:
  "prepareLicenseForInsert e l = Inr p \<Longrightarrow>
     lic_UpdatesUntil p = lic_UpdatesUntil l \<and> lic_Quantity p = lic_Quantity l \<and> lic_StripePaymentIntentID p = lic_StripePaymentIntentID l"
  by (auto simp: prepareLicenseForInsert_def Let_def split: option.splits if_splits)

lemma default_terms:
  "lic_UpdatesUntil (license_defaults e p) = lic_UpdatesUntil p" "lic_PlanID (license_defaults e p) = lic_PlanID p"
  "lic_StripeCheckoutSessionID (license_defaults e p) = lic_StripeCheckoutSessionID p" "lic_Email (license_defaults e p) = lic_Email p"
  "lic_ProductID (license_defaults e p) = lic_ProductID p"
  by (simp_all add: license_defaults_def Let_def)

lemma checkout_license_terms:
  "lic_PlanID (checkout_license e c plan quantity sub email key) = plan_ID plan"
  "lic_ProductID (checkout_license e c plan quantity sub email key) = plan_ProductID plan"
  "lic_Email (checkout_license e c plan quantity sub email key) = email"
  "lic_Quantity (checkout_license e c plan quantity sub email key) = quantity"
  by (simp_all add: checkout_license_def subscriptionStart_def Let_def split: option.split)

text \<open>The only way out of \<open>issue_checkout\<close> with a licence.\<close>

lemma issue_checkout_issues:
  assumes "issue_checkout io env_at mid c plan quantity sub email key d = (Inr lic, d')"
  obtains sold days x l where "sold_type (cc_metadata c) plan (cc_subscription c) d = Inr sold"
    and "sold = None \<or> sold = Some (plan_LicenseType plan)" and "sold_days (cc_metadata c) plan (mid 1 d) = Inr days"
    and "CreateLicenseWithSubscription (env_at 2) (io_parseDuration io) (io_feedTTL io) l plan x = (Inr lic, d')"
    and "l = (checkout_license (env_at 0) c plan quantity sub email key)\<lparr>
            lic_UpdatesUntil := UpdatesUntilFor (plan_LicenseType plan) days (env_now (env_at 0)), lic_UpdatesTermsSet := True,
            lic_StripeSubscriptionID := cc_subscription c, lic_StripePaymentIntentID := cc_paymentIntent c,
            lic_StripeCheckoutSessionID := cc_session c\<rparr>"
    and "x = mid 4 (snd (UpsertUser (env_at 1) (zero_User\<lparr>user_Email := email\<rparr>) (mid 3 (mid 2 (mid 1 d)))))"
  using assms unfolding issue_checkout_def Let_def
  by (auto simp del: One_nat_def split: sum.splits if_splits bool.splits prod.splits)

text \<open>
  C7: what is issued is what was sold. When a checkout ends with a licence, it is one more row, the
  first of its session, for the plan and the address paid for; if the session froze the kind of
  licence and the days of updates it sold, then the database the row was inserted into (\<open>x\<close>: after the
  buyer's account, and whatever other requests did until then) held the plan with that kind, the
  licence has the period those days make, and a period was only written because in \<open>x\<close> the switch was on
  and the product's feeds could enforce it.
\<close>

theorem sold_terms_issued:
  assumes run: "issue_checkout io env_at mid c plan quantity sub email key d = (Inr lic, d')"
    and frozen: "trim_space (meta (cc_metadata c) ''license_type'') \<noteq> ''''"
      "cc_metadata c ''updates_days'' = Some v" "parse_int v = Some days"
  shows "\<exists>x. x = mid 4 (snd (UpsertUser (env_at 1) (zero_User\<lparr>user_Email := email\<rparr>) (mid 3 (mid 2 (mid 1 d))))) \<and>
     db_licenses d' = db_licenses x @ [bare_license lic] \<and>
     lic_PlanID lic = plan_ID plan \<and> lic_Email lic = email \<and> lic_StripeCheckoutSessionID lic = cc_session c \<and>
     (cc_session c \<noteq> '''' \<longrightarrow> (\<forall>other \<in> set (db_licenses x). lic_StripeCheckoutSessionID other \<noteq> cc_session c)) \<and>
     (\<exists>stored. select_one (\<lambda>p. plan_ID p = plan_ID plan) (db_plans x) = Some stored \<and>
        plan_LicenseType stored = trim_space (meta (cc_metadata c) ''license_type'')) \<and>
     lic_UpdatesUntil lic = UpdatesUntilFor (trim_space (meta (cc_metadata c) ''license_type'')) days (env_now (env_at 0)) \<and>
     (lic_UpdatesUntil lic \<noteq> None \<longrightarrow> MaintenanceFeaturesEnabledForWriteIn x = Inr True \<and>
        FeedsCanEnforcePeriodsIn (env_at 2) (io_parseDuration io) (plan_ProductID plan) (io_feedTTL io) x = Inr True)"
  using run
proof (cases rule: issue_checkout_issues)
  case (1 sold days' x l)
  from 1(1,2) frozen(1) have kind: "plan_LicenseType plan = trim_space (meta (cc_metadata c) ''license_type'')"
    by (auto simp: sold_type_def Let_def)
  from 1(3) frozen(2,3) have days: "days' = days" by (simp add: sold_days_def)
  from new_row_checked [OF 1(4) [unfolded CreateLicenseWithSubscription_def]]
  obtain p d1 where p: "prepareLicenseForInsert (env_at 2) l = Inr p" "lic = license_defaults (env_at 2) p"
    and rows: "db_licenses d' = db_licenses x @ [bare_license lic]" and same: "plan_unchanged (Some plan) x = Inr ()"
    and per: "period_enforceable (env_at 2) (io_parseDuration io) (io_feedTTL io) p x = Inr ()"
    and ins: "insert_license (env_at 2) p x = Inr (lic, d1)" by blast
  note l = prepared_keeps [OF p(1)] prepared_terms [OF p(1)]
  have copy: "lic_PlanID lic = plan_ID plan" "lic_Email lic = email" "lic_StripeCheckoutSessionID lic = cc_session c"
    "lic_UpdatesUntil lic = UpdatesUntilFor (plan_LicenseType plan) days (env_now (env_at 0))"
    "lic_StripeCheckoutSessionID p = cc_session c" "lic_UpdatesUntil p = lic_UpdatesUntil lic" "lic_ProductID p = plan_ProductID plan"
    using l 1(5) days by (simp_all add: p(2) default_terms checkout_license_terms)
  have first: "cc_session c \<noteq> '''' \<longrightarrow> (\<forall>other \<in> set (db_licenses x). lic_StripeCheckoutSessionID other \<noteq> cc_session c)"
    using first_of_session [OF ins] copy(5) by simp
  have checked: "lic_UpdatesUntil lic \<noteq> None \<longrightarrow> MaintenanceFeaturesEnabledForWriteIn x = Inr True \<and>
        FeedsCanEnforcePeriodsIn (env_at 2) (io_parseDuration io) (plan_ProductID plan) (io_feedTTL io) x = Inr True"
    using enforceable_period [OF per] copy(6,7) by simp
  show ?thesis
    using 1(6) rows copy(1-3) first same_kind [OF same] copy(4) checked unfolding kind [symmetric] by (intro exI [of _ x]) blast
qed

definition demo_seller :: db where
  "demo_seller = demo_db\<lparr>db_products := [demo_product\<lparr>prod_FeedLicenseRequired := True\<rparr>],
     db_settings := [(SettingMaintenanceFeatures, ''true'')]\<rparr>"

definition demo_checkout :: checkoutCall where
  "demo_checkout = \<lparr>cc_email = ''a@x'', cc_customer = '''', cc_subscription = '''', cc_paymentIntent = ''pi'',
     cc_metadata = [''session_id'' \<mapsto> ''cs'', ''plan_id'' \<mapsto> ''PL'', ''license_type'' \<mapsto> ''perpetual'', ''updates_days'' \<mapsto> ''365''],
     cc_source = ''webhook''\<rparr>"

definition demo_io :: checkoutIO where
  "demo_io = \<lparr>io_customer = \<lambda>_. StripeNotFound, io_first_price = \<lambda>_. StripeNotFound, io_session = \<lambda>_. StripeNotFound,
     io_recent = [], io_refunded = \<lambda>_. StripeNotFound, io_render = \<lambda>p n k u. (p, k), io_parseDuration = \<lambda>_. None, io_feedTTL = 0\<rparr>"

theorem sold_terms_issued_witness:
  "\<exists>lic d'. issue_checkout demo_io (\<lambda>_. demo_env) (\<lambda>_ x. x) demo_checkout demo_plan 1 None ''a@x'' ''K'' demo_seller = (Inr lic, d') \<and>
     lic_UpdatesUntil lic = Some (time_add 1000 (days_dur 365)) \<and>
     (\<exists>x::db. db_licenses d' = db_licenses x @ [bare_license lic])"
proof -
  let ?run = "issue_checkout demo_io (\<lambda>_. demo_env) (\<lambda>_ x. x) demo_checkout demo_plan 1 None ''a@x'' ''K'' demo_seller"
  have "isl (fst ?run) = False" by code_simp
  then obtain lic d' where run: "?run = (Inr lic, d')" by (metis sum.collapse(2) prod.collapse)
  have frozen: "trim_space (meta (cc_metadata demo_checkout) ''license_type'') \<noteq> ''''"
    "cc_metadata demo_checkout ''updates_days'' = Some ''365''" "parse_int ''365'' = Some 365" by code_simp+
  have until: "UpdatesUntilFor (trim_space (meta (cc_metadata demo_checkout) ''license_type'')) 365 (env_now demo_env) =
      Some (time_add 1000 (days_dur 365))" by code_simp
  show ?thesis using sold_terms_issued [OF run frozen] run unfolding until by blast
qed

section \<open>A refused sale can be tried again\<close>

lemma healthy_reads:
  assumes "\<not> db_fault d"
  shows "PlanTermsAt pid t d \<noteq> Inl err" "sold_type m plan subID d \<noteq> Inl err" "sold_days m plan d \<noteq> Inl err"
    "MaintenanceFeaturesEnabled d \<noteq> Inl err"
proof -
  show terms: "PlanTermsAt pid t d \<noteq> Inl err" for pid t using assms by (simp add: PlanTermsAt_def split: list.split)
  show "sold_type m plan subID d \<noteq> Inl err"
    using terms by (auto simp: sold_type_def Let_def split: option.splits sum.splits if_splits)
  show "sold_days m plan d \<noteq> Inl err"
    using terms by (auto simp: sold_days_def split: option.splits sum.splits)
  show "MaintenanceFeaturesEnabled d \<noteq> Inl err"
    using assms by (auto simp: MaintenanceFeaturesEnabled_def GetSetting_def split: option.splits if_splits)
qed

lemma upsert_fault: "db_fault (snd (UpsertUser e u d)) = db_fault d"
  by (simp add: UpsertUser_def Let_def)

lemma refused_creation: "CreateLicenseWithSubscription e parse ttl l plan d = (Inl err, d') \<Longrightarrow> d' = d"
  using issued_row [of e parse ttl l "Some plan" "\<lambda>_. Inr ()" d] by (fastforce simp: CreateLicenseWithSubscription_def)

lemma given_back:
  "sid \<noteq> '''' \<Longrightarrow> \<not> db_fault d \<Longrightarrow>
     \<not> marked fulfilledSessionProvider sid (give_back sid d) \<and> \<not> marked sessionClaimProvider sid (give_back sid d)"
  using release_removes by (simp add: give_back_def)

text \<open>
  C34: a refused sale can be tried again. While the database answers, whatever else happens to it, a
  paid session whose licence could not be issued (the plan is of another kind by then, its period
  cannot be enforced, the row was refused) is left without a reservation and without an in-flight
  marker, so that the next delivery, visit or sync can claim it.
\<close>

theorem refused_sale_retriable:
  assumes run: "issue_checkout io env_at mid c plan quantity sub email key d = (Inl (False, err), d')"
    and sid: "cc_session c \<noteq> ''''" and healthy: "\<not> db_fault d" "\<And>n x. \<not> db_fault x \<Longrightarrow> \<not> db_fault (mid n x)"
  shows "err \<noteq> None \<and> \<not> marked fulfilledSessionProvider (cc_session c) d' \<and> \<not> marked sessionClaimProvider (cc_session c) d'"
proof -
  obtain sold where sold: "sold_type (cc_metadata c) plan (cc_subscription c) d = Inr sold"
    using healthy_reads(2) [OF healthy(1)] by (cases "sold_type (cc_metadata c) plan (cc_subscription c) d") auto
  have h1: "\<not> db_fault (mid 1 d)" using healthy by blast
  obtain days where days: "sold_days (cc_metadata c) plan (mid 1 d) = Inr days"
    using healthy_reads(3) [OF h1] by (cases "sold_days (cc_metadata c) plan (mid 1 d)") auto
  have h2: "\<not> db_fault (mid 2 (mid 1 d))" using healthy(2) h1 by blast
  let ?until = "UpdatesUntilFor (plan_LicenseType plan) days (env_now (env_at 0))"
  obtain switch where "MaintenanceFeaturesEnabled (mid 2 (mid 1 d)) = Inr switch"
    using healthy_reads(4) [OF h2] by (metis sum.exhaust)
  then obtain on where on: "(if ?until = None then Inr True else MaintenanceFeaturesEnabled (mid 2 (mid 1 d))) = (Inr on :: bool result)"
    by (metis (full_types))
  let ?d2 = "mid 2 (mid 1 d)"
  let ?d3 = "snd (UpsertUser (env_at 1) (zero_User\<lparr>user_Email := email\<rparr>) (mid 3 ?d2))"
  have h3: "\<not> db_fault (mid 3 ?d2)" "\<not> db_fault (mid 0 d)" using healthy h2 by blast+
  then have h4: "\<not> db_fault (mid 4 ?d3)" using healthy(2) upsert_fault by blast
  let ?l = "(checkout_license (env_at 0) c plan quantity sub email key)\<lparr>lic_UpdatesUntil := ?until, lic_UpdatesTermsSet := True,
      lic_StripeSubscriptionID := cc_subscription c, lic_StripePaymentIntentID := cc_paymentIntent c,
      lic_StripeCheckoutSessionID := cc_session c\<rparr>"
  let ?create = "CreateLicenseWithSubscription (env_at 2) (io_parseDuration io) (io_feedTTL io) ?l plan (mid 4 ?d3)"
  show ?thesis
  proof (cases "sold \<noteq> None \<and> sold \<noteq> Some (plan_LicenseType plan)")
    case True
    with run sold have "err = Some ErrPlanChanged \<and> d' = give_back (cc_session c) (mid 0 d)" by (auto simp: issue_checkout_def)
    then show ?thesis using given_back [OF sid h3(2)] by simp
  next
    case kind: False
    show ?thesis
    proof (cases on)
      case False
      with run sold kind days on have "err = Some ErrUpdatePeriodNotEnforceable \<and> d' = give_back (cc_session c) (mid 3 ?d2)"
        by (auto simp add: issue_checkout_def Let_def simp del: One_nat_def)
      then show ?thesis using given_back [OF sid h3(1)] by simp
    next
      case True
      obtain e' where e': "?create = (Inl e', mid 4 ?d3)" "err = Some e'" "d' = give_back (cc_session c) (mid 5 (mid 4 ?d3))"
        using run sold kind days on True refused_creation [of "env_at 2" "io_parseDuration io" "io_feedTTL io" ?l plan "mid 4 ?d3"]
        by (cases ?create) (auto simp: issue_checkout_def Let_def simp del: One_nat_def split: sum.splits if_splits)
      then show ?thesis using given_back [OF sid, of "mid 5 (mid 4 ?d3)"] healthy(2) h4 by simp
    qed
  qed
qed

text \<open>
  Not so when one of the reads in between fails: the claim stays, and until it is stale every other
  caller is told that someone is at work.
\<close>

lemma failed_read_keeps_claim:
  assumes "sold_type (cc_metadata c) plan (cc_subscription c) d = Inr sold" and "sold = None \<or> sold = Some (plan_LicenseType plan)"
    and "cc_metadata c ''updates_days'' = None" and "sessionCreatedAt (cc_metadata c) = Some created"
  shows "issue_checkout io env_at (\<lambda>n x. if n = 1 then x\<lparr>db_fault := True\<rparr> else x) c plan quantity sub email key d =
           (Inl (False, Some ErrDB), d\<lparr>db_fault := True\<rparr>)"
proof -
  have "sold_days (cc_metadata c) plan (d\<lparr>db_fault := True\<rparr>) = Inl ErrDB" using assms(3,4) by (simp add: sold_days_def PlanTermsAt_def)
  then show ?thesis using assms(1,2) by (auto simp: issue_checkout_def Let_def)
qed

text \<open>The plan became a subscription after the session was opened: the sale waits, its claim is given back.\<close>

definition demo_claimed :: db where
  "demo_claimed = demo_seller\<lparr>db_processed_events :=
     [\<lparr>pe_ID = ''a'', pe_Provider = fulfilledSessionProvider, pe_EventID = ''cs'', pe_CreatedAt = 0\<rparr>,
      \<lparr>pe_ID = ''b'', pe_Provider = sessionClaimProvider, pe_EventID = ''cs'', pe_CreatedAt = 0\<rparr>]\<rparr>"

theorem refused_sale_retriable_witness:
  "\<exists>d'. issue_checkout demo_io (\<lambda>_. demo_env) (\<lambda>_ x. x) demo_checkout (demo_plan\<lparr>plan_LicenseType := ''subscription''\<rparr>) 1 None ''a@x'' ''K''
       demo_claimed = (Inl (False, Some ErrPlanChanged), d') \<and>
     \<not> marked fulfilledSessionProvider ''cs'' d' \<and> \<not> marked sessionClaimProvider ''cs'' d'"
proof -
  let ?run = "issue_checkout demo_io (\<lambda>_. demo_env) (\<lambda>_ x. x) demo_checkout (demo_plan\<lparr>plan_LicenseType := ''subscription''\<rparr>) 1 None
    ''a@x'' ''K'' demo_claimed"
  have "fst ?run = Inl (False, Some ErrPlanChanged)" by code_simp
  then obtain d' where run: "?run = (Inl (False, Some ErrPlanChanged), d')" by (metis prod.collapse)
  have start: "cc_session demo_checkout \<noteq> ''''" "\<not> db_fault demo_claimed" "cc_session demo_checkout = ''cs''" by code_simp+
  have healthy: "\<And>n x. \<not> db_fault x \<Longrightarrow> \<not> db_fault ((\<lambda>_ x. x :: db) (n :: nat) x)" by simp
  show ?thesis using refused_sale_retriable [OF run start(1,2) healthy] run unfolding start(3) by blast
qed

end
