(* ===== verification/Spec2Isabelle.thy ===== *)
theory Spec2Isabelle
  imports KG_BruteForce KG_Breaker KG_Activation KG_Seats KG_Pause KG_Floating KG_Usage KG_Features
    KG_Renewals KG_Token KG_License_Service KG_SDK_Services KG_Seat_Service KG_Login KG_Team KG_Delivery
    KG_Idempotency KG_RateLimit KG_Subscription KG_Stripe KG_Upgrades KG_Stripe_Events
    KG_Event_Claims KG_Settings KG_Issue KG_Fulfillment
begin

text \<open>
  \<^bold>\<open>Keygate, a licence server.\<close>

  Vendors sell products with plans; a customer holds a licence with a key, may put people on it
  (seats, each with a key of their own), and the vendor's application asks the server over
  unauthenticated SDK endpoints whether a key may be used: it activates a device, verifies it and
  gets a signed token for offline use, checks a floating session out and in, reports metered
  usage, asks for its entitlements. Owners manage the team in a portal; payments and refunds move
  the licence's terms and update period.

  \<^bold>\<open>Parts and theories\<close> (paths under \<^verbatim>\<open>src/\<close>)

  \<^item> \<open>KG_Prelude\<close>: Go's int64, \<^verbatim>\<open>time.Time\<close> and \<^verbatim>\<open>time.Duration\<close>, ASCII string functions, tables as
    lists of rows with select one, count, update where and delete where.
  \<^item> \<open>KG_Errors\<close>: \<^verbatim>\<open>pkg/apperr/errors.go\<close> and the store's sentinel errors as values.
  \<^item> \<open>KG_Model\<close>: \<^verbatim>\<open>internal/model/model.go\<close>, the rows and their methods (limits, grace, update
    periods, product shapes, the ledger's arithmetic).
  \<^item> \<open>KG_Keys\<close>: \<^verbatim>\<open>internal/license/keygen.go\<close>. A generated key has the documented shape and is
    recognised; normalising is idempotent and two spellings of a key hash alike.
  \<^item> \<open>KG_Token\<close>: \<^verbatim>\<open>internal/license/token.go\<close>. A token verifies to what was signed until it
    expires; with unforgeable signatures only issued payloads are accepted.
  \<^item> \<open>KG_BruteForce\<close>: \<^verbatim>\<open>internal/middleware/bruteforce.go\<close>. Sweeping the tracker is unobservable, the
    lockouts double up to a cap without overflow.
  \<^item> \<open>KG_Breaker\<close>: \<^verbatim>\<open>internal/breaker/breaker.go\<close>. Under any interleaving of callers a probe of an open
    breaker comes a cooldown after the clock reading its deadline counts from, a probe's or a
    report's; a history of the writes of the deadline, which the code does not have, states it.
  \<^item> \<open>KG_Store\<close>: the database, looking a licence up by a key, the check of the key and the limits
    read under the licence row lock (\<^verbatim>\<open>internal/store/store.go\<close>, \<^verbatim>\<open>member_keys.go\<close>), and the locale
    \<open>bounded_resource\<close>: a count that every step keeps within its limit stays within it on every run.
    Devices, people, joined people and floating sessions interpret it.
  \<^item> \<open>KG_Plan_Trigger\<close>: what the database does when a statement writes a licence's plan
    (\<^verbatim>\<open>db/migrations/20260908_maintenance_period.up.sql\<close>): the update period decided again when the
    licence enters or leaves perpetual plans, the renewals closed with it, and the refusal of a period
    on public feeds. Every write of a plan in the theories below goes through it.
  \<^item> \<open>KG_Activation\<close>: devices within the limit, lowering and restoring a licence's terms.
  \<^item> \<open>KG_Seats\<close>, \<open>KG_Pause\<close>: invitations, acceptance, removal, member keys and their rotation
    (\<^verbatim>\<open>internal/store/seats.go\<close>, \<^verbatim>\<open>member_keys.go\<close>), and who is paused when a team outgrows its seats.
  \<^item> \<open>KG_Floating\<close>: floating sessions (\<^verbatim>\<open>internal/store/floating.go\<close>).
  \<^item> \<open>KG_Usage\<close>: usage counters, periods and the metered-billing outbox (\<^verbatim>\<open>internal/store/usage.go\<close>,
    \<^verbatim>\<open>metered.go\<close>).
  \<^item> \<open>KG_Features\<close>: plan features with addons merged in (\<^verbatim>\<open>internal/service/license_features.go\<close>,
    \<^verbatim>\<open>internal/store/addons.go\<close>), refined to a feature-by-feature specification.
  \<^item> \<open>KG_Renewals\<close>: the ledger of bought update periods and its refunds (\<^verbatim>\<open>internal/store/store.go\<close>).
  \<^item> \<open>KG_License_Service\<close>, \<open>KG_SDK_Services\<close>, \<open>KG_Seat_Service\<close>: the services the endpoints call
    (\<^verbatim>\<open>internal/service/license.go\<close>, \<^verbatim>\<open>floating.go\<close>, \<^verbatim>\<open>usage.go\<close>, \<^verbatim>\<open>entitlement.go\<close>, \<^verbatim>\<open>seats.go\<close>): the whole
    requests, composed of the store operations as the code composes them, with every early return.
  \<^item> \<open>KG_Runs\<close>: runs of labelled steps and the locale \<open>budget\<close>: a measure that no step raises and that
    a counted step lowers bounds the counted steps of every run. Guesses and sign-ins with a login
    code and claims of a payment event interpret it.
  \<^item> \<open>KG_Login\<close>: login codes and refresh tokens (\<^verbatim>\<open>internal/handler/otp.go\<close>, \<^verbatim>\<open>oauth.go\<close> and their
    store operations). A code signs in at most once and stands five guesses; a refresh token used
    again after the grace period is refused as reused.
  \<^item> \<open>KG_Team\<close>: the vendor's own team. Whatever its members do, an owner remains (\<open>bounded_resource\<close>
    again, with the owners counted from below).
  \<^item> \<open>KG_Delivery\<close>: reminders, the mail queue and processed payment events. However the
    statements of its senders interleave a reminder has at most one mail, and a mail server that
    takes what it is given works the queue off.
  \<^item> \<open>KG_Idempotency\<close>: \<^verbatim>\<open>internal/store/idempotency.go\<close> and its middleware. A finished write is
    replayed and never run again, and how an abandoned slot lets two requests run at once.
  \<^item> \<open>KG_RateLimit\<close>: \<^verbatim>\<open>internal/middleware/ratelimit.go\<close>. A window lets exactly its rate through,
    sweeps included.
  \<^item> \<open>KG_Subscription\<close>: the writes a Stripe subscription makes on a licence (\<^verbatim>\<open>internal/store/store.go\<close>,
    \<^verbatim>\<open>subscription.go\<close>): the guarded update with the stamp of the read it applies, terms a downgrade
    holds, subscription rows and their cancel states. The locale \<open>kept_row\<close>, what every write
    keeps of a row, is interpreted for an operator's decision, a revocation, the newest read and
    held terms.
  \<^item> \<open>KG_Stripe\<close>: subscriptions and invoices as Stripe's events carry them, the reads of Stripe
    (functions of the handler record), plans by price (\<^verbatim>\<open>internal/payment/stripe.go\<close>, \<^verbatim>\<open>seats.go\<close>).
  \<^item> \<open>KG_Upgrades\<close>: paid upgrades of free licences, applied and reverted (\<^verbatim>\<open>internal/store/upgrades.go\<close>,
    \<^verbatim>\<open>internal/payment/upgrade.go\<close>). Reverting leaves the licence as the upgrade found it, but for the
    update terms the trigger decides.
  \<^item> \<open>KG_Stripe_Events\<close>: the handlers of Stripe's events and the sweeps that read Stripe again, as
    statements with the interference of other requests between them. The locale
    \<open>event_contract\<close>, what each statement keeps, is interpreted for an operator's decision and for
    well-typed rows.
  \<^item> \<open>KG_Event_Claims\<close>: the webhook endpoint of Stripe and the two rows that reserve an event or a
    checkout session (\<^verbatim>\<open>internal/payment/stripe.go\<close>). A state machine of concurrent deliveries, with
    their statements as its moves, shows that an event is handled by one delivery at a time and
    by none once a delivery has handled it without an error; a theorem shows the two gaps in which an unhandled one is skipped.
  \<^item> \<open>KG_Settings\<close>: \<^verbatim>\<open>internal/store/settings.go\<close>. Secrets round-trip through the cipher and base64; the
    recorded bound on feed links covers every replica's.
  \<^item> \<open>KG_Issue\<close>: issuing a licence with its subscription, and the endpoints with which people claim a
    free one (\<^verbatim>\<open>internal/store/self_signup.go\<close>, \<^verbatim>\<open>internal/handler/self_signup.go\<close>); the daily cap is one
    more \<open>bounded_resource\<close>.
  \<^item> \<open>KG_Fulfillment\<close>: fulfilling a paid checkout session (\<^verbatim>\<open>internal/payment/stripe.go\<close>,
    \<^verbatim>\<open>upgrade.go\<close>): the licence it bought, a renewal or an upgrade, and the syncs that hand in what
    the events missed. What is issued is what was sold, and a refused sale gives its claim back
    unless a read in between fails. A round of the pending sync ends by a measure.

  \<^bold>\<open>How state and time are modelled.\<close> The database is one record of tables. A transaction that
  holds the licence row lock is one step; a request made of several statements takes an argument
  \<open>mid\<close>, what other requests do to the database in each gap, and the properties about requests hold
  for every such interference unless they say otherwise. \<open>db_fault\<close> is a database that cannot be
  reached: an operation then answers an error and changes nothing. \<open>env\<close> carries the clocks (the
  process's, the transaction's start, the statement's), new identifiers and random bytes. Every
  service that checks first and acts under the lock later takes two of them. Webhook events, mail
  and audit lines are appended to logs of what was handed over.

  \<^bold>\<open>Arguments of the model.\<close> SHA-256, Ed25519, JSON encoding and the cipher keys are stored under
  are arguments; what the properties need of them (a signature verifies, is unforgeable; encoding
  is inverted by decoding) are their hypotheses, and each such property is applied to concrete
  functions. \<^verbatim>\<open>mail.ParseAddress\<close> is an argument too. The float comparison of the quota warning is
  an argument of the usage service, the outcome of handing a mail to the mail server one of the mail
  queue, the answer of the Redis script one of the rate limiter.

  \<^bold>\<open>Bounds.\<close> Durations and counters wrap at 64 bits where Go's do; a property that needs a bound
  states it. No definition uses fuel: the rejection loop of key generation ends because the 32
  letters of the alphabet divide the 256 values of a byte, so none is rejected, and the other
  recursions are structural or have a measure.

  \<^bold>\<open>Not modelled.\<close> HTTP decoding, session tokens and cookies, creating Stripe's checkout sessions, refunds and the portal, releases and their feeds, object
  storage, rendering and transport of mail, webhook delivery, reporting queries, configuration and
  start-up, the web frontend: they are input/output around the state modelled here, or wait for an
  extension. Also left out: violations of unique indexes by freshly generated random values, the
  SQL triggers of the migrations other than the two on a licence's plan (those on plans and products,
  and the gate on the periods the renewal ledger writes; an inserted licence always states its terms,
  so only the gate is left of its trigger), non-ASCII case mapping, logging and metrics, usage metadata and the percentage in the quota warning's mail.
\<close>

end
